(* ===== verification/Prelude.thy ===== *)
theory Prelude
  imports Complex_Main "HOL-Library.Word" "HOL-Library.Signed_Division"
begin

text \<open>
  What every component shares: the C character classes and the C string, number and buffer
  routines the sources call (\<open>string.h\<close>, \<open>stdlib.h\<close>, \<open>ctype.h\<close>, \<open>stdio.h\<close>, and the
  replacements of \<open>src/lib/asys.c\<close>), and the lemma collections of the development.

  A C string is an Isabelle \<^typ>\<open>string\<close> without its terminating NUL; a buffer of
  \<open>size\<close> bytes therefore holds a string of at most \<open>size - 1\<close> characters. A C
  \<open>int\<close>, \<open>long\<close> or \<open>time_t\<close> is an \<^typ>\<open>int\<close> unless its width matters, in which case
  it is a word. A C \<open>double\<close> is a rational number: the readings of a UPS are short decimal
  numerals, and the sources only compare them, copy them and truncate them.
\<close>

named_theorems cstring \<open>unfolding rules of the C string routines\<close>
named_theorems flag_defs \<open>definitions of the status bit accessors\<close>

unbundle bit_operations_syntax

type_synonym byte = "8 word"

subsection \<open>Characters\<close>

abbreviation NL :: char where "NL \<equiv> CHR 0x0A"
abbreviation CR :: char where "CR \<equiv> CHR 0x0D"
abbreviation NUL :: char where "NUL \<equiv> CHR 0x00"

definition isspace :: "char \<Rightarrow> bool" where
  "isspace c \<longleftrightarrow> c = CHR '' '' \<or> c = CHR 0x09 \<or> c = CHR 0x0A \<or> c = CHR 0x0B \<or>
     c = CHR 0x0C \<or> c = CHR 0x0D"

definition char_code :: "char \<Rightarrow> nat" where
  "char_code c = of_char c"

definition isdigit :: "char \<Rightarrow> bool" where
  "isdigit c \<longleftrightarrow> 48 \<le> char_code c \<and> char_code c \<le> 57"

definition isprint :: "char \<Rightarrow> bool" where
  "isprint c \<longleftrightarrow> 32 \<le> char_code c \<and> char_code c \<le> 126"

definition toupper :: "char \<Rightarrow> char" where
  "toupper c = (if 97 \<le> char_code c \<and> char_code c \<le> 122
     then char_of (char_code c - 32) else c)"

definition tolower :: "char \<Rightarrow> char" where
  "tolower c = (if 65 \<le> char_code c \<and> char_code c \<le> 90
     then char_of (char_code c + 32) else c)"

text \<open>The value of a digit in a base up to 36; \<open>None\<close> for any other character.\<close>

definition digit_val :: "nat \<Rightarrow> char \<Rightarrow> nat option" where
  "digit_val base c =
     (let n = char_code c;
          v = (if 48 \<le> n \<and> n \<le> 57 then n - 48
               else if 97 \<le> n \<and> n \<le> 122 then n - 87
               else if 65 \<le> n \<and> n \<le> 90 then n - 55
               else base)
      in if v < base then Some v else None)"

definition isxdigit :: "char \<Rightarrow> bool" where
  "isxdigit c \<longleftrightarrow> digit_val 16 c \<noteq> None"

subsection \<open>Numbers in text\<close>

text \<open>The longest prefix of digits, its value (on top of \<open>acc\<close>), and what follows it.\<close>

fun read_digits :: "nat \<Rightarrow> nat \<Rightarrow> string \<Rightarrow> nat \<times> string" where
  "read_digits base acc [] = (acc, [])"
| "read_digits base acc (c # cs) =
     (case digit_val base c of
        None \<Rightarrow> (acc, c # cs)
      | Some d \<Rightarrow> read_digits base (acc * base + d) cs)"

fun read_sign :: "string \<Rightarrow> bool \<times> string" where
  "read_sign (c # cs) =
     (if c = CHR ''-'' then (True, cs) else if c = CHR ''+'' then (False, cs)
      else (False, c # cs))"
| "read_sign [] = (False, [])"

text \<open>The prefix \<open>0x\<close>, only where a hexadecimal digit follows it.\<close>

definition skip_0x :: "string \<Rightarrow> string" where
  "skip_0x s = (case s of
      a # x # d # r \<Rightarrow>
        if a = CHR ''0'' \<and> (x = CHR ''x'' \<or> x = CHR ''X'') \<and> isxdigit d then d # r else s
    | _ \<Rightarrow> s)"

text \<open>
  \<open>strtoul(s, NULL, base)\<close> for base 10 and 16 on a 64-bit \<open>unsigned long\<close>: a value out of
  range is \<open>ULONG_MAX\<close>, a minus sign negates modulo \<open>2 ^ 64\<close>.
\<close>

definition strtoul :: "nat \<Rightarrow> string \<Rightarrow> nat" where
  "strtoul base s =
     (let (neg, r) = read_sign (dropWhile isspace s);
          v = fst (read_digits base 0 (if base = 16 then skip_0x r else r))
      in if v \<ge> 2 ^ 64 then 2 ^ 64 - 1
         else if neg then (2 ^ 64 - v) mod 2 ^ 64 else v)"

text \<open>
  \<open>strtol(s, NULL, 0)\<close> on a 64-bit \<open>long\<close>: the prefix chooses base 16, 8 or 10.
\<close>

definition strtol0 :: "string \<Rightarrow> int" where
  "strtol0 s =
     (let (neg, r) = read_sign (dropWhile isspace s);
          h = skip_0x r;
          v = int (if h \<noteq> r then fst (read_digits 16 0 h)
                   else if r \<noteq> [] \<and> hd r = CHR ''0'' then fst (read_digits 8 0 r)
                   else fst (read_digits 10 0 r));
          w = (if neg then - v else v)
      in max (- (2 ^ 63)) (min (2 ^ 63 - 1) w))"

text \<open>\<open>atoi\<close>; the conversions the sources make of it stay within \<open>int\<close>.\<close>

definition atoi :: "string \<Rightarrow> int" where
  "atoi s = (let (neg, r) = read_sign (dropWhile isspace s);
                 v = int (fst (read_digits 10 0 r))
             in if neg then - v else v)"

text \<open>
  \<open>atof\<close> on decimal numerals: sign, digits, an optional fraction and an optional decimal
  exponent. (Infinities, NaN, hexadecimal numerals and rounding are not modelled.)
\<close>

definition read_fraction :: "string \<Rightarrow> rat \<times> string" where
  "read_fraction s =
     (let (n, r) = read_digits 10 0 s
      in (of_nat n / 10 ^ (length s - length r), r))"

definition read_exponent :: "string \<Rightarrow> int" where
  "read_exponent s = (case s of
      c # r \<Rightarrow> if c = CHR ''e'' \<or> c = CHR ''E''
               then let (neg, q) = read_sign r; n = int (fst (read_digits 10 0 q))
                    in if neg then - n else n
               else 0
    | [] \<Rightarrow> 0)"

definition scale10 :: "rat \<Rightarrow> int \<Rightarrow> rat" where
  "scale10 x e = (if 0 \<le> e then x * 10 ^ nat e else x / 10 ^ nat (- e))"

definition atof :: "string \<Rightarrow> rat" where
  "atof s =
     (let (neg, r) = read_sign (dropWhile isspace s);
          (n, r1) = read_digits 10 0 r;
          (f, r2) = (case r1 of
                        c # q \<Rightarrow> if c = CHR ''.'' then read_fraction q else (0, r1)
                      | [] \<Rightarrow> (0, []));
          digits = (length r - length r1) +
                   (if r1 \<noteq> [] \<and> hd r1 = CHR ''.'' then length (tl r1) - length r2 else 0);
          v = (if digits = 0 then 0 else scale10 (of_nat n + f) (read_exponent r2))
      in if neg then - v else v)"

text \<open>The cast \<open>(int)x\<close> of a double: truncation towards zero.\<close>

definition trunc :: "rat \<Rightarrow> int" where
  "trunc x = (if 0 \<le> x then \<lfloor>x\<rfloor> else \<lceil>x\<rceil>)"

text \<open>
  One \<open>sscanf\<close> conversion. \<open>ScanEof\<close> is the return value \<open>EOF\<close> (-1): the input ended
  before anything was converted; \<open>ScanFail\<close> is the return value 0.
\<close>

datatype 'a scan = ScanEof | ScanFail | ScanOk 'a

definition sscanf_d :: "string \<Rightarrow> int scan" where
  "sscanf_d s =
     (let r = dropWhile isspace s; (neg, q) = read_sign r; v = int (fst (read_digits 10 0 q))
      in if r = [] then ScanEof
         else if q = [] \<or> \<not> isdigit (hd q) then ScanFail
         else ScanOk (if neg then - v else v))"

definition sscanf_s :: "string \<Rightarrow> string scan" where
  "sscanf_s s =
     (let r = dropWhile isspace s
      in if r = [] then ScanEof else ScanOk (takeWhile (\<lambda>c. \<not> isspace c) r))"

text \<open>Decimal output, as \<open>%d\<close> prints it.\<close>

fun show_nat :: "nat \<Rightarrow> string" where
  "show_nat n = (if n < 10 then [char_of (48 + n)]
                 else show_nat (n div 10) @ [char_of (48 + n mod 10)])"

declare show_nat.simps [simp del]

definition show_int :: "int \<Rightarrow> string" where
  "show_int i = (if i < 0 then CHR ''-'' # show_nat (nat (- i)) else show_nat (nat i))"

text \<open>\<open>%0wd\<close>: padded with zeros to width \<open>w\<close>.\<close>

definition show_pad :: "nat \<Rightarrow> nat \<Rightarrow> string" where
  "show_pad w n = replicate (w - length (show_nat n)) CHR ''0'' @ show_nat n"

text \<open>\<open>%X\<close>, and \<open>%0wX\<close>.\<close>

definition hex_digit :: "nat \<Rightarrow> char" where
  "hex_digit d = (if d < 10 then char_of (48 + d) else char_of (55 + d))"

fun show_hex :: "nat \<Rightarrow> string" where
  "show_hex n = (if n < 16 then [hex_digit n] else show_hex (n div 16) @ [hex_digit (n mod 16)])"

declare show_hex.simps [simp del]

definition show_hex_pad :: "nat \<Rightarrow> nat \<Rightarrow> string" where
  "show_hex_pad w n = replicate (w - length (show_hex n)) CHR ''0'' @ show_hex n"

text \<open>
  \<open>%.pf\<close> and \<open>%0w.pf\<close>: the value rounded to \<open>p\<close> places, a tie to the even digit.
\<close>

definition round_even :: "rat \<Rightarrow> nat" where
  "round_even x =
     (let n = \<lfloor>x\<rfloor>; d = x - of_int n
      in nat (if d < 1 / 2 \<or> d = 1 / 2 \<and> even n then n else n + 1))"

definition show_fixed_pad :: "nat \<Rightarrow> nat \<Rightarrow> rat \<Rightarrow> string" where
  "show_fixed_pad w p x =
     (let n = round_even (\<bar>x\<bar> * 10 ^ p); sign = (if x < 0 then ''-'' else []);
          digits = show_nat (n div 10 ^ p) @ (if p = 0 then [] else CHR ''.'' # show_pad p (n mod 10 ^ p))
      in sign @ replicate (w - length sign - length digits) CHR ''0'' @ digits)"

abbreviation show_fixed :: "nat \<Rightarrow> rat \<Rightarrow> string" where
  "show_fixed \<equiv> show_fixed_pad 0"

subsection \<open>Strings\<close>

text \<open>The C string that starts a buffer: everything before its first NUL.\<close>

definition c_str :: "string \<Rightarrow> string" where
  "c_str b = takeWhile (\<lambda>c. c \<noteq> NUL) b"

text \<open>\<open>strchr(s, c)\<close> as the pair of what precedes the first \<open>c\<close> and what follows it.\<close>

fun split_at :: "char \<Rightarrow> string \<Rightarrow> (string \<times> string) option" where
  "split_at c [] = None"
| "split_at c (x # xs) =
     (if x = c then Some ([], xs)
      else map_option (\<lambda>(a, b). (x # a, b)) (split_at c xs))"

definition is_prefix :: "string \<Rightarrow> string \<Rightarrow> bool" where
  "is_prefix p s \<longleftrightarrow> take (length p) s = p"

text \<open>\<open>strstr(hay, needle)\<close>: the suffix of \<open>hay\<close> at the first occurrence.\<close>

fun strstr :: "string \<Rightarrow> string \<Rightarrow> string option" where
  "strstr [] needle = (if needle = [] then Some [] else None)"
| "strstr (c # cs) needle =
     (if is_prefix needle (c # cs) then Some (c # cs) else strstr cs needle)"

definition strcaseeq :: "string \<Rightarrow> string \<Rightarrow> bool" where
  "strcaseeq a b \<longleftrightarrow> map tolower a = map tolower b"

text \<open>
  \<open>strlcpy\<close> and \<open>strlcat\<close> as \<open>src/lib/asys.c\<close> implements them where the C library does
  not: the string left in the destination, and the length returned. A destination of size
  0 is not written.
\<close>

fun strlcpy_loop :: "string \<Rightarrow> nat \<Rightarrow> nat \<Rightarrow> string" where
  "strlcpy_loop [] cnt sz = []"
| "strlcpy_loop (c # cs) cnt sz =
     (if cnt < sz - 1 then c # strlcpy_loop cs (Suc cnt) sz else [])"

definition strlcpy :: "string \<Rightarrow> string \<Rightarrow> nat \<Rightarrow> string \<times> nat" where
  "strlcpy dst src sz =
     (if sz = 0 then dst else strlcpy_loop src 0 sz, length src)"

definition strlcat :: "string \<Rightarrow> string \<Rightarrow> nat \<Rightarrow> string \<times> nat" where
  "strlcat dst src sz =
     (let cnt = min (length dst) sz; (tl', n) = strlcpy (drop cnt dst) src (sz - cnt)
      in (take cnt dst @ tl', cnt + n))"

text \<open>The destination after \<open>strlcpy\<close>, the form in which the components use it.\<close>

abbreviation strlcpy_to :: "nat \<Rightarrow> string \<Rightarrow> string" where
  "strlcpy_to sz src \<equiv> take (sz - 1) src"

lemma unat_32: "unat (w :: 32 word) < 2 ^ 32"
  using unsigned_less [of w, where 'a = nat] by simp

lemma single_bit: "m = 2 ^ k \<Longrightarrow> k < 32 \<Longrightarrow> bit (m :: 32 word) i \<longleftrightarrow> i = k"
  by (auto simp: bit_exp_iff)

lemma mask_bit:
  assumes "m = 2 ^ k" "k < 32"
  shows "(w :: 32 word) AND m = m \<longleftrightarrow> bit w k"
proof
  assume "w AND m = m"
  then have "bit (w AND m) k = bit m k" by simp
  then show "bit w k" by (simp add: bit_and_iff single_bit [OF assms])
next
  assume "bit w k"
  then show "w AND m = m"
    by (intro bit_eqI) (auto simp: bit_and_iff single_bit [OF assms])
qed

lemma strlcpy_loop_take: "strlcpy_loop src cnt sz = take (sz - 1 - cnt) src"
proof (induction src arbitrary: cnt)
  case (Cons c cs)
  show ?case
  proof (cases "cnt < sz - 1")
    case True
    then have "sz - 1 - cnt = Suc (sz - 1 - Suc cnt)" by arith
    with True Cons.IH show ?thesis by simp
  qed simp
qed simp

lemma strlcpy_take [cstring]: "0 < sz \<Longrightarrow> strlcpy dst src sz = (strlcpy_to sz src, length src)"
  by (simp add: strlcpy_def strlcpy_loop_take)

lemma strlcat_fits [cstring]:
  "length dst < sz \<Longrightarrow>
   strlcat dst src sz = (dst @ take (sz - 1 - length dst) src, length dst + length src)"
  by (simp add: strlcat_def Let_def cstring)

lemma strlcat_bound: "length dst < sz \<Longrightarrow> length (fst (strlcat dst src sz)) < sz"
  by (simp add: strlcat_fits)

lemma c_str_no_nul [simp]: "NUL \<notin> set s \<Longrightarrow> c_str s = s"
  unfolding c_str_def takeWhile_eq_all_conv by blast

lemma is_prefix_append [simp]: "is_prefix p (p @ s)"
  by (simp add: is_prefix_def)

lemma strstr_None_iff: "strstr h n = None \<longleftrightarrow> (\<forall>a b. h \<noteq> a @ n @ b)"
proof (induction h)
  case (Cons c cs)
  show ?case
  proof
    assume none: "strstr (c # cs) n = None"
    then have np: "\<not> is_prefix n (c # cs)" and r: "strstr cs n = None"
      by (auto split: if_splits)
    show "\<forall>a b. c # cs \<noteq> a @ n @ b"
    proof (intro allI notI)
      fix a b assume eq: "c # cs = a @ n @ b"
      show False
        using np r Cons.IH eq by (cases a) auto
    qed
  next
    assume no: "\<forall>a b. c # cs \<noteq> a @ n @ b"
    have "c # cs \<noteq> [] @ n @ drop (length n) (c # cs)"
      using no by blast
    then have "\<not> is_prefix n (c # cs)"
      unfolding is_prefix_def by (metis append_Nil append_take_drop_id)
    moreover have "strstr cs n = None"
      using Cons.IH no append_Cons by metis
    ultimately show "strstr (c # cs) n = None" by simp
  qed
qed auto

lemma strstr_suffix: "strstr h n = Some t \<Longrightarrow> is_prefix n t \<and> (\<exists>p. h = p @ t)"
proof (induction h)
  case (Cons c h)
  show ?case
  proof (cases "is_prefix n (c # h)")
    case True
    then show ?thesis using Cons.prems by auto
  next
    case False
    then have "is_prefix n t \<and> (\<exists>p. h = p @ t)" using Cons by simp
    then show ?thesis by (metis append_Cons)
  qed
qed (simp add: is_prefix_def split: if_splits)

lemma is_prefix_length: "is_prefix n s \<Longrightarrow> length n \<le> length s"
  unfolding is_prefix_def by (metis length_take min.cobounded1)

lemma is_prefix_longer: "length n \<le> length s \<Longrightarrow> is_prefix n (s @ r) = is_prefix n s"
  by (simp add: is_prefix_def)

lemma strstr_append: "strstr h n = Some t \<Longrightarrow> strstr (h @ r) n = Some (t @ r)"
proof (induction h)
  case (Cons c h)
  show ?case
  proof (cases "is_prefix n (c # h)")
    case True
    then have "is_prefix n ((c # h) @ r)"
      using is_prefix_longer [OF is_prefix_length [OF True]] by blast
    moreover have "t = c # h" using Cons.prems True by simp
    ultimately show ?thesis by simp
  next
    case False
    then have t: "strstr h n = Some t" using Cons.prems by simp
    then have "length n \<le> length h"
      using strstr_suffix [OF t] is_prefix_length [of n t] by auto
    then have "\<not> is_prefix n ((c # h) @ r)"
      using False is_prefix_longer [of n "c # h" r] by simp
    then show ?thesis using Cons.IH [OF t] by simp
  qed
next
  case Nil
  then have "n = []" "t = []" by (simp_all split: if_splits)
  then show ?case by (cases r) (simp_all add: is_prefix_def)
qed
lemma strstr_first:
  assumes "strstr pre K = None"
    and "\<And>m. 0 < m \<Longrightarrow> m < length K \<Longrightarrow> take (length K - m) (drop m K) \<noteq> take (length K - m) K"
  shows "strstr (pre @ K @ r) K = Some (K @ r)"
  using assms(1)
proof (induction pre)
  case Nil
  then have "K \<noteq> []" by auto
  then obtain a l where Kr: "K @ r = a # l" by (cases K) auto
  have "is_prefix K (a # l)" using is_prefix_append [of K r] Kr by simp
  then show ?case using Kr by simp
next
  case (Cons c cs)
  let ?p = "c # cs"
  have "\<not> is_prefix K (?p @ K @ r)"
  proof
    assume pref: "is_prefix K (?p @ K @ r)"
    show False
    proof (cases "length K \<le> length ?p")
      case True
      then have "is_prefix K ?p" using pref unfolding is_prefix_def take_append by simp
      then show False using Cons.prems by simp
    next
      case False
      define m where "m = length ?p"
      have m: "0 < m" "m < length K" using False by (simp_all add: m_def)
      have K: "K = ?p @ take (length K - m) K"
      proof -
        have "take (length K) (?p @ K @ r) = take (length K) ?p @ take (length K - m) (K @ r)"
          unfolding m_def by (rule take_append)
        also have "\<dots> = ?p @ take (length K - m) K" using False by (simp add: m_def)
        finally show ?thesis using pref unfolding is_prefix_def by simp
      qed
      have "drop m K = take (length K - m) K"
        by (subst K) (simp add: m_def)
      then show False using assms(2) [OF m] by simp
    qed
  qed
  then show ?case using Cons by (auto split: if_splits)
qed

subsection \<open>Hexadecimal numerals\<close>

lemma digit_val_hex [simp]: "d < 16 \<Longrightarrow> digit_val 16 (hex_digit d) = Some d"
  by (simp add: digit_val_def hex_digit_def char_code_def Let_def)

lemma hex_digit_not_space [simp]: "d < 16 \<Longrightarrow> \<not> isspace (hex_digit d)"
proof -
  assume "d < 16"
  have "digit_val 16 c = None" if "isspace c" for c
    using that by (auto simp: isspace_def digit_val_def char_code_def)
  with digit_val_hex [OF \<open>d < 16\<close>] show ?thesis by fastforce
qed

lemma show_hex_digits: "\<exists>ds. show_hex n = map hex_digit ds \<and> ds \<noteq> [] \<and> (\<forall>d\<in>set ds. d < 16)"
proof (induction n rule: show_hex.induct)
  case (1 n)
  show ?case
  proof (cases "n < 16")
    case True
    then show ?thesis by (subst show_hex.simps) (auto intro: exI [of _ "[n]"])
  next
    case False
    with 1 obtain ds where "show_hex (n div 16) = map hex_digit ds" "\<forall>d\<in>set ds. d < 16" by blast
    with False show ?thesis
      by (subst show_hex.simps) (auto intro!: exI [of _ "ds @ [n mod 16]"])
  qed
qed

lemma read_digits_hex:
  "\<forall>d\<in>set ds. d < 16 \<Longrightarrow>
   read_digits 16 acc (map hex_digit ds @ r) =
   read_digits 16 (foldl (\<lambda>a d. a * 16 + d) acc ds) r"
  by (induction ds arbitrary: acc) simp_all

lemma read_show_hex: "read_digits 16 0 (show_hex n @ r) = read_digits 16 n r"
proof (induction n arbitrary: r rule: show_hex.induct)
  case (1 n)
  show ?case
  proof (cases "n < 16")
    case True
    then show ?thesis by (subst show_hex.simps) simp
  next
    case False
    then have "show_hex n @ r = show_hex (n div 16) @ (hex_digit (n mod 16) # r)"
      by (subst show_hex.simps) simp
    then show ?thesis using 1 [OF False, of "hex_digit (n mod 16) # r"] by simp
  qed
qed

lemma hex_digit_0: "hex_digit 0 = CHR ''0''"
  by code_simp

lemma read_show_hex_pad: "read_digits 16 0 (show_hex_pad w n) = (n, [])"
proof -
  have "read_digits 16 0 (replicate k (hex_digit 0) @ s) = read_digits 16 0 s" for k s
    by (induction k) simp_all
  then show ?thesis using read_show_hex [of n "[]"] by (simp add: show_hex_pad_def hex_digit_0)
qed

lemma show_hex_pad_digits:
  "\<exists>ds. show_hex_pad w n = map hex_digit ds \<and> ds \<noteq> [] \<and> (\<forall>d\<in>set ds. d < 16)"
proof -
  obtain ds where "show_hex n = map hex_digit ds" "ds \<noteq> []" "\<forall>d\<in>set ds. d < 16"
    using show_hex_digits by blast
  then show ?thesis
    by (auto simp: show_hex_pad_def hex_digit_0 [symmetric]
        intro!: exI [of _ "replicate (w - length (show_hex n)) 0 @ ds"])
qed

lemma strtol0_hex: "n < 2 ^ 63 \<Longrightarrow> strtol0 (''0x'' @ show_hex_pad w n) = int n"
proof -
  assume n: "n < 2 ^ 63"
  obtain d ds where ds: "show_hex_pad w n = hex_digit d # map hex_digit ds" "d < 16"
    using show_hex_pad_digits [of w n] by (metis list.set_intros(1) list.simps(9) neq_Nil_conv)
  have "skip_0x (''0x'' @ show_hex_pad w n) = show_hex_pad w n"
    using ds by (simp add: skip_0x_def isxdigit_def)
  moreover have "isspace (CHR ''0'') = False" by (simp add: isspace_def)
  ultimately show ?thesis
    using n read_show_hex_pad [of w n] by (simp add: strtol0_def Let_def)
qed

lemma length_show_hex: "n < 16 ^ Suc k \<Longrightarrow> length (show_hex n) \<le> Suc k"
proof (induction k arbitrary: n)
  case 0
  then show ?case by (subst show_hex.simps) simp
next
  case (Suc k)
  then have "n div 16 < 16 ^ Suc k" by (simp add: less_mult_imp_div_less)
  then show ?case using Suc.IH [of "n div 16"] by (subst show_hex.simps) simp
qed

lemma isxdigit_plain:
  "isxdigit c \<Longrightarrow> \<not> isspace c \<and> c \<noteq> CHR ''='' \<and> c \<noteq> NUL"
  by (auto simp: isxdigit_def isspace_def digit_val_def char_code_def)

lemma isxdigit_tolower_hex: "d < 16 \<Longrightarrow> isxdigit (tolower (hex_digit d))"
  by (simp add: isxdigit_def tolower_def hex_digit_def digit_val_def char_code_def Let_def)

lemma length_show_hex_pad: "n < 16 ^ Suc k \<Longrightarrow> length (show_hex_pad (Suc k) n) = Suc k"
  using length_show_hex [of n k] by (simp add: show_hex_pad_def)

subsection \<open>Memory\<close>

text \<open>The bytes \<open>d\<close> stored from offset \<open>off\<close> of the buffer \<open>mem\<close>.\<close>

definition poke :: "nat \<Rightarrow> 'a list \<Rightarrow> 'a list \<Rightarrow> 'a list" where
  "poke off d mem = take off mem @ d @ drop (off + length d) mem"

lemma poke_poke [simp]:
  "off \<le> length mem \<Longrightarrow>
   poke (off + length a) b (poke off a mem) = poke off (a @ b) mem"
  by (simp add: poke_def ac_simps)

lemma poke_nil [simp]: "poke off [] mem = mem"
  by (simp add: poke_def)

lemma poke_0: "length d \<le> length mem \<Longrightarrow> poke 0 d mem = d @ drop (length d) mem"
  by (simp add: poke_def)

lemma length_poke: "off + length d \<le> length mem \<Longrightarrow> length (poke off d mem) = length mem"
  by (simp add: poke_def)

subsection \<open>System calls and time\<close>

abbreviation (input) EINTR :: int where "EINTR \<equiv> 4"
abbreviation (input) EAGAIN :: int where "EAGAIN \<equiv> 11"
abbreviation (input) ETIMEDOUT :: int where "ETIMEDOUT \<equiv> 110"

text \<open>\<open>TV_DIFF_MS\<close>: seconds and microseconds are subtracted apart, and C truncates.
  Times are numbers of microseconds.\<close>

definition tv_diff_ms :: "int \<Rightarrow> int \<Rightarrow> int" where
  "tv_diff_ms a b =
     (b div 1000000 - a div 1000000) * 1000 + (b mod 1000000 - a mod 1000000) sdiv 1000"

lemma tv_diff_ms_bounds:
  "tv_diff_ms a b * 1000 \<le> b - a + 999" "b - a - 999 \<le> tv_diff_ms a b * 1000"
proof -
  have t: "x - 999 \<le> (x sdiv 1000) * 1000 \<and> (x sdiv 1000) * 1000 \<le> x + 999" for x :: int
    by (cases x "0 :: int" rule: linorder_cases) (auto simp: signed_divide_int_def)
  define u v where "u = b div 1000000 - a div 1000000" and "v = b mod 1000000 - a mod 1000000"
  have "b - a = u * 1000000 + v" unfolding u_def v_def
    using div_mult_mod_eq [of a 1000000] div_mult_mod_eq [of b 1000000]
    by (simp only: left_diff_distrib)
  moreover have "tv_diff_ms a b = u * 1000 + v sdiv 1000" by (simp add: tv_diff_ms_def u_def v_def)
  ultimately show "tv_diff_ms a b * 1000 \<le> b - a + 999" "b - a - 999 \<le> tv_diff_ms a b * 1000"
    using t [of v] by linarith+
qed

subsection \<open>Numbers as bytes\<close>

text \<open>The low \<open>len\<close> bytes of a number, the highest first.\<close>

definition be_bytes :: "nat \<Rightarrow> nat \<Rightarrow> byte list" where
  "be_bytes len val = map (\<lambda>i. of_nat (val div 256 ^ (len - i - 1))) [0..<len]"

lemma be_bytes_Suc: "be_bytes (Suc len) val = of_nat (val div 256 ^ len) # be_bytes len val"
  by (simp add: be_bytes_def upt_conv_Cons map_Suc_upt [symmetric] del: upt_Suc)

lemma length_be_bytes [simp]: "length (be_bytes len val) = len"
  by (simp add: be_bytes_def)

end
