(* ===== verification/Ups.thy ===== *)
theory Ups
  imports Prelude
begin

text \<open>
  The state every part of the daemon shares: the status bits (\<open>include/defines.h\<close>), the
  structure \<open>UPSINFO\<close> with its bit accessors (\<open>include/struct.h\<close>), and the process around it:
  the log, spawned scripts, files, clock, and the recursive lock of \<open>src/lib/newups.c\<close>.

  \<open>upsinfo\<close> has the fields of \<open>UPSINFO\<close> that the modelled components read or write,
  by the names they have there. The bit accessors are the operations of an interface,
  \<open>status_flag\<close>, whose laws are proved once and interpreted for every status bit.
\<close>

unbundle bit_operations_syntax

subsection \<open>Status bits\<close>

definition UPS_calibration :: "32 word" where "UPS_calibration = 0x00000001"
definition UPS_trim :: "32 word" where "UPS_trim = 0x00000002"
definition UPS_boost :: "32 word" where "UPS_boost = 0x00000004"
definition UPS_online :: "32 word" where "UPS_online = 0x00000008"
definition UPS_onbatt :: "32 word" where "UPS_onbatt = 0x00000010"
definition UPS_overload :: "32 word" where "UPS_overload = 0x00000020"
definition UPS_battlow :: "32 word" where "UPS_battlow = 0x00000040"
definition UPS_replacebatt :: "32 word" where "UPS_replacebatt = 0x00000080"
definition UPS_commlost :: "32 word" where "UPS_commlost = 0x00000100"
definition UPS_shutdown :: "32 word" where "UPS_shutdown = 0x00000200"
definition UPS_slave :: "32 word" where "UPS_slave = 0x00000400"
definition UPS_slavedown :: "32 word" where "UPS_slavedown = 0x00000800"
definition UPS_onbatt_msg :: "32 word" where "UPS_onbatt_msg = 0x00020000"
definition UPS_fastpoll :: "32 word" where "UPS_fastpoll = 0x00040000"
definition UPS_shut_load :: "32 word" where "UPS_shut_load = 0x00080000"
definition UPS_shut_btime :: "32 word" where "UPS_shut_btime = 0x00100000"
definition UPS_shut_ltime :: "32 word" where "UPS_shut_ltime = 0x00200000"
definition UPS_shut_emerg :: "32 word" where "UPS_shut_emerg = 0x00400000"
definition UPS_shut_remote :: "32 word" where "UPS_shut_remote = 0x00800000"
definition UPS_plugged :: "32 word" where "UPS_plugged = 0x01000000"
definition UPS_battpresent :: "32 word" where "UPS_battpresent = 0x04000000"

definition UPS_LOCAL_BITS :: "32 word" where
  "UPS_LOCAL_BITS = UPS_commlost OR UPS_shutdown OR UPS_slave OR UPS_slavedown OR
     UPS_onbatt_msg OR UPS_fastpoll OR UPS_plugged OR
     UPS_shut_load OR UPS_shut_btime OR UPS_shut_ltime OR UPS_shut_emerg"

lemmas status_bits =
  UPS_calibration_def UPS_trim_def UPS_boost_def UPS_online_def UPS_onbatt_def UPS_overload_def
  UPS_battlow_def UPS_replacebatt_def UPS_commlost_def UPS_shutdown_def UPS_slave_def
  UPS_slavedown_def UPS_onbatt_msg_def UPS_fastpoll_def UPS_shut_load_def UPS_shut_btime_def
  UPS_shut_ltime_def UPS_shut_emerg_def UPS_shut_remote_def UPS_plugged_def UPS_battpresent_def


subsection \<open>Enumerations\<close>

text \<open>
  The capability and command indices \<open>CI_\<close>, the codes of \<open>UpsMode\<close>, \<open>UpsCable\<close>,
  \<open>ClassMode\<close>, \<open>ShareNetMode\<close> and \<open>NoLoginMode\<close> are plain numbers, as in the
  structure \<open>INTERNALGENINFO\<close>, whose \<open>type\<close> is an \<open>int\<close> for all of them.
\<close>

abbreviation (input) CI_UPSMODEL :: nat where "CI_UPSMODEL \<equiv> 0"
abbreviation (input) CI_STATUS :: nat where "CI_STATUS \<equiv> 1"
abbreviation (input) CI_LQUAL :: nat where "CI_LQUAL \<equiv> 2"
abbreviation (input) CI_WHY_BATT :: nat where "CI_WHY_BATT \<equiv> 3"
abbreviation (input) CI_ST_STAT :: nat where "CI_ST_STAT \<equiv> 4"
abbreviation (input) CI_VLINE :: nat where "CI_VLINE \<equiv> 5"
abbreviation (input) CI_VMAX :: nat where "CI_VMAX \<equiv> 6"
abbreviation (input) CI_VMIN :: nat where "CI_VMIN \<equiv> 7"
abbreviation (input) CI_VOUT :: nat where "CI_VOUT \<equiv> 8"
abbreviation (input) CI_BATTLEV :: nat where "CI_BATTLEV \<equiv> 9"
abbreviation (input) CI_VBATT :: nat where "CI_VBATT \<equiv> 10"
abbreviation (input) CI_LOAD :: nat where "CI_LOAD \<equiv> 11"
abbreviation (input) CI_FREQ :: nat where "CI_FREQ \<equiv> 12"
abbreviation (input) CI_RUNTIM :: nat where "CI_RUNTIM \<equiv> 13"
abbreviation (input) CI_ITEMP :: nat where "CI_ITEMP \<equiv> 14"
abbreviation (input) CI_DIPSW :: nat where "CI_DIPSW \<equiv> 15"
abbreviation (input) CI_SENS :: nat where "CI_SENS \<equiv> 16"
abbreviation (input) CI_DWAKE :: nat where "CI_DWAKE \<equiv> 17"
abbreviation (input) CI_DSHUTD :: nat where "CI_DSHUTD \<equiv> 18"
abbreviation (input) CI_LTRANS :: nat where "CI_LTRANS \<equiv> 19"
abbreviation (input) CI_HTRANS :: nat where "CI_HTRANS \<equiv> 20"
abbreviation (input) CI_RETPCT :: nat where "CI_RETPCT \<equiv> 21"
abbreviation (input) CI_DALARM :: nat where "CI_DALARM \<equiv> 22"
abbreviation (input) CI_DLBATT :: nat where "CI_DLBATT \<equiv> 23"
abbreviation (input) CI_IDEN :: nat where "CI_IDEN \<equiv> 24"
abbreviation (input) CI_STESTI :: nat where "CI_STESTI \<equiv> 25"
abbreviation (input) CI_MANDAT :: nat where "CI_MANDAT \<equiv> 26"
abbreviation (input) CI_SERNO :: nat where "CI_SERNO \<equiv> 27"
abbreviation (input) CI_BATTDAT :: nat where "CI_BATTDAT \<equiv> 28"
abbreviation (input) CI_NOMBATTV :: nat where "CI_NOMBATTV \<equiv> 29"
abbreviation (input) CI_HUMID :: nat where "CI_HUMID \<equiv> 30"
abbreviation (input) CI_REVNO :: nat where "CI_REVNO \<equiv> 31"
abbreviation (input) CI_REG1 :: nat where "CI_REG1 \<equiv> 32"
abbreviation (input) CI_REG2 :: nat where "CI_REG2 \<equiv> 33"
abbreviation (input) CI_REG3 :: nat where "CI_REG3 \<equiv> 34"
abbreviation (input) CI_EXTBATTS :: nat where "CI_EXTBATTS \<equiv> 35"
abbreviation (input) CI_ATEMP :: nat where "CI_ATEMP \<equiv> 36"
abbreviation (input) CI_NOMOUTV :: nat where "CI_NOMOUTV \<equiv> 37"
abbreviation (input) CI_BADBATTS :: nat where "CI_BADBATTS \<equiv> 38"
abbreviation (input) CI_EPROM :: nat where "CI_EPROM \<equiv> 39"
abbreviation (input) CI_ST_TIME :: nat where "CI_ST_TIME \<equiv> 40"
abbreviation (input) CI_TESTALARM :: nat where "CI_TESTALARM \<equiv> 41"
abbreviation (input) CI_NOMINV :: nat where "CI_NOMINV \<equiv> 67"
abbreviation (input) CI_NOMPOWER :: nat where "CI_NOMPOWER \<equiv> 68"
abbreviation (input) CI_OutputCurrent :: nat where "CI_OutputCurrent \<equiv> 72"
abbreviation (input) CI_LoadApparent :: nat where "CI_LoadApparent \<equiv> 73"
abbreviation (input) CI_NomApparent :: nat where "CI_NomApparent \<equiv> 74"
abbreviation (input) CI_BattReplaceDate :: nat where "CI_BattReplaceDate \<equiv> 61"
abbreviation (input) CI_Manufacturer :: nat where "CI_Manufacturer \<equiv> 42"
abbreviation (input) CI_ShutdownRequested :: nat where "CI_ShutdownRequested \<equiv> 43"
abbreviation (input) CI_ShutdownImminent :: nat where "CI_ShutdownImminent \<equiv> 44"
abbreviation (input) CI_DelayBeforeReboot :: nat where "CI_DelayBeforeReboot \<equiv> 45"
abbreviation (input) CI_BelowRemCapLimit :: nat where "CI_BelowRemCapLimit \<equiv> 46"
abbreviation (input) CI_RemTimeLimitExpired :: nat where "CI_RemTimeLimitExpired \<equiv> 47"
abbreviation (input) CI_Charging :: nat where "CI_Charging \<equiv> 48"
abbreviation (input) CI_Discharging :: nat where "CI_Discharging \<equiv> 49"
abbreviation (input) CI_RemCapLimit :: nat where "CI_RemCapLimit \<equiv> 50"
abbreviation (input) CI_RemTimeLimit :: nat where "CI_RemTimeLimit \<equiv> 51"
abbreviation (input) CI_WarningCapacityLimit :: nat where "CI_WarningCapacityLimit \<equiv> 52"
abbreviation (input) CI_CapacityMode :: nat where "CI_CapacityMode \<equiv> 53"
abbreviation (input) CI_BattPackLevel :: nat where "CI_BattPackLevel \<equiv> 54"
abbreviation (input) CI_CycleCount :: nat where "CI_CycleCount \<equiv> 55"
abbreviation (input) CI_ACPresent :: nat where "CI_ACPresent \<equiv> 56"
abbreviation (input) CI_Boost :: nat where "CI_Boost \<equiv> 57"
abbreviation (input) CI_Trim :: nat where "CI_Trim \<equiv> 58"
abbreviation (input) CI_Overload :: nat where "CI_Overload \<equiv> 59"
abbreviation (input) CI_NeedReplacement :: nat where "CI_NeedReplacement \<equiv> 60"
abbreviation (input) CI_APCForceShutdown :: nat where "CI_APCForceShutdown \<equiv> 62"
abbreviation (input) CI_DelayBeforeShutdown :: nat where "CI_DelayBeforeShutdown \<equiv> 63"
abbreviation (input) CI_APCDelayBeforeStartup :: nat where "CI_APCDelayBeforeStartup \<equiv> 64"
abbreviation (input) CI_APCDelayBeforeShutdown :: nat where "CI_APCDelayBeforeShutdown \<equiv> 65"
abbreviation (input) CI_APCLineFailCause :: nat where "CI_APCLineFailCause \<equiv> 66"
abbreviation (input) CI_LowBattery :: nat where "CI_LowBattery \<equiv> 69"
abbreviation (input) CI_Calibration :: nat where "CI_Calibration \<equiv> 70"
abbreviation (input) CI_AlarmTimer :: nat where "CI_AlarmTimer \<equiv> 71"
abbreviation (input) CI_BUPBattCapBeforeStartup :: nat where "CI_BUPBattCapBeforeStartup \<equiv> 75"
abbreviation (input) CI_BUPDelayBeforeStartup :: nat where "CI_BUPDelayBeforeStartup \<equiv> 76"
abbreviation (input) CI_BUPSelfTest :: nat where "CI_BUPSelfTest \<equiv> 77"
abbreviation (input) CI_BUPHibernate :: nat where "CI_BUPHibernate \<equiv> 78"
abbreviation (input) CI_IFailure :: nat where "CI_IFailure \<equiv> 79"
abbreviation (input) CI_PWVoltageOOR :: nat where "CI_PWVoltageOOR \<equiv> 80"
abbreviation (input) CI_PWFrequencyOOR :: nat where "CI_PWFrequencyOOR \<equiv> 81"
abbreviation (input) CI_OverCharged :: nat where "CI_OverCharged \<equiv> 82"
abbreviation (input) CI_OverTemp :: nat where "CI_OverTemp \<equiv> 83"
abbreviation (input) CI_CommunicationLost :: nat where "CI_CommunicationLost \<equiv> 84"
abbreviation (input) CI_ChargerVoltageOOR :: nat where "CI_ChargerVoltageOOR \<equiv> 85"
abbreviation (input) CI_ChargerCurrentOOR :: nat where "CI_ChargerCurrentOOR \<equiv> 86"
abbreviation (input) CI_CurrentNotRegulated :: nat where "CI_CurrentNotRegulated \<equiv> 87"
abbreviation (input) CI_VoltageNotRegulated :: nat where "CI_VoltageNotRegulated \<equiv> 88"
abbreviation (input) CI_BatteryPresent :: nat where "CI_BatteryPresent \<equiv> 89"
abbreviation (input) CI_LAST_PROBE :: nat where "CI_LAST_PROBE \<equiv> 90"
abbreviation (input) CI_CYCLE_EPROM :: nat where "CI_CYCLE_EPROM \<equiv> 91"
abbreviation (input) CI_UPS_CAPS :: nat where "CI_UPS_CAPS \<equiv> 92"
abbreviation (input) CI_LAST :: nat where "CI_LAST \<equiv> 93"
abbreviation (input) CI_MAXCI :: nat where "CI_MAXCI \<equiv> 92"
abbreviation (input) CI_MAX_CAPS :: nat where "CI_MAX_CAPS \<equiv> 89"

abbreviation (input) NO_UPS :: int where "NO_UPS \<equiv> 0"
abbreviation (input) DUMB_UPS :: int where "DUMB_UPS \<equiv> 1"
abbreviation (input) APCSMART_UPS :: int where "APCSMART_UPS \<equiv> 2"
abbreviation (input) USB_UPS :: int where "USB_UPS \<equiv> 3"
abbreviation (input) NETWORK_UPS :: int where "NETWORK_UPS \<equiv> 4"
abbreviation (input) TEST_UPS :: int where "TEST_UPS \<equiv> 5"
abbreviation (input) PCNET_UPS :: int where "PCNET_UPS \<equiv> 6"
abbreviation (input) SNMPLITE_UPS :: int where "SNMPLITE_UPS \<equiv> 7"
abbreviation (input) MODBUS_UPS :: int where "MODBUS_UPS \<equiv> 8"

abbreviation (input) NO_CABLE :: int where "NO_CABLE \<equiv> 0"
abbreviation (input) CUSTOM_SIMPLE :: int where "CUSTOM_SIMPLE \<equiv> 1"
abbreviation (input) APC_940_0119A :: int where "APC_940_0119A \<equiv> 2"
abbreviation (input) APC_940_0127A :: int where "APC_940_0127A \<equiv> 3"
abbreviation (input) APC_940_0128A :: int where "APC_940_0128A \<equiv> 4"
abbreviation (input) APC_940_0020B :: int where "APC_940_0020B \<equiv> 5"
abbreviation (input) APC_940_0020C :: int where "APC_940_0020C \<equiv> 6"
abbreviation (input) APC_940_0023A :: int where "APC_940_0023A \<equiv> 7"
abbreviation (input) MAM_CABLE :: int where "MAM_CABLE \<equiv> 8"
abbreviation (input) APC_940_0095A :: int where "APC_940_0095A \<equiv> 9"
abbreviation (input) APC_940_0095B :: int where "APC_940_0095B \<equiv> 10"
abbreviation (input) APC_940_0095C :: int where "APC_940_0095C \<equiv> 11"
abbreviation (input) CABLE_SMART :: int where "CABLE_SMART \<equiv> 12"
abbreviation (input) APC_NET :: int where "APC_NET \<equiv> 13"
abbreviation (input) USB_CABLE :: int where "USB_CABLE \<equiv> 14"

abbreviation (input) NO_CLASS :: int where "NO_CLASS \<equiv> 0"
abbreviation (input) STANDALONE :: int where "STANDALONE \<equiv> 1"
abbreviation (input) SHARESLAVE :: int where "SHARESLAVE \<equiv> 2"
abbreviation (input) SHAREMASTER :: int where "SHAREMASTER \<equiv> 3"

abbreviation (input) NO_SHARE_NET :: int where "NO_SHARE_NET \<equiv> 0"
abbreviation (input) DISABLE :: int where "DISABLE \<equiv> 1"
abbreviation (input) SHARE :: int where "SHARE \<equiv> 2"

abbreviation (input) NO_LOGON :: int where "NO_LOGON \<equiv> 0"
abbreviation (input) NEVER :: int where "NEVER \<equiv> 1"
abbreviation (input) TIMEOUT :: int where "TIMEOUT \<equiv> 2"
abbreviation (input) PERCENT :: int where "PERCENT \<equiv> 3"
abbreviation (input) MINUTES :: int where "MINUTES \<equiv> 4"
abbreviation (input) ALWAYS :: int where "ALWAYS \<equiv> 5"

datatype LastXferCause = XFER_NA | XFER_NONE | XFER_OVERVOLT | XFER_UNDERVOLT | XFER_NOTCHSPIKE | XFER_RIPPLE | XFER_SELFTEST | XFER_FORCED | XFER_FREQ | XFER_UNKNOWN

datatype SelfTestResult = TEST_NA | TEST_NONE | TEST_FAILED | TEST_WARNING | TEST_INPROGRESS | TEST_PASSED | TEST_FAILCAP | TEST_FAILLOAD | TEST_UNKNOWN

subsection \<open>UPSINFO\<close>

record geninfo =
  gi_name :: string
  gi_long_name :: string
  gi_type :: int

record upsinfo =
  fd :: int
  UPS_Cap :: "nat \<Rightarrow> bool"
  UPS_Cmd :: "nat \<Rightarrow> nat"
  cable :: geninfo
  nologin :: geninfo
  mode :: geninfo
  upsclass :: geninfo
  sharenet :: geninfo
  num_execed_children :: int
  ShutDown :: int
  SelfTest :: int
  LastSelfTest :: int
  poll_time :: int
  start_time :: int
  last_onbatt_time :: int
  last_offbatt_time :: int
  last_time_on_line :: int
  last_time_annoy :: int
  last_time_nologon :: int
  last_time_changeme :: int
  last_master_connect_time :: int
  start_shut_ltime :: int
  start_shut_load :: int
  start_shut_lbatt :: int
  num_xfers :: int
  cum_time_on_batt :: int
  wait_time :: int
  linequal :: string
  reg1 :: nat
  reg2 :: nat
  reg3 :: nat
  dipsw :: nat
  lastxfer :: LastXferCause
  testresult :: SelfTestResult
  BattChg :: rat
  LineMin :: rat
  LineMax :: rat
  UPSLoad :: rat
  LoadApparent :: rat
  LineFreq :: rat
  LineVoltage :: rat
  OutputVoltage :: rat
  OutputCurrent :: rat
  UPSTemp :: rat
  BattVoltage :: rat
  LastSTTime :: rat
  Status :: "32 word"
  PrevStatus :: "32 word"
  TimeLeft :: rat
  humidity :: rat
  ambtemp :: rat
  NomOutputVoltage :: int
  NomInputVoltage :: int
  NomPower :: int
  NomApparentPower :: int
  nombattv :: rat
  extbatts :: int
  badbatts :: int
  lotrans :: int
  hitrans :: int
  rtnpct :: int
  dlowbatt :: int
  dwake :: int
  dshutd :: int
  birth :: string
  serial :: string
  battdat :: string
  selftest :: string
  firmrev :: string
  upsname :: string
  upsmodel :: string
  sensitivity :: string
  beepstate :: string
  eprom :: string
  annoy :: int
  maxtime :: int
  annoydelay :: int
  onbattdelay :: int
  killdelay :: int
  nologin_time :: int
  nologin_file :: bool
  stattime :: int
  datatime :: int
  sysfac :: int
  polltime :: int
  percent :: int
  runtime :: int
  nisip :: string
  statusport :: int
  netstats :: int
  logstats :: int
  device :: string
  configfile :: string
  statfile :: string
  eventfile :: string
  eventfilemax :: int
  event_fd :: int
  master_name :: string
  lockpath :: string
  lockfile :: int
  scriptdir :: string
  pwrfailpath :: string
  nologinpath :: string
  ChangeBattCounter :: int
  refcnt :: int

text \<open>\<open>memset(ups, 0, sizeof(UPSINFO))\<close> of \<open>new_ups\<close>: every field zero or empty.\<close>

definition zero_geninfo :: geninfo where
  "zero_geninfo = \<lparr>gi_name = [], gi_long_name = [], gi_type = 0\<rparr>"

definition zero_ups :: upsinfo where
  "zero_ups = \<lparr>
      fd = 0, UPS_Cap = (\<lambda>_. False), UPS_Cmd = (\<lambda>_. 0), cable = zero_geninfo,
      nologin = zero_geninfo, mode = zero_geninfo, upsclass = zero_geninfo,
      sharenet = zero_geninfo, num_execed_children = 0, ShutDown = 0, SelfTest = 0,
      LastSelfTest = 0, poll_time = 0, start_time = 0, last_onbatt_time = 0,
      last_offbatt_time = 0, last_time_on_line = 0, last_time_annoy = 0, last_time_nologon = 0,
      last_time_changeme = 0, last_master_connect_time = 0, start_shut_ltime = 0,
      start_shut_load = 0, start_shut_lbatt = 0, num_xfers = 0, cum_time_on_batt = 0,
      wait_time = 0, linequal = [], reg1 = 0, reg2 = 0, reg3 = 0, dipsw = 0, lastxfer = XFER_NA,
      testresult = TEST_NA, BattChg = 0, LineMin = 0, LineMax = 0, UPSLoad = 0, LoadApparent = 0, LineFreq = 0,
      LineVoltage = 0, OutputVoltage = 0, OutputCurrent = 0, UPSTemp = 0, BattVoltage = 0, LastSTTime = 0,
      Status = 0, PrevStatus = 0, TimeLeft = 0, humidity = 0, ambtemp = 0, NomOutputVoltage = 0,
      NomInputVoltage = 0, NomPower = 0, NomApparentPower = 0, nombattv = 0, extbatts = 0, badbatts = 0, lotrans = 0,
      hitrans = 0, rtnpct = 0, dlowbatt = 0, dwake = 0, dshutd = 0, birth = [], serial = [],
      battdat = [], selftest = [], firmrev = [], upsname = [], upsmodel = [], sensitivity = [],
      beepstate = [], eprom = [], annoy = 0, maxtime = 0, annoydelay = 0, onbattdelay = 0,
      killdelay = 0, nologin_time = 0, nologin_file = False, stattime = 0, datatime = 0,
      sysfac = 0, polltime = 0, percent = 0, runtime = 0, nisip = [], statusport = 0,
      netstats = 0, logstats = 0, device = [], configfile = [], statfile = [], eventfile = [],
      eventfilemax = 0, event_fd = 0, master_name = [], lockpath = [], lockfile = 0,
      scriptdir = [], pwrfailpath = [], nologinpath = [], ChangeBattCounter = 0, refcnt = 0\<rparr>"

subsection \<open>Bit accessors\<close>

definition is_battlow :: "upsinfo \<Rightarrow> bool" where "is_battlow u \<longleftrightarrow> Status u AND UPS_battlow = UPS_battlow"
definition set_battlow :: "upsinfo \<Rightarrow> upsinfo" where "set_battlow u = u\<lparr>Status := Status u OR UPS_battlow\<rparr>"
definition clear_battlow :: "upsinfo \<Rightarrow> upsinfo" where "clear_battlow u = u\<lparr>Status := Status u AND NOT UPS_battlow\<rparr>"
definition is_boost :: "upsinfo \<Rightarrow> bool" where "is_boost u \<longleftrightarrow> Status u AND UPS_boost = UPS_boost"
definition set_boost :: "upsinfo \<Rightarrow> upsinfo" where "set_boost u = u\<lparr>Status := Status u OR UPS_boost\<rparr>"
definition clear_boost :: "upsinfo \<Rightarrow> upsinfo" where "clear_boost u = u\<lparr>Status := Status u AND NOT UPS_boost\<rparr>"
definition is_calibration :: "upsinfo \<Rightarrow> bool" where "is_calibration u \<longleftrightarrow> Status u AND UPS_calibration = UPS_calibration"
definition set_calibration :: "upsinfo \<Rightarrow> upsinfo" where "set_calibration u = u\<lparr>Status := Status u OR UPS_calibration\<rparr>"
definition clear_calibration :: "upsinfo \<Rightarrow> upsinfo" where "clear_calibration u = u\<lparr>Status := Status u AND NOT UPS_calibration\<rparr>"
definition is_commlost :: "upsinfo \<Rightarrow> bool" where "is_commlost u \<longleftrightarrow> Status u AND UPS_commlost = UPS_commlost"
definition set_commlost :: "upsinfo \<Rightarrow> upsinfo" where "set_commlost u = u\<lparr>Status := Status u OR UPS_commlost\<rparr>"
definition clear_commlost :: "upsinfo \<Rightarrow> upsinfo" where "clear_commlost u = u\<lparr>Status := Status u AND NOT UPS_commlost\<rparr>"
definition is_fastpoll :: "upsinfo \<Rightarrow> bool" where "is_fastpoll u \<longleftrightarrow> Status u AND UPS_fastpoll = UPS_fastpoll"
definition set_fastpoll :: "upsinfo \<Rightarrow> upsinfo" where "set_fastpoll u = u\<lparr>Status := Status u OR UPS_fastpoll\<rparr>"
definition clear_fastpoll :: "upsinfo \<Rightarrow> upsinfo" where "clear_fastpoll u = u\<lparr>Status := Status u AND NOT UPS_fastpoll\<rparr>"
definition is_onbatt_msg :: "upsinfo \<Rightarrow> bool" where "is_onbatt_msg u \<longleftrightarrow> Status u AND UPS_onbatt_msg = UPS_onbatt_msg"
definition set_onbatt_msg :: "upsinfo \<Rightarrow> upsinfo" where "set_onbatt_msg u = u\<lparr>Status := Status u OR UPS_onbatt_msg\<rparr>"
definition clear_onbatt_msg :: "upsinfo \<Rightarrow> upsinfo" where "clear_onbatt_msg u = u\<lparr>Status := Status u AND NOT UPS_onbatt_msg\<rparr>"
definition is_onbatt :: "upsinfo \<Rightarrow> bool" where "is_onbatt u \<longleftrightarrow> Status u AND UPS_onbatt = UPS_onbatt"
definition set_onbatt :: "upsinfo \<Rightarrow> upsinfo" where "set_onbatt u = u\<lparr>Status := Status u OR UPS_onbatt\<rparr>"
definition clear_onbatt :: "upsinfo \<Rightarrow> upsinfo" where "clear_onbatt u = u\<lparr>Status := Status u AND NOT UPS_onbatt\<rparr>"
definition is_overload :: "upsinfo \<Rightarrow> bool" where "is_overload u \<longleftrightarrow> Status u AND UPS_overload = UPS_overload"
definition set_overload :: "upsinfo \<Rightarrow> upsinfo" where "set_overload u = u\<lparr>Status := Status u OR UPS_overload\<rparr>"
definition clear_overload :: "upsinfo \<Rightarrow> upsinfo" where "clear_overload u = u\<lparr>Status := Status u AND NOT UPS_overload\<rparr>"
definition is_plugged :: "upsinfo \<Rightarrow> bool" where "is_plugged u \<longleftrightarrow> Status u AND UPS_plugged = UPS_plugged"
definition set_plugged :: "upsinfo \<Rightarrow> upsinfo" where "set_plugged u = u\<lparr>Status := Status u OR UPS_plugged\<rparr>"
definition clear_plugged :: "upsinfo \<Rightarrow> upsinfo" where "clear_plugged u = u\<lparr>Status := Status u AND NOT UPS_plugged\<rparr>"
definition is_replacebatt :: "upsinfo \<Rightarrow> bool" where "is_replacebatt u \<longleftrightarrow> Status u AND UPS_replacebatt = UPS_replacebatt"
definition set_replacebatt :: "upsinfo \<Rightarrow> upsinfo" where "set_replacebatt u = u\<lparr>Status := Status u OR UPS_replacebatt\<rparr>"
definition clear_replacebatt :: "upsinfo \<Rightarrow> upsinfo" where "clear_replacebatt u = u\<lparr>Status := Status u AND NOT UPS_replacebatt\<rparr>"
definition is_shut_btime :: "upsinfo \<Rightarrow> bool" where "is_shut_btime u \<longleftrightarrow> Status u AND UPS_shut_btime = UPS_shut_btime"
definition set_shut_btime :: "upsinfo \<Rightarrow> upsinfo" where "set_shut_btime u = u\<lparr>Status := Status u OR UPS_shut_btime\<rparr>"
definition clear_shut_btime :: "upsinfo \<Rightarrow> upsinfo" where "clear_shut_btime u = u\<lparr>Status := Status u AND NOT UPS_shut_btime\<rparr>"
definition is_shutdown :: "upsinfo \<Rightarrow> bool" where "is_shutdown u \<longleftrightarrow> Status u AND UPS_shutdown = UPS_shutdown"
definition set_shutdown :: "upsinfo \<Rightarrow> upsinfo" where "set_shutdown u = u\<lparr>Status := Status u OR UPS_shutdown\<rparr>"
definition clear_shutdown :: "upsinfo \<Rightarrow> upsinfo" where "clear_shutdown u = u\<lparr>Status := Status u AND NOT UPS_shutdown\<rparr>"
definition is_shut_emerg :: "upsinfo \<Rightarrow> bool" where "is_shut_emerg u \<longleftrightarrow> Status u AND UPS_shut_emerg = UPS_shut_emerg"
definition set_shut_emerg :: "upsinfo \<Rightarrow> upsinfo" where "set_shut_emerg u = u\<lparr>Status := Status u OR UPS_shut_emerg\<rparr>"
definition clear_shut_emerg :: "upsinfo \<Rightarrow> upsinfo" where "clear_shut_emerg u = u\<lparr>Status := Status u AND NOT UPS_shut_emerg\<rparr>"
definition is_shut_load :: "upsinfo \<Rightarrow> bool" where "is_shut_load u \<longleftrightarrow> Status u AND UPS_shut_load = UPS_shut_load"
definition set_shut_load :: "upsinfo \<Rightarrow> upsinfo" where "set_shut_load u = u\<lparr>Status := Status u OR UPS_shut_load\<rparr>"
definition clear_shut_load :: "upsinfo \<Rightarrow> upsinfo" where "clear_shut_load u = u\<lparr>Status := Status u AND NOT UPS_shut_load\<rparr>"
definition is_shut_ltime :: "upsinfo \<Rightarrow> bool" where "is_shut_ltime u \<longleftrightarrow> Status u AND UPS_shut_ltime = UPS_shut_ltime"
definition set_shut_ltime :: "upsinfo \<Rightarrow> upsinfo" where "set_shut_ltime u = u\<lparr>Status := Status u OR UPS_shut_ltime\<rparr>"
definition clear_shut_ltime :: "upsinfo \<Rightarrow> upsinfo" where "clear_shut_ltime u = u\<lparr>Status := Status u AND NOT UPS_shut_ltime\<rparr>"
definition is_shut_remote :: "upsinfo \<Rightarrow> bool" where "is_shut_remote u \<longleftrightarrow> Status u AND UPS_shut_remote = UPS_shut_remote"
definition set_shut_remote :: "upsinfo \<Rightarrow> upsinfo" where "set_shut_remote u = u\<lparr>Status := Status u OR UPS_shut_remote\<rparr>"
definition clear_shut_remote :: "upsinfo \<Rightarrow> upsinfo" where "clear_shut_remote u = u\<lparr>Status := Status u AND NOT UPS_shut_remote\<rparr>"
definition is_slavedown :: "upsinfo \<Rightarrow> bool" where "is_slavedown u \<longleftrightarrow> Status u AND UPS_slavedown = UPS_slavedown"
definition set_slavedown :: "upsinfo \<Rightarrow> upsinfo" where "set_slavedown u = u\<lparr>Status := Status u OR UPS_slavedown\<rparr>"
definition clear_slavedown :: "upsinfo \<Rightarrow> upsinfo" where "clear_slavedown u = u\<lparr>Status := Status u AND NOT UPS_slavedown\<rparr>"
definition is_slave :: "upsinfo \<Rightarrow> bool" where "is_slave u \<longleftrightarrow> Status u AND UPS_slave = UPS_slave"
definition set_slave :: "upsinfo \<Rightarrow> upsinfo" where "set_slave u = u\<lparr>Status := Status u OR UPS_slave\<rparr>"
definition clear_slave :: "upsinfo \<Rightarrow> upsinfo" where "clear_slave u = u\<lparr>Status := Status u AND NOT UPS_slave\<rparr>"
definition is_trim :: "upsinfo \<Rightarrow> bool" where "is_trim u \<longleftrightarrow> Status u AND UPS_trim = UPS_trim"
definition set_trim :: "upsinfo \<Rightarrow> upsinfo" where "set_trim u = u\<lparr>Status := Status u OR UPS_trim\<rparr>"
definition clear_trim :: "upsinfo \<Rightarrow> upsinfo" where "clear_trim u = u\<lparr>Status := Status u AND NOT UPS_trim\<rparr>"
definition is_battpresent :: "upsinfo \<Rightarrow> bool" where "is_battpresent u \<longleftrightarrow> Status u AND UPS_battpresent = UPS_battpresent"
definition set_battpresent :: "upsinfo \<Rightarrow> upsinfo" where "set_battpresent u = u\<lparr>Status := Status u OR UPS_battpresent\<rparr>"
definition clear_battpresent :: "upsinfo \<Rightarrow> upsinfo" where "clear_battpresent u = u\<lparr>Status := Status u AND NOT UPS_battpresent\<rparr>"

text \<open>The accessors of \<open>UPS_online\<close> keep \<open>UPS_onbatt\<close> its complement.\<close>

definition is_online :: "upsinfo \<Rightarrow> bool" where "is_online u \<longleftrightarrow> Status u AND UPS_online = UPS_online"
definition set_online :: "upsinfo \<Rightarrow> upsinfo" where
  "set_online u = u\<lparr>Status := (Status u OR UPS_online) AND NOT UPS_onbatt\<rparr>"
definition clear_online :: "upsinfo \<Rightarrow> upsinfo" where
  "clear_online u = u\<lparr>Status := (Status u OR UPS_onbatt) AND NOT UPS_online\<rparr>"

definition set_battpresent_val :: "bool \<Rightarrow> upsinfo \<Rightarrow> upsinfo" where
  "set_battpresent_val v u = (if v then set_battpresent u else clear_battpresent u)"

definition chg_battlow :: "upsinfo \<Rightarrow> bool" where
  "chg_battlow u \<longleftrightarrow> (Status u XOR PrevStatus u) AND UPS_battlow = UPS_battlow"
definition chg_onbatt :: "upsinfo \<Rightarrow> bool" where
  "chg_onbatt u \<longleftrightarrow> (Status u XOR PrevStatus u) AND UPS_onbatt = UPS_onbatt"
definition chg_battpresent :: "upsinfo \<Rightarrow> bool" where
  "chg_battpresent u \<longleftrightarrow> (Status u XOR PrevStatus u) AND UPS_battpresent = UPS_battpresent"
definition chg_shut_remote :: "upsinfo \<Rightarrow> bool" where
  "chg_shut_remote u \<longleftrightarrow> (Status u XOR PrevStatus u) AND UPS_shut_remote = UPS_shut_remote"

subsection \<open>The laws of a status bit\<close>

text \<open>
  A status bit is a mask with a single bit; testing, setting and clearing it are reading and
  writing that bit of \<open>Status\<close>, and nothing else of \<open>UPSINFO\<close> changes.
\<close>

locale status_flag =
  fixes is_f :: "upsinfo \<Rightarrow> bool" and set_f clear_f :: "upsinfo \<Rightarrow> upsinfo" and k :: nat
  assumes k_bound: "k < 32"
    and is_f: "is_f u \<longleftrightarrow> Status u AND push_bit k 1 = push_bit k 1"
    and set_f: "set_f u = u\<lparr>Status := Status u OR push_bit k 1\<rparr>"
    and clear_f: "clear_f u = u\<lparr>Status := Status u AND NOT (push_bit k 1)\<rparr>"
begin

lemma is_f_bit: "is_f u \<longleftrightarrow> bit (Status u) k"
proof
  assume "is_f u"
  then have "bit (Status u AND push_bit k 1) k" using k_bound
    by (simp add: is_f bit_exp_iff)
  then show "bit (Status u) k" by (simp add: bit_and_iff)
next
  assume "bit (Status u) k"
  then show "is_f u" unfolding is_f
    by (intro bit_eqI) (auto simp: bit_and_iff bit_exp_iff)
qed

lemma bit_set_f: "bit (Status (set_f u)) j \<longleftrightarrow> j = k \<or> bit (Status u) j"
  using k_bound by (auto simp: set_f bit_or_iff bit_exp_iff)

lemma bit_clear_f: "bit (Status (clear_f u)) j \<longleftrightarrow> j \<noteq> k \<and> bit (Status u) j"
  by (auto simp: clear_f bit_and_iff bit_not_iff bit_exp_iff dest: bit_imp_le_length)

lemma is_set_f [simp]: "is_f (set_f u)"
  by (simp add: is_f_bit bit_set_f)

lemma is_clear_f [simp]: "\<not> is_f (clear_f u)"
  by (simp add: is_f_bit bit_clear_f)

lemma set_f_frame: "(set_f u)\<lparr>Status := x\<rparr> = u\<lparr>Status := x\<rparr>"
  by (simp add: set_f)

lemma clear_f_frame: "(clear_f u)\<lparr>Status := x\<rparr> = u\<lparr>Status := x\<rparr>"
  by (simp add: clear_f)

end

interpretation battlow: status_flag is_battlow set_battlow clear_battlow 6
  by unfold_locales (simp_all add: is_battlow_def set_battlow_def clear_battlow_def UPS_battlow_def)

interpretation boost: status_flag is_boost set_boost clear_boost 2
  by unfold_locales (simp_all add: is_boost_def set_boost_def clear_boost_def UPS_boost_def)

interpretation calibration: status_flag is_calibration set_calibration clear_calibration 0
  by unfold_locales (simp_all add: is_calibration_def set_calibration_def clear_calibration_def UPS_calibration_def)

interpretation commlost: status_flag is_commlost set_commlost clear_commlost 8
  by unfold_locales (simp_all add: is_commlost_def set_commlost_def clear_commlost_def UPS_commlost_def)

interpretation fastpoll: status_flag is_fastpoll set_fastpoll clear_fastpoll 18
  by unfold_locales (simp_all add: is_fastpoll_def set_fastpoll_def clear_fastpoll_def UPS_fastpoll_def)

interpretation onbatt_msg: status_flag is_onbatt_msg set_onbatt_msg clear_onbatt_msg 17
  by unfold_locales (simp_all add: is_onbatt_msg_def set_onbatt_msg_def clear_onbatt_msg_def UPS_onbatt_msg_def)

interpretation onbatt: status_flag is_onbatt set_onbatt clear_onbatt 4
  by unfold_locales (simp_all add: is_onbatt_def set_onbatt_def clear_onbatt_def UPS_onbatt_def)

interpretation overload: status_flag is_overload set_overload clear_overload 5
  by unfold_locales (simp_all add: is_overload_def set_overload_def clear_overload_def UPS_overload_def)

interpretation plugged: status_flag is_plugged set_plugged clear_plugged 24
  by unfold_locales (simp_all add: is_plugged_def set_plugged_def clear_plugged_def UPS_plugged_def)

interpretation replacebatt: status_flag is_replacebatt set_replacebatt clear_replacebatt 7
  by unfold_locales (simp_all add: is_replacebatt_def set_replacebatt_def clear_replacebatt_def UPS_replacebatt_def)

interpretation shut_btime: status_flag is_shut_btime set_shut_btime clear_shut_btime 20
  by unfold_locales (simp_all add: is_shut_btime_def set_shut_btime_def clear_shut_btime_def UPS_shut_btime_def)

interpretation shutdown: status_flag is_shutdown set_shutdown clear_shutdown 9
  by unfold_locales (simp_all add: is_shutdown_def set_shutdown_def clear_shutdown_def UPS_shutdown_def)

interpretation shut_emerg: status_flag is_shut_emerg set_shut_emerg clear_shut_emerg 22
  by unfold_locales (simp_all add: is_shut_emerg_def set_shut_emerg_def clear_shut_emerg_def UPS_shut_emerg_def)

interpretation shut_load: status_flag is_shut_load set_shut_load clear_shut_load 19
  by unfold_locales (simp_all add: is_shut_load_def set_shut_load_def clear_shut_load_def UPS_shut_load_def)

interpretation shut_ltime: status_flag is_shut_ltime set_shut_ltime clear_shut_ltime 21
  by unfold_locales (simp_all add: is_shut_ltime_def set_shut_ltime_def clear_shut_ltime_def UPS_shut_ltime_def)

interpretation shut_remote: status_flag is_shut_remote set_shut_remote clear_shut_remote 23
  by unfold_locales (simp_all add: is_shut_remote_def set_shut_remote_def clear_shut_remote_def UPS_shut_remote_def)

interpretation slavedown: status_flag is_slavedown set_slavedown clear_slavedown 11
  by unfold_locales (simp_all add: is_slavedown_def set_slavedown_def clear_slavedown_def UPS_slavedown_def)

interpretation slave: status_flag is_slave set_slave clear_slave 10
  by unfold_locales (simp_all add: is_slave_def set_slave_def clear_slave_def UPS_slave_def)

interpretation trim: status_flag is_trim set_trim clear_trim 1
  by unfold_locales (simp_all add: is_trim_def set_trim_def clear_trim_def UPS_trim_def)

interpretation battpresent: status_flag is_battpresent set_battpresent clear_battpresent 26
  by unfold_locales (simp_all add: is_battpresent_def set_battpresent_def clear_battpresent_def UPS_battpresent_def)

lemmas is_bits =
  battlow.is_f_bit boost.is_f_bit calibration.is_f_bit commlost.is_f_bit fastpoll.is_f_bit
  onbatt_msg.is_f_bit onbatt.is_f_bit overload.is_f_bit plugged.is_f_bit replacebatt.is_f_bit
  shut_btime.is_f_bit shutdown.is_f_bit shut_emerg.is_f_bit shut_load.is_f_bit
  shut_ltime.is_f_bit shut_remote.is_f_bit slavedown.is_f_bit slave.is_f_bit trim.is_f_bit
  battpresent.is_f_bit

lemmas set_bits =
  battlow.bit_set_f boost.bit_set_f calibration.bit_set_f commlost.bit_set_f fastpoll.bit_set_f
  onbatt_msg.bit_set_f onbatt.bit_set_f overload.bit_set_f plugged.bit_set_f
  replacebatt.bit_set_f shut_btime.bit_set_f shutdown.bit_set_f shut_emerg.bit_set_f
  shut_load.bit_set_f shut_ltime.bit_set_f shut_remote.bit_set_f slavedown.bit_set_f
  slave.bit_set_f trim.bit_set_f battpresent.bit_set_f

lemmas clear_bits =
  battlow.bit_clear_f boost.bit_clear_f calibration.bit_clear_f commlost.bit_clear_f
  fastpoll.bit_clear_f onbatt_msg.bit_clear_f onbatt.bit_clear_f overload.bit_clear_f
  plugged.bit_clear_f replacebatt.bit_clear_f shut_btime.bit_clear_f shutdown.bit_clear_f
  shut_emerg.bit_clear_f shut_load.bit_clear_f shut_ltime.bit_clear_f shut_remote.bit_clear_f
  slavedown.bit_clear_f slave.bit_clear_f trim.bit_clear_f battpresent.bit_clear_f

lemmas flag_ops =
  set_battlow_def clear_battlow_def set_boost_def clear_boost_def set_calibration_def
  clear_calibration_def set_commlost_def clear_commlost_def set_fastpoll_def clear_fastpoll_def
  set_onbatt_msg_def clear_onbatt_msg_def set_onbatt_def clear_onbatt_def set_overload_def
  clear_overload_def set_plugged_def clear_plugged_def set_replacebatt_def clear_replacebatt_def
  set_shut_btime_def clear_shut_btime_def set_shutdown_def clear_shutdown_def set_shut_emerg_def
  clear_shut_emerg_def set_shut_load_def clear_shut_load_def set_shut_ltime_def
  clear_shut_ltime_def set_shut_remote_def clear_shut_remote_def set_slavedown_def
  clear_slavedown_def set_slave_def clear_slave_def set_trim_def clear_trim_def
  set_battpresent_def clear_battpresent_def set_online_def clear_online_def

lemma is_online_bit: "is_online u \<longleftrightarrow> bit (Status u) 3"
  unfolding is_online_def by (rule mask_bit) (simp_all add: UPS_online_def)

end
