(* ===== verification/Runtime.thy ===== *)
theory Runtime
  imports Ups
begin

text \<open>
  The process the daemon runs in. A \<open>sys\<close> is the shared \<open>UPSINFO\<close>, the private data of
  the attached driver (\<open>'d\<close>), the static variables of \<open>src/action.c\<close>, the options set on
  the command line, and the operating system as the sources use it:
  \<^item> \<open>trace\<close> lists the visible effects in the order they happen;
  \<^item> \<open>clock n\<close> is the answer of the \<open>n\<close>-th call of \<open>time\<close>; \<open>clock_pos\<close> counts the calls;
  \<^item> \<open>files\<close> maps a path to the contents of the file, \<open>denied\<close> says which paths the
    process may not open, create or remove;
  \<^item> \<open>fork_ok n\<close> says whether the \<open>n\<close>-th \<open>fork\<close> succeeds, \<open>exited n\<close> is the number of
    children the \<open>n\<close>-th round of \<open>waitpid(-1, NULL, WNOHANG)\<close> calls can collect;
  \<^item> \<open>events\<close> is the text of the events file, \<open>datefmt\<close>, \<open>hostname\<close> and \<open>version\<close> are what
    the host prints for a time, for itself and for the build;
  \<^item> \<open>halted\<close> holds once the process has called \<open>exit\<close>.

  Here are also the services of \<open>src/lib\<close> every component calls: \<open>log_event\<close>
  (\<open>apclog.c\<close>), \<open>execute_command\<close> (\<open>apcexec.c\<close>, the POSIX branch), \<open>make_file\<close>
  (\<open>apcfile.c\<close>), the lock file (\<open>apclock.c\<close>) and the lock and reference count of
  \<open>newups.c\<close>. Message texts leave out what \<open>strerror\<close> adds to them, and the bytes of the
  lock file's buffer behind those read are taken to be NUL.
\<close>

unbundle bit_operations_syntax

subsection \<open>Effects and the process state\<close>

datatype loglevel = LOG_ALERT | LOG_CRIT | LOG_ERR | LOG_WARNING | LOG_NOTICE | LOG_INFO

datatype effect =
    Syslog loglevel string          \<comment> \<open>\<open>syslog(level, "%s", msg)\<close>\<close>
  | Spawn "string list"             \<comment> \<open>a forked child executing this \<open>argv\<close>\<close>
  | Printed string                  \<comment> \<open>output on stdout or stderr\<close>
  | Unlinked string
  | Created string
  | Wrote string string             \<comment> \<open>path and contents\<close>
  | Slept int
  | Openlog int                     \<comment> \<open>\<open>closelog\<close> and \<open>openlog\<close> for a facility\<close>
  | CloseStatusFile                 \<comment> \<open>\<open>clear_files\<close>\<close>
  | Aborted string                  \<comment> \<open>\<open>Error_abort\<close>: message, clean-up, \<open>exit(1)\<close>\<close>
  | Sigterm                         \<comment> \<open>\<open>sendsig_terminate\<close>: \<open>kill(getpid(), SIGTERM); exit(0)\<close>\<close>

record 'd sys =
  ups :: upsinfo
  drv :: 'd
  action_first :: bool              \<comment> \<open>static \<open>first\<close> of \<open>do_action\<close>\<close>
  requested_logoff :: bool          \<comment> \<open>static \<open>requested_logoff\<close> of \<open>do_action\<close>\<close>
  terminate_on_powerfail :: bool
  kill_on_powerfail :: bool
  hibernate_ups :: bool
  shutdown_ups :: bool
  statusfile_open :: bool
  lock_depth :: int                 \<comment> \<open>how often this thread holds \<open>ups->mutex\<close>\<close>
  halted :: bool
  trace :: "effect list"
  clock :: "nat \<Rightarrow> int"
  clock_pos :: nat
  files :: "string \<Rightarrow> string option"
  denied :: "string \<Rightarrow> bool"
  pid :: int
  ppid :: int
  alive :: "int \<Rightarrow> bool"
  fork_ok :: "nat \<Rightarrow> bool"
  fork_pos :: nat
  exited :: "nat \<Rightarrow> nat"
  wait_pos :: nat
  events :: string                  \<comment> \<open>the file behind \<open>event_fd\<close>\<close>
  datefmt :: "int \<Rightarrow> string"        \<comment> \<open>\<open>format_date\<close>: \<open>localtime\<close> and \<open>strftime\<close>\<close>
  hostname :: string
  version :: string                 \<comment> \<open>\<open>APCUPSD_RELEASE (ADATE) APCUPSD_HOST\<close>\<close>
  rep_first :: bool                 \<comment> \<open>the statics of \<open>src/reports.c\<close>\<close>
  last_time_status :: int
  last_time_logging :: int
  rep_toggle :: bool

definition emit :: "effect \<Rightarrow> 'd sys \<Rightarrow> 'd sys" where
  "emit e s = s\<lparr>trace := trace s @ [e]\<rparr>"

definition upd_ups :: "(upsinfo \<Rightarrow> upsinfo) \<Rightarrow> 'd sys \<Rightarrow> 'd sys" where
  "upd_ups f s = s\<lparr>ups := f (ups s)\<rparr>"

definition upd_drv :: "('d \<Rightarrow> 'd) \<Rightarrow> 'd sys \<Rightarrow> 'd sys" where
  "upd_drv f s = s\<lparr>drv := f (drv s)\<rparr>"

text \<open>What the basic operations leave alone.\<close>

lemma emit_frame [simp]:
  "ups (emit e s) = ups s" "drv (emit e s) = drv s" "lock_depth (emit e s) = lock_depth s"
  "halted (emit e s) = halted s" "clock (emit e s) = clock s" "clock_pos (emit e s) = clock_pos s"
  "files (emit e s) = files s" "denied (emit e s) = denied s" "pid (emit e s) = pid s"
  "action_first (emit e s) = action_first s" "requested_logoff (emit e s) = requested_logoff s"
  "trace (emit e s) = trace s @ [e]" "datefmt (emit e s) = datefmt s"
  "events (emit e s) = events s"
  by (simp_all add: emit_def)

lemma upd_ups_frame [simp]:
  "ups (upd_ups f s) = f (ups s)" "drv (upd_ups f s) = drv s"
  "lock_depth (upd_ups f s) = lock_depth s" "halted (upd_ups f s) = halted s"
  "clock (upd_ups f s) = clock s" "clock_pos (upd_ups f s) = clock_pos s"
  "files (upd_ups f s) = files s" "denied (upd_ups f s) = denied s" "pid (upd_ups f s) = pid s"
  "action_first (upd_ups f s) = action_first s"
  "requested_logoff (upd_ups f s) = requested_logoff s" "trace (upd_ups f s) = trace s"
  "datefmt (upd_ups f s) = datefmt s" "events (upd_ups f s) = events s"
  by (simp_all add: upd_ups_def)

lemma upd_drv_frame [simp]:
  "ups (upd_drv f s) = ups s" "drv (upd_drv f s) = f (drv s)"
  "lock_depth (upd_drv f s) = lock_depth s" "halted (upd_drv f s) = halted s"
  "clock (upd_drv f s) = clock s" "clock_pos (upd_drv f s) = clock_pos s"
  "trace (upd_drv f s) = trace s" "events (upd_drv f s) = events s"
  "files (upd_drv f s) = files s" "denied (upd_drv f s) = denied s"
  "action_first (upd_drv f s) = action_first s"
  by (simp_all add: upd_drv_def)

text \<open>\<open>time(NULL)\<close>\<close>

definition time_now :: "'d sys \<Rightarrow> int \<times> 'd sys" where
  "time_now s = (clock s (clock_pos s), s\<lparr>clock_pos := Suc (clock_pos s)\<rparr>)"

text \<open>A sequence of statements, which \<open>exit\<close> leaves: nothing runs in a process that is gone.\<close>

fun run :: "('d sys \<Rightarrow> 'd sys) list \<Rightarrow> 'd sys \<Rightarrow> 'd sys" where
  "run [] s = s"
| "run (f # fs) s = (if halted s then s else run fs (f s))"

definition guarded :: "bool \<Rightarrow> ('d sys \<Rightarrow> 'd sys) \<Rightarrow> 'd sys \<Rightarrow> 'd sys" where
  "guarded b f s = (if b then f s else s)"

definition error_abort :: "string \<Rightarrow> 'd sys \<Rightarrow> 'd sys" where
  "error_abort msg s = (emit (Aborted msg) s)\<lparr>halted := True\<rparr>"

definition sendsig_terminate :: "'d sys \<Rightarrow> 'd sys" where
  "sendsig_terminate s = (emit Sigterm s)\<lparr>halted := True\<rparr>"

text \<open>
  A property that every statement of a sequence keeps is kept by the sequence, however far it
  gets before an \<open>exit\<close>.
\<close>

lemma run_invariant:
  assumes "\<And>f t. f \<in> set fs \<Longrightarrow> P t \<Longrightarrow> P (f t)" and "P s"
  shows "P (run fs s)"
  using assms by (induction fs arbitrary: s) auto

lemma run_append: "run (fs @ gs) s = (let t = run fs s in if halted t then t else run gs t)"
  by (induction fs arbitrary: s) (auto simp: Let_def, cases gs, auto)

lemma run_halted [simp]: "halted s \<Longrightarrow> run fs s = s"
  by (cases fs) auto

subsection \<open>The lock and the reference count (newups.c)\<close>

text \<open>
  \<open>P\<close> and \<open>V\<close> on the recursive mutex: the thread that holds the lock may take it again, and
  must release it as often. (\<open>read_lock\<close> and \<open>write_lock\<close> are the same lock.)
\<close>

definition write_lock :: "'d sys \<Rightarrow> 'd sys" where
  "write_lock s = s\<lparr>lock_depth := lock_depth s + 1\<rparr>"

definition write_unlock :: "'d sys \<Rightarrow> 'd sys" where
  "write_unlock s = s\<lparr>lock_depth := lock_depth s - 1\<rparr>"

definition new_ups :: upsinfo where
  "new_ups = (set_battpresent zero_ups)\<lparr>refcnt := 1\<rparr>"

text \<open>
  A process at its start, with the driver data \<open>d\<close>: nothing written yet, no files, a clock that
  advances by a second per call, and every \<open>fork\<close> succeeding.
\<close>

definition start_sys :: "'d \<Rightarrow> 'd sys" where
  "start_sys d = \<lparr>ups = new_ups, drv = d, action_first = True, requested_logoff = False,
     terminate_on_powerfail = False, kill_on_powerfail = False, hibernate_ups = False,
     shutdown_ups = False, statusfile_open = False, lock_depth = 0, halted = False, trace = [],
     clock = (\<lambda>n. 1000000 + int n), clock_pos = 0, files = (\<lambda>_. None), denied = (\<lambda>_. False),
     pid = 100, ppid = 1, alive = (\<lambda>_. False), fork_ok = (\<lambda>_. True), fork_pos = 0,
     exited = (\<lambda>_. 0), wait_pos = 0, events = [], datefmt = (\<lambda>t. show_int t), hostname = ''host'',
     version = ''3.14'', rep_first = True, last_time_status = 0, last_time_logging = 0,
     rep_toggle = False\<rparr>"

definition attach_ups :: "'d sys \<Rightarrow> 'd sys" where
  "attach_ups s = write_unlock (upd_ups (\<lambda>u. u\<lparr>refcnt := refcnt u + 1\<rparr>) (write_lock s))"

text \<open>\<open>detach_ups\<close>, with whether the structure was destroyed (its mutex is then gone too).\<close>

definition detach_ups :: "'d sys \<Rightarrow> bool \<times> 'd sys" where
  "detach_ups s =
     (let t = upd_ups (\<lambda>u. u\<lparr>refcnt := refcnt u - 1\<rparr>) (write_lock s)
      in if refcnt (ups t) = 0 then (True, t) else (False, write_unlock t))"

subsection \<open>log_event (apclog.c)\<close>

definition log_event :: "loglevel \<Rightarrow> string \<Rightarrow> 'd sys \<Rightarrow> 'd sys" where
  "log_event level fmt s =
     (let msg = take 511 fmt; s1 = emit (Syslog level msg) s
      in if 0 \<le> event_fd (ups s) \<and> level \<noteq> LOG_INFO
         then let (t, s2) = time_now s1
              in s2\<lparr>events := events s2 @ datefmt s2 t @
                   (if msg \<noteq> [] \<and> last msg = NL then msg else msg @ [NL])\<rparr>
         else s1)"

lemma log_event_frame [simp]:
  "ups (log_event l m s) = ups s" "drv (log_event l m s) = drv s"
  "lock_depth (log_event l m s) = lock_depth s" "halted (log_event l m s) = halted s"
  "clock (log_event l m s) = clock s" "files (log_event l m s) = files s"
  "denied (log_event l m s) = denied s" "pid (log_event l m s) = pid s"
  "action_first (log_event l m s) = action_first s" "datefmt (log_event l m s) = datefmt s"
  "requested_logoff (log_event l m s) = requested_logoff s"
  by (simp_all add: log_event_def time_now_def Let_def)

subsection \<open>execute_command (apcexec.c)\<close>

text \<open>
  A command is the pair of the name \<open>apccontrol\<close> is called with and the pid recorded for it.
  The structure \<open>UPSCOMMANDS\<close> is passed by value, so the pid that \<open>fork\<close> returns is stored
  in a copy and lost.
\<close>

type_synonym upscommand = "string \<times> int"

definition apccontrol_argv :: "string \<Rightarrow> upsinfo \<Rightarrow> string list" where
  "apccontrol_argv command u =
     [take 255 (scriptdir u @ ''/apccontrol''), command, upsname u,
      (if is_slave u then ''0'' else ''1''), (if is_plugged u then ''1'' else ''0'')]"

text \<open>The \<open>waitpid\<close> loop of the parent: stops when no counted child is left.\<close>

definition reap_counted :: "'d sys \<Rightarrow> 'd sys" where
  "reap_counted s =
     (let n = num_execed_children (ups s)
      in upd_ups (\<lambda>u. u\<lparr>num_execed_children := n - min n (int (exited s (wait_pos s)))\<rparr>)
           (s\<lparr>wait_pos := Suc (wait_pos s)\<rparr>))"

definition execute_command :: "upscommand \<Rightarrow> 'd sys \<Rightarrow> bool \<times> 'd sys" where
  "execute_command cmd s =
     (if snd cmd \<noteq> 0 \<and> alive s (snd cmd) then (True, s)
      else if \<not> fork_ok s (fork_pos s)
      then (False, log_event LOG_WARNING ''execute: cannot fork().''
                     (s\<lparr>fork_pos := Suc (fork_pos s)\<rparr>))
      else (True,
        reap_counted
          (upd_ups (\<lambda>u. u\<lparr>num_execed_children :=
                       (if num_execed_children u < 0 then 1 else num_execed_children u + 1)\<rparr>)
            (emit (Spawn (apccontrol_argv (fst cmd) (ups s)))
              (s\<lparr>fork_pos := Suc (fork_pos s)\<rparr>)))))"

subsection \<open>Files (apcfile.c, apclock.c)\<close>

definition make_file :: "string \<Rightarrow> 'd sys \<Rightarrow> 'd sys" where
  "make_file path s =
     (if denied s path then log_event LOG_ERR (''Unable to create '' @ path @ [NL]) s
      else emit (Created path)
             (s\<lparr>files := (files s)(path := Some (case files s path of None \<Rightarrow> [] | Some c \<Rightarrow> c))\<rparr>))"

definition unlink :: "string \<Rightarrow> 'd sys \<Rightarrow> bool \<times> 'd sys" where
  "unlink path s =
     (if denied s path \<or> files s path = None then (False, s)
      else (True, emit (Unlinked path) (s\<lparr>files := (files s)(path := None)\<rparr>)))"

lemma unlink_frame [simp]:
  "ups (snd (unlink p s)) = ups s" "drv (snd (unlink p s)) = drv s"
  "lock_depth (snd (unlink p s)) = lock_depth s" "halted (snd (unlink p s)) = halted s"
  "clock_pos (snd (unlink p s)) = clock_pos s" "denied (snd (unlink p s)) = denied s"
  "pid (snd (unlink p s)) = pid s" "requested_logoff (snd (unlink p s)) = requested_logoff s"
  by (simp_all add: unlink_def)

datatype lck = LCKSUCCESS | LCKERROR | LCKEXIST | LCKNOLOCK

definition check_stale_lockfile :: "'d sys \<Rightarrow> lck \<times> 'd sys" where
  "check_stale_lockfile s =
     (let path = lockpath (ups s);
          done = (\<lambda>r t. (r, upd_ups (\<lambda>u. u\<lparr>lockfile := -1\<rparr>) t))
      in if gi_type (cable (ups s)) = APC_NET then (LCKNOLOCK, s)
         else if path = [] then (LCKERROR, log_event LOG_ERR (''No lock path configured.'' @ [NL]) s)
         else if denied s path
         then (LCKERROR, log_event LOG_ERR (''Lock file open error.'' @ [NL])
                           (upd_ups (\<lambda>u. u\<lparr>lockfile := -1\<rparr>) s))
         else (case files s path of
             None \<Rightarrow> (LCKSUCCESS, upd_ups (\<lambda>u. u\<lparr>lockfile := -1\<rparr>) s)
           | Some contents \<Rightarrow>
               (case sscanf_d (c_str (take 11 contents)) of
                  ScanOk stalepid \<Rightarrow>
                    if stalepid = pid s \<or> stalepid = ppid s then done LCKEXIST s
                    else if \<not> alive s stalepid
                    then (let (ok, t) = unlink path s
                          in if ok then done LCKSUCCESS t
                             else done LCKERROR (log_event LOG_ERR
                                    (''Unable to unlink old lock file '' @ path @ [NL]) t))
                    else done LCKERROR (log_event LOG_ERR
                           (''Valid lock file for pid='' @ show_int stalepid @
                            '', but not ours pid='' @ show_int (pid s) @ [NL]) s)
                | _ \<Rightarrow> done LCKERROR
                         (log_event LOG_ERR
                            (''Lock file data error: '' @ c_str (take 11 contents) @ [NL]) s))))"

text \<open>\<open>"%010ld"\<close> of a pid, with its terminating NUL, as \<open>create_lockfile\<close> writes it.\<close>

definition pid_contents :: "int \<Rightarrow> string" where
  "pid_contents p = take 11 (show_pad 10 (nat p)) @ [NUL]"

definition create_lockfile :: "'d sys \<Rightarrow> lck \<times> 'd sys" where
  "create_lockfile s =
     (if hibernate_ups s \<or> shutdown_ups s then (LCKSUCCESS, s)
      else case check_stale_lockfile s of
        (LCKNOLOCK, t) \<Rightarrow> (LCKSUCCESS, t)
      | (LCKEXIST, t) \<Rightarrow> (LCKSUCCESS, t)
      | (LCKERROR, t) \<Rightarrow> (LCKERROR, t)
      | (LCKSUCCESS, t) \<Rightarrow>
          (let path = lockpath (ups t)
           in if denied t path \<or> files t path \<noteq> None
              then (LCKERROR, log_event LOG_ERR
                     (''Cannot create '' @ path @ '' serial port lock file'' @ [NL])
                     (upd_ups (\<lambda>u. u\<lparr>lockfile := -1\<rparr>) t))
              else (LCKSUCCESS,
                upd_ups (\<lambda>u. u\<lparr>lockfile := -1\<rparr>)
                  (emit (Wrote path (pid_contents (pid t)))
                    (t\<lparr>files := (files t)(path \<mapsto> pid_contents (pid t))\<rparr>)))))"

definition delete_lockfile :: "'d sys \<Rightarrow> 'd sys" where
  "delete_lockfile s =
     (if lockpath (ups s) \<noteq> []
      then case check_stale_lockfile s of
             (LCKEXIST, t) \<Rightarrow> snd (unlink (lockpath (ups t)) (upd_ups (\<lambda>u. u\<lparr>lockfile := -1\<rparr>) t))
           | (_, t) \<Rightarrow> t
      else s)"

end
