(* ===== verification/Driver.thy ===== *)
theory Driver
  imports Runtime
begin

text \<open>
  The interface between the core and the UPS drivers (\<open>include/drivers.h\<close>), and the two
  power operations of \<open>src/device.c\<close> that go through it. A driver is a record of its virtual
  methods, each a step of the whole process: a driver may change \<open>UPSINFO\<close>, its own data,
  and produce effects.
\<close>

datatype devcmd =
    DEVICE_CMD_DTR_ENABLE
  | DEVICE_CMD_DTR_ST_DISABLE
  | DEVICE_CMD_GET_SELFTEST_MSG
  | DEVICE_CMD_CHECK_SELFTEST
  | DEVICE_CMD_SET_DUMB_MODE

record 'd driver =
  drv_open :: "'d sys \<Rightarrow> bool \<times> 'd sys"
  drv_close :: "'d sys \<Rightarrow> bool \<times> 'd sys"
  drv_read_static_data :: "'d sys \<Rightarrow> bool \<times> 'd sys"
  drv_read_volatile_data :: "'d sys \<Rightarrow> bool \<times> 'd sys"
  drv_get_capabilities :: "'d sys \<Rightarrow> bool \<times> 'd sys"
  drv_check_state :: "'d sys \<Rightarrow> bool \<times> 'd sys"
  drv_setup :: "'d sys \<Rightarrow> bool \<times> 'd sys"
  drv_kill_power :: "'d sys \<Rightarrow> bool \<times> 'd sys"
  drv_shutdown :: "'d sys \<Rightarrow> bool \<times> 'd sys"
  drv_entry_point :: "devcmd \<Rightarrow> 'd sys \<Rightarrow> bool \<times> 'd sys"

text \<open>The methods a driver need not override.\<close>

definition default_setup :: "'d sys \<Rightarrow> bool \<times> 'd sys" where
  "default_setup s = (True, s)"

definition default_kill_power :: "'d sys \<Rightarrow> bool \<times> 'd sys" where
  "default_kill_power s = (False, s)"

definition default_shutdown :: "'d sys \<Rightarrow> bool \<times> 'd sys" where
  "default_shutdown s = (False, s)"

definition default_entry_point :: "devcmd \<Rightarrow> 'd sys \<Rightarrow> bool \<times> 'd sys" where
  "default_entry_point c s = (False, s)"

abbreviation device_entry_point :: "'d driver \<Rightarrow> devcmd \<Rightarrow> 'd sys \<Rightarrow> 'd sys" where
  "device_entry_point D c s \<equiv> snd (drv_entry_point D c s)"

subsection \<open>Hibernation (device.c)\<close>

text \<open>The message of both the log and \<open>Error_abort\<close>, without the source position at its end.\<close>

definition cannot_find :: "string \<Rightarrow> string" where
  "cannot_find path = ''Cannot find '' @ path @ '' file.'' @ [NL] @
     '' Killpower requested in non-power fail condition or bug.'' @ [NL] @
     '' Killpower request ignored''"

definition can_open :: "string \<Rightarrow> 'd sys \<Rightarrow> bool" where
  "can_open path s \<longleftrightarrow> \<not> denied s path \<and> files s path \<noteq> None"

text \<open>The four branches behind the check of the powerfail file.\<close>

definition hibernate_now :: "'d driver \<Rightarrow> 'd sys \<Rightarrow> 'd sys" where
  "hibernate_now D s =
     run [guarded (gi_type (upsclass (ups s)) = SHAREMASTER)
            (\<lambda>t. emit (Slept 30)
                   (log_event LOG_WARNING ''Waiting 30 seconds for slave(s) to shutdown.'' t)),
          log_event LOG_WARNING ''Attempting to kill the UPS power!'',
          (\<lambda>t. if gi_type (upsclass (ups t)) = SHARESLAVE
               then log_event LOG_WARNING ''Perform CPU-reset or power-off''
                     (log_event LOG_WARNING ''Failed to have power killed by Master!''
                       (emit (Slept 60)
                         (log_event LOG_WARNING ''Waiting For ShareUPS Master to shutdown''
                           (emit (Slept 10) t))))
               else snd (drv_kill_power D t))] s"

definition initiate_hibernate :: "'d driver \<Rightarrow> 'd sys \<Rightarrow> 'd sys" where
  "initiate_hibernate D s =
     run [guarded (gi_type (mode (ups s)) = DUMB_UPS)
            (\<lambda>t. run [\<lambda>u. snd (drv_read_volatile_data D u),
                      \<lambda>u. snd (drv_read_volatile_data D u),
                      \<lambda>u. snd (drv_read_volatile_data D u)] t),
          (\<lambda>t. let pwdf = can_open (pwrfailpath (ups t)) t
               in if (\<not> pwdf \<and> gi_type (mode (ups t)) \<noteq> DUMB_UPS) \<or>
                     (\<not> pwdf \<and> is_onbatt (ups t) \<and> gi_type (mode (ups t)) = DUMB_UPS)
                  then error_abort (cannot_find (pwrfailpath (ups t)))
                         (log_event LOG_WARNING (cannot_find (pwrfailpath (ups t))) t)
                  else hibernate_now D t)] s"

definition initiate_shutdown :: "'d driver \<Rightarrow> 'd sys \<Rightarrow> 'd sys" where
  "initiate_shutdown D s =
     snd (drv_shutdown D (log_event LOG_WARNING ''Attempting to shutdown the UPS!'' s))"

subsection \<open>The contract of a driver\<close>

text \<open>
  What the core relies on, whatever the hardware: a driver does not decide about the shutdown
  of the computer, so none of its methods touches \<open>UPS_shutdown\<close> or runs the
  \<open>doshutdown\<close> script; a method that returns has released the lock as often as it took it;
  and nothing brings back a process that has called \<open>exit\<close>.
\<close>

fun is_doshutdown :: "effect \<Rightarrow> bool" where
  "is_doshutdown (Spawn (_ # command # _)) \<longleftrightarrow> command = ''doshutdown''"
| "is_doshutdown _ \<longleftrightarrow> False"

definition shutdown_count :: "'d sys \<Rightarrow> nat" where
  "shutdown_count s = length (filter is_doshutdown (trace s))"

definition quiet :: "'d sys \<Rightarrow> 'd sys \<Rightarrow> bool" where
  "quiet s t \<longleftrightarrow> is_shutdown (ups t) = is_shutdown (ups s) \<and> shutdown_count t = shutdown_count s \<and>
     (halted s \<longrightarrow> halted t) \<and> (\<not> halted t \<longrightarrow> lock_depth t = lock_depth s)"

definition driver_ops :: "'d driver \<Rightarrow> ('d sys \<Rightarrow> bool \<times> 'd sys) set" where
  "driver_ops D = {drv_open D, drv_close D, drv_read_static_data D, drv_read_volatile_data D,
     drv_get_capabilities D, drv_check_state D, drv_setup D, drv_kill_power D, drv_shutdown D}
     \<union> range (drv_entry_point D)"

named_theorems quiet_intros

lemma quiet_refl [simp, quiet_intros]: "quiet s s"
  by (simp add: quiet_def)

lemma quiet_trans: "quiet s t \<Longrightarrow> quiet t r \<Longrightarrow> quiet s r"
  by (auto simp: quiet_def)

lemma quiet_run [quiet_intros]:
  assumes "\<And>f t. f \<in> set fs \<Longrightarrow> quiet t (f t)"
  shows "quiet s (run fs s)"
  by (rule run_invariant) (auto intro: quiet_trans assms)

lemma quiet_guarded [quiet_intros]: "(b \<Longrightarrow> quiet s (f s)) \<Longrightarrow> quiet s (guarded b f s)"
  by (simp add: guarded_def)

lemma shutdown_count_simps [simp]:
  "shutdown_count (emit e s) = shutdown_count s + (if is_doshutdown e then 1 else 0)"
  "shutdown_count (upd_ups f s) = shutdown_count s"
  "shutdown_count (upd_drv g s) = shutdown_count s"
  "shutdown_count (log_event l m s) = shutdown_count s"
  "shutdown_count (snd (unlink p s)) = shutdown_count s"
  by (simp_all add: shutdown_count_def log_event_def unlink_def time_now_def emit_def upd_drv_def
      Let_def split: prod.split)

lemma shutdown_count_updates [simp]:
  "shutdown_count (s\<lparr>files := fs\<rparr>) = shutdown_count s"
  "shutdown_count (s\<lparr>clock_pos := n\<rparr>) = shutdown_count s"
  "shutdown_count (s\<lparr>fork_pos := n\<rparr>) = shutdown_count s"
  "shutdown_count (s\<lparr>wait_pos := n\<rparr>) = shutdown_count s"
  "shutdown_count (s\<lparr>halted := b\<rparr>) = shutdown_count s"
  "shutdown_count (s\<lparr>lock_depth := i\<rparr>) = shutdown_count s"
  "shutdown_count (s\<lparr>statusfile_open := b\<rparr>) = shutdown_count s"
  "shutdown_count (s\<lparr>requested_logoff := b\<rparr>) = shutdown_count s"
  "shutdown_count (s\<lparr>action_first := b\<rparr>) = shutdown_count s"
  "shutdown_count (s\<lparr>drv := d\<rparr>) = shutdown_count s"
  "shutdown_count (s\<lparr>events := txt\<rparr>) = shutdown_count s"
  "shutdown_count (s\<lparr>rep_first := b\<rparr>) = shutdown_count s"
  "shutdown_count (s\<lparr>last_time_status := i\<rparr>) = shutdown_count s"
  "shutdown_count (s\<lparr>last_time_logging := i\<rparr>) = shutdown_count s"
  "shutdown_count (s\<lparr>rep_toggle := b\<rparr>) = shutdown_count s"
  by (simp_all add: shutdown_count_def)

lemma quiet_upd_ups [quiet_intros]:
  "is_shutdown (f (ups s)) = is_shutdown (ups s) \<Longrightarrow> quiet s (upd_ups f s)"
  by (simp add: quiet_def)

lemma quiet_upd_drv [quiet_intros]: "quiet s (upd_drv f s)"
  by (simp add: quiet_def)

lemma quiet_emit [quiet_intros]: "\<not> is_doshutdown e \<Longrightarrow> quiet s (emit e s)"
  by (simp add: quiet_def)

lemma quiet_log_event [quiet_intros]: "quiet s (log_event l m s)"
  by (simp add: quiet_def)

lemma quiet_unlink [quiet_intros]: "quiet s (snd (unlink p s))"
  by (simp add: quiet_def)

lemma quiet_exit [quiet_intros]: "quiet s (error_abort m s)" "quiet s (sendsig_terminate s)"
  by (simp_all add: quiet_def error_abort_def sendsig_terminate_def)

lemma quiet_make_file [quiet_intros]: "quiet s (make_file p s)"
  by (simp add: make_file_def quiet_def)

lemma is_shutdown_lockfile [simp]: "is_shutdown (u\<lparr>lockfile := x\<rparr>) = is_shutdown u"
  by (simp add: is_shutdown_def)

lemma quiet_check_stale_lockfile [quiet_intros]: "quiet s (snd (check_stale_lockfile s))"
  by (auto simp: check_stale_lockfile_def Let_def quiet_def split_beta
      split: option.split scan.split)

lemma quiet_delete_lockfile [quiet_intros]: "quiet s (delete_lockfile s)"
  using quiet_check_stale_lockfile [of s]
  by (auto simp: delete_lockfile_def quiet_def split: prod.split lck.split)

locale ups_driver =
  fixes D :: "'d driver"
  assumes op_quiet: "f \<in> driver_ops D \<Longrightarrow> quiet s (snd (f s))"
begin

lemma ops_quiet [quiet_intros]:
  "quiet s (snd (drv_read_volatile_data D s))" "quiet s (snd (drv_kill_power D s))"
  "quiet s (snd (drv_shutdown D s))" "quiet s (snd (drv_entry_point D c s))"
  "quiet s (snd (drv_open D s))" "quiet s (snd (drv_close D s))" "quiet s (snd (drv_setup D s))"
  "quiet s (snd (drv_read_static_data D s))" "quiet s (snd (drv_get_capabilities D s))"
  "quiet s (snd (drv_check_state D s))"
  by (simp_all add: op_quiet driver_ops_def)

lemmas ops_frame = ops_quiet [unfolded quiet_def]

lemma hibernate_now_quiet: "quiet s (hibernate_now D s)"
  unfolding hibernate_now_def
  by (rule quiet_run) (auto simp: quiet_def guarded_def ops_frame split: if_splits)

lemma initiate_hibernate_quiet [quiet_intros]: "quiet s (initiate_hibernate D s)"
  unfolding initiate_hibernate_def
  using quiet_trans [OF quiet_log_event quiet_exit(1)]
  by (intro quiet_run)
    (auto simp: Let_def intro!: quiet_intros ops_quiet hibernate_now_quiet)

end

end
