(* ===== verification/Reports.thy ===== *)
theory Reports
  imports Driver
begin

text \<open>
  What the daemon tells about the UPS: the status report (\<open>src/lib/apcstatus.c\<close>), the status
  and data records of \<open>src/reports.c\<close> and the bound on the events file
  (\<open>trim_eventfile\<close> of \<open>src/lib/apcevents.c\<close>).

  \<open>output_status\<close> is called with three functions that open, write and close the report;
  they act on the process and on a buffer of their own (type \<open>'w\<close>). Each line is the text
  that \<open>printf\<close> makes of the format and its arguments in the C source.
\<close>

unbundle bit_operations_syntax

subsection \<open>The lines of a status report (apcstatus.c)\<close>

abbreviation ln :: "string \<Rightarrow> string \<Rightarrow> string" where
  "ln key value \<equiv> key @ '': '' @ value @ [NL]"

definition opt :: "bool \<Rightarrow> string \<Rightarrow> string list" where
  "opt b l = (if b then [l] else [])"

text \<open>The readable form of the status: words appended with \<open>strlcat\<close> to \<open>char status[100]\<close>.\<close>

definition status_words :: "upsinfo \<Rightarrow> (bool \<times> string) list" where
  "status_words u =
     [(is_calibration u, ''CAL ''), (is_trim u, ''TRIM ''), (is_boost u, ''BOOST ''),
      (is_online u, ''ONLINE ''), (is_onbatt u, ''ONBATT ''), (is_overload u, ''OVERLOAD ''),
      (is_battlow u, ''LOWBATT ''), (is_replacebatt u, ''REPLACEBATT ''),
      (\<not> is_battpresent u, ''NOBATT ''), (is_slave u, ''SLAVE ''),
      (is_slavedown u, ''SLAVEDOWN'')]"

definition status_text :: "upsinfo \<Rightarrow> string" where
  "status_text u =
     (let words = fold (\<lambda>(b, w) status. if b then fst (strlcat status w 100) else status)
                    (status_words u) [];
          status = (if is_commlost u then ''COMMLOST '' else words)
      in if is_shutdown u then ''SHUTTING DOWN'' else status)"

definition status_head :: "'d sys \<Rightarrow> string list" where
  "status_head s =
     (let u = ups s
      in [ln ''DATE     '' (datefmt s (poll_time u)),
          ln ''HOSTNAME '' (hostname s),
          ln ''VERSION  '' (version s)] @
         opt (upsname u \<noteq> []) (ln ''UPSNAME  '' (upsname u)) @
         [ln ''CABLE    '' (gi_long_name (cable u)),
          ln ''DRIVER   '' (gi_long_name (mode u)),
          ln ''UPSMODE  '' (gi_long_name (upsclass u)),
          ln ''STARTTIME'' (datefmt s (start_time u))] @
         opt (gi_type (sharenet u) \<noteq> DISABLE) (ln ''SHARE    '' (gi_long_name (sharenet u))) @
         (if is_slave u
          then [ln ''MASTERUPD''
                  (if last_master_connect_time u = 0 then ''No connection to Master''
                   else datefmt s (last_master_connect_time u)),
                ln ''MASTER   '' (master_name u)]
          else []) @
         opt (UPS_Cap u CI_UPSMODEL) (ln ''MODEL    '' (upsmodel u)))"

definition status_values :: "upsinfo \<Rightarrow> string list" where
  "status_values u =
     [ln ''STATUS   '' (status_text u)] @
     opt (UPS_Cap u CI_VLINE) (ln ''LINEV    '' (show_fixed 1 (LineVoltage u) @ '' Volts'')) @
     opt (UPS_Cap u CI_LOAD) (ln ''LOADPCT  '' (show_fixed 1 (UPSLoad u) @ '' Percent'')) @
     opt (UPS_Cap u CI_LOAD \<and> UPS_Cap u CI_NOMPOWER)
       (ln ''REALPOWER'' (show_fixed 1 (UPSLoad u / 100 * of_int (NomPower u)) @ '' Watts'')) @
     opt (UPS_Cap u CI_LoadApparent)
       (ln ''LOADAPNT '' (show_fixed 1 (LoadApparent u) @ '' Percent'')) @
     opt (UPS_Cap u CI_LoadApparent \<and> UPS_Cap u CI_NomApparent)
       (ln ''APPARENTPOWER''
         (show_fixed 1 (LoadApparent u / 100 * of_int (NomApparentPower u)) @ '' VA'')) @
     opt (UPS_Cap u CI_BATTLEV) (ln ''BCHARGE  '' (show_fixed 1 (BattChg u) @ '' Percent'')) @
     opt (UPS_Cap u CI_RUNTIM) (ln ''TIMELEFT '' (show_fixed 1 (TimeLeft u) @ '' Minutes'')) @
     [ln ''MBATTCHG '' (show_int (percent u) @ '' Percent''),
      ln ''MINTIMEL '' (show_int (runtime u) @ '' Minutes''),
      ln ''MAXTIME  '' (show_int (maxtime u) @ '' Seconds'')]"

text \<open>The first character of a string, NUL when it is empty.\<close>

definition char0 :: "string \<Rightarrow> char" where
  "char0 s = (case s of [] \<Rightarrow> NUL | c # _ \<Rightarrow> c)"

definition sense_text :: "char \<Rightarrow> string" where
  "sense_text c =
     (if c = CHR ''A'' then ''Auto Adjust'' else if c = CHR ''L'' then ''Low''
      else if c = CHR ''M'' then ''Medium'' else if c = CHR ''H'' then ''High''
      else ''Unknown'')"

definition alarm_text :: "char \<Rightarrow> string" where
  "alarm_text c =
     (if c = CHR ''T'' then ''30 Seconds'' else if c = CHR ''L'' then ''Low Battery''
      else if c = CHR ''N'' then ''No alarm'' else if c = CHR ''0'' then ''5 Seconds''
      else ''Always'')"

definition status_settings :: "upsinfo \<Rightarrow> string list" where
  "status_settings u =
     opt (UPS_Cap u CI_VMAX) (ln ''MAXLINEV '' (show_fixed 1 (LineMax u) @ '' Volts'')) @
     opt (UPS_Cap u CI_VMIN) (ln ''MINLINEV '' (show_fixed 1 (LineMin u) @ '' Volts'')) @
     opt (UPS_Cap u CI_VOUT) (ln ''OUTPUTV  '' (show_fixed 1 (OutputVoltage u) @ '' Volts'')) @
     opt (UPS_Cap u CI_SENS) (ln ''SENSE    '' (sense_text (char0 (sensitivity u)))) @
     opt (UPS_Cap u CI_DWAKE) (ln ''DWAKE    '' (show_int (dwake u) @ '' Seconds'')) @
     opt (UPS_Cap u CI_DSHUTD) (ln ''DSHUTD   '' (show_int (dshutd u) @ '' Seconds'')) @
     opt (UPS_Cap u CI_DLBATT) (ln ''DLOWBATT '' (show_int (dlowbatt u) @ '' Minutes'')) @
     opt (UPS_Cap u CI_LTRANS) (ln ''LOTRANS  '' (show_int (lotrans u) @ ''.0 Volts'')) @
     opt (UPS_Cap u CI_HTRANS) (ln ''HITRANS  '' (show_int (hitrans u) @ ''.0 Volts'')) @
     opt (UPS_Cap u CI_RETPCT) (ln ''RETPCT   '' (show_int (rtnpct u) @ ''.0 Percent'')) @
     opt (UPS_Cap u CI_ITEMP) (ln ''ITEMP    '' (show_fixed 1 (UPSTemp u) @ '' C'')) @
     opt (UPS_Cap u CI_DALARM) (ln ''ALARMDEL '' (alarm_text (char0 (beepstate u)))) @
     opt (UPS_Cap u CI_VBATT) (ln ''BATTV    '' (show_fixed 1 (BattVoltage u) @ '' Volts'')) @
     opt (UPS_Cap u CI_FREQ) (ln ''LINEFREQ '' (show_fixed 1 (LineFreq u) @ '' Hz'')) @
     opt (UPS_Cap u CI_OutputCurrent)
       (ln ''OUTCURNT '' (show_fixed 2 (OutputCurrent u) @ '' Amps''))"

fun xfer_text :: "LastXferCause \<Rightarrow> string option" where
  "xfer_text XFER_NONE = Some ''No transfers since turnon''"
| "xfer_text XFER_SELFTEST = Some ''Automatic or explicit self test''"
| "xfer_text XFER_FORCED = Some ''Forced by software''"
| "xfer_text XFER_UNDERVOLT = Some ''Low line voltage''"
| "xfer_text XFER_OVERVOLT = Some ''High line voltage''"
| "xfer_text XFER_RIPPLE = Some ''Unacceptable line voltage changes''"
| "xfer_text XFER_NOTCHSPIKE = Some ''Line voltage notch or spike''"
| "xfer_text XFER_FREQ = Some ''Input frequency out of range''"
| "xfer_text XFER_UNKNOWN = Some ''UNKNOWN EVENT''"
| "xfer_text XFER_NA = None"

definition time_on_batt :: "int \<Rightarrow> upsinfo \<Rightarrow> int" where
  "time_on_batt now u =
     (if is_onbatt u \<and> last_onbatt_time u > 0 then now - last_onbatt_time u else 0)"

definition status_transfers :: "int \<Rightarrow> 'd sys \<Rightarrow> string list" where
  "status_transfers now s =
     (let u = ups s
      in (case xfer_text (lastxfer u) of None \<Rightarrow> [] | Some t \<Rightarrow> [ln ''LASTXFER '' t]) @
         [ln ''NUMXFERS '' (show_int (num_xfers u))] @
         opt (num_xfers u > 0) (ln ''XONBATT  '' (datefmt s (last_onbatt_time u))) @
         [ln ''TONBATT  '' (show_int (time_on_batt now u) @ '' Seconds''),
          ln ''CUMONBATT'' (show_int (cum_time_on_batt u + time_on_batt now u) @ '' Seconds''),
          ln ''XOFFBATT '' (if last_offbatt_time u > 0 then datefmt s (last_offbatt_time u)
                            else ''N/A'')] @
         opt (LastSelfTest u \<noteq> 0) (ln ''LASTSTEST'' (datefmt s (LastSelfTest u))))"

fun selftest_text :: "SelfTestResult \<Rightarrow> string option" where
  "selftest_text TEST_NONE = Some ''NO''"
| "selftest_text TEST_FAILED = Some ''NG''"
| "selftest_text TEST_WARNING = Some ''WN''"
| "selftest_text TEST_INPROGRESS = Some ''IP''"
| "selftest_text TEST_PASSED = Some ''OK''"
| "selftest_text TEST_FAILCAP = Some ''BT''"
| "selftest_text TEST_FAILLOAD = Some ''NG''"
| "selftest_text TEST_UNKNOWN = Some ''??''"
| "selftest_text TEST_NA = None"

definition status_raw :: "upsinfo \<Rightarrow> string list" where
  "status_raw u =
     (case selftest_text (testresult u) of None \<Rightarrow> [] | Some t \<Rightarrow> [ln ''SELFTEST '' t]) @
     opt (UPS_Cap u CI_STESTI) (ln ''STESTI   '' (selftest u)) @
     [ln ''STATFLAG '' (''0x'' @ show_hex_pad 8 (unat (Status u)))] @
     opt (UPS_Cap u CI_DIPSW) (ln ''DIPSW    '' (''0x'' @ show_hex_pad 2 (dipsw u))) @
     opt (UPS_Cap u CI_REG1) (ln ''REG1     '' (''0x'' @ show_hex_pad 2 (reg1 u))) @
     opt (UPS_Cap u CI_REG2) (ln ''REG2     '' (''0x'' @ show_hex_pad 2 (reg2 u))) @
     opt (UPS_Cap u CI_REG3) (ln ''REG3     '' (''0x'' @ show_hex_pad 2 (reg3 u))) @
     opt (UPS_Cap u CI_MANDAT) (ln ''MANDATE  '' (birth u)) @
     opt (UPS_Cap u CI_SERNO) (ln ''SERIALNO '' (serial u)) @
     opt (UPS_Cap u CI_BATTDAT \<or> UPS_Cap u CI_BattReplaceDate) (ln ''BATTDATE '' (battdat u)) @
     opt (UPS_Cap u CI_NOMOUTV) (ln ''NOMOUTV  '' (show_int (NomOutputVoltage u) @ '' Volts'')) @
     opt (UPS_Cap u CI_NOMINV) (ln ''NOMINV   '' (show_int (NomInputVoltage u) @ '' Volts'')) @
     opt (UPS_Cap u CI_NOMBATTV) (ln ''NOMBATTV '' (show_fixed 1 (nombattv u) @ '' Volts'')) @
     opt (UPS_Cap u CI_NOMPOWER) (ln ''NOMPOWER '' (show_int (NomPower u) @ '' Watts'')) @
     opt (UPS_Cap u CI_NomApparent) (ln ''NOMAPNT  '' (show_int (NomApparentPower u) @ '' VA'')) @
     opt (UPS_Cap u CI_HUMID) (ln ''HUMIDITY '' (show_fixed 1 (humidity u) @ '' Percent'')) @
     opt (UPS_Cap u CI_ATEMP) (ln ''AMBTEMP  '' (show_fixed 1 (ambtemp u) @ '' C'')) @
     opt (UPS_Cap u CI_EXTBATTS) (ln ''EXTBATTS '' (show_int (extbatts u))) @
     opt (UPS_Cap u CI_BADBATTS) (ln ''BADBATTS '' (show_int (badbatts u))) @
     opt (UPS_Cap u CI_REVNO) (ln ''FIRMWARE '' (firmrev u))"

definition status_lines :: "int \<Rightarrow> 'd sys \<Rightarrow> string list" where
  "status_lines now s =
     status_head s @ status_values (ups s) @ status_settings (ups s) @
     status_transfers now s @ status_raw (ups s)"

text \<open>
  The lock is held from the first line to the last but one. The lines are computed from the
  locked \<open>UPSINFO\<close>, which the writers do not change.
\<close>

definition output_status ::
    "('d sys \<times> 'w \<Rightarrow> 'd sys \<times> 'w) \<Rightarrow> (string \<Rightarrow> 'd sys \<times> 'w \<Rightarrow> 'd sys \<times> 'w) \<Rightarrow>
     ('d sys \<times> 'w \<Rightarrow> int \<times> 'd sys \<times> 'w) \<Rightarrow> 'd sys \<times> 'w \<Rightarrow> int \<times> 'd sys \<times> 'w" where
  "output_status s_open s_write s_close sw =
     (let (now, s1) = time_now (fst sw);
          (s2, w2) = s_open (s1, snd sw);
          s3 = upd_ups (\<lambda>u. if poll_time u = 0 then u\<lparr>poll_time := now\<rparr> else u) (write_lock s2);
          (s4, w4) = fold s_write (status_lines now s3) (s3, w2)
      in s_close (s_write (ln ''END APC  '' (datefmt s4 now)) (write_unlock s4, w4)))"

subsection \<open>The status file and the data records (reports.c)\<close>

text \<open>
  The writer of the status file: its buffer \<open>largebuf\<close> of 4096 bytes and \<open>stat_recs\<close>;
  \<open>rp_logstats\<close> is the copy taken when the report is opened.
\<close>

record report =
  rp_buf :: string
  rp_recs :: nat
  rp_logstats :: int

definition log_status_open :: "'d sys \<times> report \<Rightarrow> 'd sys \<times> report" where
  "log_status_open = (\<lambda>(s, w).
     (s, \<lparr>rp_buf = [], rp_recs = 0, rp_logstats = logstats (ups s)\<rparr>))"

text \<open>\<open>vsnprintf\<close> into \<open>char buf[MAXSTRING]\<close>, then \<open>strncat\<close> into \<open>largebuf\<close>.\<close>

definition log_status_write :: "string \<Rightarrow> 'd sys \<times> report \<Rightarrow> 'd sys \<times> report" where
  "log_status_write line = (\<lambda>(s, w).
     (s, w\<lparr>rp_buf := rp_buf w @ take (4096 - length (rp_buf w) - 1) (take 255 line),
           rp_recs := rp_recs w + 1\<rparr>))"

text \<open>The complete lines of a text, without their newlines; what follows the last is left out.\<close>

fun text_lines :: "string \<Rightarrow> string \<Rightarrow> string list" where
  "text_lines acc [] = []"
| "text_lines acc (c # cs) =
     (if c = NL then acc # text_lines [] cs else text_lines (acc @ [c]) cs)"

definition report_header :: "nat \<Rightarrow> nat \<Rightarrow> string" where
  "report_header recs bytes =
     take 255 (''APC      : 001,'' @ show_pad 3 recs @ '','' @ show_pad 4 bytes @ [NL])"

text \<open>
  \<open>fputs\<close> after \<open>rewind\<close>: the text replaces the start of the file, and whatever is behind it
  stays.
\<close>

definition write_at_start :: "string \<Rightarrow> string \<Rightarrow> string" where
  "write_at_start txt old = txt @ drop (length txt) old"

text \<open>
  The records that go to the log are passed as the format of \<open>log_event\<close>; the model is that
  of a text with no percent sign in it.
\<close>

definition log_status_close :: "'d sys \<times> report \<Rightarrow> int \<times> 'd sys \<times> report" where
  "log_status_close = (\<lambda>(s, w).
     let i = length (rp_buf w); head = report_header (rp_recs w) i; path = statfile (ups s)
     in if i > 4096 - 1
        then (-1, log_event LOG_ERR (''Status buffer overflow '' @ show_int (int i - 4096) @ '' bytes'' @ [NL]) s, w)
        else (let s1 = s\<lparr>files := (files s)(path :=
                         map_option (write_at_start (head @ rp_buf w)) (files s path))\<rparr>
              in (0, if rp_logstats w = 0 then s1
                     else fold (log_event LOG_NOTICE)
                            (butlast head # text_lines [] (rp_buf w)) s1, w)))"

definition data_record :: "'d sys \<Rightarrow> string" where
  "data_record s =
     (let u = ups s; f1 = (\<lambda>x. show_fixed_pad 5 1 x @ '','')
      in f1 (LineMin u) @ f1 (LineMax u) @ f1 (OutputVoltage u) @
         show_fixed_pad 5 2 (BattVoltage u) @ '','' @ show_fixed_pad 5 2 (LineFreq u) @ '','' @
         show_fixed_pad 4 1 (UPSLoad u) @ '','' @ show_fixed_pad 4 1 (UPSTemp u) @ '','' @
         f1 (ambtemp u) @ f1 (humidity u) @ f1 (LineVoltage u) @ f1 (BattChg u) @
         (if rep_toggle s then ''1'' else ''0''))"

definition log_data :: "'d sys \<Rightarrow> 'd sys" where
  "log_data s =
     (let u = ups s; m = gi_type (mode u)
      in if datatime u = 0 then s
         else if m = DUMB_UPS
         then log_event LOG_INFO
                (if \<not> is_onbatt u
                 then ''LINEFAIL:OK BATTSTAT:'' @ (if \<not> is_replacebatt u then ''OK'' else ''REPLACE'')
                 else ''LINEFAIL:DOWN BATTSTAT:'' @
                      (if \<not> is_battlow u then ''RUNNING'' else ''FAILING'')) s
         else if m \<in> {USB_UPS, TEST_UPS, NETWORK_UPS, APCSMART_UPS, PCNET_UPS, SNMPLITE_UPS}
         then (let t = s\<lparr>rep_toggle := \<not> rep_toggle s\<rparr> in log_event LOG_INFO (data_record t) t)
         else s)"

subsection \<open>The events file (apcevents.c)\<close>

text \<open>
  What is left of the last \<open>maxb\<close> bytes: everything behind their first newline (nothing, if
  there is none).
\<close>

fun skip_line :: "string \<Rightarrow> string" where
  "skip_line [] = []"
| "skip_line (c # cs) = (if c = NL then cs else skip_line cs)"

definition trim_text :: "nat \<Rightarrow> string \<Rightarrow> string" where
  "trim_text maxb txt = skip_line (drop (length txt - maxb) txt)"

text \<open>
  Without the failures of \<open>stat\<close>, \<open>lseek\<close>, \<open>read\<close> and \<open>write\<close>; \<open>malloc\<close> fails for a
  negative size only. The size is computed in a 32-bit \<open>int\<close>, whose division truncates.
\<close>

definition int32 :: "int \<Rightarrow> int" where
  "int32 x = (x + 2 ^ 31) mod 2 ^ 32 - 2 ^ 31"

definition trim_size :: "int \<Rightarrow> int" where
  "trim_size maxb = (let p = int32 (maxb * 80) in if p < 0 then - (- p div 100) else p div 100)"

definition trim_eventfile :: "'d sys \<Rightarrow> int \<times> 'd sys" where
  "trim_eventfile s =
     (let u = ups s; maxb = int32 (eventfilemax u * 1024)
      in if eventfilemax u = 0 \<or> event_fd u < 0 \<or> eventfile u = [] then (0, s)
         else if int (length (events s)) \<le> maxb then (0, s)
         else if trim_size maxb < 0 then (-1, s)
         else (let t = write_lock s
               in (1, write_unlock (t\<lparr>events := trim_text (nat (trim_size maxb)) (events t)\<rparr>))))"

subsection \<open>do_reports\<close>

definition reports_init :: "'d sys \<Rightarrow> 'd sys" where
  "reports_init s =
     (if rep_first s
      then let t = s\<lparr>rep_first := False, last_time_logging := 0, last_time_status := 0\<rparr>;
               path = statfile (ups t)
           in if stattime (ups t) \<noteq> 0
              then if denied t path
                   then log_event LOG_ERR (''Cannot open STATUS file '' @ path @ [NL]) t
                   else (emit (Created path) t)
                          \<lparr>files := (files t)(path \<mapsto> []), statusfile_open := True\<rparr>
              else snd (unlink path t)
      else s)"

definition do_reports :: "'d sys \<Rightarrow> 'd sys" where
  "do_reports s =
     (let (now, s0) = time_now s;
          s1 = reports_init s0;
          s2 = (if datatime (ups s1) > 0 \<and> now - last_time_logging s1 \<ge> datatime (ups s1)
                then log_data (s1\<lparr>last_time_logging := now\<rparr>) else s1);
          s3 = (if statusfile_open s2 \<and> now - last_time_status s2 \<ge> stattime (ups s2)
                then fst (snd (output_status log_status_open log_status_write log_status_close
                       (s2\<lparr>last_time_status := now\<rparr>, \<lparr>rp_buf = [], rp_recs = 0, rp_logstats = 0\<rparr>)))
                else s2)
      in snd (trim_eventfile s3))"

subsection \<open>Laws\<close>

lemma rep_quiet_updates [simp]:
  "quiet s (t\<lparr>rep_first := b\<rparr>) = quiet s t" "quiet s (t\<lparr>last_time_status := i\<rparr>) = quiet s t"
  "quiet s (t\<lparr>last_time_logging := i\<rparr>) = quiet s t" "quiet s (t\<lparr>rep_toggle := b\<rparr>) = quiet s t"
  "quiet s (t\<lparr>files := f\<rparr>) = quiet s t" "quiet s (t\<lparr>events := txt\<rparr>) = quiet s t"
  "quiet s (t\<lparr>statusfile_open := b\<rparr>) = quiet s t" "quiet s (t\<lparr>clock_pos := n\<rparr>) = quiet s t"
  by (simp_all add: quiet_def)

lemma quiet_fold_log: "quiet s t \<Longrightarrow> quiet s (fold (log_event l) msgs t)"
  by (induction msgs arbitrary: t) (auto intro: quiet_trans [OF _ quiet_log_event])

lemma is_shutdown_poll_time [simp]: "is_shutdown (u\<lparr>poll_time := x\<rparr>) = is_shutdown u"
  by (simp add: is_shutdown_def)

text \<open>
  Writers that only use their own buffer and the log leave the process as quiet as they found
  it, so the whole report does, and gives the lock back.
\<close>

lemma output_status_quiet:
  assumes "\<And>s w. quiet s (fst (s_open (s, w)))" "\<And>l s w. quiet s (fst (s_write l (s, w)))"
    "\<And>s w. quiet s (fst (snd (s_close (s, w))))"
  shows "quiet s (fst (snd (output_status s_open s_write s_close (s, w))))"
proof -
  have writes: "quiet a (fst (fold s_write ls (a, w)))" for ls a w
  proof (induction ls arbitrary: a w)
    case (Cons l ls)
    obtain a' w' where step: "s_write l (a, w) = (a', w')" by force
    then have "quiet a a'" using assms(2) [of a l w] by simp
    with step show ?case using quiet_trans [OF _ Cons.IH] by simp
  qed simp
  obtain s2 w2 where o: "s_open (snd (time_now s), w) = (s2, w2)" by force
  define s3 where "s3 = upd_ups (\<lambda>u. if poll_time u = 0 then u\<lparr>poll_time := fst (time_now s)\<rparr> else u)
    (write_lock s2)"
  obtain s4 w4 where f: "fold s_write (status_lines (fst (time_now s)) s3) (s3, w2) = (s4, w4)"
    by force
  have eq: "output_status s_open s_write s_close (s, w) =
      s_close (s_write (ln ''END APC  '' (datefmt s4 (fst (time_now s)))) (write_unlock s4, w4))"
    using f unfolding output_status_def s3_def by (simp add: split_beta o)
  have "quiet s s2"
    using assms(1) [of "snd (time_now s)" w] o by (simp add: time_now_def quiet_def)
  moreover have "quiet s3 s4" using writes [of s3 _ w2] f by (metis fst_conv)
  ultimately have "quiet s (write_unlock s4)"
    by (auto simp: s3_def quiet_def write_lock_def write_unlock_def shutdown_count_def)
  moreover have "quiet (write_unlock s4) (fst (snd (s_close (s_write l (write_unlock s4, w4)))))"
    for l
    using quiet_trans [OF assms(2) assms(3)] by (metis prod.collapse)
  ultimately show ?thesis
    unfolding eq by (rule quiet_trans)
qed

lemma log_status_quiet:
  "quiet s (fst (log_status_open (s, w)))" "quiet s (fst (log_status_write l (s, w)))"
  "quiet s (fst (snd (log_status_close (s, w))))"
  by (simp_all add: log_status_open_def log_status_write_def log_status_close_def Let_def
      quiet_log_event quiet_fold_log quiet_trans [OF _ quiet_log_event])

lemma trim_eventfile_quiet: "quiet s (snd (trim_eventfile s))"
  by (simp add: trim_eventfile_def Let_def quiet_def write_lock_def write_unlock_def
      shutdown_count_def)

lemma reports_init_quiet: "quiet s (reports_init s)"
  by (simp add: reports_init_def Let_def quiet_def)

lemma log_data_quiet: "quiet s (log_data s)"
  by (simp add: log_data_def Let_def quiet_def)

lemma do_reports_quiet: "quiet s (do_reports s)"
proof -
  define now where "now = fst (time_now s)"
  define s1 where "s1 = reports_init (snd (time_now s))"
  define s2 where "s2 = (if datatime (ups s1) > 0 \<and> now - last_time_logging s1 \<ge> datatime (ups s1)
    then log_data (s1\<lparr>last_time_logging := now\<rparr>) else s1)"
  define s3 where "s3 = (if statusfile_open s2 \<and> now - last_time_status s2 \<ge> stattime (ups s2)
    then fst (snd (output_status log_status_open log_status_write log_status_close
                       (s2\<lparr>last_time_status := now\<rparr>, \<lparr>rp_buf = [], rp_recs = 0, rp_logstats = 0\<rparr>)))
    else s2)"
  have "quiet s s1"
    using reports_init_quiet [of "snd (time_now s)"]
    by (simp add: s1_def time_now_def quiet_def)
  moreover have "quiet s1 s2"
    using log_data_quiet [of "s1\<lparr>last_time_logging := now\<rparr>"]
    by (simp add: s2_def quiet_def)
  moreover have "quiet s2 s3"
    using output_status_quiet [OF log_status_quiet, of "s2\<lparr>last_time_status := now\<rparr>"]
    by (simp add: s3_def quiet_def)
  moreover have "do_reports s = snd (trim_eventfile s3)"
    unfolding do_reports_def Let_def split_beta s3_def s2_def s1_def now_def by (rule refl)
  ultimately show ?thesis
    using trim_eventfile_quiet [of s3] by (metis quiet_trans)
qed

text \<open>No word of the status is cut off: together they fit the buffer of 100 bytes.\<close>

lemma strlcat_all:
  "length acc + length (concat (map snd ws)) < sz \<Longrightarrow>
   fold (\<lambda>(b, w) st. if b then fst (strlcat st w sz) else st) ws acc =
   acc @ concat (map snd (filter fst ws))"
proof (induction ws arbitrary: acc)
  case (Cons x ws)
  obtain b w where x: "x = (b, w)" by force
  show ?case
  proof (cases b)
    case True
    from Cons.prems have "strlcat acc w sz = (acc @ w, length acc + length w)"
      by (simp add: x strlcat_fits)
    then show ?thesis using Cons.IH [of "acc @ w"] Cons.prems True by (simp add: x)
  next
    case False
    then show ?thesis using Cons.IH [of acc] Cons.prems by (simp add: x)
  qed
qed simp

lemma status_text_words:
  "\<not> is_shutdown u \<Longrightarrow> \<not> is_commlost u \<Longrightarrow>
   status_text u = concat (map snd (filter fst (status_words u)))"
  unfolding status_text_def Let_def
  by (subst strlcat_all) (simp_all add: status_words_def)

text \<open>
  The readable status is the words of all the conditions that hold, in a fixed order and none
  of them cut off by the buffer; a lost UPS and a shutdown replace them all.
\<close>

theorem status_text_complete:
  "status_text u =
     (if is_shutdown u then ''SHUTTING DOWN'' else if is_commlost u then ''COMMLOST ''
      else concat (map snd (filter fst (status_words u))))"
proof (cases "is_shutdown u \<or> is_commlost u")
  case True
  then show ?thesis by (auto simp: status_text_def Let_def)
next
  case False
  then show ?thesis using status_text_words [of u] by simp
qed

lemma skip_line_suffix: "skip_line tx = [] \<or> (\<exists>p. tx = p @ NL # skip_line tx)"
proof (induction tx)
  case (Cons c cs)
  then show ?case by (auto intro: exI [of _ "[]"] exI [of _ "c # _"])
qed simp

lemma skip_line_length: "length (skip_line tx) \<le> length tx"
  by (induction tx) auto

lemma skip_line_most: "length q \<le> length (skip_line (p @ NL # q))"
  by (induction p) auto

lemma int32_small: "- (2 ^ 31) \<le> x \<Longrightarrow> x < 2 ^ 31 \<Longrightarrow> int32 x = x"
  by (simp add: int32_def)

lemma int32_wrapped: "2 ^ 31 \<le> x \<Longrightarrow> x < 2 ^ 32 \<Longrightarrow> int32 x = x - 2 ^ 32"
proof -
  assume x: "2 ^ 31 \<le> x" "x < 2 ^ 32"
  have "(x + 2 ^ 31) mod 2 ^ 32 = ((x - 2 ^ 31) + 2 ^ 32) mod 2 ^ 32"
    by (simp add: add.commute)
  also have "\<dots> = (x - 2 ^ 31) mod 2 ^ 32" by (rule mod_add_self2)
  also have "\<dots> = x - 2 ^ 31" using x by (intro mod_pos_pos_trivial) simp_all
  finally show ?thesis by (simp add: int32_def)
qed

lemma log_status_write_bound:
  "length (rp_buf w) \<le> 4095 \<Longrightarrow> length (rp_buf (snd (log_status_write l (s, w)))) \<le> 4095"
  by (simp add: log_status_write_def)

subsection \<open>The lines of a report\<close>

text \<open>The lines of the report that \<open>output_status\<close> writes when it starts in \<open>s\<close>.\<close>

definition report_state :: "'d sys \<Rightarrow> 'd sys" where
  "report_state s = upd_ups (\<lambda>u. if poll_time u = 0 then u\<lparr>poll_time := fst (time_now s)\<rparr> else u)
     (write_lock (snd (time_now s)))"

definition report_lines :: "'d sys \<Rightarrow> string list" where
  "report_lines s =
     status_lines (fst (time_now s)) (report_state s) @ [ln ''END APC  '' (datefmt s (fst (time_now s)))]"

lemma report_state_frame [simp]:
  "datefmt (report_state s) = datefmt s" "files (report_state s) = files s"
  "statfile (ups (report_state s)) = statfile (ups s)" "trace (report_state s) = trace s"
  "logstats (ups (report_state s)) = logstats (ups s)"
  by (simp_all add: report_state_def time_now_def write_lock_def upd_ups_def)

text \<open>A writer that takes every line without touching the process ends in the closing function.\<close>

lemma output_status_written:
  assumes "s_open (snd (time_now s), w) = (snd (time_now s), w2)"
    and "\<And>n t. n \<le> length (report_lines s) \<Longrightarrow> fold s_write (take n (report_lines s)) (t, w2) = (t, W n)"
  shows "output_status s_open s_write s_close (s, w) =
    s_close (write_unlock (report_state s), W (length (report_lines s)))"
proof -
  let ?ls = "status_lines (fst (time_now s)) (report_state s)"
  let ?eof = "ln ''END APC  '' (datefmt s (fst (time_now s)))"
  have ls: "report_lines s = ?ls @ [?eof]" by (simp add: report_lines_def)
  have body: "fold s_write ?ls (t, w2) = (t, W (length ?ls))" for t
    using assms(2) [of "length ?ls" t] by (simp add: ls)
  have last: "s_write ?eof (t, W (length ?ls)) = (t, W (length (report_lines s)))" for t
    using assms(2) [of "length (report_lines s)" t] body [of t] by (simp add: ls)
  show ?thesis
    using body last [of "write_unlock (report_state s)"]
    by (simp add: output_status_def split_beta assms(1) report_state_def [symmetric])
qed

lemma fold_log_status_write:
  "\<forall>l\<in>set ls. length l \<le> 255 \<Longrightarrow> length (rp_buf w) + length (concat ls) \<le> 4095 \<Longrightarrow>
   fold log_status_write ls (s, w) =
     (s, w\<lparr>rp_buf := rp_buf w @ concat ls, rp_recs := rp_recs w + length ls\<rparr>)"
  by (induction ls arbitrary: w) (simp_all add: log_status_write_def)

text \<open>The report of a UPS that has just been set up, as an example.\<close>

definition demo_master :: "unit sys" where
  "demo_master = (start_sys ())\<lparr>datefmt := (\<lambda>_. ''now'')\<rparr>"

definition demo_lines :: "string list" where
  "demo_lines = map (\<lambda>l. l @ [NL])
     [''DATE     : now'', ''HOSTNAME : host'', ''VERSION  : 3.14'', ''CABLE    : '', ''DRIVER   : '',
      ''UPSMODE  : '', ''STARTTIME: now'', ''SHARE    : '', ''STATUS   : '', ''MBATTCHG : 0 Percent'',
      ''MINTIMEL : 0 Minutes'', ''MAXTIME  : 0 Seconds'', ''NUMXFERS : 0'', ''TONBATT  : 0 Seconds'',
      ''CUMONBATT: 0 Seconds'', ''XOFFBATT : N/A'']"

lemma demo_master_ups: "ups demo_master = new_ups"
  by (simp add: demo_master_def start_sys_def)

lemma demo_show: "show_int 0 = ''0''" "show_hex_pad 8 0x4000000 = ''04000000''"
  apply (simp_all add: show_int_def show_nat.simps show_hex_pad_def show_hex.simps hex_digit_def)
  by code_simp+

lemma new_ups_flags:
  "\<not> is_slave new_ups" "\<not> is_calibration new_ups" "\<not> is_trim new_ups" "\<not> is_boost new_ups"
  "\<not> is_online new_ups" "\<not> is_onbatt new_ups" "\<not> is_overload new_ups" "\<not> is_battlow new_ups"
  "\<not> is_replacebatt new_ups" "is_battpresent new_ups" "\<not> is_slavedown new_ups"
  "\<not> is_commlost new_ups" "\<not> is_shutdown new_ups" "Status new_ups = 0x4000000"
  by (simp_all add: new_ups_def set_battpresent_def zero_ups_def is_bits is_online_bit
      UPS_battpresent_def bit_iff_odd drop_bit_eq_div)

lemma new_ups_fields:
  "poll_time new_ups = 0" "upsname new_ups = []" "gi_long_name (cable new_ups) = []"
  "gi_long_name (mode new_ups) = []" "gi_long_name (upsclass new_ups) = []"
  "gi_long_name (sharenet new_ups) = []" "gi_type (sharenet new_ups) = 0"
  "UPS_Cap new_ups = (\<lambda>_. False)" "start_time new_ups = 0" "lastxfer new_ups = XFER_NA"
  "testresult new_ups = TEST_NA" "num_xfers new_ups = 0" "last_onbatt_time new_ups = 0"
  "last_offbatt_time new_ups = 0" "LastSelfTest new_ups = 0" "cum_time_on_batt new_ups = 0"
  "percent new_ups = 0" "runtime new_ups = 0" "maxtime new_ups = 0"
  by (simp_all add: new_ups_def set_battpresent_def zero_ups_def zero_geninfo_def)

lemma poll_time_flags:
  "is_slave (u\<lparr>poll_time := i\<rparr>) = is_slave u" "is_onbatt (u\<lparr>poll_time := i\<rparr>) = is_onbatt u"
  by (simp_all add: is_bits)

lemma poll_time_status: "status_text (u\<lparr>poll_time := i\<rparr>) = status_text u"
  by (simp add: status_text_def status_words_def is_bits is_online_bit)

lemma new_ups_status: "status_text new_ups = []"
  by (simp add: status_text_def status_words_def new_ups_flags)

lemma demo_report:
  "report_lines demo_master =
     demo_lines @ ln ''STATFLAG '' (''0x'' @ show_hex_pad 8 (unat (Status (ups demo_master)))) # [''END APC  : now'' @ [NL]]"
  by (simp add: report_lines_def demo_master_def start_sys_def time_now_def write_lock_def
      status_lines_def status_head_def status_values_def status_settings_def status_transfers_def
      status_raw_def opt_def new_ups_fields poll_time_flags new_ups_flags poll_time_status
      new_ups_status time_on_batt_def report_state_def demo_show demo_lines_def Let_def upd_ups_def)

lemma demo_report_size:
  "length (concat (report_lines demo_master)) = 292" "length (report_lines demo_master) = 18"
  by (simp_all add: demo_report demo_master_ups demo_lines_def new_ups_flags demo_show)

lemma demo_header: "report_header 18 292 = ''APC      : 001,018,0292'' @ [NL]"
  apply (simp add: report_header_def show_pad_def show_nat.simps)
  by code_simp

text \<open>
  The status file after a report, as long as the report fits its buffer: the header and the
  lines of the report - and behind them, because the file is rewound but not truncated, whatever
  a longer earlier content had there.
\<close>

theorem status_file_holds_report:
  assumes "\<forall>l\<in>set (report_lines s). length l \<le> 255" "length (concat (report_lines s)) \<le> 4095"
    and "files s (statfile (ups s)) = Some old"
    and "txt = report_header (length (report_lines s)) (length (concat (report_lines s))) @
      concat (report_lines s)"
  shows "files (fst (snd (output_status log_status_open log_status_write log_status_close (s, w))))
    (statfile (ups s)) = Some (txt @ drop (length txt) old)"
proof -
  let ?w0 = "\<lparr>rp_buf = [], rp_recs = 0, rp_logstats = logstats (ups s)\<rparr>"
  let ?W = "\<lambda>n. ?w0\<lparr>rp_buf := concat (take n (report_lines s)), rp_recs := n\<rparr>"
  have frame: "files (fold (log_event l) ms t) = files t" for l ms and t :: "'a sys"
    by (induction ms arbitrary: t) simp_all
  have part: "length (concat (take n (report_lines s))) \<le> 4095" for n
    using assms(2) by (metis (no_types) append_take_drop_id concat_append le_add1 le_trans length_append)
  have lines: "\<forall>l\<in>set (take n (report_lines s)). length l \<le> 255" for n
    using assms(1) by (meson in_set_takeD)
  have "fold log_status_write (take n (report_lines s)) (t, ?w0) = (t, ?W n)"
    if "n \<le> length (report_lines s)" for n and t :: "'a sys"
    using fold_log_status_write [OF lines, of ?w0 n t] part [of n] that by simp
  then have eq: "output_status log_status_open log_status_write log_status_close (s, w) =
      log_status_close (write_unlock (report_state s), ?W (length (report_lines s)))"
    by (intro output_status_written [where ?w2.0 = ?w0])
      (simp_all add: log_status_open_def time_now_def)
  show ?thesis
    unfolding eq using assms(2,3)
    by (simp add: log_status_close_def Let_def frame write_unlock_def write_at_start_def assms(4))
qed

definition reporting_sys :: "unit sys" where
  "reporting_sys = upd_ups (\<lambda>u. u\<lparr>statfile := ''st''\<rparr>)
     (demo_master\<lparr>files := [''st'' \<mapsto> replicate 400 (CHR ''x'')]\<rparr>)"

lemma reporting_sys: "report_lines reporting_sys = report_lines demo_master"
  by (simp add: reporting_sys_def report_lines_def report_state_def time_now_def write_lock_def
      upd_ups_def demo_master_def start_sys_def status_lines_def status_head_def status_values_def
      status_settings_def status_transfers_def status_raw_def status_text_def status_words_def
      opt_def new_ups_fields is_bits is_online_bit Let_def time_on_batt_def)

theorem status_file_holds_report_witness:
  "\<exists>rest. files (fst (snd (output_status log_status_open log_status_write log_status_close
     (reporting_sys, \<lparr>rp_buf = [], rp_recs = 0, rp_logstats = 0\<rparr>)))) ''st'' =
   Some (report_header 18 292 @ concat (report_lines demo_master) @ rest) \<and> rest \<noteq> []"
proof -
  have size: "length (report_lines reporting_sys) = 18" "length (concat (report_lines reporting_sys)) = 292"
    by (simp_all only: reporting_sys demo_report_size)
  have lines: "\<forall>l\<in>set (report_lines reporting_sys). length l \<le> 255"
    by (simp add: reporting_sys demo_report demo_master_ups demo_lines_def new_ups_flags demo_show)
  have old: "files reporting_sys (statfile (ups reporting_sys)) = Some (replicate 400 (CHR ''x''))"
    by (simp add: reporting_sys_def upd_ups_def)
  have "statfile (ups reporting_sys) = ''st''" by (simp add: reporting_sys_def upd_ups_def)
  then show ?thesis
    using status_file_holds_report [OF lines _ old refl] size
    by (simp add: reporting_sys demo_header)
qed

text \<open>
  Trimming keeps the tail of the events file: at most 80 percent of the maximum, starting
  behind a newline, and with as much of the last 80 percent as can be kept that way.
\<close>

theorem trim_eventfile_keeps_tail:
  assumes "0 < eventfilemax (ups s)" "eventfilemax (ups s) \<le> 26214"
    and "0 \<le> event_fd (ups s)" "eventfile (ups s) \<noteq> []"
    and "eventfilemax (ups s) * 1024 < int (length (events s))"
    and "trim_eventfile s = (r, t)" "size80 = eventfilemax (ups s) * 1024 * 80 div 100"
  shows "r = 1 \<and> lock_depth t = lock_depth s \<and>
    (\<exists>p. events s = p @ events t \<and> (events t \<noteq> [] \<longrightarrow> last p = NL)) \<and>
    int (length (events t)) \<le> size80 \<and>
    (\<forall>p q. events s = p @ NL # q \<longrightarrow> int (length q) < size80 \<longrightarrow> length q \<le> length (events t))"
proof -
  have max: "int32 (eventfilemax (ups s) * 1024) = eventfilemax (ups s) * 1024"
    "trim_size (eventfilemax (ups s) * 1024) = size80"
    using assms(1,2,7) by (simp_all add: int32_small trim_size_def)
  have size: "0 \<le> size80" "nat size80 < length (events s)" using assms(1,5,7) by auto
  let ?w = "drop (length (events s) - nat size80) (events s)"
  have w: "length ?w = nat size80" using size(2) by simp
  have t: "r = 1" "events t = skip_line ?w" "lock_depth t = lock_depth s"
    using assms(1,3-6) size by (auto simp: trim_eventfile_def max trim_text_def write_lock_def write_unlock_def)
  have pre: "events s = take (length (events s) - nat size80) (events s) @ ?w" by simp
  show ?thesis
  proof (intro conjI allI impI)
    show "\<exists>p. events s = p @ events t \<and> (events t \<noteq> [] \<longrightarrow> last p = NL)"
      using skip_line_suffix [of ?w] pre unfolding t(2)
      by (metis append.assoc append.right_neutral append_Cons append_Nil last_snoc)
    show "int (length (events t)) \<le> size80"
      using skip_line_length [of ?w] w size(1) unfolding t(2) by linarith
    fix p q assume q: "events s = p @ NL # q" "int (length q) < size80"
    then have "drop (length p - (length (events s) - nat size80)) [] = []" by simp
    have "?w = drop (length (events s) - nat size80) p @ NL # q"
      using q size by simp
    then show "length q \<le> length (events t)" unfolding t(2) using skip_line_most by metis
  qed (use t in simp_all)
qed

definition long_log :: "unit sys" where
  "long_log = (let s = start_sys ()
     in s\<lparr>ups := (ups s)\<lparr>eventfilemax := 1, event_fd := 3, eventfile := ''ev''\<rparr>,
          events := replicate 1100 (CHR ''x'') @ [NL] @ replicate 100 (CHR ''y'')\<rparr>)"

theorem trim_eventfile_keeps_tail_witness:
  "\<exists>r t. trim_eventfile long_log = (r, t) \<and> r = 1 \<and>
     (\<forall>p q. events long_log = p @ NL # q \<longrightarrow> int (length q) < 819 \<longrightarrow> length q \<le> length (events t))"
proof -
  obtain r t where t: "trim_eventfile long_log = (r, t)" by force
  have "0 < eventfilemax (ups long_log)" "eventfilemax (ups long_log) \<le> 26214"
    "0 \<le> event_fd (ups long_log)" "eventfile (ups long_log) \<noteq> []"
    "eventfilemax (ups long_log) * 1024 < int (length (events long_log))"
    "819 = eventfilemax (ups long_log) * 1024 * 80 div 100"
    by (simp_all add: long_log_def Let_def)
  from trim_eventfile_keeps_tail [OF this(1-5) t this(6)] t show ?thesis by blast
qed

text \<open>
  With a maximum from 26215 to 52428 kilobytes the computation of the new size overflows its
  32 bits, and the events file is never trimmed, however long it is.
\<close>

theorem trim_eventfile_overflow:
  assumes "26215 \<le> eventfilemax (ups s)" "eventfilemax (ups s) \<le> 52428"
  shows "events (snd (trim_eventfile s)) = events s"
proof -
  have "int32 (eventfilemax (ups s) * 1024) = eventfilemax (ups s) * 1024"
    using assms by (simp add: int32_small)
  moreover have "int32 (eventfilemax (ups s) * 1024 * 80) = eventfilemax (ups s) * 1024 * 80 - 2 ^ 32"
    using assms by (simp add: int32_wrapped)
  moreover have "0 < 2 ^ 32 - eventfilemax (ups s) * 1024 * 80"
    "(2 ^ 32 - eventfilemax (ups s) * 1024 * 80) div 100 > 0" using assms by simp_all
  ultimately show ?thesis
    by (simp add: trim_eventfile_def trim_size_def Let_def)
qed

theorem trim_eventfile_overflow_witness:
  "events (snd (trim_eventfile (upd_ups (\<lambda>u. u\<lparr>eventfilemax := 30000\<rparr>) long_log))) =
   events (upd_ups (\<lambda>u. u\<lparr>eventfilemax := 30000\<rparr>) long_log)"
  by (rule trim_eventfile_overflow) (simp_all add: upd_ups_def)

end
