(* ===== verification/NisLib.thy ===== *)
theory NisLib
  imports Prelude
begin

text \<open>
  \<open>src/lib/apclibnis.c\<close>: messages over a TCP connection. A message is a 16-bit big-endian
  length and that many bytes; length 0 is the end of a reply.

  A connection is a script of what the operating system answers. \<open>rx\<close> lists the results of
  \<open>select\<close> and \<open>recv\<close> in the order they occur: \<open>select\<close> takes a \<open>Sel\<close> event, and reports the
  socket readable when the next event is one of \<open>recv\<close>; an empty script is a silent peer.
  \<open>tx\<close> lists the results of \<open>send\<close>; when it is empty every byte is accepted. An error
  carries its \<open>errno\<close>. A timeout and an interruption of \<open>select\<close> use one event each.
\<close>

subsection \<open>Connections\<close>

datatype rx_event =
    SelIntr            \<comment> \<open>\<open>select\<close> fails with \<open>EINTR\<close> or \<open>EAGAIN\<close>\<close>
  | SelErr int
  | SelTimeout
  | RecvIntr           \<comment> \<open>\<open>recv\<close> fails with \<open>EINTR\<close> or \<open>EAGAIN\<close>\<close>
  | RecvErr int
  | RecvEof
  | RecvData string    \<comment> \<open>bytes that have arrived; \<open>recv\<close> takes as many as fit\<close>

datatype tx_event = SendIntr | SendErr int | Accept nat

record conn =
  rx :: "rx_event list"
  tx :: "tx_event list"
  sent :: string

abbreviation (input) EINVAL :: int where "EINVAL \<equiv> 22"
abbreviation (input) ENXIO :: int where "ENXIO \<equiv> 6"
abbreviation (input) EAFNOSUPPORT :: int where "EAFNOSUPPORT \<equiv> 97"

subsection \<open>read_nbytes and write_nbytes\<close>

fun event_weight :: "rx_event \<Rightarrow> nat" where
  "event_weight (RecvData d) = Suc (length d)"
| "event_weight _ = 1"

definition rx_weight :: "rx_event list \<Rightarrow> nat" where
  "rx_weight es = sum_list (map event_weight es)"

lemma rx_weight_simps [simp]:
  "rx_weight [] = 0" "rx_weight (e # es) = event_weight e + rx_weight es"
  by (simp_all add: rx_weight_def)

text \<open>
  The loop of \<open>read_nbytes\<close>. The variable \<open>nread\<close> keeps its value from one iteration to the
  next: after an interrupted \<open>select\<close> the \<open>continue\<close> goes to the condition of the inner loop,
  which tests the old \<open>nread\<close>.
\<close>

function read_loop ::
    "int \<Rightarrow> int \<Rightarrow> nat \<Rightarrow> int \<Rightarrow> string \<Rightarrow> rx_event list \<Rightarrow> int \<times> string \<times> rx_event list" where
  "read_loop nbytes nleft off nread mem es =
     (if nleft \<le> 0 then (nbytes - nleft, mem, es)
      else case es of
        [] \<Rightarrow> (- ETIMEDOUT, mem, [])
      | SelIntr # r \<Rightarrow>
          if nread = -1 then read_loop nbytes nleft off nread mem r
          else if nread = 0 then (0, mem, r)
          else read_loop nbytes (nleft - nread) (off + nat nread) nread mem r
      | SelErr e # r \<Rightarrow> (- e, mem, r)
      | SelTimeout # r \<Rightarrow> (- ETIMEDOUT, mem, r)
      | RecvIntr # r \<Rightarrow> read_loop nbytes nleft off (-1) mem r
      | RecvErr e # r \<Rightarrow> (- e, mem, r)
      | RecvEof # r \<Rightarrow> (0, mem, es)
      | RecvData d # r \<Rightarrow>
          let got = take (nat nleft) d; rest = drop (nat nleft) d
          in if got = [] then (0, mem, r)
             else read_loop nbytes (nleft - int (length got)) (off + length got)
                    (int (length got)) (poke off got mem)
                    (if rest = [] then r else RecvData rest # r))"
  by pat_completeness auto
termination
  by (relation "measure (\<lambda>(_, _, _, _, _, es). rx_weight es)") auto

declare read_loop.simps [simp del]

definition read_nbytes :: "int \<Rightarrow> string \<Rightarrow> conn \<Rightarrow> int \<times> string \<times> conn" where
  "read_nbytes nbytes mem c =
     (let (n, mem', es) = read_loop nbytes nbytes 0 0 mem (rx c) in (n, mem', c\<lparr>rx := es\<rparr>))"

fun write_loop ::
    "int \<Rightarrow> string \<Rightarrow> string \<Rightarrow> tx_event list \<Rightarrow> int \<times> string \<times> tx_event list" where
  "write_loop nbytes left out [] = (nbytes, out @ left, [])"
| "write_loop nbytes left out (e # r) =
     (if left = [] then (nbytes - int (length left), out, e # r)
      else case e of
        SendIntr \<Rightarrow> write_loop nbytes left out r
      | SendErr err \<Rightarrow> (- err, out, r)
      | Accept n \<Rightarrow>
          if n = 0 then (nbytes - int (length left), out, r)
          else write_loop nbytes (drop n left) (out @ take n left) r)"

definition write_nbytes :: "string \<Rightarrow> conn \<Rightarrow> int \<times> conn" where
  "write_nbytes bytes c =
     (let (n, out, es) = write_loop (int (length bytes)) bytes (sent c) (tx c)
      in (n, c\<lparr>tx := es, sent := out\<rparr>))"

subsection \<open>net_recv and net_send\<close>

text \<open>The 16-bit length in network order; \<open>htons((short)len)\<close> keeps the low 16 bits.\<close>

definition short_bytes :: "nat \<Rightarrow> string" where
  "short_bytes n = [char_of (n div 256 mod 256), char_of (n mod 256)]"

definition bytes_short :: "string \<Rightarrow> nat" where
  "bytes_short b = (case b of hi # lo # _ \<Rightarrow> char_code hi * 256 + char_code lo | _ \<Rightarrow> 0)"

text \<open>
  The result, the memory behind \<open>buff\<close>, and the connection. \<open>stack\<close> is what the two bytes of
  \<open>pktsiz\<close> hold before they are read.
\<close>

definition net_recv :: "string \<Rightarrow> int \<Rightarrow> string \<Rightarrow> conn \<Rightarrow> int \<times> string \<times> conn" where
  "net_recv stack maxlen buff c =
     (let (nbytes, hdr, c1) = read_nbytes 2 stack c
      in if nbytes \<le> 0 then (nbytes, buff, c1)
         else if nbytes \<noteq> 2 then (- EINVAL, buff, c1)
         else let pktsiz = int (bytes_short hdr)
              in if pktsiz > maxlen then (- EINVAL, buff, c1)
                 else if pktsiz = 0 then (0, buff, c1)
                 else let (n, buff', c2) = read_nbytes pktsiz buff c1
                      in if n \<le> 0 then (n, buff', c2)
                         else if n \<noteq> pktsiz then (- EINVAL, buff', c2)
                         else (n, buff', c2))"

definition net_send :: "string \<Rightarrow> conn \<Rightarrow> int \<times> conn" where
  "net_send buff c =
     (let (rc, c1) = write_nbytes (short_bytes (length buff)) c
      in if rc \<le> 0 then (rc, c1)
         else if rc \<noteq> 2 then (- EINVAL, c1)
         else let (rc', c2) = write_nbytes buff c1
              in if rc' \<le> 0 then (rc', c2)
                 else if rc' \<noteq> int (length buff) then (- EINVAL, c2)
                 else (rc', c2))"

subsection \<open>net_open and net_accept\<close>

text \<open>What the operating system answers to the calls of \<open>net_open\<close>, in their order.\<close>

datatype call = Done | Fails int

datatype connecting = Connected | InProgress | ConnErr int

datatype host = Address | NoHost | BadFamily

datatype sel = SelReady | SelInterrupted | SelFails int | SelTimesOut

record net_env =
  ne_host :: host            \<comment> \<open>\<open>inet_addr\<close>, or else \<open>gethostname_re\<close>\<close>
  ne_socket :: "int + int"   \<comment> \<open>the errno or the descriptor\<close>
  ne_nonblock :: call
  ne_connect :: connecting
  ne_selects :: "sel list"
  ne_sockopt :: "int + bool \<times> int"  \<comment> \<open>the errno, or whether \<open>errlen\<close> is right, and \<open>SO_ERROR\<close>\<close>
  ne_block :: call

text \<open>The wait for the connection: \<open>None\<close> when the socket is writable, else the result.\<close>

fun await_connect :: "sel list \<Rightarrow> int option" where
  "await_connect [] = Some (- ETIMEDOUT)"
| "await_connect (SelReady # r) = None"
| "await_connect (SelInterrupted # r) = await_connect r"
| "await_connect (SelFails e # r) = Some (- e)"
| "await_connect (SelTimesOut # r) = Some (- ETIMEDOUT)"

definition connect_status :: "net_env \<Rightarrow> int option" where
  "connect_status e =
     (case ne_connect e of
        ConnErr err \<Rightarrow> Some (- err)
      | Connected \<Rightarrow> None
      | InProgress \<Rightarrow>
          (case await_connect (ne_selects e) of
             Some rc \<Rightarrow> Some rc
           | None \<Rightarrow>
               (case ne_sockopt e of
                  Inl err \<Rightarrow> Some (- err)
                | Inr (len_ok, err) \<Rightarrow>
                    if \<not> len_ok then Some (- EINVAL)
                    else if err \<noteq> 0 then Some (- err) else None)))"

text \<open>The result, and the descriptors \<open>net_open\<close> has closed.\<close>

definition net_open :: "net_env \<Rightarrow> int \<times> int list" where
  "net_open e =
     (case ne_host e of
        NoHost \<Rightarrow> (- ENXIO, [])
      | BadFamily \<Rightarrow> (- EAFNOSUPPORT, [])
      | Address \<Rightarrow>
          (case ne_socket e of
             Inl err \<Rightarrow> (- err, [])
           | Inr sockfd \<Rightarrow>
               (case ne_nonblock e of
                  Fails err \<Rightarrow> (- err, [sockfd])
                | Done \<Rightarrow>
                    (case connect_status e of
                       Some rc \<Rightarrow> (rc, [sockfd])
                     | None \<Rightarrow>
                         (case ne_block e of
                            Fails err \<Rightarrow> (- err, [sockfd])
                          | Done \<Rightarrow> (sockfd, []))))))"

text \<open>\<open>net_accept\<close>: the results of \<open>accept\<close>, of which the interrupted ones are skipped.\<close>

datatype acc = AccIntr | AccErr int | Accepted int

fun net_accept :: "acc list \<Rightarrow> int option" where
  "net_accept [] = None"
| "net_accept (AccIntr # r) = net_accept r"
| "net_accept (AccErr e # r) = Some (- e)"
| "net_accept (Accepted f # r) = Some f"

subsection \<open>Receiving under fragmentation\<close>

text \<open>
  A connection that delivers: bytes in pieces of any size, with interruptions of \<open>recv\<close> between
  them. (Interruptions of \<open>select\<close> are another matter, see \<open>interrupted_select\<close>.)
\<close>

fun delivers :: "rx_event \<Rightarrow> bool" where
  "delivers RecvIntr = True"
| "delivers (RecvData d) = (d \<noteq> [])"
| "delivers _ = False"

fun event_bytes :: "rx_event \<Rightarrow> string" where
  "event_bytes (RecvData d) = d"
| "event_bytes _ = []"

definition rx_bytes :: "rx_event list \<Rightarrow> string" where
  "rx_bytes es = concat (map event_bytes es)"

lemma rx_bytes_simps [simp]:
  "rx_bytes [] = []" "rx_bytes (e # es) = event_bytes e @ rx_bytes es"
  by (simp_all add: rx_bytes_def)

lemma read_loop_delivers:
  assumes "list_all delivers es" "n \<le> length (rx_bytes es)" "off + n \<le> length mem"
  shows "\<exists>es'. read_loop nbytes (int n) off nread mem es =
           (nbytes, poke off (take n (rx_bytes es)) mem, es') \<and>
         list_all delivers es' \<and> rx_bytes es' = drop n (rx_bytes es)"
  using assms
proof (induction "rx_weight es" arbitrary: es n off nread mem rule: less_induct)
  case less
  show ?case
  proof (cases "n = 0")
    case True
    then show ?thesis using less.prems by (simp add: read_loop.simps)
  next
    case False
    with less.prems obtain e r where es: "es = e # r" by (cases es) auto
    from less.prems es have "delivers e" by simp
    then consider "e = RecvIntr" | d where "e = RecvData d" "d \<noteq> []"
      by (cases e) auto
    then show ?thesis
    proof cases
      case 1
      then have "\<exists>es'. read_loop nbytes (int n) off (-1) mem r =
           (nbytes, poke off (take n (rx_bytes r)) mem, es') \<and>
         list_all delivers es' \<and> rx_bytes es' = drop n (rx_bytes r)"
        using less.hyps [of r n off mem "-1"] less.prems es by simp
      then show ?thesis using False 1 es by (simp add: read_loop.simps [of _ _ _ _ _ "RecvIntr # r"])
    next
      case 2
      have split: "read_loop nbytes (int n) off nread mem es =
          read_loop nbytes (int (n - length (take n d))) (off + length (take n d))
            (int (length (take n d))) (poke off (take n d) mem)
            (if drop n d = [] then r else RecvData (drop n d) # r)"
        using 2 False es
        by (simp add: read_loop.simps [of _ _ _ _ _ "RecvData d # r"] Let_def of_nat_diff min_def)
      show ?thesis
      proof (cases "length d \<le> n")
        case True
        have "\<exists>es'. read_loop nbytes (int (n - length d)) (off + length d) (int (length d))
              (poke off d mem) r =
            (nbytes, poke (off + length d) (take (n - length d) (rx_bytes r)) (poke off d mem), es') \<and>
            list_all delivers es' \<and> rx_bytes es' = drop (n - length d) (rx_bytes r)"
          using less.hyps [of r "n - length d" "off + length d" "poke off d mem" "int (length d)"]
            less.prems 2 es True by (simp add: length_poke)
        then show ?thesis using split True 2 es less.prems by simp
      next
        case False
        then show ?thesis using split 2 es less.prems by (simp add: read_loop.simps)
      qed
    qed
  qed
qed

text \<open>The first two bytes are overwritten whatever they held.\<close>

lemma read_nbytes_delivers:
  assumes "list_all delivers (rx c)" "n \<le> length (rx_bytes (rx c))" "n \<le> length mem"
  obtains c' where "read_nbytes (int n) mem c =
      (int n, take n (rx_bytes (rx c)) @ drop n mem, c')"
    and "list_all delivers (rx c')" "rx_bytes (rx c') = drop n (rx_bytes (rx c))"
    and "tx c' = tx c" "sent c' = sent c"
proof -
  from read_loop_delivers [OF assms(1,2), of 0 mem "int n" 0] assms(3) obtain es where
    "read_loop (int n) (int n) 0 0 mem (rx c) = (int n, poke 0 (take n (rx_bytes (rx c))) mem, es)"
    "list_all delivers es" "rx_bytes es = drop n (rx_bytes (rx c))"
    by auto
  then show ?thesis
    using assms by (intro that [of "c\<lparr>rx := es\<rparr>"]) (simp_all add: read_nbytes_def poke_0 min_def)
qed

lemma char_code_of [simp]: "n < 256 \<Longrightarrow> char_code (char_of n) = n"
  by (simp add: char_code_def)

lemma length_short_bytes [simp]: "length (short_bytes n) = 2"
  by (simp add: short_bytes_def)

lemma bytes_short_round [simp]: "n < 65536 \<Longrightarrow> bytes_short (short_bytes n @ r) = n"
  by (simp add: bytes_short_def short_bytes_def char_code_def)

text \<open>A message as it travels.\<close>

definition frame :: "string \<Rightarrow> string" where
  "frame m = short_bytes (length m) @ m"

lemma net_recv_frame:
  assumes "list_all delivers (rx c)" "rx_bytes (rx c) = frame m @ rest"
    and "length stack = 2" "length m \<le> length buff" "int (length m) \<le> maxlen" "length m < 65536"
  obtains c' where "net_recv stack maxlen buff c = (int (length m), m @ drop (length m) buff, c')"
    and "list_all delivers (rx c')" "rx_bytes (rx c') = rest" "tx c' = tx c" "sent c' = sent c"
proof -
  obtain c1 where 1: "read_nbytes 2 stack c = (2, short_bytes (length m), c1)"
    "list_all delivers (rx c1)" "rx_bytes (rx c1) = m @ rest" "tx c1 = tx c" "sent c1 = sent c"
    using read_nbytes_delivers [OF assms(1), of 2 stack] assms(2,3) by (auto simp: frame_def)
  have size: "bytes_short (short_bytes (length m)) = length m"
    using bytes_short_round [OF assms(6), of "[]"] by simp
  show ?thesis
  proof (cases "m = []")
    case True
    then show ?thesis using 1 size assms(5)
      by (intro that [of c1]) (simp_all add: net_recv_def)
  next
    case False
    obtain c2 where 2: "read_nbytes (int (length m)) buff c1 =
        (int (length m), m @ drop (length m) buff, c2)"
      "list_all delivers (rx c2)" "rx_bytes (rx c2) = rest" "tx c2 = tx c1" "sent c2 = sent c1"
      using read_nbytes_delivers [OF 1(2), of "length m" buff] 1(3) assms(4) by auto
    show ?thesis using 1 2 size assms(5) False
      by (intro that [of c2]) (simp_all add: net_recv_def)
  qed
qed

subsection \<open>Sending\<close>

fun accepts :: "tx_event \<Rightarrow> bool" where
  "accepts SendIntr = True"
| "accepts (Accept n) = (n > 0)"
| "accepts (SendErr e) = False"

lemma write_loop_accepts:
  assumes "list_all accepts es" "length left \<le> nbytes"
  shows "\<exists>es'. write_loop (int nbytes) left out es = (int nbytes, out @ left, es') \<and>
    list_all accepts es'"
  using assms
proof (induction es arbitrary: left out)
  case (Cons e es)
  show ?case
  proof (cases "left = []")
    case True then show ?thesis using Cons.prems by simp
  next
    case False
    then show ?thesis
      using Cons.IH [of left out] Cons.IH [of "drop n left" "out @ take n left" for n] Cons.prems
      by (cases e) auto
  qed
qed simp

lemma net_send_accepts:
  assumes "list_all accepts (tx c)" "m \<noteq> []"
  obtains c' where "net_send m c = (int (length m), c')" "sent c' = sent c @ frame m"
    "list_all accepts (tx c')" "rx c' = rx c"
proof -
  obtain t1 where 1: "write_loop 2 (short_bytes (length m)) (sent c) (tx c) =
      (2, sent c @ short_bytes (length m), t1)" "list_all accepts t1"
    using write_loop_accepts [OF assms(1), of "short_bytes (length m)" 2 "sent c"] by auto
  obtain t2 where 2: "write_loop (int (length m)) m (sent c @ short_bytes (length m)) t1 =
      (int (length m), sent c @ short_bytes (length m) @ m, t2)" "list_all accepts t2"
    using write_loop_accepts [OF 1(2), of m "length m" "sent c @ short_bytes (length m)"] by auto
  show ?thesis
    using 1 2 assms(2)
    by (intro that [of "c\<lparr>tx := t2, sent := sent c @ frame m\<rparr>"])
      (simp_all add: net_send_def write_nbytes_def frame_def)
qed

lemma net_send_eof:
  assumes "list_all accepts (tx c)"
  obtains c' where "net_send [] c = (0, c')" "sent c' = sent c @ frame []"
    "list_all accepts (tx c')" "rx c' = rx c"
proof -
  obtain t1 where 1: "write_loop 2 (short_bytes 0) (sent c) (tx c) =
      (2, sent c @ short_bytes 0, t1)" "list_all accepts t1"
    using write_loop_accepts [OF assms(1), of "short_bytes 0" 2 "sent c"] by auto
  have "write_loop 0 [] (sent c @ short_bytes 0) t1 = (0, sent c @ short_bytes 0, t1)"
    by (cases t1) simp_all
  then show ?thesis
    using 1 by (intro that [of "c\<lparr>tx := t1, sent := sent c @ frame []\<rparr>"])
      (simp_all add: net_send_def write_nbytes_def frame_def)
qed

subsection \<open>Message streams\<close>

text \<open>One message, received into a buffer of \<open>maxlen\<close> bytes; empty at the end or on an error.\<close>

definition recv_message :: "nat \<Rightarrow> conn \<Rightarrow> string \<times> conn" where
  "recv_message maxlen c =
     (let (n, buff, c') = net_recv (replicate 2 NUL) (int maxlen) (replicate maxlen NUL) c
      in (take (nat n) buff, c'))"

fun receive :: "('s \<Rightarrow> 'm \<times> 's) \<Rightarrow> nat \<Rightarrow> 's \<Rightarrow> 'm list \<times> 's" where
  "receive step 0 s = ([], s)"
| "receive step (Suc k) s =
     (let (m, s') = step s; (ms, s'') = receive step k s' in (m # ms, s''))"

text \<open>
  The contract of a framed byte stream: a receiver that takes one message off the front of the
  bytes still to come. Then it takes off all of them, in order.
\<close>

locale framed_stream =
  fixes enc :: "'m \<Rightarrow> string" and step :: "'s \<Rightarrow> 'm \<times> 's"
    and pending :: "'s \<Rightarrow> string" and good :: "'s \<Rightarrow> bool" and fits :: "'m \<Rightarrow> bool"
  assumes step_enc: "good s \<Longrightarrow> fits m \<Longrightarrow> pending s = enc m @ rest \<Longrightarrow>
    \<exists>s'. step s = (m, s') \<and> good s' \<and> pending s' = rest"
begin

lemma receive_all:
  assumes "good s" "list_all fits ms" "pending s = concat (map enc ms) @ rest"
  shows "\<exists>s'. receive step (length ms) s = (ms, s') \<and> good s' \<and> pending s' = rest"
  using assms
proof (induction ms arbitrary: s)
  case (Cons m ms)
  from Cons.prems have fits: "fits m"
    and pend: "pending s = enc m @ (concat (map enc ms) @ rest)" by simp_all
  from step_enc [OF Cons.prems(1) fits pend] obtain s' where
    "step s = (m, s')" "good s'" "pending s' = concat (map enc ms) @ rest" by blast
  then show ?case using Cons.IH [of s'] Cons.prems(2) by auto
qed simp

end

interpretation nis: framed_stream frame "recv_message maxlen" "\<lambda>c :: conn. rx_bytes (rx c)"
    "\<lambda>c. list_all delivers (rx c)" "\<lambda>m. length m \<le> maxlen \<and> length m < 65536"
proof
  fix c :: conn and m rest
  assume "list_all delivers (rx c)" "length m \<le> maxlen \<and> length m < 65536"
    "rx_bytes (rx c) = frame m @ rest"
  then obtain c' where "net_recv (replicate 2 NUL) (int maxlen) (replicate maxlen NUL) c =
      (int (length m), m @ drop (length m) (replicate maxlen NUL), c')"
    "list_all delivers (rx c')" "rx_bytes (rx c') = rest"
    using net_recv_frame [of c m rest "replicate 2 NUL" "replicate maxlen NUL" "int maxlen"]
    by auto
  then show "\<exists>c'. recv_message maxlen c = (m, c') \<and> list_all delivers (rx c') \<and>
      rx_bytes (rx c') = rest"
    by (simp add: recv_message_def)
qed

text \<open>Every message received makes the script shorter.\<close>

lemma read_loop_weight:
  "read_loop nbytes nleft off nread mem es = (n, mem', es') \<Longrightarrow>
   rx_weight es' \<le> rx_weight es \<and> (nleft > 0 \<and> n > 0 \<and> nleft = nbytes \<longrightarrow> rx_weight es' < rx_weight es)"
proof (induction nbytes nleft off nread mem es arbitrary: n mem' es' rule: read_loop.induct)
  case (1 nbytes nleft off nread mem es)
  show ?case
  proof (cases "nleft \<le> 0")
    case True
    then show ?thesis using "1.prems" by (simp add: read_loop.simps)
  next
    case False
    show ?thesis
    proof (cases es)
      case Nil
      then show ?thesis using "1.prems" False by (simp add: read_loop.simps)
    next
      case (Cons e r)
      note IH = "1.IH" [OF False Cons]
      show ?thesis
      proof (cases e)
        case (RecvData d)
        show ?thesis
        proof (cases "take (nat nleft) d = []")
          case True
          then show ?thesis using "1.prems" False Cons RecvData
            by (auto simp: read_loop.simps [of _ _ _ _ _ "RecvData [] # r"])
        next
          case got: False
          let ?es = "if drop (nat nleft) d = [] then r else RecvData (drop (nat nleft) d) # r"
          have "rx_weight ?es < rx_weight es" using got Cons RecvData by (cases d) auto
          moreover have "rx_weight es' \<le> rx_weight ?es"
            using IH(4) [OF RecvData refl refl got] "1.prems" False Cons RecvData got
            by (simp add: read_loop.simps [of _ _ _ _ _ "RecvData d # r"] Let_def)
          ultimately show ?thesis by simp
        qed
      qed (use "1.prems" IH False Cons in
            \<open>force simp: read_loop.simps [of _ _ _ _ _ "_ # r"] split: if_splits\<close>)+
    qed
  qed
qed

lemma net_recv_weight:
  "net_recv stack maxlen buff c = (n, buff', c') \<Longrightarrow> n > 0 \<Longrightarrow> rx_weight (rx c') < rx_weight (rx c)"
proof -
  assume recv: "net_recv stack maxlen buff c = (n, buff', c')" and "n > 0"
  obtain k hdr c1 where 1: "read_nbytes 2 stack c = (k, hdr, c1)" by (metis prod_cases3)
  obtain l b c2 where 2: "read_nbytes (int (bytes_short hdr)) buff c1 = (l, b, c2)"
    by (metis prod_cases3)
  have "k > 0 \<Longrightarrow> rx_weight (rx c1) < rx_weight (rx c)"
    using 1 read_loop_weight [of 2 2 0 0 stack "rx c"]
    by (auto simp: read_nbytes_def split: prod.splits)
  moreover have "rx_weight (rx c2) \<le> rx_weight (rx c1)"
    using 2 read_loop_weight [of "int (bytes_short hdr)" "int (bytes_short hdr)" 0 0 buff "rx c1"]
    by (auto simp: read_nbytes_def split: prod.splits)
  ultimately show ?thesis
    using recv \<open>n > 0\<close> 1 2 by (auto simp: net_recv_def Let_def split: if_splits)
qed

subsection \<open>Properties\<close>

definition send_all :: "string list \<Rightarrow> conn \<Rightarrow> conn" where
  "send_all ms c = fold (\<lambda>m c. snd (net_send m c)) ms c"

lemma send_all_bytes:
  "list_all accepts (tx c) \<Longrightarrow>
   sent (send_all ms c) = sent c @ concat (map frame ms) \<and> list_all accepts (tx (send_all ms c))"
proof (induction ms arbitrary: c)
  case (Cons m ms)
  let ?c = "snd (net_send m c)"
  have "sent ?c = sent c @ frame m \<and> list_all accepts (tx ?c)"
  proof (cases "m = []")
    case True
    obtain c' where "net_send [] c = (0, c')" "sent c' = sent c @ frame []"
      "list_all accepts (tx c')" by (rule net_send_eof [OF Cons.prems(1)])
    with True show ?thesis by simp
  next
    case False
    obtain c' where "net_send m c = (int (length m), c')" "sent c' = sent c @ frame m"
      "list_all accepts (tx c')" by (rule net_send_accepts [OF Cons.prems(1) False])
    then show ?thesis by simp
  qed
  then show ?case using Cons.IH [of ?c] by (simp add: send_all_def)
qed (simp add: send_all_def)

text \<open>
  C10: Whatever sizes the operating system cuts the stream into on either side, and however
  often \<open>send\<close> and \<open>recv\<close> are interrupted, the messages \<open>net_recv\<close> hands out are the messages
  given to \<open>net_send\<close>, one by one and in order.
\<close>

theorem nis_messages_round_trip:
  assumes "list_all accepts (tx server)" "sent server = []"
    and "list_all delivers (rx client)" "rx_bytes (rx client) = sent (send_all ms server)"
    and "\<forall>m \<in> set ms. length m \<le> maxlen \<and> length m < 65536"
  shows "fst (receive (recv_message maxlen) (length ms) client) = ms"
proof -
  have "rx_bytes (rx client) = concat (map frame ms) @ []"
    using assms send_all_bytes [OF assms(1), of ms] by simp
  moreover have "list_all (\<lambda>m. length m \<le> maxlen \<and> length m < 65536) ms"
    using assms(5) by (simp add: list_all_iff)
  ultimately show ?thesis using nis.receive_all [OF assms(3)] by fastforce
qed

definition demo_server :: conn where
  "demo_server = \<lparr>rx = [], tx = [Accept 1, SendIntr, Accept 3], sent = []\<rparr>"

definition demo_client :: conn where
  "demo_client = \<lparr>rx = [RecvData (take 1 (frame ''ab'')), RecvIntr,
     RecvData (drop 1 (frame ''ab'') @ frame ''c'')], tx = [], sent = []\<rparr>"

theorem nis_messages_round_trip_witness:
  "fst (receive (recv_message 10) (length [''ab'', ''c'']) demo_client) = [''ab'', ''c'']"
  by (rule nis_messages_round_trip [where server = demo_server])
    (simp_all add: demo_server_def demo_client_def send_all_def net_send_def write_nbytes_def
      frame_def short_bytes_def)

text \<open>
  The \<open>continue\<close> of \<open>read_nbytes\<close> after an interrupted \<open>select\<close> does not retry. Before any
  byte has come the call reports the end of the connection; after a chunk it counts that chunk
  a second time, so that half of the bytes it reports were never received.
\<close>

theorem interrupted_select:
  "read_nbytes (int (Suc n)) mem \<lparr>rx = SelIntr # es, tx = t, sent = o'\<rparr> =
     (0, mem, \<lparr>rx = es, tx = t, sent = o'\<rparr>) \<and>
   read_nbytes (int (length (d @ d))) mem \<lparr>rx = RecvData d # SelIntr # es, tx = t, sent = o'\<rparr> =
     (if d = [] then (0, mem, \<lparr>rx = RecvData d # SelIntr # es, tx = t, sent = o'\<rparr>)
      else (int (length (d @ d)), poke 0 d mem, \<lparr>rx = es, tx = t, sent = o'\<rparr>))"
  by (simp add: read_nbytes_def read_loop.simps [of _ _ _ _ _ "SelIntr # es"]
      read_loop.simps [of _ _ _ _ _ "RecvData d # SelIntr # es"] read_loop.simps [where nleft = 0] Let_def nat_add_distrib)

text \<open>
  \<open>net_open\<close> leaks no descriptor: it returns the socket it made and leaves it open, or it
  returns a negative error and every socket it made is closed, once.
\<close>

theorem net_open_no_leak:
  assumes "net_open e = (rc, gone)" "ne_socket e = Inr sockfd" "0 \<le> sockfd"
    and "connect_status e \<noteq> None \<longrightarrow> the (connect_status e) < 0"
    and "\<forall>err. ne_nonblock e = Fails err \<or> ne_block e = Fails err \<longrightarrow> 0 < err"
  shows "(0 \<le> rc \<and> rc = sockfd \<and> gone = [] \<and> connect_status e = None) \<or>
    (rc < 0 \<and> gone = (if ne_host e = Address then [sockfd] else []))"
  using assms by (auto simp: net_open_def split: host.splits call.splits option.splits)

definition refused :: net_env where
  "refused = \<lparr>ne_host = Address, ne_socket = Inr 7, ne_nonblock = Done, ne_connect = InProgress,
     ne_selects = [SelInterrupted, SelReady], ne_sockopt = Inr (True, 111), ne_block = Done\<rparr>"

theorem net_open_no_leak_witness:
  "net_open refused = (-111, [7]) \<and>
   ((0 \<le> (-111 :: int) \<and> (-111 :: int) = 7 \<and> [7 :: int] = [] \<and> connect_status refused = None) \<or>
    ((-111 :: int) < 0 \<and> [7 :: int] = (if ne_host refused = Address then [7] else [])))"
proof
  show eq: "net_open refused = (-111, [7])"
    by (simp add: net_open_def connect_status_def refused_def)
  show "(0 \<le> (-111 :: int) \<and> (-111 :: int) = 7 \<and> [7 :: int] = [] \<and> connect_status refused = None) \<or>
    ((-111 :: int) < 0 \<and> [7 :: int] = (if ne_host refused = Address then [7] else []))"
    by (rule net_open_no_leak [OF eq]) (simp_all add: refused_def connect_status_def)
qed

end
