(* ===== verification/NisServer.thy ===== *)
theory NisServer
  imports Reports NisLib
begin

text \<open>
  The network information server (\<open>src/apcnis.c\<close>) and the list of events it sends
  (\<open>output_events\<close> of \<open>src/lib/apcevents.c\<close>). A client is served by a thread of its own:
  \<open>handle_client_request\<close> reads commands until the connection ends. The writers of the status
  report act on a buffer and on the connection, a \<open>nis\<close> record.
\<close>

subsection \<open>The status report\<close>

record nis =
  ns_buf :: string        \<comment> \<open>\<open>largebuf[4096]\<close>\<close>
  ns_recs :: nat
  ns_mutex :: int         \<comment> \<open>how often this thread holds the mutex of the buffer\<close>
  ns_conn :: conn

definition status_open :: "'d sys \<times> nis \<Rightarrow> 'd sys \<times> nis" where
  "status_open = (\<lambda>(s, w). (s, w\<lparr>ns_mutex := ns_mutex w + 1, ns_buf := [], ns_recs := 0\<rparr>))"

definition status_write :: "string \<Rightarrow> 'd sys \<times> nis \<Rightarrow> 'd sys \<times> nis" where
  "status_write line = (\<lambda>(s, w).
     let buf = take 255 line; i = length (ns_buf w) + length buf
     in if i < 4096 - 1
        then (s, w\<lparr>ns_buf := fst (strlcat (ns_buf w) buf 4096), ns_recs := ns_recs w + 1\<rparr>)
        else (log_event LOG_ERR
                (''apcserver.c: Status buffer overflow '' @ show_int (int i - 4096) @ '' bytes'' @ [NL]) s,
              w))"

text \<open>The lines of the buffer, each with its newline; what follows the last one is not sent.\<close>

fun buffer_lines :: "string \<Rightarrow> string \<Rightarrow> string list" where
  "buffer_lines acc [] = []"
| "buffer_lines acc (c # cs) =
     (if c = NL then (acc @ [c]) # buffer_lines [] cs else buffer_lines (acc @ [c]) cs)"

fun send_lines :: "string list \<Rightarrow> conn \<Rightarrow> conn" where
  "send_lines [] c = c"
| "send_lines (l # ls) c = (let (n, c') = net_send l c in if n \<le> 0 then c' else send_lines ls c')"

definition status_close :: "'d sys \<times> nis \<Rightarrow> int \<times> 'd sys \<times> nis" where
  "status_close = (\<lambda>(s, w).
     let (n, c1) = net_send (report_header (ns_recs w) (length (ns_buf w))) (ns_conn w)
     in if n \<le> 0 then (-1, s, w\<lparr>ns_conn := c1, ns_mutex := ns_mutex w - 1\<rparr>)
        else let (m, c3) = net_send [] (send_lines (buffer_lines [] (ns_buf w)) c1)
             in (if m < 0 then -1 else 0, s, w\<lparr>ns_conn := c3, ns_mutex := ns_mutex w - 1\<rparr>))"

subsection \<open>The last events\<close>

abbreviation (input) NLE :: nat where "NLE \<equiv> 50"

text \<open>
  \<open>fgets(buf, 256, file)\<close> until the end: pieces that end with a newline or have 255 characters.
\<close>

fun fgets_all :: "nat \<Rightarrow> string \<Rightarrow> string \<Rightarrow> string list" where
  "fgets_all n acc [] = (if acc = [] then [] else [acc])"
| "fgets_all n acc (c # cs) =
     (if c = NL \<or> length acc + 1 = n then (acc @ [c]) # fgets_all n [] cs
      else fgets_all n (acc @ [c]) cs)"

text \<open>The ring \<open>le\<close>, the place \<open>i\<close> where the next record goes, and \<open>nrec\<close>.\<close>

fun fill_ring :: "string list \<Rightarrow> string list \<times> nat \<times> nat \<Rightarrow> string list \<times> nat \<times> nat" where
  "fill_ring [] r = r"
| "fill_ring (l # ls) (le, i, nrec) =
     fill_ring ls (le[i := l], if i + 1 \<ge> NLE then 0 else i + 1, nrec + 1)"

fun read_ring :: "string list \<Rightarrow> nat \<Rightarrow> nat \<Rightarrow> string list" where
  "read_ring le i 0 = []"
| "read_ring le i (Suc n) = le ! i # read_ring le (if i + 1 \<ge> NLE then 0 else i + 1) n"

definition ring_records :: "string list \<Rightarrow> string list \<Rightarrow> string list" where
  "ring_records garbage ls =
     (let (le, i, nrec) = fill_ring ls (garbage, 0, 0)
      in if nrec > NLE then read_ring le (i - (i div NLE) * NLE) NLE else read_ring le 0 nrec)"

fun send_records :: "string list \<Rightarrow> conn \<Rightarrow> bool \<times> conn" where
  "send_records [] c = (True, c)"
| "send_records (l # ls) c =
     (let (n, c') = net_send (c_str l) c in if n \<le> 0 then (False, c') else send_records ls c')"

definition output_events :: "string \<Rightarrow> conn \<Rightarrow> int \<times> conn" where
  "output_events file c =
     (let (ok, c1) = send_records (ring_records (replicate NLE []) (fgets_all 255 [] file)) c;
          (n, c2) = net_send [] c1
      in (if \<not> ok \<or> n < 0 then -1 else 0, c2))"

subsection \<open>Requests\<close>

text \<open>A literal sent with \<open>sizeof\<close>: its terminating NUL goes along.\<close>

definition errmsg :: string where "errmsg = ''Invalid command'' @ [NL, NUL]"
definition notavail :: string where "notavail = ''Not available'' @ [NL, NUL]"

text \<open>A command: whether to go on, and the process and connection afterwards.\<close>

definition handle_command :: "string \<Rightarrow> 'd sys \<times> nis \<Rightarrow> bool \<times> 'd sys \<times> nis" where
  "handle_command line = (\<lambda>(s, w).
     if line = ''status''
     then (let (rc, s', w') = output_status status_open status_write status_close (s, w)
           in (0 \<le> rc, s', w'))
     else if line = ''events''
     then (if eventfile (ups s) = [] \<or> denied s (eventfile (ups s))
           then (let (n, c) = net_send [] (snd (net_send notavail (ns_conn w)))
                 in (0 \<le> n, s, w\<lparr>ns_conn := c\<rparr>))
           else (let (stat, c) = output_events (events s) (ns_conn w)
                 in if stat < 0
                    then (False, s, w\<lparr>ns_conn := snd (net_send [] (snd (net_send notavail c)))\<rparr>)
                    else (True, s, w\<lparr>ns_conn := c\<rparr>)))
     else (let (n, c) = net_send [] (snd (net_send errmsg (ns_conn w)))
           in (0 \<le> n, s, w\<lparr>ns_conn := c\<rparr>)))"

subsection \<open>Serving leaves the incoming side alone\<close>

lemma net_send_rx [simp]: "rx (snd (net_send m c)) = rx c"
  by (simp add: net_send_def write_nbytes_def split_beta Let_def)

lemma send_lines_rx [simp]: "rx (send_lines ls c) = rx c"
  by (induction ls arbitrary: c) (simp_all add: split_beta Let_def)

lemma send_records_rx [simp]: "rx (snd (send_records ls c)) = rx c"
  by (induction ls arbitrary: c) (simp_all add: split_beta Let_def)

lemma output_events_rx [simp]: "rx (snd (output_events f c)) = rx c"
  by (simp add: output_events_def split_beta Let_def)

text \<open>A property of the writer's state that all three functions keep is kept by the report.\<close>

lemma output_status_invariant:
  assumes "\<And>s w. P w \<Longrightarrow> P (snd (s_open (s, w)))" "\<And>l s w. P w \<Longrightarrow> P (snd (s_write l (s, w)))"
    and "\<And>s w. P w \<Longrightarrow> P (snd (snd (s_close (s, w))))" and "P w"
  shows "P (snd (snd (output_status s_open s_write s_close (s, w))))"
proof -
  have lines: "P (snd (fold s_write ls (a, w)))" if "P w" for ls a w
    using that
  proof (induction ls arbitrary: a w)
    case (Cons l ls)
    then show ?case using assms(2) [of w l a] by (cases "s_write l (a, w)") simp
  qed simp
  obtain s2 w2 where o: "s_open (snd (time_now s), w) = (s2, w2)" by force
  define s3 where "s3 = upd_ups (\<lambda>u. if poll_time u = 0 then u\<lparr>poll_time := fst (time_now s)\<rparr> else u)
    (write_lock s2)"
  obtain s4 w4 where f: "fold s_write (status_lines (fst (time_now s)) s3) (s3, w2) = (s4, w4)"
    by force
  obtain s5 w5 where e: "s_write (ln ''END APC  '' (datefmt s4 (fst (time_now s)))) (write_unlock s4, w4) =
      (s5, w5)" by force
  have eq: "output_status s_open s_write s_close (s, w) = s_close (s5, w5)"
    using f e unfolding output_status_def s3_def by (simp add: split_beta o)
  have "P w2" using assms(1) [OF assms(4), of "snd (time_now s)"] o by simp
  then have "P w4" using lines [of w2 _ s3] f by (metis snd_conv)
  then have "P w5" using assms(2) [of w4] e by (metis snd_conv)
  then show ?thesis unfolding eq by (rule assms(3))
qed

lemma output_status_rx:
  "rx (ns_conn (snd (snd (output_status status_open status_write status_close (s, w))))) =
   rx (ns_conn w)"
  by (rule output_status_invariant [where P = "\<lambda>v. rx (ns_conn v) = rx (ns_conn w)"])
    (simp_all add: status_open_def status_write_def status_close_def split_beta Let_def)

lemma handle_command_rx: "rx (ns_conn (snd (snd (handle_command line (s, w))))) = rx (ns_conn w)"
  by (simp add: handle_command_def output_status_rx split_beta Let_def)

subsection \<open>The client thread\<close>

text \<open>\<open>line\<close> is the memory of \<open>char line[256]\<close>, of which \<open>strncmp\<close> looks at the received bytes.\<close>

function serve :: "string \<Rightarrow> 'd sys \<times> nis \<Rightarrow> 'd sys \<times> nis" where
  "serve line (s, w) =
     (case net_recv [NUL, NUL] 256 line (ns_conn w) of
        (len, line', c) \<Rightarrow>
          if len \<le> 0 then (s, w\<lparr>ns_conn := c\<rparr>)
          else case handle_command (take (nat len) line') (s, w\<lparr>ns_conn := c\<rparr>) of
                 (go_on, s', w') \<Rightarrow> if go_on then serve line' (s', w') else (s', w'))"
  by pat_completeness auto
termination
proof (relation "measure (\<lambda>(_, _, w). rx_weight (rx (ns_conn w)))")
  fix line s w len y line' c z go_on s' x w'
  assume r: "(len, y) = net_recv [NUL, NUL] 256 line (ns_conn w)" "(line', c) = y" "\<not> len \<le> (0 :: int)"
    and h: "(go_on, z) = handle_command (take (nat len) line') (s :: 'a sys, w\<lparr>ns_conn := c\<rparr>)"
      "(s', w') = z"
  have "rx_weight (rx c) < rx_weight (rx (ns_conn w))"
    using net_recv_weight [of "[NUL, NUL]" 256 line "ns_conn w" len line' c] r by simp
  moreover have "snd (snd (handle_command (take (nat len) line') (s, w\<lparr>ns_conn := c\<rparr>))) = w'"
    using h by (metis snd_conv)
  then have "rx (ns_conn w') = rx c"
    using handle_command_rx [of "take (nat len) line'" s "w\<lparr>ns_conn := c\<rparr>"] by simp
  ultimately show "((line', s', w'), line, s, w) \<in> measure (\<lambda>(_, _, w). rx_weight (rx (ns_conn w)))"
    by simp
qed simp

definition handle_client_request :: "conn \<Rightarrow> 'd sys \<Rightarrow> 'd sys \<times> conn" where
  "handle_client_request c s =
     (let (s', w) = serve (replicate 256 NUL)
            (attach_ups s, \<lparr>ns_buf = [], ns_recs = 0, ns_mutex = 0, ns_conn = c\<rparr>)
      in (snd (detach_ups s'), ns_conn w))"

subsection \<open>The ring is the tail of the file\<close>

lemma fill_ring_append: "fill_ring (ls @ ks) r = fill_ring ks (fill_ring ls r)"
proof (induction ls arbitrary: r)
  case (Cons l ls)
  obtain le i n where "r = (le, i, n)" by (metis prod_cases3)
  with Cons show ?case by simp
qed simp

lemma fill_ring_holds:
  assumes "length garbage = 50"
  shows "\<exists>le. fill_ring ls (garbage, 0, 0) = (le, length ls mod 50, length ls) \<and> length le = 50 \<and>
    (\<forall>k < length ls. length ls \<le> k + 50 \<longrightarrow> le ! (k mod 50) = ls ! k)"
proof (induction ls rule: rev_induct)
  case Nil
  then show ?case using assms by simp
next
  case (snoc l ls)
  then obtain le where le: "fill_ring ls (garbage, 0, 0) = (le, length ls mod 50, length ls)"
    "length le = 50" "\<And>k. k < length ls \<Longrightarrow> length ls \<le> k + 50 \<Longrightarrow> le ! (k mod 50) = ls ! k"
    by blast
  let ?le = "le[length ls mod 50 := l]"
  have "?le ! (k mod 50) = (ls @ [l]) ! k"
    if k: "k < length (ls @ [l])" "length (ls @ [l]) \<le> k + 50" for k
  proof (cases "k = length ls")
    case True
    then show ?thesis using le(2) by simp
  next
    case False
    then have "k < length ls" "length ls < k + 50" using k by auto
    moreover from this have "k mod 50 \<noteq> length ls mod 50"
      by (metis add_diff_cancel_left' diff_less_mono2 le_add1 less_imp_le_nat mod_eq_dvd_iff_nat
          nat_dvd_not_less zero_less_diff less_diff_conv2 add.commute)
    ultimately show ?thesis using le(3) [of k] by (simp add: nth_append)
  qed
  moreover have "Suc (length ls) mod 50 = (if length ls mod 50 + 1 \<ge> 50 then 0 else length ls mod 50 + 1)"
    using mod_less_divisor [of 50 "length ls"] by (auto simp: mod_Suc)
  ultimately show ?case using le(1,2) by (simp add: fill_ring_append)
qed

lemma read_ring_map:
  "i < 50 \<Longrightarrow> read_ring le i n = map (\<lambda>j. le ! ((i + j) mod 50)) [0..<n]"
proof (induction n arbitrary: i)
  case (Suc n)
  let ?i = "if i + 1 \<ge> 50 then 0 else i + 1"
  have "(?i + j) mod 50 = (i + Suc j) mod 50" for j
  proof (cases "i = 49")
    case True
    have "(i + Suc j) mod 50 = (j + 50) mod 50" using True by (simp add: ac_simps)
    then show ?thesis using True by simp
  qed (use Suc.prems in simp)
  moreover have "[0..<Suc n] = 0 # map Suc [0..<n]"
    by (metis map_Suc_upt upt_conv_Cons zero_less_Suc)
  ultimately show ?case using Suc.IH [of ?i] Suc.prems by (simp add: o_def del: upt_Suc)
qed simp

lemma ring_records_tail:
  assumes "length garbage = 50"
  shows "ring_records garbage ls = drop (length ls - 50) ls"
proof -
  obtain le where le: "fill_ring ls (garbage, 0, 0) = (le, length ls mod 50, length ls)"
    "\<And>k. k < length ls \<Longrightarrow> length ls \<le> k + 50 \<Longrightarrow> le ! (k mod 50) = ls ! k"
    using fill_ring_holds [OF assms, of ls] by blast
  show ?thesis
  proof (cases "length ls > 50")
    case True
    have "ring_records garbage ls = read_ring le (length ls mod 50) 50"
      using le(1) True by (simp add: ring_records_def)
    also have "\<dots> = map (\<lambda>j. le ! ((length ls mod 50 + j) mod 50)) [0..<50]"
      by (rule read_ring_map) simp
    also have "\<dots> = map (\<lambda>j. ls ! (length ls - 50 + j)) [0..<50]"
    proof (rule map_cong [OF refl])
      fix j assume "j \<in> set [0..<50 :: nat]"
      then have "le ! ((length ls - 50 + j) mod 50) = ls ! (length ls - 50 + j)"
        using True by (intro le(2)) auto
      moreover have "(length ls mod 50 + j) mod 50 = (length ls - 50 + j) mod 50"
        using True by (metis le_mod_geq less_imp_le_nat mod_add_left_eq not_less)
      ultimately show "le ! ((length ls mod 50 + j) mod 50) = ls ! (length ls - 50 + j)" by simp
    qed
    also have "\<dots> = drop (length ls - 50) ls"
      using True by (intro nth_equalityI) auto
    finally show ?thesis .
  next
    case False
    have "ring_records garbage ls = map (\<lambda>j. le ! (j mod 50)) [0..<length ls]"
      using le(1) False read_ring_map [of 0 le "length ls"] by (simp add: ring_records_def)
    also have "\<dots> = ls" using le(2) False by (intro nth_equalityI) auto
    finally show ?thesis using False by simp
  qed
qed

subsection \<open>The bytes of a reply\<close>

lemma status_write_fits:
  "length l \<le> 255 \<Longrightarrow> length (ns_buf w) + length l < 4095 \<Longrightarrow>
   status_write l (s, w) = (s, w\<lparr>ns_buf := ns_buf w @ l, ns_recs := ns_recs w + 1\<rparr>)"
  by (simp add: status_write_def Let_def strlcat_fits)

lemma fold_status_write:
  "\<forall>l\<in>set ls. length l \<le> 255 \<Longrightarrow> length (ns_buf w) + length (concat ls) < 4095 \<Longrightarrow>
   fold status_write ls (s, w) =
     (s, w\<lparr>ns_buf := ns_buf w @ concat ls, ns_recs := ns_recs w + length ls\<rparr>)"
  by (induction ls arbitrary: w) (simp_all add: status_write_fits)

definition is_line :: "string \<Rightarrow> bool" where
  "is_line l \<longleftrightarrow> l \<noteq> [] \<and> last l = NL \<and> NL \<notin> set (butlast l)"

lemma buffer_lines_line:
  "NL \<notin> set x \<Longrightarrow> buffer_lines acc (x @ NL # r) = (acc @ x @ [NL]) # buffer_lines [] r"
  by (induction x arbitrary: acc) auto

lemma buffer_lines_concat: "\<forall>l\<in>set ls. is_line l \<Longrightarrow> buffer_lines [] (concat ls) = ls"
proof (induction ls)
  case (Cons l ls)
  then have l: "l = butlast l @ [NL]" "NL \<notin> set (butlast l)"
    by (auto simp: is_line_def) (metis append_butlast_last_id)
  have "concat (l # ls) = butlast l @ NL # concat ls"
    using l(1) by (metis append.assoc append_Cons append_Nil concat.simps(2))
  then show ?case
    using buffer_lines_line [OF l(2), of "[]" "concat ls"] l(1) Cons by (simp only:) simp
qed simp

lemma send_lines_bytes:
  "list_all accepts (tx c) \<Longrightarrow> [] \<notin> set ls \<Longrightarrow>
   sent (send_lines ls c) = sent c @ concat (map frame ls) \<and> list_all accepts (tx (send_lines ls c))"
proof (induction ls arbitrary: c)
  case (Cons l ls)
  have "l \<noteq> []" using Cons.prems by auto
  obtain c' where c': "net_send l c = (int (length l), c')" "sent c' = sent c @ frame l"
    "list_all accepts (tx c')"
    by (rule net_send_accepts [OF Cons.prems(1) \<open>l \<noteq> []\<close>])
  then show ?case using Cons.IH [of c'] Cons.prems \<open>l \<noteq> []\<close> by simp
qed simp

lemma status_close_bytes:
  assumes "list_all accepts (tx (ns_conn w))" "ns_buf w = concat ls" "\<forall>l\<in>set ls. is_line l"
  obtains c where "status_close (s, w) = (0, s, w\<lparr>ns_conn := c, ns_mutex := ns_mutex w - 1\<rparr>)"
    "sent c = sent (ns_conn w) @
       concat (map frame (report_header (ns_recs w) (length (concat ls)) # ls)) @ frame []"
proof -
  let ?h = "report_header (ns_recs w) (length (concat ls))"
  have h: "?h \<noteq> []" by (simp add: report_header_def)
  obtain c1 where c1: "net_send ?h (ns_conn w) = (int (length ?h), c1)"
    "sent c1 = sent (ns_conn w) @ frame ?h" "list_all accepts (tx c1)"
    by (rule net_send_accepts [OF assms(1) h])
  have "[] \<notin> set ls" using assms(3) by (auto simp: is_line_def)
  then have c2: "sent (send_lines ls c1) = sent c1 @ concat (map frame ls)"
    "list_all accepts (tx (send_lines ls c1))"
    using send_lines_bytes [OF c1(3)] by auto
  obtain c3 where "net_send [] (send_lines ls c1) = (0, c3)"
    "sent c3 = sent (send_lines ls c1) @ frame []"
    by (rule net_send_eof [OF c2(2)])
  then show ?thesis
    using c1 c2 h buffer_lines_concat [OF assms(3)]
    by (intro that [of c3]) (simp_all add: status_close_def assms(2))
qed

lemma fgets_all_pieces:
  "0 < n \<Longrightarrow> concat (fgets_all n acc evts) = acc @ evts \<and> [] \<notin> set (fgets_all n acc evts)"
  by (induction n acc evts rule: fgets_all.induct) auto

lemma send_records_bytes:
  assumes "list_all accepts (tx c)" "\<forall>l\<in>set ls. l \<noteq> [] \<and> NUL \<notin> set l"
  shows "\<exists>c'. send_records ls c = (True, c') \<and> sent c' = sent c @ concat (map frame ls) \<and>
    list_all accepts (tx c')"
  using assms
proof (induction ls arbitrary: c)
  case (Cons l ls)
  have l: "l \<noteq> []" "c_str l = l" using Cons.prems by auto
  obtain c' where c': "net_send l c = (int (length l), c')" "sent c' = sent c @ frame l"
    "list_all accepts (tx c')"
    by (rule net_send_accepts [OF Cons.prems(1) l(1)])
  then show ?case using Cons.IH [of c'] Cons.prems l by auto
qed simp

text \<open>
  The command \<open>events\<close> sends the last 50 records of the events file, in the order of the
  file, each as one message, and then the end of the reply: the ring of buffers loses none of
  them and repeats none.
\<close>

theorem output_events_sends_last:
  assumes "list_all accepts (tx c)" "NUL \<notin> set evts"
  shows "fst (output_events evts c) = 0 \<and>
    sent (snd (output_events evts c)) =
      sent c @ concat (map frame (drop (length (fgets_all 255 [] evts) - 50) (fgets_all 255 [] evts)))
        @ frame []"
proof -
  let ?ls = "fgets_all 255 [] evts"
  let ?tail = "drop (length ?ls - 50) ?ls"
  have pieces: "concat ?ls = evts" "[] \<notin> set ?ls"
    using fgets_all_pieces [of 255 "[]" evts] by auto
  then have "\<forall>l\<in>set ?ls. l \<noteq> [] \<and> NUL \<notin> set l" using assms(2) by (metis UN_I set_concat)
  then have "\<forall>l\<in>set ?tail. l \<noteq> [] \<and> NUL \<notin> set l" by (meson in_set_dropD)
  then obtain c' where c': "send_records ?tail c = (True, c')"
    "sent c' = sent c @ concat (map frame ?tail)" "list_all accepts (tx c')"
    using send_records_bytes [OF assms(1)] by blast
  obtain c'' where "net_send [] c' = (0, c'')" "sent c'' = sent c' @ frame []"
    by (rule net_send_eof [OF c'(3)])
  then show ?thesis
    using c' ring_records_tail [of "replicate 50 []" ?ls]
    by (simp add: output_events_def)
qed

theorem output_events_sends_last_witness:
  "fst (output_events (''a'' @ [NL]) \<lparr>rx = [], tx = [Accept 1], sent = []\<rparr>) = 0 \<and>
   sent (snd (output_events (''a'' @ [NL]) \<lparr>rx = [], tx = [Accept 1], sent = []\<rparr>)) =
     sent \<lparr>rx = [], tx = [Accept 1], sent = []\<rparr> @
     concat (map frame (drop (length (fgets_all 255 [] (''a'' @ [NL])) - 50)
       (fgets_all 255 [] (''a'' @ [NL])))) @ frame []"
  by (rule output_events_sends_last) simp_all

lemma output_status_sends:
  assumes "list_all accepts (tx (ns_conn w))"
    and "\<forall>l\<in>set (report_lines s). is_line l \<and> length l \<le> 255"
    and "length (concat (report_lines s)) < 4095"
  shows "\<exists>s' w'. output_status status_open status_write status_close (s, w) = (0, s', w') \<and>
    ns_mutex w' = ns_mutex w \<and>
    sent (ns_conn w') = sent (ns_conn w) @ concat (map frame
      (report_header (length (report_lines s)) (length (concat (report_lines s))) # report_lines s))
      @ frame []"
proof -
  let ?W = "\<lambda>n. w\<lparr>ns_mutex := ns_mutex w + 1, ns_buf := concat (take n (report_lines s)), ns_recs := n\<rparr>"
  let ?w5 = "?W (length (report_lines s))"
  have part: "length (concat (take n (report_lines s))) < 4095" for n
    using assms(3) by (metis append_take_drop_id concat_append le_add1 le_less_trans length_append)
  have lines: "\<forall>l\<in>set (take n (report_lines s)). length l \<le> 255" for n
    using assms(2) by (meson in_set_takeD)
  have "fold status_write (take n (report_lines s)) (t, w\<lparr>ns_mutex := ns_mutex w + 1, ns_buf := [], ns_recs := 0\<rparr>) =
      (t, ?W n)" if "n \<le> length (report_lines s)" for n t
    using fold_status_write [OF lines, of "w\<lparr>ns_mutex := ns_mutex w + 1, ns_buf := [], ns_recs := 0\<rparr>" n t]
      part [of n] that by simp
  then have eq: "output_status status_open status_write status_close (s, w) =
      status_close (write_unlock (report_state s), ?w5)"
    by (intro output_status_written [where ?w2.0 = "w\<lparr>ns_mutex := ns_mutex w + 1, ns_buf := [], ns_recs := 0\<rparr>"])
      (simp_all add: status_open_def)
  obtain c where "status_close (write_unlock (report_state s), ?w5) =
      (0, write_unlock (report_state s), ?w5\<lparr>ns_conn := c, ns_mutex := ns_mutex ?w5 - 1\<rparr>)"
    "sent c = sent (ns_conn ?w5) @
       concat (map frame (report_header (ns_recs ?w5) (length (concat (report_lines s))) # report_lines s))
       @ frame []"
    by (rule status_close_bytes [of ?w5 "report_lines s" "write_unlock (report_state s)"])
      (use assms in auto)
  then show ?thesis unfolding eq by simp
qed

end
