(* ===== verification/Config.thy ===== *)
theory Config
  imports NisServer
begin

text \<open>
  The configuration file (\<open>src/lib/apcconfig.c\<close>): the tables of directives and of their values,
  the handlers, \<open>ParseConfig\<close> for one line, the defaults of \<open>init_ups_struct\<close>, and
  \<open>check_for_config\<close>, which reads the file and makes the settings agree with each other.

  A row of the table carries its handler with the field it writes (the \<open>offset\<close> of the code)
  and its table of values or buffer size. \<open>SYSCONFDIR\<close>, \<open>PWRFAILDIR\<close>, \<open>NOLOGDIR\<close> and \<open>NISPORT\<close> are those
  of \<open>include/apcconfig.h\<close>. Local variables that a handler reads without having
  written them hold what \<open>junk_int\<close> and \<open>junk_str\<close> give for the line.
\<close>

subsection \<open>Values and directives\<close>

text \<open>A table of \<open>GENINFO\<close>, and the message of the entry that closes it.\<close>

record value_table =
  items :: "geninfo list"
  invalid :: string

definition geninfo_of :: "string \<times> string \<times> int \<Rightarrow> geninfo" where
  "geninfo_of = (\<lambda>(n, l, t). \<lparr>gi_name = n, gi_long_name = l, gi_type = t\<rparr>)"

definition onoroff :: value_table where
  "onoroff = \<lparr>items = map geninfo_of [(''off'', ''off'', 0), (''on'', ''on'', 1)],
     invalid = ''value must be ON or OFF''\<rparr>"

definition cables :: value_table where
  "cables = \<lparr>items = map geninfo_of
     [(''simple'', ''Custom Cable Simple'', CUSTOM_SIMPLE),
      (''smart'', ''Custom Cable Smart'', CABLE_SMART),
      (''ether'', ''Ethernet Link'', APC_NET),
      (''940-0119A'', ''APC Cable 940-0119A'', APC_940_0119A),
      (''940-0127A'', ''APC Cable 940-0127A'', APC_940_0127A),
      (''940-0128A'', ''APC Cable 940-0128A'', APC_940_0128A),
      (''940-0020B'', ''APC Cable 940-0020B'', APC_940_0020B),
      (''940-0020C'', ''APC Cable 940-0020C'', APC_940_0020C),
      (''940-0023A'', ''APC Cable 940-0023A'', APC_940_0023A),
      (''940-0024B'', ''APC Cable 940-0024B'', CABLE_SMART),
      (''940-0024C'', ''APC Cable 940-0024C'', CABLE_SMART),
      (''940-1524C'', ''APC Cable 940-1524C'', CABLE_SMART),
      (''940-0024G'', ''APC Cable 940-0024G'', CABLE_SMART),
      (''940-0625A'', ''APC Cable 940-0625A'', CABLE_SMART),
      (''940-0095A'', ''APC Cable 940-0095A'', APC_940_0095A),
      (''940-0095B'', ''APC Cable 940-0095B'', APC_940_0095B),
      (''940-0095C'', ''APC Cable 940-0095C'', APC_940_0095C),
      (''MAM-04-02-2000'', ''MAM Cable 04-02-2000'', MAM_CABLE),
      (''usb'', ''USB Cable'', USB_CABLE)],
     invalid = ''*invalid-cable*''\<rparr>"

definition upsclasses :: value_table where
  "upsclasses = \<lparr>items = map geninfo_of
     [(''standalone'', ''Stand Alone'', STANDALONE), (''shareslave'', ''ShareUPS Slave'', SHARESLAVE),
      (''sharemaster'', ''ShareUPS Master'', SHAREMASTER)],
     invalid = ''*invalid-ups-class*''\<rparr>"

definition logins :: value_table where
  "logins = \<lparr>items = map geninfo_of
     [(''always'', ''always'', ALWAYS), (''disable'', ''disable'', NEVER),
      (''timeout'', ''timeout'', TIMEOUT), (''percent'', ''percent'', PERCENT),
      (''minutes'', ''minutes'', MINUTES)],
     invalid = ''*invalid-login-mode*''\<rparr>"

definition modes :: value_table where
  "modes = \<lparr>items = map geninfo_of
     [(''disable'', ''Network & ShareUPS Disabled'', DISABLE), (''share'', ''ShareUPS'', SHARE)],
     invalid = ''*invalid-ups-mode*''\<rparr>"

definition types :: value_table where
  "types = \<lparr>items = map geninfo_of
     [(''dumb'', ''DUMB UPS Driver'', DUMB_UPS), (''apcsmart'', ''APC Smart UPS (any)'', APCSMART_UPS),
      (''usb'', ''USB UPS Driver'', USB_UPS), (''snmp'', ''SNMP UPS Driver'', SNMPLITE_UPS),
      (''net'', ''NETWORK UPS Driver'', NETWORK_UPS), (''test'', ''TEST UPS Driver'', TEST_UPS),
      (''pcnet'', ''PCNET UPS Driver'', PCNET_UPS), (''modbus'', ''MODBUS UPS Driver'', MODBUS_UPS)],
     invalid = ''*invalid-ups-type*''\<rparr>"

datatype handler =
    Match_int "int \<Rightarrow> upsinfo \<Rightarrow> upsinfo"
  | Match_str nat "string \<Rightarrow> upsinfo \<Rightarrow> upsinfo"
  | Match_range value_table "geninfo \<Rightarrow> upsinfo \<Rightarrow> upsinfo"
  | Match_index value_table "int \<Rightarrow> upsinfo \<Rightarrow> upsinfo"
  | Match_facility
  | Obsolete bool string          \<comment> \<open>whether it ends the program, and the message\<close>

definition config_table :: "(string \<times> handler) list" where
  "config_table =
     [(''UPSNAME'', Match_str 100 (\<lambda>v u. u\<lparr>upsname := v\<rparr>)),
      (''UPSCABLE'', Match_range cables (\<lambda>v u. u\<lparr>cable := v\<rparr>)),
      (''UPSTYPE'', Match_range types (\<lambda>v u. u\<lparr>mode := v\<rparr>)),
      (''DEVICE'', Match_str 256 (\<lambda>v u. u\<lparr>device := v\<rparr>)),
      (''POLLTIME'', Match_int (\<lambda>v u. u\<lparr>polltime := v\<rparr>)),
      (''LOCKFILE'', Match_str 4096 (\<lambda>v u. u\<lparr>lockpath := v\<rparr>)),
      (''SCRIPTDIR'', Match_str 4096 (\<lambda>v u. u\<lparr>scriptdir := v\<rparr>)),
      (''PWRFAILDIR'', Match_str 4096 (\<lambda>v u. u\<lparr>pwrfailpath := v\<rparr>)),
      (''NOLOGINDIR'', Match_str 4096 (\<lambda>v u. u\<lparr>nologinpath := v\<rparr>)),
      (''ANNOY'', Match_int (\<lambda>v u. u\<lparr>annoy := v\<rparr>)),
      (''ANNOYDELAY'', Match_int (\<lambda>v u. u\<lparr>annoydelay := v\<rparr>)),
      (''ONBATTERYDELAY'', Match_int (\<lambda>v u. u\<lparr>onbattdelay := v\<rparr>)),
      (''TIMEOUT'', Match_int (\<lambda>v u. u\<lparr>maxtime := v\<rparr>)),
      (''NOLOGON'', Match_range logins (\<lambda>v u. u\<lparr>nologin := v\<rparr>)),
      (''BATTERYLEVEL'', Match_int (\<lambda>v u. u\<lparr>percent := v\<rparr>)),
      (''MINUTES'', Match_int (\<lambda>v u. u\<lparr>runtime := v\<rparr>)),
      (''KILLDELAY'', Match_int (\<lambda>v u. u\<lparr>killdelay := v\<rparr>)),
      (''NETSERVER'', Match_index onoroff (\<lambda>v u. u\<lparr>netstats := v\<rparr>)),
      (''NISIP'', Match_str 64 (\<lambda>v u. u\<lparr>nisip := v\<rparr>)),
      (''NISPORT'', Match_int (\<lambda>v u. u\<lparr>statusport := v\<rparr>)),
      (''EVENTSFILE'', Match_str 4096 (\<lambda>v u. u\<lparr>eventfile := v\<rparr>)),
      (''EVENTSFILEMAX'', Match_int (\<lambda>v u. u\<lparr>eventfilemax := v\<rparr>)),
      (''FACILITY'', Match_facility),
      (''STATFILE'', Match_str 4096 (\<lambda>v u. u\<lparr>statfile := v\<rparr>)),
      (''LOGSTATS'', Match_index onoroff (\<lambda>v u. u\<lparr>logstats := v\<rparr>)),
      (''STATTIME'', Match_int (\<lambda>v u. u\<lparr>stattime := v\<rparr>)),
      (''DATATIME'', Match_int (\<lambda>v u. u\<lparr>datatime := v\<rparr>)),
      (''SELFTEST'', Match_str 9 (\<lambda>v u. u\<lparr>selftest := v\<rparr>)),
      (''HITRANSFER'', Match_int (\<lambda>v u. u\<lparr>hitrans := v\<rparr>)),
      (''LOTRANSFER'', Match_int (\<lambda>v u. u\<lparr>lotrans := v\<rparr>)),
      (''LOWBATT'', Match_int (\<lambda>v u. u\<lparr>dlowbatt := v\<rparr>)),
      (''WAKEUP'', Match_int (\<lambda>v u. u\<lparr>dwake := v\<rparr>)),
      (''RETURNCHARGE'', Match_int (\<lambda>v u. u\<lparr>rtnpct := v\<rparr>)),
      (''OUTPUTVOLTS'', Match_int (\<lambda>v u. u\<lparr>NomOutputVoltage := v\<rparr>)),
      (''SLEEP'', Match_int (\<lambda>v u. u\<lparr>dshutd := v\<rparr>)),
      (''BEEPSTATE'', Match_str 8 (\<lambda>v u. u\<lparr>beepstate := v\<rparr>)),
      (''BATTDATE'', Match_str 20 (\<lambda>v u. u\<lparr>battdat := v\<rparr>)),
      (''SENSITIVITY'', Match_str 8 (\<lambda>v u. u\<lparr>sensitivity := v\<rparr>)),
      (''UPSCLASS'', Match_range upsclasses (\<lambda>v u. u\<lparr>upsclass := v\<rparr>)),
      (''UPSMODE'', Match_range modes (\<lambda>v u. u\<lparr>sharenet := v\<rparr>)),
      (''NETTIME'', Match_int (\<lambda>v u. u\<lparr>polltime := v\<rparr>)),
      (''CONTROL'', Obsolete True ''CONTROL config directive is obsolete''),
      (''NETACCESS'', Obsolete True ''NETACCESS config directive is obsolete''),
      (''MASTER'', Obsolete True ''MASTER config directive is obsolete''),
      (''USERMAGIC'', Obsolete False ''USERMAGIC config directive is obsolete''),
      (''SLAVE'', Obsolete False ''SLAVE config directive is obsolete''),
      (''NETPORT'', Obsolete False ''NETPORT config directive is obsolete''),
      (''NETSTATUS'', Obsolete False ''NETSTATUS config directive is obsolete''),
      (''SERVERPORT'', Obsolete False ''SERVERPORT config directive is obsolete'')]"

subsection \<open>Handlers\<close>

record config_env =
  argvalue :: string
  junk_int :: "nat \<Rightarrow> int"
  junk_str :: "nat \<Rightarrow> string"

text \<open>
  \<open>int x; sscanf(v, "%d", &x)\<close>: the value is read as a \<open>long\<close> and cut to 32 bits. A value
  that is not there makes \<open>sscanf\<close> return \<open>EOF\<close>, which counts as true.
\<close>

definition scanned_int :: "int \<Rightarrow> int" where
  "scanned_int x = int32 (max (- (2 ^ 63)) (min (2 ^ 63 - 1) x))"

definition match_int :: "(int \<Rightarrow> upsinfo \<Rightarrow> upsinfo) \<Rightarrow> int \<Rightarrow> string \<Rightarrow> 'd sys \<Rightarrow> bool \<times> 'd sys" where
  "match_int set_field x v s =
     (case sscanf_d v of
        ScanFail \<Rightarrow> (False, s)
      | ScanEof \<Rightarrow> (True, upd_ups (set_field x) s)
      | ScanOk i \<Rightarrow> (True, upd_ups (set_field (scanned_int i)) s))"

text \<open>The word that \<open>sscanf(v, "%s", x)\<close> leaves in \<open>x\<close>; it never returns 0.\<close>

definition scanned_word :: "string \<Rightarrow> string \<Rightarrow> string" where
  "scanned_word x v = (case sscanf_s v of ScanOk w \<Rightarrow> w | _ \<Rightarrow> x)"

definition find_value :: "value_table \<Rightarrow> string \<Rightarrow> geninfo option" where
  "find_value vs x = find (\<lambda>g. strcaseeq x (gi_name g)) (items vs)"

definition bogus_value :: "config_env \<Rightarrow> value_table \<Rightarrow> string" where
  "bogus_value e vs = argvalue e @ '': Bogus configuration value ('' @ invalid vs @ '')'' @ [NL]"

definition match_range :: "config_env \<Rightarrow> value_table \<Rightarrow> (geninfo \<Rightarrow> upsinfo \<Rightarrow> upsinfo) \<Rightarrow> string \<Rightarrow> string \<Rightarrow>
    'd sys \<Rightarrow> bool \<times> 'd sys" where
  "match_range e vs set_field x v s =
     (case find_value vs (scanned_word x v) of
        None \<Rightarrow> (False, emit (Printed (bogus_value e vs)) (log_event LOG_WARNING (bogus_value e vs) s))
      | Some g \<Rightarrow>
          (True, upd_ups (set_field \<lparr>gi_name = strlcpy_to 256 (gi_name g),
                   gi_long_name = strlcpy_to 256 (gi_long_name g), gi_type = gi_type g\<rparr>) s))"

definition match_index :: "config_env \<Rightarrow> value_table \<Rightarrow> (int \<Rightarrow> upsinfo \<Rightarrow> upsinfo) \<Rightarrow> string \<Rightarrow> string \<Rightarrow>
    'd sys \<Rightarrow> bool \<times> 'd sys" where
  "match_index e vs set_field x v s =
     (case find_value vs (scanned_word x v) of
        None \<Rightarrow> (False, emit (Printed (bogus_value e vs)) (log_event LOG_WARNING (bogus_value e vs) s))
      | Some g \<Rightarrow> (True, upd_ups (set_field (gi_type g)) s))"

definition strip_trailing :: "string \<Rightarrow> string" where
  "strip_trailing x = rev (dropWhile isspace (rev x))"

definition match_str :: "nat \<Rightarrow> (string \<Rightarrow> upsinfo \<Rightarrow> upsinfo) \<Rightarrow> string \<Rightarrow> 'd sys \<Rightarrow> bool \<times> 'd sys" where
  "match_str sz set_field v s =
     (True, upd_ups (set_field (strlcpy_to sz
              (strip_trailing (takeWhile (\<lambda>c. c \<noteq> CHR ''#'') (strlcpy_to 256 v))))) s)"

definition facnames :: "(string \<times> int) list" where
  "facnames = [(''daemon'', 24), (''local0'', 128), (''local1'', 136), (''local2'', 144),
     (''local3'', 152), (''local4'', 160), (''local5'', 168), (''local6'', 176), (''local7'', 184),
     (''lpr'', 48), (''mail'', 16), (''news'', 56), (''uucp'', 64), (''user'', 8)]"

definition match_facility :: "string \<Rightarrow> string \<Rightarrow> 'd sys \<Rightarrow> bool \<times> 'd sys" where
  "match_facility x v s =
     (case find (\<lambda>f. strcaseeq (fst f) (scanned_word x v)) facnames of
        None \<Rightarrow> (False, s)
      | Some f \<Rightarrow>
          (True, guarded (snd f \<noteq> sysfac (ups s)) (emit (Openlog (snd f)))
                   (upd_ups (\<lambda>u. u\<lparr>sysfac := snd f\<rparr>) s)))"

definition obsolete :: "bool \<Rightarrow> string \<Rightarrow> 'd sys \<Rightarrow> bool \<times> 'd sys" where
  "obsolete fatal msg s =
     (if fatal then (False, emit (Printed (msg @ [NL])) s)
      else (True, emit (Printed (''error ignored.'' @ [NL])) (emit (Printed (msg @ [NL])) s)))"

definition run_handler :: "config_env \<Rightarrow> nat \<Rightarrow> handler \<Rightarrow> string \<Rightarrow> 'd sys \<Rightarrow> bool \<times> 'd sys" where
  "run_handler e n h v =
     (case h of
        Match_int f \<Rightarrow> match_int f (junk_int e n) v
      | Match_str sz f \<Rightarrow> match_str sz f v
      | Match_range vs f \<Rightarrow> match_range e vs f (junk_str e n) v
      | Match_index vs f \<Rightarrow> match_index e vs f (junk_str e n) v
      | Match_facility \<Rightarrow> match_facility (junk_str e n) v
      | Obsolete fatal msg \<Rightarrow> obsolete fatal msg)"

subsection \<open>A line\<close>

text \<open>The key in capitals and the value of a line; \<open>None\<close> for a blank line or a comment.\<close>

definition key_value :: "string \<Rightarrow> (string \<times> string) option" where
  "key_value line =
     (let key = dropWhile isspace line
      in if key = [] \<or> hd key = CHR ''#'' then None
         else Some (map toupper (takeWhile (\<lambda>c. \<not> isspace c) key),
                    dropWhile isspace (dropWhile (\<lambda>c. \<not> isspace c) key)))"

definition ParseConfig :: "config_env \<Rightarrow> nat \<Rightarrow> string \<Rightarrow> 'd sys \<Rightarrow> bool \<times> 'd sys" where
  "ParseConfig e n line s =
     (case key_value line of
        None \<Rightarrow> (True, s)
      | Some (key, v) \<Rightarrow>
          (case map_of config_table key of None \<Rightarrow> (False, s) | Some h \<Rightarrow> run_handler e n h v s))"

subsection \<open>Defaults\<close>

definition set_UPS_Cmd :: "upsinfo \<Rightarrow> upsinfo" where
  "set_UPS_Cmd u = u\<lparr>UPS_Cmd := (UPS_Cmd u)(
     CI_STATUS := char_code (CHR ''Q''), CI_LQUAL := char_code (CHR ''9''),
     CI_WHY_BATT := char_code (CHR ''G''), CI_ST_STAT := char_code (CHR ''X''),
     CI_VLINE := char_code (CHR ''L''), CI_VMAX := char_code (CHR ''M''),
     CI_VMIN := char_code (CHR ''N''), CI_VOUT := char_code (CHR ''O''),
     CI_BATTLEV := char_code (CHR ''f''), CI_VBATT := char_code (CHR ''B''),
     CI_LOAD := char_code (CHR ''P''), CI_FREQ := char_code (CHR ''F''),
     CI_RUNTIM := char_code (CHR ''j''), CI_ITEMP := char_code (CHR ''C''),
     CI_DIPSW := char_code (CHR ''7''), CI_SENS := char_code (CHR ''s''),
     CI_DWAKE := char_code (CHR ''r''), CI_DSHUTD := char_code (CHR ''p''),
     CI_LTRANS := char_code (CHR ''l''), CI_HTRANS := char_code (CHR ''u''),
     CI_RETPCT := char_code (CHR ''e''), CI_DALARM := char_code (CHR ''k''),
     CI_DLBATT := char_code (CHR ''q''), CI_IDEN := char_code (CHR ''c''),
     CI_STESTI := char_code (CHR ''E''), CI_MANDAT := char_code (CHR ''m''),
     CI_SERNO := char_code (CHR ''n''), CI_BATTDAT := char_code (CHR ''x''),
     CI_NOMBATTV := char_code (CHR ''g''), CI_HUMID := char_code (CHR ''h''),
     CI_REVNO := char_code (CHR ''b''), CI_REG1 := 126, CI_REG2 := 39,
     CI_REG3 := char_code (CHR ''8''), CI_EXTBATTS := char_code (CHR ''>''),
     CI_ATEMP := char_code (CHR ''t''), CI_UPSMODEL := 1, CI_NOMOUTV := char_code (CHR ''o''),
     CI_BADBATTS := char_code (CHR ''<''), CI_EPROM := 26, CI_ST_TIME := char_code (CHR ''d''),
     CI_CYCLE_EPROM := char_code (CHR ''-''), CI_UPS_CAPS := char_code (CHR ''a''))\<rparr>"

definition init_ups_struct :: "upsinfo \<Rightarrow> upsinfo" where
  "init_ups_struct u =
     (let u1 = set_plugged (u\<lparr>fd := -1\<rparr>);
          u2 = u1\<lparr>nologin := geninfo_of (''always'', ''always'', ALWAYS), annoy := 5 * 60, annoydelay := 60,
                 onbattdelay := 6, maxtime := 0, nologin_time := 0, nologin_file := False,
                 stattime := 0, datatime := 0, polltime := 60, percent := 10, runtime := 5,
                 netstats := 1, statusport := 3551, upsmodel := [], sensitivity := ''-1'', dwake := -1,
                 dshutd := -1, selftest := ''-1'', lotrans := -1, hitrans := -1, rtnpct := -1,
                 dlowbatt := -1, NomOutputVoltage := -1, beepstate := ''-1'', nisip := [], lockfile := -1\<rparr>;
          u3 = clear_shut_remote (clear_shut_emerg (clear_shut_ltime (clear_shut_btime (clear_shut_load u2))))
      in set_UPS_Cmd (u3\<lparr>sysfac := 24, statfile := [], eventfile := [], eventfilemax := 10,
           event_fd := -1, scriptdir := ''/etc/apcupsd'', pwrfailpath := ''/etc/apcupsd'',
           nologinpath := ''/etc''\<rparr>))"

subsection \<open>The file\<close>

text \<open>The numbered lines that \<open>fgets(line, 256, apcconf)\<close> delivers, each up to its first NUL.\<close>

definition config_lines :: "string \<Rightarrow> (nat \<times> string) list" where
  "config_lines txt = (let ls = map c_str (fgets_all 255 [] txt) in zip [1..<Suc (length ls)] ls)"

text \<open>\<open>ParseConfig\<close> on every line, with the number of lines it fails on.\<close>

definition parse_line :: "config_env \<Rightarrow> nat \<times> string \<Rightarrow> nat \<times> 'd sys \<Rightarrow> nat \<times> 'd sys" where
  "parse_line e = (\<lambda>(n, line) (errors, s).
     let (ok, t) = ParseConfig e n line s in (if ok then errors else Suc errors, t))"

definition parse_lines :: "config_env \<Rightarrow> (nat \<times> string) list \<Rightarrow> 'd sys \<Rightarrow> nat \<times> 'd sys" where
  "parse_lines e ls s = fold (parse_line e) ls (0, s)"

definition APC_CONFIG_MAGIC :: string where
  "APC_CONFIG_MAGIC = ''## apcupsd.conf v1.1 ##''"

definition old_file_warning :: "config_env \<Rightarrow> string \<Rightarrow> string" where
  "old_file_warning e line =
     (let a = argvalue e; q = [CHR 0x22]
      in a @ '': Warning: old configuration file found.'' @ [NL, NL] @
         a @ '': Expected: '' @ q @ APC_CONFIG_MAGIC @ q @ [NL] @
         a @ '': Found:    '' @ q @ line @ q @ [NL, NL] @
         a @ '': Please check new file format and'' @ [NL] @
         a @ '': modify accordingly the first line'' @ [NL] @
         a @ '': of config file.'' @ [NL, NL] @
         a @ '': Processing config file anyway.'' @ [NL])"

definition check_magic :: "config_env \<Rightarrow> (nat \<times> string) list \<Rightarrow> 'd sys \<Rightarrow> 'd sys" where
  "check_magic e ls s = (case ls of
      [] \<Rightarrow> s
    | (_, line) # _ \<Rightarrow>
        if is_prefix APC_CONFIG_MAGIC line then s else emit (Printed (old_file_warning e line)) s)"

subsection \<open>Making the settings agree\<close>

definition limit_annoydelay :: "upsinfo \<Rightarrow> upsinfo" where
  "limit_annoydelay u = (if annoydelay u \<le> annoy u then u\<lparr>annoydelay := 0\<rparr> else u)"

definition sharemaster_limits :: "upsinfo \<Rightarrow> upsinfo" where
  "sharemaster_limits u =
     (if gi_type (sharenet u) = SHAREMASTER then u\<lparr>maxtime := 0, percent := 10, runtime := 5\<rparr> else u)"

definition force_cable :: "config_env \<Rightarrow> string \<Rightarrow> 'd sys \<Rightarrow> 'd sys" where
  "force_cable e v s = snd (match_range e cables (\<lambda>g u. u\<lparr>cable := g\<rparr>) (junk_str e 0) v s)"

definition sanitize_cable :: "config_env \<Rightarrow> 'd sys \<Rightarrow> 'd sys" where
  "sanitize_cable e s =
     (let m = gi_type (mode (ups s)); c = gi_type (cable (ups s))
      in if m = USB_UPS then force_cable e ''usb'' s
         else if m = SNMPLITE_UPS \<or> m = PCNET_UPS \<or> m = NETWORK_UPS then force_cable e ''ether'' s
         else if m = MODBUS_UPS
         then (if c < CABLE_SMART then error_abort (''Invalid cable specified for MODBUS UPS'' @ [NL]) s else s)
         else if m = APCSMART_UPS then force_cable e ''smart'' s
         else if m = DUMB_UPS
         then (if CABLE_SMART \<le> c then error_abort (''Invalid cable specified for Dumb UPS'' @ [NL]) s else s)
         else s)"

text \<open>What follows the last slash, or the whole name.\<close>

definition base_name :: "string \<Rightarrow> string" where
  "base_name p = rev (takeWhile (\<lambda>c. c \<noteq> CHR ''/'') (rev p))"

definition LOCK_DEFAULT :: string where
  "LOCK_DEFAULT = ''/var/lock''"

definition lock_file :: "upsinfo \<Rightarrow> upsinfo" where
  "lock_file u =
     (let dir = (if lockpath u = [] then strlcpy_to 4096 LOCK_DEFAULT else lockpath u)
      in if gi_type (cable u) \<noteq> APC_NET
         then u\<lparr>lockpath := fst (strlcat (fst (strlcat dir ''/LCK..'' 4096)) (base_name (device u)) 4096)\<rparr>
         else u\<lparr>lockpath := [], lockfile := -1\<rparr>)"

definition flag_files :: "upsinfo \<Rightarrow> upsinfo" where
  "flag_files u = u\<lparr>nologinpath := fst (strlcat (nologinpath u) ''/nologin'' 4096),
     pwrfailpath := fst (strlcat (pwrfailpath u) ''/powerfail'' 4096)\<rparr>"

text \<open>
  The products with the doubles 0.9 and 1.1, cut to integers; as both constants lie just above
  the decimal fraction, the result is that of the exact product.
\<close>

definition plus_tenth :: "int \<Rightarrow> int" where
  "plus_tenth x = (let y = trunc (of_int x * 11 / 10) in if y = x then y + 1 else y)"

definition login_limit :: "upsinfo \<Rightarrow> upsinfo" where
  "login_limit u =
     (let t = gi_type (nologin u)
      in if t = TIMEOUT
         then (if maxtime u \<noteq> 0 then u\<lparr>nologin_time := trunc (of_int (maxtime u) * 9 / 10)\<rparr> else u)
         else if t = PERCENT then u\<lparr>nologin_time := plus_tenth (percent u)\<rparr>
         else if t = MINUTES then u\<lparr>nologin_time := plus_tenth (runtime u)\<rparr>
         else u)"

definition check_for_config :: "config_env \<Rightarrow> string \<Rightarrow> 'd sys \<Rightarrow> 'd sys" where
  "check_for_config e cfgfile s =
     (if \<not> can_open cfgfile s
      then error_abort (''Error opening configuration file ('' @ cfgfile @ '')'') s
      else
        let s1 = upd_ups (\<lambda>u. u\<lparr>configfile := strlcpy_to 4096 cfgfile\<rparr>) s;
            ls = config_lines (the (files s cfgfile));
            (errors, s2) = parse_lines e ls (check_magic e ls s1)
        in if errors > 0
           then error_abort (''Terminating due to configuration file errors.'' @ [NL])
                  (upd_ups (\<lambda>u. u\<lparr>lockpath := []\<rparr>) s2)
           else run [upd_ups limit_annoydelay, upd_ups sharemaster_limits, sanitize_cable e,
                     upd_ups lock_file, upd_ups flag_files, upd_ups login_limit] s2)"

end
