(* ===== verification/Apcaccess.thy ===== *)
theory Apcaccess
  imports NisServer Config
begin

text \<open>
  The command line client \<open>apcaccess\<close> (\<open>src/apcaccess.c\<close>): it asks a server for its status report and
  prints it, or the value of one line of it, with or without the units. The connection is the
  script of \<open>NisLib\<close>; \<open>recvline\<close> is memory, so that what a shorter message leaves of a longer one is there.
\<close>

subsection \<open>A line\<close>

definition units :: "string list" where
  "units = map (\<lambda>u. u @ [NL])
     ['' Minutes'', '' Seconds'', '' Percent'', '' Volts'', '' Watts'', '' Hz'', '' C'']"

definition ends_with :: "string \<Rightarrow> string \<Rightarrow> bool" where
  "ends_with u line \<longleftrightarrow> length u \<le> length line \<and> drop (length line - length u) line = u"

definition shown :: "bool \<Rightarrow> string \<Rightarrow> string" where
  "shown no_units line =
     (if no_units
      then case List.find (\<lambda>u. ends_with u line) units of
             None \<Rightarrow> line
           | Some u \<Rightarrow> take (length line - length u) line @ [NL]
      else line)"

text \<open>A value loses its unit, whichever of them it has, and keeps the end of its line; no unit is the end of
  another one.\<close>

lemma units_apart: "u \<in> set units \<Longrightarrow> w \<in> set units \<Longrightarrow> ends_with u w \<Longrightarrow> u = w"
proof -
  have "\<forall>u\<in>set units. \<forall>w\<in>set units. ends_with u w \<longrightarrow> u = w" by code_simp
  then show "u \<in> set units \<Longrightarrow> w \<in> set units \<Longrightarrow> ends_with u w \<Longrightarrow> u = w" by blast
qed

lemma shown_unit:
  assumes "u \<in> set units" shows "shown True (v @ u) = v @ [NL]" and "shown False l = l"
proof -
  have other: "w = u" if "w \<in> set units" "ends_with w (v @ u)" for w
  proof (cases "length w \<le> length u")
    case True
    then have "ends_with w u" using that(2) by (simp add: ends_with_def)
    then show ?thesis using units_apart assms that(1) by blast
  next
    case False
    define d where "d = drop (length (v @ u) - length w) v"
    have w: "w = d @ u" using that(2) False by (simp add: ends_with_def d_def)
    then have "ends_with u w" by (simp add: ends_with_def)
    then show ?thesis using units_apart assms that(1) by blast
  qed
  have "ends_with u (v @ u)" by (simp add: ends_with_def)
  then have "\<exists>w. List.find (\<lambda>w. ends_with w (v @ u)) units = Some w" using assms
    by (metis find_None_iff not_None_eq)
  then obtain w where w: "List.find (\<lambda>w. ends_with w (v @ u)) units = Some w" by blast
  then have "w \<in> set units \<and> ends_with w (v @ u)" by (auto simp: find_Some_iff)
  then have "w = u" using other by blast
  then show "shown True (v @ u) = v @ [NL]" using w by (simp add: shown_def)
  show "shown False l = l" by (simp add: shown_def)
qed

text \<open>
  \<open>strtok_r\<close> skips the colons in front and cuts at the next one, a blank ends the name, and the value
  is looked for from the first byte of the memory, the length of the name and one further.
\<close>

definition match_line :: "string \<Rightarrow> string \<Rightarrow> string option \<times> string" where
  "match_line par mem =
     (let msg = c_str mem; lead = length (takeWhile (\<lambda>c. c = CHR '':'') msg);
          var = takeWhile (\<lambda>c. c \<noteq> CHR '':'') (drop lead msg)
      in if var = [] then (None, mem)
         else let mem1 = (if lead + length var < length msg then poke (lead + length var) [NUL] mem else mem);
                  name = length (takeWhile (\<lambda>c. c \<noteq> CHR '' '') var);
                  mem2 = (if name < length var then poke (lead + name) [NUL] mem1 else mem1)
              in (if c_str (drop lead mem2) = par
                  then Some (dropWhile (\<lambda>c. c = CHR '' '') (c_str (drop (length var + 1) mem2))) else None,
                  mem2))"

subsection \<open>The report\<close>

text \<open>The result of the last \<open>net_recv\<close>, whether the parameter was found, and what was printed.
  \<open>recvline\<close> has 257 bytes; it is longer here when it was overrun.\<close>

function access_loop :: "string option \<Rightarrow> bool \<Rightarrow> string \<Rightarrow> string \<Rightarrow> conn \<Rightarrow> int \<times> bool \<times> string" where
  "access_loop par no_units recvline out c =
     (case net_recv [NUL, NUL] 257 recvline c of
        (n, buf, c') \<Rightarrow>
          if n \<le> 0 then (n, False, out)
          else let mem = poke (nat n) [NUL] buf
               in case par of
                    None \<Rightarrow> access_loop None no_units mem (out @ shown no_units (c_str mem)) c'
                  | Some p \<Rightarrow>
                      (case match_line p mem of
                         (None, mem') \<Rightarrow> access_loop par no_units mem' out c'
                       | (Some line, mem') \<Rightarrow> (n, True, out @ shown no_units line)))"
  by pat_completeness auto
termination
  by (relation "measure (\<lambda>(_, _, _, _, c). rx_weight (rx c))") (auto dest: net_recv_weight [OF sym])

declare access_loop.simps [simp del]

definition do_pthreads_status :: "net_env \<times> conn \<Rightarrow> string option \<Rightarrow> bool \<Rightarrow> int \<times> string" where
  "do_pthreads_status = (\<lambda>(env, c) par no_units.
     if fst (net_open env) < 0 then (1, [])
     else let c1 = snd (net_send ''status'' c);
              (n, found, out) = access_loop par no_units (replicate 257 NUL) [] c1
          in (if n < 0 then 1 else if par \<noteq> None \<and> \<not> found then 2 else 0, out))"

subsection \<open>The command line\<close>

abbreviation (input) NISPORT :: int where "NISPORT \<equiv> 3551"

record access_options =
  ao_cfgfile :: "string option"
  ao_host :: "string option"
  ao_par :: "string option"
  ao_no_units :: bool
  ao_invalid :: bool                 \<comment> \<open>\<open>getopt\<close> has met something else\<close>
  ao_args :: "string list"

text \<open>
  The port and the host, or the exit status. A configuration file that can be opened is read as the
  daemon reads it, its errors included, which end the program; the default file may be missing.
\<close>

definition access_defaults :: "config_env \<Rightarrow> access_options \<Rightarrow> 'd sys \<Rightarrow> int + int \<times> string" where
  "access_defaults e opts s =
     (let cfgfile = (case ao_cfgfile opts of None \<Rightarrow> ''/etc/apcupsd/apcupsd.conf'' | Some f \<Rightarrow> f);
          host = (\<lambda>addr. case ao_host opts of None \<Rightarrow> addr | Some h \<Rightarrow> h)
      in if can_open cfgfile s
         then let t = check_for_config e cfgfile (upd_ups (\<lambda>_. init_ups_struct zero_ups) s)
              in if halted t then Inl 1 else Inr (statusport (ups t), host (nisip (ups t)))
         else if ao_cfgfile opts \<noteq> None then Inl 2
         else Inr (NISPORT, host []))"

definition access_target :: "int \<times> string \<Rightarrow> string list \<Rightarrow> string \<times> int" where
  "access_target = (\<lambda>(port, host) args.
     let host1 = (if length args \<ge> 2 then args ! 1 else host);
         host2 = (if host1 = [] then ''localhost'' else host1);
         port1 = (if CHR '':'' \<in> set host2 then atoi (tl (dropWhile (\<lambda>c. c \<noteq> CHR '':'') host2)) else port);
         host3 = takeWhile (\<lambda>c. c \<noteq> CHR '':'') host2
     in (if host3 = ''0.0.0.0'' then ''localhost'' else host3, port1))"

text \<open>\<open>net\<close> is what there is at a host and a port.\<close>

definition access_main ::
    "config_env \<Rightarrow> (string \<times> int \<Rightarrow> net_env \<times> conn) \<Rightarrow> access_options \<Rightarrow> 'd sys \<Rightarrow> int \<times> string" where
  "access_main e net opts s =
     (if ao_invalid opts then (1, [])
      else case access_defaults e opts s of
             Inl status \<Rightarrow> (status, [])
           | Inr def \<Rightarrow>
               if ao_args opts \<noteq> [] \<and> hd (ao_args opts) \<noteq> ''status'' then (1, [])
               else do_pthreads_status (net (access_target def (ao_args opts))) (ao_par opts) (ao_no_units opts))"

subsection \<open>Lines of a report\<close>

definition line_key :: "string \<Rightarrow> string" where
  "line_key l = takeWhile (\<lambda>c. c \<noteq> CHR '' '') (takeWhile (\<lambda>c. c \<noteq> CHR '':'') l)"

definition line_value :: "string \<Rightarrow> string" where
  "line_value l = dropWhile (\<lambda>c. c = CHR '' '') (tl (dropWhile (\<lambda>c. c \<noteq> CHR '':'') l))"

definition keyed :: "string \<Rightarrow> bool" where
  "keyed l \<longleftrightarrow> CHR '':'' \<in> set l \<and> l \<noteq> [] \<and> hd l \<noteq> CHR '':'' \<and> NUL \<notin> set l"

lemma c_str_line: "NUL \<notin> set l \<Longrightarrow> c_str (l @ NUL # rest) = l"
proof -
  assume "NUL \<notin> set l"
  then have "\<forall>c\<in>set l. c \<noteq> NUL" by auto
  then show ?thesis unfolding c_str_def by (subst takeWhile_append2) auto
qed

lemma poke_at: "poke (length a) [x] (a @ y # b) = a @ x # b"
  by (simp add: poke_def)

text \<open>A line and what is behind it in the memory, before and after the two cuts.\<close>

lemma match_line_split:
  assumes "k \<noteq> []" and "CHR '':'' \<notin> set k" and "NUL \<notin> set k" and "NUL \<notin> set v"
  shows "fst (match_line par (k @ CHR '':'' # v @ NUL # rest)) =
    (if takeWhile (\<lambda>c. c \<noteq> CHR '' '') k = par then Some (dropWhile (\<lambda>c. c = CHR '' '') v) else None)"
proof -
  let ?mem = "k @ CHR '':'' # v @ NUL # rest" and ?n = "takeWhile (\<lambda>c. c \<noteq> CHR '' '') k"
  have c: "c_str ?mem = k @ CHR '':'' # v"
    using c_str_line [of "k @ CHR '':'' # v" rest] assms(3,4) by simp
  have lead: "takeWhile (\<lambda>c. c = CHR '':'') (k @ CHR '':'' # v) = []" using assms(1,2) by (cases k) auto
  have var: "takeWhile (\<lambda>c. c \<noteq> CHR '':'') (k @ CHR '':'' # v) = k"
  proof -
    have "\<forall>c\<in>set k. c \<noteq> CHR '':''" using assms(2) by auto
    then show ?thesis by (subst takeWhile_append2) auto
  qed
  let ?mem1 = "k @ NUL # v @ NUL # rest"
  have m1: "poke (length k) [NUL] ?mem = ?mem1" by (rule poke_at)
  define mem2 where "mem2 = (if length ?n < length k then poke (length ?n) [NUL] ?mem1 else ?mem1)"
  obtain k2 where k2: "mem2 = ?n @ NUL # k2" "drop (Suc (length k)) mem2 = v @ NUL # rest"
  proof (cases "length ?n < length k")
    case True
    have id: "?n @ dropWhile (\<lambda>c. c \<noteq> CHR '' '') k = k" by (rule takeWhile_dropWhile_id)
    have "dropWhile (\<lambda>c. c \<noteq> CHR '' '') k \<noteq> []"
    proof
      assume "dropWhile (\<lambda>c. c \<noteq> CHR '' '') k = []"
      with id have "?n = k" by (simp only: append_Nil2)
      with True show False by (simp only: less_irrefl)
    qed
    then obtain y r where d: "dropWhile (\<lambda>c. c \<noteq> CHR '' '') k = y # r"
      unfolding neq_Nil_conv by (elim exE)
    from id [symmetric] have k: "k = ?n @ y # r" unfolding d .
    have m: "?mem1 = ?n @ y # r @ NUL # v @ NUL # rest"
      using arg_cong [OF k, of "\<lambda>x. x @ NUL # v @ NUL # rest"] by (simp only: append.assoc append_Cons)
    have "mem2 = poke (length ?n) [NUL] (?n @ y # r @ NUL # v @ NUL # rest)"
      using True m by (simp only: mem2_def if_True)
    then have "mem2 = ?n @ NUL # r @ NUL # v @ NUL # rest" by (simp only: poke_at)
    moreover have "length k = length ?n + Suc (length r)" using arg_cong [OF k, of length] by simp
    ultimately show ?thesis by (intro that [of "r @ NUL # v @ NUL # rest"]) simp_all
  next
    case False
    have t: "?n = take (length ?n) k" by (rule takeWhile_eq_take)
    from False have "take (length ?n) k = k" by (intro take_all) simp
    with t have "?n = k" by (rule trans)
    then show ?thesis using False by (intro that [of "v @ NUL # rest"]) (simp_all add: mem2_def del: takeWhile_eq_all_conv)
  qed
  have n: "NUL \<notin> set ?n" using assms(3) by (auto dest: set_takeWhileD)
  have key: "c_str mem2 = ?n" using c_str_line [OF n, of k2] by (simp only: k2(1))
  have val: "c_str (drop (Suc (length k)) mem2) = v" unfolding k2(2) by (rule c_str_line [OF assms(4)])
  have lt: "length k < length (k @ CHR '':'' # v)" by simp
  show ?thesis
    by (simp only: match_line_def Let_def c lead list.size(3) drop_0 var add_0 lt if_True m1 mem2_def [symmetric]
        assms(1) if_False fst_conv Suc_eq_plus1 [symmetric] key val)
qed

lemma match_line_keyed:
  assumes "keyed l"
  shows "fst (match_line par (l @ NUL # rest)) = (if line_key l = par then Some (line_value l) else None)"
proof -
  obtain k v where l: "l = k @ CHR '':'' # v" "CHR '':'' \<notin> set k"
    using assms split_list_first [of "CHR '':''" l] by (auto simp: keyed_def)
  have k: "k \<noteq> []" "NUL \<notin> set k" "NUL \<notin> set v" using assms l by (auto simp: keyed_def)
  have "\<forall>c\<in>set k. c \<noteq> CHR '':''" using l(2) by auto
  then have "takeWhile (\<lambda>c. c \<noteq> CHR '':'') l = k" "dropWhile (\<lambda>c. c \<noteq> CHR '':'') l = CHR '':'' # v"
    unfolding l(1) by (subst takeWhile_append2 dropWhile_append2; auto)+
  then show ?thesis
    using match_line_split [OF k(1) l(2) k(2,3), of par rest] by (simp add: l(1) line_key_def line_value_def)
qed

lemma match_line_length: "length (snd (match_line par mem)) = length mem"
proof -
  let ?msg = "c_str mem"
  let ?lead = "length (takeWhile (\<lambda>c. c = CHR '':'') ?msg)"
  let ?var = "takeWhile (\<lambda>c. c \<noteq> CHR '':'') (drop ?lead ?msg)"
  have "length ?var \<le> length (drop ?lead ?msg)" by (rule length_takeWhile_le)
  moreover have "?lead \<le> length ?msg" by (rule length_takeWhile_le)
  moreover have "length ?msg \<le> length mem" unfolding c_str_def by (rule length_takeWhile_le)
  ultimately have b: "?lead + length ?var \<le> length mem" by simp
  show ?thesis
    using b length_takeWhile_le [of "\<lambda>c. c \<noteq> CHR '' ''" ?var] \<open>length ?msg \<le> length mem\<close>
    by (auto simp: match_line_def Let_def length_poke)
qed

subsection \<open>Reading the report\<close>

definition access_result :: "string option \<Rightarrow> bool \<Rightarrow> string list \<Rightarrow> int \<times> string" where
  "access_result par no_units ls =
     (case par of
        None \<Rightarrow> (0, concat (map (shown no_units) ls))
      | Some p \<Rightarrow>
          (case List.find (\<lambda>l. line_key l = p) ls of
             None \<Rightarrow> (2, [])
           | Some l \<Rightarrow> (0, shown no_units (line_value l))))"

lemma access_loop_report:
  assumes "list_all delivers (rx c)" and "rx_bytes (rx c) = concat (map frame ls) @ frame [] @ rest"
    and "\<forall>l\<in>set ls. length l \<le> 256 \<and> keyed l" and "length recvline = 257"
  shows "\<exists>n. 0 \<le> n \<and> access_loop par no_units recvline out c =
    (n, par \<noteq> None \<and> fst (access_result par no_units ls) = 0, out @ snd (access_result par no_units ls))"
  using assms
proof (induction ls arbitrary: c recvline out)
  case Nil
  have "rx_bytes (rx c) = frame [] @ rest" using Nil.prems by simp
  then obtain c' where "net_recv [NUL, NUL] 257 recvline c = (0, recvline, c')"
    using net_recv_frame [of c "[]" rest "[NUL, NUL]" recvline 257] Nil.prems(1) by auto
  then show ?case by (auto simp: access_loop.simps access_result_def split: option.split)
next
  case (Cons l ls)
  have l: "0 < length l" "length l \<le> 256" "keyed l" "NUL \<notin> set l" using Cons.prems by (auto simp: keyed_def)
  have "rx_bytes (rx c) = frame l @ (concat (map frame ls) @ frame [] @ rest)" using Cons.prems by simp
  then obtain c' where recv: "net_recv [NUL, NUL] 257 recvline c = (int (length l), l @ drop (length l) recvline, c')"
    and c': "list_all delivers (rx c')" "rx_bytes (rx c') = concat (map frame ls) @ frame [] @ rest"
    using net_recv_frame [of c l "concat (map frame ls) @ frame [] @ rest" "[NUL, NUL]" recvline 257]
      Cons.prems l by auto
  define mem where "mem = poke (length l) [NUL] (l @ drop (length l) recvline)"
  have mem: "mem = l @ NUL # drop (Suc (length l)) recvline" "length mem = 257"
    using Cons.prems(4) l(2) by (simp_all add: mem_def poke_def)
  show ?case
  proof (cases par)
    case None
    have "access_loop par no_units recvline out c = access_loop None no_units mem (out @ shown no_units l) c'"
      by (subst access_loop.simps) (use recv l c_str_line [OF l(4)] mem in \<open>simp add: None mem_def [symmetric]\<close>)
    moreover obtain n where "0 \<le> n" "access_loop par no_units mem (out @ shown no_units l) c' =
        (n, par \<noteq> None \<and> fst (access_result par no_units ls) = 0,
         (out @ shown no_units l) @ snd (access_result par no_units ls))"
      using Cons.IH [OF c' _ mem(2), of "out @ shown no_units l"] Cons.prems(3) by auto
    ultimately show ?thesis by (simp add: None access_result_def)
  next
    case (Some p)
    obtain r mem' where m: "match_line p mem = (r, mem')" by force
    have r: "r = (if line_key l = p then Some (line_value l) else None)"
      using match_line_keyed [OF l(3), of p "drop (Suc (length l)) recvline"] m by (simp add: mem(1))
    show ?thesis
    proof (cases "line_key l = p")
      case True
      have "access_loop par no_units recvline out c = (int (length l), True, out @ shown no_units (line_value l))"
        by (subst access_loop.simps) (use recv l m r True in \<open>simp add: Some mem_def [symmetric]\<close>)
      then show ?thesis using True by (simp add: Some access_result_def)
    next
      case False
      have len: "length mem' = 257" using match_line_length [of p mem] m mem(2) by simp
      have "access_loop par no_units recvline out c = access_loop par no_units mem' out c'"
        by (subst access_loop.simps) (use recv l m r False in \<open>simp add: Some mem_def [symmetric]\<close>)
      then show ?thesis
        using Cons.IH [OF c' _ len, of out] Cons.prems(3) False by (simp add: Some access_result_def)
    qed
  qed
qed

lemma status_printed:
  assumes "list_all delivers (rx c)" and "rx_bytes (rx c) = concat (map frame ls) @ frame []"
    and "\<forall>l\<in>set ls. length l \<le> 256 \<and> keyed l" and "0 \<le> fst (net_open env)"
  shows "do_pthreads_status (env, c) par no_units = access_result par no_units ls"
proof -
  obtain r out where a: "access_result par no_units ls = (r, out)" by force
  obtain n where n: "0 \<le> n" "access_loop par no_units (replicate 257 NUL) [] (snd (net_send ''status'' c)) =
      (n, par \<noteq> None \<and> r = 0, out)"
    using access_loop_report [of "snd (net_send ''status'' c)" ls "[]" "replicate 257 NUL" par no_units "[]"] assms a
    by auto
  have "r = (if par \<noteq> None \<and> r \<noteq> 0 then 2 else 0)"
    using a by (auto simp: access_result_def split: option.splits)
  then show ?thesis using n assms(4) a by (cases par) (auto simp: do_pthreads_status_def split: if_splits)
qed

text \<open>
  A message of 257 bytes is as long as \<open>recvline\<close>, so that \<open>net_recv\<close> takes it; the zero that is put
  behind it is one byte beyond the end.
\<close>

theorem recvline_overrun:
  assumes "list_all delivers (rx c)" "rx_bytes (rx c) = frame l @ rest" "length l = 257" "length recvline = 257"
  shows "\<exists>buf c'. net_recv [NUL, NUL] 257 recvline c = (257, buf, c') \<and> length buf = 257 \<and>
    length (poke (nat 257) [NUL] buf) = 258"
proof -
  obtain c' where "net_recv [NUL, NUL] 257 recvline c = (int (length l), l @ drop (length l) recvline, c')"
    using net_recv_frame [OF assms(1,2), of "[NUL, NUL]" recvline 257] assms(3,4) by auto
  then show ?thesis using assms(3,4) by (auto simp: poke_def)
qed

end
