(* ===== verification/Action.thy ===== *)
theory Action
  imports Driver
begin

text \<open>
  \<open>src/action.c\<close>: what the daemon does when the state of the UPS changes. The tables of
  commands and messages, the events, the shutdown sequence, and \<open>do_action\<close>, the state
  machine that runs after every poll of the UPS. \<open>do_action\<close> is cut into one definition per
  block of the C function; \<open>act_on_state\<close> is its \<open>switch\<close>.
\<close>

unbundle bit_operations_syntax

subsection \<open>Events\<close>

datatype ups_cmd =
    CMDPOWEROUT | CMDONBATTERY | CMDFAILING | CMDTIMEOUT | CMDLOADLIMIT | CMDRUNLIMIT
  | CMDDOSHUTDOWN | CMDMAINSBACK | CMDANNOYME | CMDEMERGENCY | CMDCHANGEME | CMDREMOTEDOWN
  | CMDCOMMFAILURE | CMDCOMMOK | CMDSTARTSELFTEST | CMDENDSELFTEST | CMDOFFBATTERY
  | CMDBATTDETACH | CMDBATTATTACH

fun ups_event :: "ups_cmd \<Rightarrow> upscommand" where
  "ups_event CMDPOWEROUT = (''powerout'', 0)"
| "ups_event CMDONBATTERY = (''onbattery'', 0)"
| "ups_event CMDFAILING = (''failing'', 0)"
| "ups_event CMDTIMEOUT = (''timeout'', 0)"
| "ups_event CMDLOADLIMIT = (''loadlimit'', 0)"
| "ups_event CMDRUNLIMIT = (''runlimit'', 0)"
| "ups_event CMDDOSHUTDOWN = (''doshutdown'', 0)"
| "ups_event CMDMAINSBACK = (''mainsback'', 0)"
| "ups_event CMDANNOYME = (''annoyme'', 0)"
| "ups_event CMDEMERGENCY = (''emergency'', 0)"
| "ups_event CMDCHANGEME = (''changeme'', 0)"
| "ups_event CMDREMOTEDOWN = (''remotedown'', 0)"
| "ups_event CMDCOMMFAILURE = (''commfailure'', 0)"
| "ups_event CMDCOMMOK = (''commok'', 0)"
| "ups_event CMDSTARTSELFTEST = (''startselftest'', 0)"
| "ups_event CMDENDSELFTEST = (''endselftest'', 0)"
| "ups_event CMDOFFBATTERY = (''offbattery'', 0)"
| "ups_event CMDBATTDETACH = (''battdetach'', 0)"
| "ups_event CMDBATTATTACH = (''battattach'', 0)"

fun event_msg :: "ups_cmd \<Rightarrow> loglevel \<times> string" where
  "event_msg CMDPOWEROUT = (LOG_CRIT, ''Power failure.'')"
| "event_msg CMDONBATTERY = (LOG_CRIT, ''Running on UPS batteries.'')"
| "event_msg CMDFAILING = (LOG_ALERT, ''Battery power exhausted.'')"
| "event_msg CMDTIMEOUT = (LOG_ALERT, ''Reached run time limit on batteries.'')"
| "event_msg CMDLOADLIMIT = (LOG_ALERT, ''Battery charge below low limit.'')"
| "event_msg CMDRUNLIMIT =
     (LOG_ALERT, ''Reached remaining time percentage limit on batteries.'')"
| "event_msg CMDDOSHUTDOWN = (LOG_ALERT, ''Initiating system shutdown!'')"
| "event_msg CMDMAINSBACK = (LOG_ALERT, ''Power is back. UPS running on mains.'')"
| "event_msg CMDANNOYME = (LOG_ALERT, ''Users requested to logoff.'')"
| "event_msg CMDEMERGENCY = (LOG_ALERT, ''Battery failure. Emergency.'')"
| "event_msg CMDCHANGEME = (LOG_CRIT, ''UPS battery must be replaced.'')"
| "event_msg CMDREMOTEDOWN = (LOG_CRIT, ''Remote shutdown requested.'')"
| "event_msg CMDCOMMFAILURE = (LOG_WARNING, ''Communications with UPS lost.'')"
| "event_msg CMDCOMMOK = (LOG_WARNING, ''Communications with UPS restored.'')"
| "event_msg CMDSTARTSELFTEST = (LOG_WARNING, ''UPS Self Test switch to battery.'')"
| "event_msg CMDENDSELFTEST = (LOG_WARNING, ''UPS Self Test completed.'')"
| "event_msg CMDOFFBATTERY = (LOG_CRIT, ''Mains returned. No longer on UPS batteries.'')"
| "event_msg CMDBATTDETACH = (LOG_CRIT, ''Battery disconnected.'')"
| "event_msg CMDBATTATTACH = (LOG_CRIT, ''Battery reattached.'')"

definition run_command :: "ups_cmd \<Rightarrow> 'd sys \<Rightarrow> 'd sys" where
  "run_command ev s = snd (execute_command (ups_event ev) s)"

subsection \<open>The shutdown sequence\<close>

definition clear_files :: "'d sys \<Rightarrow> 'd sys" where
  "clear_files s =
     (if statusfile_open s then (emit CloseStatusFile s)\<lparr>statusfile_open := False\<rparr> else s)"

definition powerfail :: "nat \<Rightarrow> 'd sys \<Rightarrow> 'd sys" where
  "powerfail ok s =
     run [guarded (ok = 2)
            (\<lambda>t. guarded (terminate_on_powerfail t) sendsig_terminate (clear_files t)),
          guarded (ok = 3) sendsig_terminate] s"

definition POWERFAIL :: string where
  "POWERFAIL = ''POWER FAILURE'' @ [NL]"

definition logonfail :: "nat \<Rightarrow> 'd sys \<Rightarrow> 'd sys" where
  "logonfail ok s =
     (let path = nologinpath (ups s); t = snd (unlink path s)
      in if ok = 0 \<and> \<not> denied t path
         then emit (Wrote path POWERFAIL) (t\<lparr>files := (files t)(path \<mapsto> POWERFAIL)\<rparr>)
         else t)"

definition prohibit_logins :: "'d sys \<Rightarrow> 'd sys" where
  "prohibit_logins s =
     (if nologin_file (ups s) then s
      else log_event LOG_ALERT ''User logins prohibited''
             (upd_ups (\<lambda>u. u\<lparr>nologin_file := True\<rparr>) (logonfail 0 s)))"

definition stamp_shutdown :: "'d sys \<Rightarrow> 'd sys" where
  "stamp_shutdown s = (let (t, s1) = time_now s in upd_ups (\<lambda>u. u\<lparr>ShutDown := t\<rparr>) s1)"

definition do_shutdown :: "'d driver \<Rightarrow> ups_cmd \<Rightarrow> 'd sys \<Rightarrow> 'd sys" where
  "do_shutdown D cmdtype s =
     (if is_shutdown (ups s) then s
      else run [stamp_shutdown,
                upd_ups set_shutdown,
                delete_lockfile,
                upd_ups set_fastpoll,
                (\<lambda>t. make_file (pwrfailpath (ups t)) t),
                prohibit_logins,
                (\<lambda>t. guarded (\<not> is_slave (ups t) \<and> kill_on_powerfail t) (initiate_hibernate D) t),
                run_command cmdtype,
                powerfail (if cmdtype = CMDREMOTEDOWN then 3 else 2)] s)"

fun event_shuts_down :: "ups_cmd \<Rightarrow> bool" where
  "event_shuts_down CMDFAILING = True"
| "event_shuts_down CMDTIMEOUT = True"
| "event_shuts_down CMDRUNLIMIT = True"
| "event_shuts_down CMDLOADLIMIT = True"
| "event_shuts_down CMDEMERGENCY = True"
| "event_shuts_down CMDREMOTEDOWN = True"
| "event_shuts_down _ = False"

definition log_cmd :: "ups_cmd \<Rightarrow> 'd sys \<Rightarrow> 'd sys" where
  "log_cmd ev = log_event (fst (event_msg ev)) (snd (event_msg ev))"

definition generate_event :: "'d driver \<Rightarrow> ups_cmd \<Rightarrow> 'd sys \<Rightarrow> 'd sys" where
  "generate_event D ev s =
     run [log_cmd ev,
          run_command ev,
          guarded (event_shuts_down ev)
            (run [log_cmd CMDDOSHUTDOWN, do_shutdown D CMDDOSHUTDOWN])] s"

subsection \<open>The state of the UPS\<close>

datatype a_state =
  st_PowerFailure | st_SelfTest | st_OnBattery | st_MainsBack | st_OnMains | st_Calibration

definition get_state :: "upsinfo \<Rightarrow> a_state" where
  "get_state u =
     (if is_onbatt u then
        if is_calibration u then st_Calibration
        else if chg_onbatt u then st_PowerFailure
        else if SelfTest u \<noteq> 0 then st_SelfTest else st_OnBattery
      else if chg_onbatt u then st_MainsBack else st_OnMains)"

fun testresult_to_string :: "SelfTestResult \<Rightarrow> string" where
  "testresult_to_string TEST_NA = ''Not supported''"
| "testresult_to_string TEST_NONE = ''No test results available''"
| "testresult_to_string TEST_FAILED = ''Test failed''"
| "testresult_to_string TEST_WARNING = ''Warning''"
| "testresult_to_string TEST_INPROGRESS = ''In progress''"
| "testresult_to_string TEST_PASSED = ''Battery OK''"
| "testresult_to_string TEST_FAILCAP = ''Test failed -- insufficient battery capacity''"
| "testresult_to_string TEST_FAILLOAD = ''Test failed -- battery overloaded''"
| "testresult_to_string TEST_UNKNOWN = ''Unknown''"

subsection \<open>do_action, block by block\<close>

definition reset_timers :: "int \<Rightarrow> upsinfo \<Rightarrow> upsinfo" where
  "reset_timers now u =
     u\<lparr>last_time_nologon := now, last_time_annoy := now, last_time_on_line := now\<rparr>"

definition action_init :: "int \<Rightarrow> 'd sys \<Rightarrow> 'd sys" where
  "action_init now s =
     (if action_first s
      then upd_ups (\<lambda>u. (reset_timers now u)\<lparr>PrevStatus := UPS_battpresent\<rparr>)
             (s\<lparr>action_first := False\<rparr>)
      else s)"

definition check_replacebatt :: "'d driver \<Rightarrow> int \<Rightarrow> 'd sys \<Rightarrow> 'd sys" where
  "check_replacebatt D now s =
     (if is_replacebatt (ups s) then
        if now - start_time (ups s) < 60 * 10 \<or> ChangeBattCounter (ups s) > 5
        then upd_ups (\<lambda>u. (clear_replacebatt u)\<lparr>ChangeBattCounter := 0\<rparr>) s
        else if now - last_time_changeme (ups s) > 60 * 60 * 9
        then run [generate_event D CMDCHANGEME,
                  upd_ups (\<lambda>u. u\<lparr>last_time_changeme := now,
                                  ChangeBattCounter := ChangeBattCounter u + 1\<rparr>)] s
        else s
      else s)"

definition check_battpresent :: "'d driver \<Rightarrow> 'd sys \<Rightarrow> 'd sys" where
  "check_battpresent D s =
     (if chg_battpresent (ups s)
      then generate_event D (if is_battpresent (ups s) then CMDBATTATTACH else CMDBATTDETACH) s
      else s)"

definition check_battlow :: "int \<Rightarrow> 'd sys \<Rightarrow> 'd sys" where
  "check_battlow now s =
     (if chg_battlow (ups s) \<and> is_battlow (ups s)
      then upd_ups (\<lambda>u. u\<lparr>start_shut_lbatt := now\<rparr>) s else s)"

definition act_on_mains :: "int \<Rightarrow> 'd sys \<Rightarrow> 'd sys" where
  "act_on_mains now s = upd_ups (\<lambda>u. clear_fastpoll (reset_timers now u)) s"

definition act_power_failure :: "'d driver \<Rightarrow> int \<Rightarrow> 'd sys \<Rightarrow> 'd sys" where
  "act_power_failure D now s =
     run [upd_ups set_fastpoll,
          device_entry_point D DEVICE_CMD_CHECK_SELFTEST,
          (\<lambda>t. generate_event D (if SelfTest (ups t) \<noteq> 0 then CMDSTARTSELFTEST else CMDPOWEROUT) t),
          upd_ups (\<lambda>u. (reset_timers now u)\<lparr>last_onbatt_time := now, num_xfers := num_xfers u + 1\<rparr>),
          device_entry_point D DEVICE_CMD_DTR_ENABLE] s"

text \<open>The second test of a power failure: \<open>time\<close> is only asked where the message is due.\<close>

definition onbatt_confirmed :: "'d sys \<Rightarrow> bool \<times> 'd sys" where
  "onbatt_confirmed s =
     (if is_onbatt_msg (ups s) then (False, s)
      else let (t, s1) = time_now s
           in (t - last_time_on_line (ups s) \<ge> onbattdelay (ups s), s1))"

definition announce_onbattery :: "'d driver \<Rightarrow> int \<Rightarrow> 'd sys \<Rightarrow> 'd sys" where
  "announce_onbattery D now s =
     run [upd_ups set_onbatt_msg,
          generate_event D CMDONBATTERY,
          upd_ups (reset_timers now)] s"

definition shutdown_pending :: "'d driver \<Rightarrow> int \<Rightarrow> 'd sys \<Rightarrow> 'd sys" where
  "shutdown_pending D now s =
     (if killdelay (ups s) \<noteq> 0 \<and> now - ShutDown (ups s) \<ge> killdelay (ups s)
      then run [(\<lambda>t. guarded (\<not> is_slave (ups t)) (initiate_hibernate D) t),
                upd_ups (\<lambda>u. set_shutdown (u\<lparr>ShutDown := now\<rparr>))] s
      else s)"

definition check_charge :: "int \<Rightarrow> upsinfo \<Rightarrow> upsinfo" where
  "check_charge now u =
     (if UPS_Cap u CI_BATTLEV \<and> BattChg u \<le> of_int (percent u)
      then if is_shut_load u then u else (set_shut_load u)\<lparr>start_shut_load := now\<rparr>
      else clear_shut_load u)"

definition check_runtime :: "int \<Rightarrow> upsinfo \<Rightarrow> upsinfo" where
  "check_runtime now u =
     (if UPS_Cap u CI_RUNTIM \<and> TimeLeft u \<le> of_int (runtime u)
      then if is_shut_ltime u then u else (set_shut_ltime u)\<lparr>start_shut_ltime := now\<rparr>
      else clear_shut_ltime u)"

definition check_emergency :: "'d driver \<Rightarrow> 'd sys \<Rightarrow> 'd sys" where
  "check_emergency D s =
     (if is_battlow (ups s) \<and> is_online (ups s)
      then run [upd_ups set_shut_emerg, generate_event D CMDEMERGENCY] s else s)"

definition annoy_users :: "'d driver \<Rightarrow> int \<Rightarrow> 'd sys \<Rightarrow> 'd sys" where
  "annoy_users D now s =
     (if now - last_time_on_line (ups s) > annoydelay (ups s) \<and>
         now - last_time_annoy (ups s) > annoy (ups s) \<and> nologin_file (ups s)
      then run [(\<lambda>t. if \<not> requested_logoff t then generate_event D CMDANNOYME t
                     else run_command CMDANNOYME t),
                (\<lambda>t. let (n, t1) = time_now t in upd_ups (\<lambda>u. u\<lparr>last_time_annoy := n\<rparr>) t1),
                (\<lambda>t. t\<lparr>requested_logoff := True\<rparr>)] s
      else s)"

definition delay_nologons :: "int \<Rightarrow> 'd sys \<Rightarrow> 'd sys" where
  "delay_nologons now s =
     (let u = ups s; ty = gi_type (nologin u)
      in if nologin_file u then s
         else if ty = NEVER then s
         else if ty = TIMEOUT
         then guarded (now - last_time_nologon u > nologin_time u) prohibit_logins s
         else if ty = PERCENT
         then guarded (UPS_Cap u CI_BATTLEV \<and> of_int (nologin_time u) \<ge> BattChg u) prohibit_logins s
         else if ty = MINUTES
         then guarded (UPS_Cap u CI_RUNTIM \<and> of_int (nologin_time u) \<ge> TimeLeft u) prohibit_logins s
         else prohibit_logins s)"

definition not_shutdown_yet :: "'d driver \<Rightarrow> int \<Rightarrow> 'd sys \<Rightarrow> 'd sys" where
  "not_shutdown_yet D now s =
     (if maxtime (ups s) > 0 \<and> now - last_time_on_line (ups s) > maxtime (ups s)
      then run [upd_ups set_shut_btime, generate_event D CMDTIMEOUT] s
      else let t = upd_ups (\<lambda>u. check_runtime now (check_charge now u)) s; u = ups t
           in if is_battlow u \<and> now - start_shut_lbatt u \<ge> 5 then generate_event D CMDFAILING t
              else if is_shut_load u \<and> now - start_shut_load u \<ge> 5
              then generate_event D CMDLOADLIMIT t
              else if is_shut_ltime u \<and> now - start_shut_ltime u \<ge> 5
              then generate_event D CMDRUNLIMIT t
              else run [check_emergency D, annoy_users D now, delay_nologons now] t)"

definition act_on_battery :: "'d driver \<Rightarrow> int \<Rightarrow> 'd sys \<Rightarrow> 'd sys" where
  "act_on_battery D now s =
     (let (confirmed, t) = onbatt_confirmed s
      in if confirmed then announce_onbattery D now t
         else if is_shutdown (ups t) then shutdown_pending D now t
         else not_shutdown_yet D now t)"

definition act_self_test :: "'d driver \<Rightarrow> int \<Rightarrow> 'd sys \<Rightarrow> 'd sys" where
  "act_self_test D now s =
     (if now - SelfTest (ups s) < 40 \<and> \<not> is_battlow (ups s) then s
      else act_on_battery D now (upd_ups (\<lambda>u. u\<lparr>SelfTest := 0\<rparr>) s))"

definition end_self_test :: "'d driver \<Rightarrow> 'd sys \<Rightarrow> 'd sys" where
  "end_self_test D s =
     run [upd_ups (\<lambda>u. u\<lparr>LastSelfTest := SelfTest u, SelfTest := 0\<rparr>),
          device_entry_point D DEVICE_CMD_GET_SELFTEST_MSG,
          (\<lambda>t. log_event LOG_ALERT
                 (''UPS Self Test completed: '' @ testresult_to_string (testresult (ups t))) t),
          run_command CMDENDSELFTEST] s"

definition account_battery_time :: "int \<Rightarrow> upsinfo \<Rightarrow> upsinfo" where
  "account_battery_time now u =
     (let u1 = u\<lparr>last_offbatt_time := now\<rparr>;
          u2 = (if last_onbatt_time u1 \<le> 0 then u1\<lparr>last_onbatt_time := last_offbatt_time u1\<rparr> else u1)
      in u2\<lparr>cum_time_on_batt :=
              cum_time_on_batt u2 + (last_offbatt_time u2 - last_onbatt_time u2)\<rparr>)"

definition act_mains_back :: "'d driver \<Rightarrow> int \<Rightarrow> 'd sys \<Rightarrow> 'd sys" where
  "act_mains_back D now s =
     run [(\<lambda>t. guarded (is_onbatt_msg (ups t))
                 (\<lambda>t. generate_event D CMDOFFBATTERY (upd_ups clear_onbatt_msg t)) t),
          (\<lambda>t. if SelfTest (ups t) \<noteq> 0 then end_self_test D t else generate_event D CMDMAINSBACK t),
          (\<lambda>t. guarded (nologin_file (ups t)) (log_event LOG_ALERT ''Allowing logins'') t),
          logonfail 1,
          (\<lambda>t. (upd_ups (\<lambda>u. u\<lparr>nologin_file := False\<rparr>) t)\<lparr>requested_logoff := False\<rparr>),
          device_entry_point D DEVICE_CMD_DTR_ST_DISABLE,
          upd_ups (account_battery_time now)] s"

definition act_on_state :: "'d driver \<Rightarrow> int \<Rightarrow> 'd sys \<Rightarrow> 'd sys" where
  "act_on_state D now s =
     (case get_state (ups s) of
        st_OnMains \<Rightarrow> act_on_mains now s
      | st_PowerFailure \<Rightarrow> act_power_failure D now s
      | st_SelfTest \<Rightarrow> act_self_test D now s
      | st_OnBattery \<Rightarrow> act_on_battery D now s
      | st_MainsBack \<Rightarrow> act_mains_back D now s
      | st_Calibration \<Rightarrow> s)"

definition reap_children :: "'d sys \<Rightarrow> 'd sys" where
  "reap_children s =
     (if num_execed_children (ups s) > 0
      then upd_ups (\<lambda>u. u\<lparr>num_execed_children :=
                        num_execed_children u - int (exited s (wait_pos s))\<rparr>)
             (s\<lparr>wait_pos := Suc (wait_pos s)\<rparr>)
      else s)"

definition remember_status :: "'d sys \<Rightarrow> 'd sys" where
  "remember_status s = upd_ups (\<lambda>u. u\<lparr>PrevStatus := Status u\<rparr>) s"

definition do_action :: "'d driver \<Rightarrow> 'd sys \<Rightarrow> 'd sys" where
  "do_action D s =
     (let (now, s1) = time_now (write_lock s);
          s2 = run [action_init now, check_replacebatt D now] s1
      in if is_shut_remote (ups s2)
         then run [(\<lambda>t. guarded (chg_shut_remote (ups t)) (generate_event D CMDREMOTEDOWN) t),
                   remember_status, write_unlock] s2
         else run [check_battpresent D, check_battlow now, act_on_state D now,
                   reap_children, remember_status, write_unlock] s2)"

end
