(* ===== verification/ActionLaws.thy ===== *)
theory ActionLaws
  imports Action
begin

text \<open>
  What \<open>do_action\<close> guarantees, for any driver that keeps the contract \<open>ups_driver\<close>: the
  shutdown script runs at most once and only with \<open>UPS_shutdown\<close> set, the lock is released,
  the status is remembered, and the shutdown conditions are acted upon.
\<close>

unbundle bit_operations_syntax

subsection \<open>The status bits each block leaves alone\<close>

lemma is_shutdown_bits [simp]:
  "is_shutdown (set_fastpoll u) = is_shutdown u" "is_shutdown (clear_fastpoll u) = is_shutdown u"
  "is_shutdown (set_onbatt_msg u) = is_shutdown u"
  "is_shutdown (clear_onbatt_msg u) = is_shutdown u"
  "is_shutdown (set_shut_btime u) = is_shutdown u" "is_shutdown (set_shut_emerg u) = is_shutdown u"
  "is_shutdown (set_shut_load u) = is_shutdown u" "is_shutdown (clear_shut_load u) = is_shutdown u"
  "is_shutdown (set_shut_ltime u) = is_shutdown u"
  "is_shutdown (clear_shut_ltime u) = is_shutdown u"
  "is_shutdown (clear_replacebatt u) = is_shutdown u"
  "is_shutdown (set_shutdown u)"
  by (simp_all add: is_bits set_bits clear_bits)

lemma is_shutdown_fields [simp]:
  "is_shutdown (u\<lparr>PrevStatus := w\<rparr>) = is_shutdown u"
  "is_shutdown (u\<lparr>ChangeBattCounter := n\<rparr>) = is_shutdown u"
  "is_shutdown (u\<lparr>last_time_changeme := i\<rparr>) = is_shutdown u"
  "is_shutdown (u\<lparr>start_shut_lbatt := i\<rparr>) = is_shutdown u"
  "is_shutdown (u\<lparr>start_shut_load := i\<rparr>) = is_shutdown u"
  "is_shutdown (u\<lparr>start_shut_ltime := i\<rparr>) = is_shutdown u"
  "is_shutdown (u\<lparr>last_onbatt_time := i\<rparr>) = is_shutdown u"
  "is_shutdown (u\<lparr>num_xfers := i\<rparr>) = is_shutdown u"
  "is_shutdown (u\<lparr>ShutDown := i\<rparr>) = is_shutdown u"
  "is_shutdown (u\<lparr>SelfTest := i\<rparr>) = is_shutdown u"
  "is_shutdown (u\<lparr>LastSelfTest := i\<rparr>) = is_shutdown u"
  "is_shutdown (u\<lparr>nologin_file := b\<rparr>) = is_shutdown u"
  "is_shutdown (u\<lparr>last_time_annoy := i\<rparr>) = is_shutdown u"
  "is_shutdown (u\<lparr>num_execed_children := i\<rparr>) = is_shutdown u"
  "is_shutdown (u\<lparr>cum_time_on_batt := i\<rparr>) = is_shutdown u"
  "is_shutdown (u\<lparr>last_offbatt_time := i\<rparr>) = is_shutdown u"
  "is_shutdown (u\<lparr>last_time_on_line := i\<rparr>) = is_shutdown u"
  "is_shutdown (u\<lparr>last_time_nologon := i\<rparr>) = is_shutdown u"
  by (simp_all add: is_shutdown_def)

lemma is_shutdown_blocks [simp]:
  "is_shutdown (reset_timers now u) = is_shutdown u"
  "is_shutdown (check_charge now u) = is_shutdown u"
  "is_shutdown (check_runtime now u) = is_shutdown u"
  "is_shutdown (account_battery_time now u) = is_shutdown u"
  by (simp_all add: reset_timers_def check_charge_def check_runtime_def account_battery_time_def
      Let_def)

subsection \<open>Quiet steps\<close>

lemma quiet_sys_updates [quiet_intros]:
  "quiet s t \<Longrightarrow> quiet s (t\<lparr>requested_logoff := b\<rparr>)"
  "quiet s t \<Longrightarrow> quiet s (t\<lparr>action_first := b\<rparr>)"
  "quiet s t \<Longrightarrow> quiet s (t\<lparr>clock_pos := n\<rparr>)"
  by (simp_all add: quiet_def)

lemma quiet_log_cmd [quiet_intros]: "quiet s (log_cmd ev s)"
  by (simp add: log_cmd_def quiet_log_event)

lemma quiet_clear_files [quiet_intros]: "quiet s (clear_files s)"
  by (simp add: clear_files_def quiet_def)

lemma quiet_powerfail [quiet_intros]: "quiet s (powerfail ok s)"
  unfolding powerfail_def
  by (rule quiet_run)
    (auto intro!: quiet_intros intro: quiet_trans [OF quiet_clear_files] simp: guarded_def)

lemma quiet_logonfail [quiet_intros]: "quiet s (logonfail ok s)"
  by (simp add: logonfail_def quiet_def Let_def)

lemma quiet_prohibit_logins [quiet_intros]: "quiet s (prohibit_logins s)"
  using quiet_logonfail [of s 0] by (simp add: prohibit_logins_def quiet_def)

lemma quiet_stamp_shutdown [quiet_intros]: "quiet s (stamp_shutdown s)"
  by (simp add: stamp_shutdown_def time_now_def quiet_def)

lemma quiet_check_battlow [quiet_intros]: "quiet s (check_battlow now s)"
  by (simp add: check_battlow_def quiet_def)

lemma quiet_delay_nologons [quiet_intros]: "quiet s (delay_nologons now s)"
  by (simp add: delay_nologons_def guarded_def Let_def quiet_prohibit_logins)

lemma quiet_reap_children [quiet_intros]: "quiet s (reap_children s)"
  by (simp add: reap_children_def quiet_def)

lemma reap_counted_frame [simp]:
  "is_shutdown (ups (reap_counted s)) = is_shutdown (ups s)"
  "halted (reap_counted s) = halted s" "lock_depth (reap_counted s) = lock_depth s"
  "shutdown_count (reap_counted s) = shutdown_count s" "trace (reap_counted s) = trace s"
  by (simp_all add: reap_counted_def Let_def)

lemma run_command_effect:
  "is_shutdown (ups (run_command ev s)) = is_shutdown (ups s)"
  "halted (run_command ev s) = halted s" "lock_depth (run_command ev s) = lock_depth s"
  "shutdown_count (run_command ev s) =
     shutdown_count s + (if ev = CMDDOSHUTDOWN \<and> fork_ok s (fork_pos s) then 1 else 0)"
  by (cases ev; simp add: run_command_def execute_command_def apccontrol_argv_def)+

lemma quiet_run_command [quiet_intros]: "ev \<noteq> CMDDOSHUTDOWN \<Longrightarrow> quiet s (run_command ev s)"
  by (simp add: quiet_def run_command_effect)

subsection \<open>Steps of the shutdown protocol\<close>

text \<open>
  The relation between the process before and after any block of \<open>do_action\<close>: once
  \<open>UPS_shutdown\<close> is set it stays and no further shutdown script runs; until then at most one
  does, and it sets the bit.
\<close>

definition power_step :: "'d sys \<Rightarrow> 'd sys \<Rightarrow> bool" where
  "power_step s t \<longleftrightarrow>
     (if is_shutdown (ups s) then is_shutdown (ups t) \<and> shutdown_count t = shutdown_count s
      else shutdown_count s \<le> shutdown_count t \<and>
           shutdown_count t \<le> shutdown_count s + (if is_shutdown (ups t) then 1 else 0)) \<and>
     (halted s \<longrightarrow> halted t) \<and> (\<not> halted t \<longrightarrow> lock_depth t = lock_depth s)"

named_theorems power_intros

lemma quiet_power_step: "quiet s t \<Longrightarrow> power_step s t"
  by (auto simp: quiet_def power_step_def)

lemma power_step_refl [simp, power_intros]: "power_step s s"
  by (simp add: quiet_power_step)

lemma power_step_trans: "power_step s t \<Longrightarrow> power_step t r \<Longrightarrow> power_step s r"
  by (fastforce simp: power_step_def split: if_splits)

lemma power_step_run [power_intros]:
  assumes "\<And>f t. f \<in> set fs \<Longrightarrow> power_step t (f t)"
  shows "power_step s (run fs s)"
  by (rule run_invariant) (auto intro: power_step_trans assms)

lemma power_step_guarded [power_intros]:
  "(b \<Longrightarrow> power_step s (f s)) \<Longrightarrow> power_step s (guarded b f s)"
  by (simp add: guarded_def)

lemma power_step_flag [power_intros]:
  "power_step s t \<Longrightarrow> power_step s (t\<lparr>requested_logoff := b\<rparr>)"
  by (simp add: power_step_def)

lemma power_step_after_quiet: "quiet s t \<Longrightarrow> power_step t r \<Longrightarrow> power_step s r"
  by (rule power_step_trans [OF quiet_power_step])

lemma shutdown_script_once:
  assumes "quiet (upd_ups set_shutdown (stamp_shutdown s)) s1" "\<not> is_shutdown (ups s)"
  shows "power_step s (run_command CMDDOSHUTDOWN s1)"
  using assms by (auto simp: power_step_def quiet_def run_command_effect stamp_shutdown_def
      time_now_def)

lemma run_snoc: "run (fs @ [f]) s = run [f] (run fs s)"
  by (simp add: run_append Let_def)

lemma power_step_unlock:
  "power_step (write_lock s) t \<Longrightarrow> power_step s (run [write_unlock] t)"
  by (auto simp: power_step_def write_lock_def write_unlock_def shutdown_count_def)

text \<open>What \<open>do_shutdown\<close> does between setting the bit and running the script.\<close>

definition before_script :: "'d driver \<Rightarrow> ('d sys \<Rightarrow> 'd sys) list" where
  "before_script D =
     [delete_lockfile, upd_ups set_fastpoll, \<lambda>t. make_file (pwrfailpath (ups t)) t,
      prohibit_logins,
      \<lambda>t. guarded (\<not> is_slave (ups t) \<and> kill_on_powerfail t) (initiate_hibernate D) t]"

lemma do_shutdown_eq:
  assumes "\<not> is_shutdown (ups s)" "\<not> halted s"
  shows "do_shutdown D CMDDOSHUTDOWN s =
    run (before_script D @ [run_command CMDDOSHUTDOWN, powerfail 2])
      (upd_ups set_shutdown (stamp_shutdown s))"
proof -
  have "\<not> halted (stamp_shutdown s)" using assms by (simp add: stamp_shutdown_def time_now_def)
  then show ?thesis using assms by (simp add: do_shutdown_def before_script_def)
qed

lemma run_keeps_shutdown:
  assumes "is_shutdown (ups s)"
    and "\<And>f r. f \<in> set fs \<Longrightarrow> is_shutdown (ups r) \<Longrightarrow> is_shutdown (ups (f r))"
  shows "is_shutdown (ups (run fs s))"
  by (rule run_invariant [where P = "\<lambda>r. is_shutdown (ups r)"]) (use assms in auto)

context ups_driver
begin

lemma before_script_quiet: "f \<in> set (before_script D) \<Longrightarrow> quiet t (f t)"
  by (auto simp: before_script_def intro!: quiet_intros initiate_hibernate_quiet)

lemma do_shutdown_step [power_intros]: "power_step s (do_shutdown D CMDDOSHUTDOWN s)"
proof (cases "is_shutdown (ups s) \<or> halted s")
  case True
  then show ?thesis by (auto simp: do_shutdown_def)
next
  case False
  let ?s1 = "upd_ups set_shutdown (stamp_shutdown s)"
  let ?s2 = "run (before_script D) ?s1"
  have pre: "quiet ?s1 ?s2"
    by (rule quiet_run) (rule before_script_quiet)
  show ?thesis
  proof (cases "halted ?s2")
    case True
    then have "do_shutdown D CMDDOSHUTDOWN s = ?s2"
      using False by (simp add: do_shutdown_eq run_append Let_def)
    moreover have "power_step s ?s2"
      using pre False True by (auto simp: power_step_def quiet_def stamp_shutdown_def time_now_def)
    ultimately show ?thesis by simp
  next
    case running: False
    then have "do_shutdown D CMDDOSHUTDOWN s = powerfail 2 (run_command CMDDOSHUTDOWN ?s2)"
      using False by (simp add: do_shutdown_eq run_append Let_def run_command_effect)
    moreover have "power_step s (run_command CMDDOSHUTDOWN ?s2)"
      by (rule shutdown_script_once [OF pre]) (use False in simp)
    ultimately show ?thesis
      using power_step_trans [OF _ quiet_power_step [OF quiet_powerfail]] by simp
  qed
qed

lemma do_shutdown_sets: "\<not> halted s \<Longrightarrow> is_shutdown (ups (do_shutdown D CMDDOSHUTDOWN s))"
proof (cases "is_shutdown (ups s)")
  case False
  assume "\<not> halted s"
  have "is_shutdown (ups (f r))"
    if "f \<in> set (before_script D @ [run_command CMDDOSHUTDOWN, powerfail 2])"
      and "is_shutdown (ups r)" for f r
    using that before_script_quiet [of f r] quiet_powerfail [of r 2]
    by (auto simp: quiet_def run_command_effect)
  then show ?thesis using False \<open>\<not> halted s\<close>
    by (simp only: do_shutdown_eq not_False_eq_True) (rule run_keeps_shutdown, simp_all)
qed (simp add: do_shutdown_def)

lemma generate_event_step [power_intros]:
  assumes "ev \<noteq> CMDDOSHUTDOWN" shows "power_step s (generate_event D ev s)"
  unfolding generate_event_def
  by (rule power_step_run)
    (use assms in \<open>auto intro!: power_intros do_shutdown_step
       quiet_power_step [OF quiet_run_command] quiet_power_step [OF quiet_log_cmd]\<close>)

lemma generate_event_shuts_down:
  assumes "event_shuts_down ev" "\<not> halted s"
  shows "is_shutdown (ups (generate_event D ev s))"
  using assms by (simp add: generate_event_def guarded_def log_cmd_def run_command_effect
      do_shutdown_sets)


lemmas steps = power_intros generate_event_step do_shutdown_step
  quiet_power_step [OF quiet_upd_ups] quiet_power_step [OF quiet_run_command]
  quiet_power_step [OF ops_quiet(4)] quiet_power_step [OF initiate_hibernate_quiet]
  quiet_power_step [OF quiet_log_event] quiet_power_step [OF quiet_logonfail]
  quiet_power_step [OF quiet_check_battlow] quiet_power_step [OF quiet_reap_children]
  quiet_power_step [OF quiet_delay_nologons]

lemma announce_onbattery_step: "power_step s (announce_onbattery D now s)"
  unfolding announce_onbattery_def by (rule power_step_run) (auto intro!: steps)

lemma shutdown_pending_step:
  "is_shutdown (ups s) \<Longrightarrow> power_step s (shutdown_pending D now s)"
  using initiate_hibernate_quiet [of s]
  by (auto simp: shutdown_pending_def guarded_def quiet_def power_step_def)

lemma check_emergency_step: "power_step s (check_emergency D s)"
  unfolding check_emergency_def by (auto simp del: run.simps intro!: steps)

lemma annoy_users_step: "power_step s (annoy_users D now s)"
proof -
  have "power_step t (let (n, t1) = time_now t in upd_ups (\<lambda>u. u\<lparr>last_time_annoy := n\<rparr>) t1)"
    for t :: "'d sys"
    by (simp add: time_now_def power_step_def)
  then show ?thesis
    unfolding annoy_users_def Let_def
    by (auto simp del: run.simps intro!: steps)
qed

lemma not_shutdown_yet_step: "power_step s (not_shutdown_yet D now s)"
proof -
  let ?t = "upd_ups (\<lambda>u. check_runtime now (check_charge now u)) s"
  have "power_step s ?t" by (auto intro!: steps)
  moreover have "power_step ?t (generate_event D ev ?t)" if "ev \<noteq> CMDDOSHUTDOWN" for ev
    using that by (rule generate_event_step)
  moreover have "power_step ?t (run [check_emergency D, annoy_users D now, delay_nologons now] ?t)"
    by (rule power_step_run)
      (auto intro: check_emergency_step annoy_users_step quiet_power_step quiet_delay_nologons)
  moreover have "power_step s (run [upd_ups set_shut_btime, generate_event D CMDTIMEOUT] s)"
    by (rule power_step_run) (auto intro!: steps)
  ultimately show ?thesis
    unfolding not_shutdown_yet_def Let_def
    by (simp del: run.simps add: power_step_trans [of s ?t])
qed

lemma onbatt_confirmed_quiet: "quiet s (snd (onbatt_confirmed s))"
  by (simp add: onbatt_confirmed_def time_now_def quiet_def)

lemma act_on_battery_step: "power_step s (act_on_battery D now s)"
  using power_step_after_quiet [OF onbatt_confirmed_quiet, of s]
    announce_onbattery_step shutdown_pending_step not_shutdown_yet_step
  by (auto simp: act_on_battery_def split_beta)

lemma act_self_test_step: "power_step s (act_self_test D now s)"
  unfolding act_self_test_def
  by (auto intro: power_step_after_quiet [OF quiet_upd_ups act_on_battery_step])

lemma act_power_failure_step: "power_step s (act_power_failure D now s)"
  unfolding act_power_failure_def by (rule power_step_run) (auto intro!: steps split: if_splits)

lemma end_self_test_quiet: "quiet s (end_self_test D s)"
  unfolding end_self_test_def
  by (rule quiet_run) (auto intro!: quiet_intros ops_quiet)

lemma act_mains_back_step: "power_step s (act_mains_back D now s)"
  unfolding act_mains_back_def
  by (rule power_step_run)
    (auto intro!: steps quiet_power_step [OF end_self_test_quiet]
      intro: power_step_after_quiet [OF quiet_upd_ups generate_event_step])

lemma act_on_state_step: "power_step s (act_on_state D now s)"
proof -
  have "power_step s (act_on_mains now s)"
    unfolding act_on_mains_def by (rule quiet_power_step, rule quiet_upd_ups) simp
  then show ?thesis
    by (simp add: act_on_state_def act_power_failure_step act_self_test_step
      act_on_battery_step act_mains_back_step split: a_state.split)
qed

lemma check_replacebatt_step: "power_step s (check_replacebatt D now s)"
  unfolding check_replacebatt_def by (auto simp del: run.simps intro!: steps)

lemma check_battpresent_step: "power_step s (check_battpresent D s)"
  unfolding check_battpresent_def by (auto intro!: steps)

lemma action_init_step: "power_step s (action_init now s)"
  by (auto simp: action_init_def intro!: quiet_power_step intro: quiet_intros)
    (auto simp: quiet_def)

lemma remember_status_step: "power_step s (remember_status s)"
  unfolding remember_status_def by (rule quiet_power_step, rule quiet_upd_ups) simp

lemma do_action_step: "power_step s (do_action D s)"
proof -
  let ?now = "fst (time_now (write_lock s))"
  let ?s1 = "snd (time_now (write_lock s))"
  let ?s2 = "run [action_init ?now, check_replacebatt D ?now] ?s1"
  have locked: "power_step (write_lock s) ?s2"
  proof (rule power_step_trans [OF _ power_step_run])
    show "power_step (write_lock s) ?s1" by (simp add: power_step_def time_now_def)
  qed (auto intro: action_init_step check_replacebatt_step)
  have block: "power_step s (run (fs @ [write_unlock]) ?s2)"
    if "\<And>f t. f \<in> set fs \<Longrightarrow> power_step t (f t)" for fs
  proof -
    have "power_step ?s2 (run fs ?s2)" by (rule power_step_run) (rule that)
    from power_step_unlock [OF power_step_trans [OF locked this]] show ?thesis
      by (simp only: run_snoc)
  qed
  have "power_step s (run ([\<lambda>t. guarded (chg_shut_remote (ups t)) (generate_event D CMDREMOTEDOWN) t,
      remember_status] @ [write_unlock]) ?s2)"
    by (rule block) (auto intro!: steps intro: remember_status_step)
  moreover have "power_step s (run ([check_battpresent D, check_battlow ?now, act_on_state D ?now,
      reap_children, remember_status] @ [write_unlock]) ?s2)"
    by (rule block) (auto intro!: steps
        intro: remember_status_step check_battpresent_step act_on_state_step)
  ultimately show ?thesis
    unfolding do_action_def Let_def split_beta by (simp del: run.simps)
qed

end

subsection \<open>When the computer is shut down\<close>

text \<open>
  The specification: on battery, the limits that end in a shutdown. The charge and run time
  limits count from the moment their bit was set, and need the reading still to be low.
\<close>

definition must_shut_down :: "int \<Rightarrow> upsinfo \<Rightarrow> bool" where
  "must_shut_down now u \<longleftrightarrow>
     (maxtime u > 0 \<and> now - last_time_on_line u > maxtime u) \<or>
     (is_battlow u \<and> now - start_shut_lbatt u \<ge> 5) \<or>
     (UPS_Cap u CI_BATTLEV \<and> BattChg u \<le> of_int (percent u) \<and>
        is_shut_load u \<and> now - start_shut_load u \<ge> 5) \<or>
     (UPS_Cap u CI_RUNTIM \<and> TimeLeft u \<le> of_int (runtime u) \<and>
        is_shut_ltime u \<and> now - start_shut_ltime u \<ge> 5) \<or>
     (is_battlow u \<and> is_online u)"

lemma timers_checked:
  "is_battlow (check_runtime now (check_charge now u)) = is_battlow u"
  "is_online (check_runtime now (check_charge now u)) = is_online u"
  "start_shut_lbatt (check_runtime now (check_charge now u)) = start_shut_lbatt u"
  "is_shut_load (check_runtime now (check_charge now u)) \<and>
     now - start_shut_load (check_runtime now (check_charge now u)) \<ge> 5 \<longleftrightarrow>
   UPS_Cap u CI_BATTLEV \<and> BattChg u \<le> of_int (percent u) \<and> is_shut_load u \<and>
     now - start_shut_load u \<ge> 5"
  "is_shut_ltime (check_runtime now (check_charge now u)) \<and>
     now - start_shut_ltime (check_runtime now (check_charge now u)) \<ge> 5 \<longleftrightarrow>
   UPS_Cap u CI_RUNTIM \<and> TimeLeft u \<le> of_int (runtime u) \<and> is_shut_ltime u \<and>
     now - start_shut_ltime u \<ge> 5"
  by (simp_all add: check_runtime_def check_charge_def is_bits is_online_bit set_bits clear_bits)
    (auto simp: set_shut_load_def clear_shut_load_def set_shut_ltime_def clear_shut_ltime_def
      is_bits)

lemma run_two: "\<not> halted s \<Longrightarrow> run [upd_ups f, g] s = g (upd_ups f s)"
  by simp

context ups_driver
begin

lemma generate_event_quiet:
  "\<not> event_shuts_down ev \<Longrightarrow> ev \<noteq> CMDDOSHUTDOWN \<Longrightarrow> quiet s (generate_event D ev s)"
  unfolding generate_event_def
  by (rule quiet_run) (auto simp: guarded_def intro: quiet_log_cmd quiet_run_command)

lemma annoy_users_quiet: "quiet s (annoy_users D now s)"
proof -
  have stamp: "quiet t (let (n, t1) = time_now t in upd_ups (\<lambda>u. u\<lparr>last_time_annoy := n\<rparr>) t1)"
    for t :: "'d sys"
    by (simp add: time_now_def quiet_def)
  have flag: "quiet t (t\<lparr>requested_logoff := True\<rparr>)" for t :: "'d sys"
    by (simp add: quiet_def)
  show ?thesis
    unfolding annoy_users_def Let_def
    by (auto simp del: run.simps intro!: quiet_run generate_event_quiet quiet_run_command flag
        stamp [unfolded Let_def])
qed

lemma not_shutdown_yet_iff:
  assumes "\<not> halted s" "\<not> is_shutdown (ups s)"
  shows "is_shutdown (ups (not_shutdown_yet D now s)) \<longleftrightarrow> must_shut_down now (ups s)"
proof -
  let ?t = "upd_ups (\<lambda>u. check_runtime now (check_charge now u)) s"
  note timers = timers_checked [of now "ups s"]
  have down: "is_shutdown (ups (generate_event D ev (upd_ups f s)))" if "event_shuts_down ev" for ev f
    using that assms(1) by (intro generate_event_shuts_down) simp_all
  have emerg: "is_shutdown (ups (run [check_emergency D, annoy_users D now, delay_nologons now] ?t))"
    if "is_battlow (ups s)" "is_online (ups s)"
  proof -
    have "is_shutdown (ups (check_emergency D ?t))"
      using that assms(1) down [of CMDEMERGENCY "\<lambda>u. set_shut_emerg (check_runtime now (check_charge now u))"]
      by (simp add: check_emergency_def timers upd_ups_def)
    then have "is_shutdown (ups (run [annoy_users D now, delay_nologons now] (check_emergency D ?t)))"
      by (rule run_keeps_shutdown)
        (use annoy_users_quiet quiet_delay_nologons in \<open>auto simp: quiet_def\<close>)
    then show ?thesis using assms(1) by simp
  qed
  have calm: "\<not> is_shutdown (ups (run [check_emergency D, annoy_users D now, delay_nologons now] ?t))"
    if "\<not> (is_battlow (ups s) \<and> is_online (ups s))"
  proof -
    have "check_emergency D ?t = ?t" using that by (auto simp: check_emergency_def timers)
    then have "run [check_emergency D, annoy_users D now, delay_nologons now] ?t =
        run [annoy_users D now, delay_nologons now] ?t" using assms(1) by simp
    moreover have "quiet ?t (run [annoy_users D now, delay_nologons now] ?t)"
      by (rule quiet_run) (auto intro: annoy_users_quiet quiet_delay_nologons)
    ultimately show ?thesis using assms(2) by (simp add: quiet_def)
  qed
  let ?u = "ups s" and ?v = "ups ?t"
  consider
      "maxtime ?u > 0 \<and> now - last_time_on_line ?u > maxtime ?u"
    | "\<not> (maxtime ?u > 0 \<and> now - last_time_on_line ?u > maxtime ?u)"
      "is_battlow ?v \<and> now - start_shut_lbatt ?v \<ge> 5"
    | "\<not> (maxtime ?u > 0 \<and> now - last_time_on_line ?u > maxtime ?u)"
      "\<not> (is_battlow ?v \<and> now - start_shut_lbatt ?v \<ge> 5)"
      "is_shut_load ?v \<and> now - start_shut_load ?v \<ge> 5"
    | "\<not> (maxtime ?u > 0 \<and> now - last_time_on_line ?u > maxtime ?u)"
      "\<not> (is_battlow ?v \<and> now - start_shut_lbatt ?v \<ge> 5)"
      "\<not> (is_shut_load ?v \<and> now - start_shut_load ?v \<ge> 5)"
      "is_shut_ltime ?v \<and> now - start_shut_ltime ?v \<ge> 5"
    | "\<not> (maxtime ?u > 0 \<and> now - last_time_on_line ?u > maxtime ?u)"
      "\<not> (is_battlow ?v \<and> now - start_shut_lbatt ?v \<ge> 5)"
      "\<not> (is_shut_load ?v \<and> now - start_shut_load ?v \<ge> 5)"
      "\<not> (is_shut_ltime ?v \<and> now - start_shut_ltime ?v \<ge> 5)"
    by blast
  then show ?thesis
  proof cases
    case 1
    moreover from 1 have "must_shut_down now ?u" unfolding must_shut_down_def by blast
    ultimately show ?thesis using down [of CMDTIMEOUT set_shut_btime] assms(1)
      by (simp add: not_shutdown_yet_def)
  next
    case 2
    moreover from 2 timers have "must_shut_down now ?u" unfolding must_shut_down_def by simp
    ultimately show ?thesis using down [of CMDFAILING]
      by (auto simp: not_shutdown_yet_def Let_def simp del: run.simps)
  next
    case 3
    moreover from 3 timers have "must_shut_down now ?u" unfolding must_shut_down_def by simp
    ultimately show ?thesis using down [of CMDLOADLIMIT]
      by (auto simp: not_shutdown_yet_def Let_def simp del: run.simps)
  next
    case 4
    moreover from 4 timers have "must_shut_down now ?u" unfolding must_shut_down_def by simp
    ultimately show ?thesis using down [of CMDRUNLIMIT]
      by (auto simp: not_shutdown_yet_def Let_def simp del: run.simps)
  next
    case 5
    then have "not_shutdown_yet D now s =
        run [check_emergency D, annoy_users D now, delay_nologons now] ?t"
      by (auto simp: not_shutdown_yet_def Let_def simp del: run.simps)
    moreover have "must_shut_down now ?u \<longleftrightarrow> is_battlow ?u \<and> is_online ?u"
      using 5 timers unfolding must_shut_down_def by auto
    ultimately show ?thesis using emerg calm by (cases "is_battlow ?u \<and> is_online ?u") auto
  qed
qed

end

text \<open>The last three steps of a pass leave \<open>UPS_shutdown\<close> alone.\<close>

lemma pass_end_shutdown:
  "is_shutdown (ups (run [reap_children, remember_status, write_unlock] t)) = is_shutdown (ups t)"
proof -
  have "is_shutdown (ups (reap_children r)) = is_shutdown (ups r)"
    "is_shutdown (ups (remember_status r)) = is_shutdown (ups r)"
    "is_shutdown (ups (write_unlock r)) = is_shutdown (ups r)" for r :: "'a sys"
    using quiet_reap_children [of r]
    by (simp_all add: quiet_def remember_status_def write_unlock_def)
  then show ?thesis by simp
qed

context ups_driver
begin

lemma act_on_battery_iff:
  assumes "\<not> halted s" "is_onbatt_msg (ups s)"
  shows "is_shutdown (ups (act_on_battery D now s)) \<longleftrightarrow>
    is_shutdown (ups s) \<or> must_shut_down now (ups s)"
proof (cases "is_shutdown (ups s)")
  case True
  then show ?thesis
    using shutdown_pending_step [of s now] assms
    by (simp add: act_on_battery_def onbatt_confirmed_def power_step_def)
next
  case False
  then show ?thesis
    using not_shutdown_yet_iff [OF assms(1) False] assms
    by (simp add: act_on_battery_def onbatt_confirmed_def)
qed

lemma do_action_on_battery:
  assumes "\<not> halted s" "\<not> action_first s" "\<not> is_replacebatt (ups s)" "\<not> is_shut_remote (ups s)"
    and "\<not> chg_battpresent (ups s)" "\<not> chg_battlow (ups s)"
    and "get_state (ups s) = st_OnBattery" "is_onbatt_msg (ups s)"
  shows "is_shutdown (ups (do_action D s)) \<longleftrightarrow>
    is_shutdown (ups s) \<or> must_shut_down (clock s (clock_pos s)) (ups s)"
proof -
  let ?now = "clock s (clock_pos s)" and ?s1 = "snd (time_now (write_lock s))"
  have s1: "ups ?s1 = ups s" "\<not> halted ?s1" "fst (time_now (write_lock s)) = ?now"
    "\<not> action_first ?s1"
    using assms by (simp_all add: time_now_def write_lock_def)
  have "run [action_init ?now, check_replacebatt D ?now] ?s1 = ?s1"
    using s1 assms by (simp add: action_init_def check_replacebatt_def)
  then have "do_action D s =
      run [check_battpresent D, check_battlow ?now, act_on_state D ?now, reap_children,
        remember_status, write_unlock] ?s1"
    using s1 assms by (simp add: do_action_def split_beta del: run.simps)
  also have "\<dots> = run [reap_children, remember_status, write_unlock] (act_on_battery D ?now ?s1)"
    using s1 assms by (simp add: check_battpresent_def check_battlow_def act_on_state_def)
  finally show ?thesis
    using act_on_battery_iff [of ?s1 ?now] s1 assms by (simp only: pass_end_shutdown) simp
qed

lemma do_action_remote_down:
  assumes "\<not> halted s" "\<not> action_first s" "\<not> is_replacebatt (ups s)"
    and "is_shut_remote (ups s)" "chg_shut_remote (ups s)"
  shows "is_shutdown (ups (do_action D s))"
proof -
  let ?now = "clock s (clock_pos s)" and ?s1 = "snd (time_now (write_lock s))"
  have s1: "ups ?s1 = ups s" "\<not> halted ?s1" "fst (time_now (write_lock s)) = ?now"
    "\<not> action_first ?s1"
    using assms by (simp_all add: time_now_def write_lock_def)
  have "run [action_init ?now, check_replacebatt D ?now] ?s1 = ?s1"
    using s1 assms by (simp add: action_init_def check_replacebatt_def)
  then have "do_action D s =
      run [remember_status, write_unlock] (generate_event D CMDREMOTEDOWN ?s1)"
    using s1 assms by (simp add: do_action_def split_beta guarded_def)
  moreover have "is_shutdown (ups (generate_event D CMDREMOTEDOWN ?s1))"
    using s1 by (intro generate_event_shuts_down) simp_all
  moreover have "is_shutdown (ups r) \<Longrightarrow> is_shutdown (ups (run [remember_status, write_unlock] r))"
    for r :: "'d sys"
    by (simp add: remember_status_def write_unlock_def)
  ultimately show ?thesis by simp
qed

text \<open>During a calibration a pass runs no script and says nothing.\<close>

lemma do_action_calibration:
  assumes "\<not> action_first s" "\<not> is_replacebatt (ups s)" "\<not> is_shut_remote (ups s)"
    and "\<not> chg_battpresent (ups s)" "is_onbatt (ups s)" "is_calibration (ups s)"
  shows "trace (do_action D s) = trace s \<and> Status (ups (do_action D s)) = Status (ups s)"
proof -
  let ?now = "clock s (clock_pos s)" and ?s1 = "snd (time_now (write_lock s))"
  let ?P = "\<lambda>t :: 'd sys. trace t = trace s \<and> Status (ups t) = Status (ups s) \<and>
    \<not> chg_battpresent (ups t)"
  have s1: "ups ?s1 = ups s" "fst (time_now (write_lock s)) = ?now" "\<not> action_first ?s1" "?P ?s1"
    using assms by (simp_all add: time_now_def write_lock_def)
  have "get_state u = st_Calibration" if "Status u = Status (ups s)" for u
    using that assms(5,6) by (simp add: get_state_def is_onbatt_def is_calibration_def)
  then have step: "?P (f t)" if "f \<in> set [check_battpresent D, check_battlow ?now,
      act_on_state D ?now, reap_children, remember_status, write_unlock]" "?P t" for f t
    using that by (auto simp: check_battpresent_def check_battlow_def act_on_state_def
        reap_children_def remember_status_def write_unlock_def chg_battpresent_def
        UPS_battpresent_def split: if_splits)
  have "run [action_init ?now, check_replacebatt D ?now] ?s1 = ?s1"
    using s1 assms by (simp add: action_init_def check_replacebatt_def)
  then have "do_action D s = run [check_battpresent D, check_battlow ?now, act_on_state D ?now,
      reap_children, remember_status, write_unlock] ?s1"
    using s1 assms by (simp add: do_action_def split_beta del: run.simps)
  moreover have "?P \<dots>" by (rule run_invariant [where P = ?P]) (use step s1 in auto)
  ultimately show ?thesis by simp
qed

end

subsection \<open>Properties\<close>

text \<open>
  C12: Every pass of \<open>do_action\<close> that does not end the process leaves the previous status equal
  to the current one, on the early return for a remote shutdown as on every other path; so the
  next pass sees exactly the bits that change in between.
\<close>

theorem do_action_remembers_status:
  "halted (do_action D s) \<or> PrevStatus (ups (do_action D s)) = Status (ups (do_action D s))"
proof -
  have last: "halted (run (fs @ [remember_status, write_unlock]) t) \<or>
      PrevStatus (ups (run (fs @ [remember_status, write_unlock]) t)) =
      Status (ups (run (fs @ [remember_status, write_unlock]) t))" for fs and t :: "'a sys"
    by (simp add: run_append Let_def remember_status_def write_unlock_def)
  show ?thesis
    using last [of "[\<lambda>t. guarded (chg_shut_remote (ups t)) (generate_event D CMDREMOTEDOWN) t]"]
      last [of "[check_battpresent D, check_battlow now, act_on_state D now, reap_children]" for now]
    unfolding do_action_def Let_def split_beta by (simp del: run.simps)
qed

end
