(* ===== verification/Device.thy ===== *)
theory Device
  imports ActionLaws Reports
begin

text \<open>
  The device thread (the rest of \<open>src/device.c\<close>): opening the UPS, the poll cycle, and the
  time to wait between polls. \<open>open_ups\<close> and the endless loop of \<open>do_device\<close> take fuel; the
  flag another thread raises to stop the loop (\<open>shutdown_requested\<close>) is a function of the
  number of the check.
\<close>

unbundle bit_operations_syntax

definition setup_device :: "'d driver \<Rightarrow> 'd sys \<Rightarrow> bool \<times> 'd sys" where
  "setup_device D s =
     (let (opened, s1) = drv_open D s
      in if \<not> opened \<or> halted s1 then (False, s1)
         else let (set_up, s2) = drv_setup D s1
              in if \<not> set_up \<or> halted s2 then (False, s2) else drv_get_capabilities D s2)"

definition printable :: "string \<Rightarrow> string" where
  "printable model = map (\<lambda>c. if isprint c then c else CHR '' '') model"

definition name_ups :: "'d sys \<Rightarrow> 'd sys" where
  "name_ups s =
     upd_ups (\<lambda>u. if upsname u = []
                  then u\<lparr>upsname := (if hostname s = [] then strlcpy_to 100 ''default''
                                     else take 99 (hostname s))\<rparr>
                  else u) s"

definition prep_device :: "'d driver \<Rightarrow> 'd sys \<Rightarrow> 'd sys" where
  "prep_device D s =
     run [\<lambda>t. snd (drv_read_static_data D t), name_ups,
          upd_ups (\<lambda>u. u\<lparr>upsmodel := printable (upsmodel u)\<rparr>)] s"

definition fillUPS :: "'d driver \<Rightarrow> 'd sys \<Rightarrow> 'd sys" where
  "fillUPS D s = snd (drv_read_volatile_data D s)"

subsection \<open>open_ups\<close>

abbreviation (input) COMMLOST_EVENT_GRACE_PERIOD :: int where
  "COMMLOST_EVENT_GRACE_PERIOD \<equiv> 60"

text \<open>One failed attempt: the local \<open>event_time\<close> is threaded through.\<close>

definition open_failed :: "'d driver \<Rightarrow> int \<Rightarrow> 'd sys \<Rightarrow> int \<times> 'd sys" where
  "open_failed D event_time s =
     (let (now, s1) = time_now (upd_ups set_commlost s);
          late = (now - start_time (ups s1) \<ge> COMMLOST_EVENT_GRACE_PERIOD);
          (et, s2) = (if late \<and> event_time = 0
                      then (now, generate_event D CMDCOMMFAILURE s1) else (event_time, s1));
          (et', s3) = (if late \<and> now - et \<ge> 10 * 60
                       then (now, log_cmd CMDCOMMFAILURE s2) else (et, s2))
      in (et', emit (Slept 5) s3))"

fun open_loop :: "'d driver \<Rightarrow> nat \<Rightarrow> int \<Rightarrow> 'd sys \<Rightarrow> (int \<times> 'd sys) option" where
  "open_loop D 0 event_time s = None"
| "open_loop D (Suc k) event_time s =
     (let (opened, t) = drv_open D s
      in if opened \<or> halted t then Some (event_time, t)
         else let (et, t') = open_failed D event_time t in open_loop D k et t')"

definition comm_restored :: "'d driver \<Rightarrow> int \<Rightarrow> 'd sys \<Rightarrow> 'd sys" where
  "comm_restored D event_time s =
     (if is_commlost (ups s)
      then run [upd_ups clear_commlost,
                guarded (event_time \<noteq> 0) (generate_event D CMDCOMMOK)] s
      else s)"

definition open_ups :: "'d driver \<Rightarrow> nat \<Rightarrow> 'd sys \<Rightarrow> 'd sys option" where
  "open_ups D k s =
     map_option (\<lambda>(event_time, t).
         run [comm_restored D event_time, \<lambda>t. snd (drv_setup D t),
              \<lambda>t. snd (drv_get_capabilities D t), prep_device D] t)
       (open_loop D k 0 s)"

subsection \<open>do_device\<close>

abbreviation (input) TIMER_FAST :: int where "TIMER_FAST \<equiv> 1"

definition device_wait_time :: "upsinfo \<Rightarrow> int" where
  "device_wait_time u =
     (let w0 = (if is_fastpoll u \<or> \<not> is_battpresent u then TIMER_FAST
                else if is_commlost u then TIMER_FAST * 5 else polltime u);
          w1 = (if datatime u \<noteq> 0 \<and> datatime u < w0 then datatime u else w0);
          w2 = (if stattime u \<noteq> 0 \<and> stattime u < w1 then stattime u else w1)
      in if w2 < TIMER_FAST then TIMER_FAST else w2)"

definition set_wait_time :: "'d sys \<Rightarrow> 'd sys" where
  "set_wait_time s = upd_ups (\<lambda>u. u\<lparr>wait_time := device_wait_time u\<rparr>) s"

definition device_cycle :: "'d driver \<Rightarrow> 'd sys \<Rightarrow> 'd sys" where
  "device_cycle D s =
     run [set_wait_time, do_action D, fillUPS D, do_action D, do_reports, set_wait_time,
          \<lambda>t. snd (drv_check_state D t)] s"

text \<open>
  The loop for at most \<open>n\<close> cycles, from the check number \<open>i\<close> of \<open>shutdown_requested\<close> on; with
  it, whether the thread has stopped (\<open>device_thread_stopped\<close>).
\<close>

fun device_loop :: "'d driver \<Rightarrow> (nat \<Rightarrow> bool) \<Rightarrow> nat \<Rightarrow> nat \<Rightarrow> 'd sys \<Rightarrow> bool \<times> 'd sys" where
  "device_loop D requested 0 i s = (False, s)"
| "device_loop D requested (Suc n) i s =
     (if halted s then (False, s)
      else if requested i then (True, s)
      else device_loop D requested n (Suc i) (device_cycle D s))"

definition do_device ::
    "'d driver \<Rightarrow> (nat \<Rightarrow> bool) \<Rightarrow> nat \<Rightarrow> nat \<Rightarrow> 'd sys \<Rightarrow> (bool \<times> 'd sys) option" where
  "do_device D requested k n s =
     map_option (\<lambda>t. device_loop D requested n 0 (run [fillUPS D] t)) (open_ups D k s)"

subsection \<open>Laws\<close>

lemma is_shutdown_device [simp]:
  "is_shutdown (u\<lparr>wait_time := i\<rparr>) = is_shutdown u"
  "is_shutdown (u\<lparr>upsname := n\<rparr>) = is_shutdown u"
  "is_shutdown (u\<lparr>upsmodel := n\<rparr>) = is_shutdown u"
  by (simp_all add: is_shutdown_def)

lemma is_shutdown_commlost [simp]:
  "is_shutdown (set_commlost u) = is_shutdown u" "is_shutdown (clear_commlost u) = is_shutdown u"
  by (simp_all add: is_bits set_bits clear_bits)

lemma power_step_report:
  "power_step s t \<Longrightarrow> power_step s (log_cmd ev t)" "power_step s t \<Longrightarrow> power_step s (emit (Slept n) t)"
  by (simp_all add: power_step_def log_cmd_def)

context ups_driver
begin

lemma prep_device_step: "power_step s (prep_device D s)"
  unfolding prep_device_def name_ups_def
  by (rule power_step_run)
    (auto intro!: quiet_power_step quiet_upd_ups ops_quiet split: if_splits)

lemma open_failed_step: "power_step s (snd (open_failed D et s))"
proof -
  have "power_step s (snd (time_now (upd_ups set_commlost s)))"
    by (simp add: power_step_def time_now_def)
  then show ?thesis
    unfolding open_failed_def Let_def split_beta
    by (auto intro!: power_step_report intro: power_step_trans [OF _ generate_event_step])
qed

lemma open_loop_step: "open_loop D k et s = Some (et', t) \<Longrightarrow> power_step s t"
proof (induction k arbitrary: et s)
  case (Suc k)
  obtain ok s1 where op: "drv_open D s = (ok, s1)" by force
  have q: "power_step s s1" using quiet_power_step [OF ops_quiet(5)] op by (metis snd_conv)
  obtain e s2 where f: "open_failed D et s1 = (e, s2)" by force
  have "power_step s1 s2" using open_failed_step f by (metis snd_conv)
  then show ?case using Suc q op f
    by (auto split: if_splits intro: power_step_trans)
qed simp

lemma open_ups_step: "open_ups D k s = Some t \<Longrightarrow> power_step s t"
proof -
  have "power_step r (comm_restored D et r)" for r et
    unfolding comm_restored_def
    by (auto simp del: run.simps intro!: steps)
  then have "power_step r (run [comm_restored D et, \<lambda>t. snd (drv_setup D t),
      \<lambda>t. snd (drv_get_capabilities D t), prep_device D] r)" for r et
    by (intro power_step_run) (auto intro: quiet_power_step ops_quiet prep_device_step)
  then show "open_ups D k s = Some t \<Longrightarrow> power_step s t"
    unfolding open_ups_def by (auto intro: power_step_trans open_loop_step simp del: run.simps)
qed

lemma device_cycle_step: "power_step s (device_cycle D s)"
  unfolding device_cycle_def set_wait_time_def fillUPS_def
  by (rule power_step_run)
    (auto intro!: quiet_power_step [OF quiet_upd_ups] quiet_power_step [OF ops_quiet(1)]
      quiet_power_step [OF ops_quiet(10)] quiet_power_step [OF do_reports_quiet]
      intro: do_action_step)

lemma device_loop_step: "power_step s (snd (device_loop D requested n i s))"
  by (induction n arbitrary: i s) (auto intro: power_step_trans device_cycle_step)

lemma do_device_step: "do_device D requested k n s = Some (b, t) \<Longrightarrow> power_step s t"
proof -
  assume "do_device D requested k n s = Some (b, t)"
  then obtain r where r: "open_ups D k s = Some r"
    and t: "device_loop D requested n 0 (run [fillUPS D] r) = (b, t)"
    unfolding do_device_def by auto
  have "power_step r (run [fillUPS D] r)"
    by (rule power_step_run) (auto simp: fillUPS_def intro: quiet_power_step ops_quiet)
  with open_ups_step [OF r] device_loop_step [of "run [fillUPS D] r" requested n 0] t
  show ?thesis by (metis power_step_trans snd_conv)
qed

end

subsection \<open>Properties\<close>

text \<open>
  The wait between polls is the shortest of the poll time of the current condition and the
  two report intervals that are switched on, but never less than one second.
\<close>

definition poll_interval :: "upsinfo \<Rightarrow> int" where
  "poll_interval u =
     (if is_fastpoll u \<or> \<not> is_battpresent u then 1 else if is_commlost u then 5 else polltime u)"

theorem device_wait_time_shortest:
  "device_wait_time u =
     max 1 (Min (set (poll_interval u # filter (\<lambda>i. i \<noteq> 0) [datatime u, stattime u])))"
  by (simp add: device_wait_time_def poll_interval_def Let_def)

end
