(* ===== verification/DriverKit.thy ===== *)
theory DriverKit
  imports Device
begin

text \<open>
  What the drivers share: the events they generate and the lemmas that show that a driver keeps
  the contract of the interface (locale \<open>ups_driver\<close> of theory \<open>Driver\<close>).
\<close>

text \<open>
  \<open>generate_event(ups, ev)\<close> for an event that does not shut down; the driver that
  \<open>generate_event\<close> would use for that does not matter (lemma \<open>plain_event_is_event\<close>).
\<close>

definition plain_event :: "ups_cmd \<Rightarrow> 'd sys \<Rightarrow> 'd sys" where
  "plain_event ev s = run [log_cmd ev, run_command ev] s"

lemma plain_event_is_event: "\<not> event_shuts_down ev \<Longrightarrow> generate_event D ev = plain_event ev"
  by (rule ext) (simp add: generate_event_def plain_event_def guarded_def)

lemma plain_event_quiet: "ev \<noteq> CMDDOSHUTDOWN \<Longrightarrow> quiet s (plain_event ev s)"
  unfolding plain_event_def
  by (rule quiet_run) (auto intro: quiet_log_cmd quiet_run_command)

lemma shutdown_bit: "is_shutdown u \<longleftrightarrow> bit (Status u) 9"
  by (rule shutdown.is_f_bit)

lemma quiet_locked:
  assumes "quiet (write_lock s) t" shows "quiet s (write_unlock t)"
  using assms by (simp add: quiet_def write_lock_def write_unlock_def shutdown_count_def)

lemma quiet_unlocked:
  assumes "quiet (write_unlock s) t" shows "quiet s (write_lock t)"
  using assms by (simp add: quiet_def write_lock_def write_unlock_def shutdown_count_def)

lemma quiet_time_now: "quiet s (snd (time_now s))"
  by (simp add: time_now_def quiet_def)

lemma quiet_upd_same_Status:
  "Status (f (ups t)) = Status (ups t) \<Longrightarrow> quiet s t \<Longrightarrow> quiet s (upd_ups f t)"
  by (simp add: quiet_def shutdown_bit)

lemma quiet_upd_same_shutdown:
  "is_shutdown (f (ups t)) = is_shutdown (ups t) \<Longrightarrow> quiet s t \<Longrightarrow> quiet s (upd_ups f t)"
  by (simp add: quiet_def)

lemma drv_plain [simp]:
  "drv (plain_event ev s) = drv s" "drv (log_cmd ev s) = drv s" "drv (snd (time_now s)) = drv s"
  "drv (write_lock s) = drv s" "drv (write_unlock s) = drv s"
  by (simp_all add: plain_event_def log_cmd_def run_command_def execute_command_def time_now_def
      write_lock_def write_unlock_def reap_counted_def Let_def)

lemma plain_event_commlost [simp]: "is_commlost (ups (plain_event ev s)) = is_commlost (ups s)"
  by (simp add: commlost.is_f_bit plain_event_def log_cmd_def run_command_def execute_command_def
      reap_counted_def Let_def)

lemma time_now_ups [simp]: "ups (snd (time_now s)) = ups s"
  by (simp add: time_now_def)

lemma commlost_shutdown [simp]:
  "is_shutdown (set_commlost u) = is_shutdown u" "is_shutdown (clear_commlost u) = is_shutdown u"
  "is_shutdown (u\<lparr>UPS_Cap := c\<rparr>) = is_shutdown u" "is_shutdown (u\<lparr>fd := x\<rparr>) = is_shutdown u"
  "is_shutdown (u\<lparr>poll_time := t\<rparr>) = is_shutdown u" "is_shutdown (u\<lparr>SelfTest := t\<rparr>) = is_shutdown u"
  by (simp_all add: shutdown_bit set_bits clear_bits)

text \<open>Each step of a method, after anything quiet.\<close>

lemma then_quiet:
  "quiet s t \<Longrightarrow> quiet s (upd_drv f t)"
  "quiet s t \<Longrightarrow> quiet s (snd (time_now t))"
  "quiet s t \<Longrightarrow> quiet s (log_event l m t)"
  "quiet s t \<Longrightarrow> quiet s (log_cmd ev t)"
  "quiet s t \<Longrightarrow> ev \<noteq> CMDDOSHUTDOWN \<Longrightarrow> quiet s (plain_event ev t)"
  "quiet s t \<Longrightarrow> is_shutdown (g (ups t)) = is_shutdown (ups t) \<Longrightarrow> quiet s (upd_ups g t)"
  by (blast intro: quiet_trans quiet_upd_drv quiet_time_now quiet_log_event quiet_log_cmd
      plain_event_quiet quiet_upd_ups)+

lemma then_locked:
  "quiet s t \<Longrightarrow> (\<And>u. is_shutdown (g u) = is_shutdown u) \<Longrightarrow>
    quiet s (write_unlock (upd_ups g (write_lock t)))"
  by (rule quiet_trans) (auto intro!: quiet_locked quiet_upd_ups)

lemma quiet_pow: "(\<And>s. quiet s (f s)) \<Longrightarrow> quiet s ((f ^^ n) s)"
  by (induction n) (auto intro: quiet_trans)

lemma quiet_fold: "(\<And>x s. quiet s (f x s)) \<Longrightarrow> quiet s (fold f xs s)"
  by (induction xs arbitrary: s) (auto intro: quiet_trans)

subsection \<open>Status words that agree\<close>

text \<open>Two records whose status words agree outside the bits \<open>bs\<close>.\<close>

definition same_status :: "nat set \<Rightarrow> upsinfo \<Rightarrow> upsinfo \<Rightarrow> bool" where
  "same_status bs u v \<longleftrightarrow> (\<forall>n. n \<notin> bs \<longrightarrow> bit (Status v) n = bit (Status u) n)"

lemma same_status_refl [simp]: "same_status bs u u"
  by (simp add: same_status_def)

lemma same_status_trans: "same_status bs u v \<Longrightarrow> same_status bs v w \<Longrightarrow> same_status bs u w"
  by (simp add: same_status_def)

lemma same_status_eq: "Status v = Status u \<Longrightarrow> same_status bs u v"
  by (simp add: same_status_def)

lemma bit_online:
  "bit (Status (set_online u)) n \<longleftrightarrow> n = 3 \<or> n \<noteq> 4 \<and> bit (Status u) n"
  "bit (Status (clear_online u)) n \<longleftrightarrow> n = 4 \<or> n \<noteq> 3 \<and> bit (Status u) n"
proof -
  have b: "bit UPS_online n \<longleftrightarrow> n = 3" "bit UPS_onbatt n \<longleftrightarrow> n = 4"
    using bit_exp_iff [of 3 n, where 'a="32 word"] bit_exp_iff [of 4 n, where 'a="32 word"]
    by (auto simp: UPS_online_def UPS_onbatt_def)
  show "bit (Status (set_online u)) n \<longleftrightarrow> n = 3 \<or> n \<noteq> 4 \<and> bit (Status u) n"
    "bit (Status (clear_online u)) n \<longleftrightarrow> n = 4 \<or> n \<noteq> 3 \<and> bit (Status u) n"
    by (auto simp: set_online_def clear_online_def bit_or_iff bit_and_iff bit_not_iff b
        dest: bit_imp_le_length)
qed

end
