(* ===== verification/NetDriver.thy ===== *)
theory NetDriver
  imports DriverKit NisLib
begin

text \<open>
  The driver of a network slave (\<open>src/drivers/net/net.c\<close>): it asks another apcupsd for its
  status report over NIS and reads the variables out of the text.

  \<open>statbuf\<close> is the raw memory of \<open>_statbuf[4096]\<close>, so that what an earlier, longer report
  left behind the terminating NUL is still there. The \<open>n\<close>-th call of \<open>poll_ups\<close> opens the
  connection \<open>nd_conns n\<close>. A buffer on the stack is passed with the string it happens to
  hold; \<open>nd_stack\<close> is the string in \<open>answer\<close> when a method starts.
\<close>

unbundle bit_operations_syntax

record net_drv =
  nd_device :: string
  nd_hostname :: string
  nd_port :: int
  got_caps :: bool
  got_static_data :: bool
  last_fill_time :: int
  statbuf :: string
  statlen :: nat
  tlog :: int
  comm_err :: bool
  comm_loss :: int
  nd_conns :: "nat \<Rightarrow> net_env \<times> conn"
  nd_conn_pos :: nat
  nd_stack :: string

subsection \<open>Variables of a status report\<close>

definition cmdtrans :: "(string \<times> string \<times> nat) list" where
  "cmdtrans =
     [(''battcap'', ''BCHARGE'', 1), (''battdate'', ''BATTDATE'', 1),
      (''battpct'', ''BCHARGE'', 1), (''battvolt'', ''BATTV'', 1), (''cable'', ''CABLE'', 0),
      (''date'', ''DATE'', 0), (''firmware'', ''FIRMWARE'', 0), (''highxfer'', ''HITRANS'', 1),
      (''hostname'', ''HOSTNAME'', 1), (''laststest'', ''LASTSTEST'', 0),
      (''lastxfer'', ''LASTXFER'', 0), (''linemax'', ''MAXLINEV'', 1),
      (''linemin'', ''MINLINEV'', 1), (''loadpct'', ''LOADPCT'', 1),
      (''lowbatt'', ''DLOWBATT'', 1), (''lowxfer'', ''LOTRANS'', 1),
      (''maxtime'', ''MAXTIME'', 1), (''mbattchg'', ''MBATTCHG'', 1),
      (''mintimel'', ''MINTIMEL'', 1), (''model'', ''MODEL'', 0), (''nombattv'', ''NOMBATTV'', 1),
      (''nominv'', ''NOMINV'', 1), (''nomoutv'', ''NOMOUTV'', 1), (''nompower'', ''NOMPOWER'', 1),
      (''outputfreq'', ''LINEFREQ'', 1), (''outputv'', ''OUTPUTV'', 1),
      (''version'', ''VERSION'', 1), (''retpct'', ''RETPCT'', 1), (''runtime'', ''TIMELEFT'', 1),
      (''selftest'', ''SELFTEST'', 1), (''sense'', ''SENSE'', 1), (''serialno'', ''SERIALNO'', 1),
      (''status'', ''STATFLAG'', 1), (''transhi'', ''HITRANS'', 1), (''translo'', ''LOTRANS'', 1),
      (''upsload'', ''LOADPCT'', 1), (''upsmode'', ''UPSMODE'', 0), (''upsname'', ''UPSNAME'', 1),
      (''upstemp'', ''ITEMP'', 1), (''utility'', ''LINEV'', 1)]"

definition decode_testresult :: "string \<Rightarrow> SelfTestResult" where
  "decode_testresult str =
     (if is_prefix ''OK'' str then TEST_PASSED else if is_prefix ''NO'' str then TEST_NONE
      else if is_prefix ''BT'' str then TEST_FAILCAP else if is_prefix ''NG'' str then TEST_FAILED
      else if is_prefix ''WN'' str then TEST_WARNING
      else if is_prefix ''IP'' str then TEST_INPROGRESS else TEST_UNKNOWN)"

definition decode_lastxfer :: "string \<Rightarrow> LastXferCause" where
  "decode_lastxfer str =
     (if str = ''No transfers since turnon'' then XFER_NONE
      else if str = ''Automatic or explicit self test'' then XFER_SELFTEST
      else if str = ''Forced by software'' then XFER_FORCED
      else if str = ''Low line voltage'' then XFER_UNDERVOLT
      else if str = ''High line voltage'' then XFER_OVERVOLT
      else if str = ''Line voltage notch or spike'' then XFER_NOTCHSPIKE
      else if str = ''Unacceptable line voltage changes'' then XFER_RIPPLE
      else if str = ''Input frequency out of range'' then XFER_FREQ
      else XFER_UNKNOWN)"

text \<open>
  \<open>sscanf(find, "%*s %*s %Ns", answer)\<close>: the third word, cut at \<open>n\<close> characters (the NUL
  comes on top of them); \<open>None\<close> when there is none and \<open>answer\<close> keeps what it held.
\<close>

definition skip_word :: "string \<Rightarrow> string" where
  "skip_word s = dropWhile isspace (dropWhile (\<lambda>c. \<not> isspace c) (dropWhile isspace s))"

definition scan_third :: "nat \<Rightarrow> string \<Rightarrow> string option" where
  "scan_third n s =
     (let r = skip_word (skip_word s)
      in if r = [] then None else Some (take n (takeWhile (\<lambda>c. \<not> isspace c) r)))"

text \<open>
  The result, and the string left in \<open>answer\<close>, which is declared with \<open>anslen\<close> bytes. In the
  second form the copy runs over raw memory up to a newline.
\<close>

definition getupsvar :: "string \<Rightarrow> string \<Rightarrow> nat \<Rightarrow> string \<Rightarrow> bool \<times> string" where
  "getupsvar request answer anslen buf =
     (case map_of cmdtrans request of
        None \<Rightarrow> (False, strlcpy_to anslen ''Not found'')
      | Some (keyword, nfields) \<Rightarrow>
          (case strstr (c_str buf) keyword of
             None \<Rightarrow> (False, strlcpy_to anslen ''Not found'')
           | Some hit \<Rightarrow>
               (let pos = length (c_str buf) - length hit;
                    ans = (if nfields = 1
                           then (case scan_third anslen hit of None \<Rightarrow> answer | Some w \<Rightarrow> w)
                           else c_str (take (anslen - 1)
                                  (takeWhile (\<lambda>c. c \<noteq> NL) (drop (pos + 11) buf))))
                in (ans \<noteq> ''N/A'', ans))))"

subsection \<open>Polling the master\<close>

text \<open>\<open>strlcat\<close> on raw memory of 4096 bytes.\<close>

definition strlcat_raw :: "string \<Rightarrow> string \<Rightarrow> string" where
  "strlcat_raw mem src =
     (let cnt = length (c_str (take 4096 mem))
      in if cnt < 4096 then poke cnt (take (4096 - cnt - 1) src @ [NUL]) mem else mem)"

text \<open>The loop over \<open>net_recv(_sockfd, buf, sizeof(buf) - 1)\<close>, with \<open>char buf[1000]\<close>.\<close>

function poll_loop :: "string \<Rightarrow> string \<Rightarrow> conn \<Rightarrow> int \<times> string" where
  "poll_loop buf mem c =
     (case net_recv [NUL, NUL] 999 buf c of
        (n, buf', c') \<Rightarrow>
          if n > 0 then poll_loop buf' (strlcat_raw mem (c_str (take (nat n) buf'))) c'
          else (n, mem))"
  by pat_completeness auto
termination
  by (relation "measure (\<lambda>(_, _, c). rx_weight (rx c))") (auto dest: net_recv_weight [OF sym])

declare poll_loop.simps [simp del]

definition poll_ups :: "net_drv sys \<Rightarrow> bool \<times> net_drv sys" where
  "poll_ups s =
     (let d = drv s; (env, c) = nd_conns d (nd_conn_pos d);
          s1 = upd_drv (\<lambda>d. d\<lparr>nd_conn_pos := Suc (nd_conn_pos d),
                              statbuf := poke 0 [NUL] (statbuf d), statlen := 0\<rparr>) s
      in if fst (net_open env) < 0 then (False, upd_ups set_commlost s1)
         else let (n, c1) = net_send ''status'' c
              in if n \<noteq> 6 then (False, upd_ups set_commlost s1)
                 else let (r, mem) = poll_loop (replicate 1000 NUL) (statbuf (drv s1)) c1
                      in (0 \<le> r,
                          upd_drv (\<lambda>d. d\<lparr>statbuf := mem, statlen := length (c_str mem)\<rparr>)
                            (upd_ups (if r < 0 then set_commlost else clear_commlost) s1)))"

subsection \<open>Capabilities, static and volatile data\<close>

definition cap_vars :: "(nat \<times> string) list" where
  "cap_vars =
     [(CI_VLINE, ''utility''), (CI_LOAD, ''loadpct''), (CI_BATTLEV, ''battcap''),
      (CI_RUNTIM, ''runtime''), (CI_VMAX, ''linemax''), (CI_VMIN, ''linemin''),
      (CI_VOUT, ''outputv''), (CI_SENS, ''sense''), (CI_DLBATT, ''lowbatt''),
      (CI_LTRANS, ''lowxfer''), (CI_HTRANS, ''highxfer''), (CI_RETPCT, ''retpct''),
      (CI_ITEMP, ''upstemp''), (CI_VBATT, ''battvolt''), (CI_FREQ, ''outputfreq''),
      (CI_WHY_BATT, ''lastxfer''), (CI_ST_STAT, ''selftest''), (CI_SERNO, ''serialno''),
      (CI_BATTDAT, ''battdate''), (CI_NOMBATTV, ''nombattv''), (CI_NOMINV, ''nominv''),
      (CI_NOMOUTV, ''nomoutv''), (CI_NOMPOWER, ''nompower''), (CI_REVNO, ''firmware''),
      (CI_UPSMODEL, ''model'')]"

definition read_caps ::
    "string \<Rightarrow> string \<Rightarrow> (nat \<Rightarrow> bool) \<Rightarrow> string \<times> (nat \<Rightarrow> bool)" where
  "read_caps buf answer caps =
     fold (\<lambda>(ci, var) (ans, cp). let (ok, ans') = getupsvar var ans 200 buf in (ans', cp(ci := ok)))
       cap_vars (answer, caps)"

definition net_get_capabilities :: "net_drv sys \<Rightarrow> bool \<times> net_drv sys" where
  "net_get_capabilities s =
     (let (ok, s1) = poll_ups (write_lock s);
          s2 = (if ok
                then upd_drv (\<lambda>d. d\<lparr>got_caps := True\<rparr>)
                       (upd_ups (\<lambda>u. u\<lparr>UPS_Cap :=
                            snd (read_caps (statbuf (drv s1)) (nd_stack (drv s1)) (UPS_Cap u))\<rparr>) s1)
                else upd_drv (\<lambda>d. d\<lparr>got_caps := False\<rparr>) s1)
      in (True, write_unlock s2))"

text \<open>
  A sequence of \<open>if (GETVAR(ci, var)) field = ...;\<close> with one \<open>answer\<close> buffer of 200 bytes.
\<close>

type_synonym var_reader = "nat \<times> string \<times> (string \<Rightarrow> upsinfo \<Rightarrow> upsinfo)"

definition read_vars :: "string \<Rightarrow> var_reader list \<Rightarrow> string \<times> upsinfo \<Rightarrow> string \<times> upsinfo" where
  "read_vars buf vars =
     fold (\<lambda>(ci, var, assign) (ans, u).
            if UPS_Cap u ci
            then (let (ok, ans') = getupsvar var ans 200 buf
                  in (ans', if ok then assign ans' u else u))
            else (ans, u)) vars"

definition set_char0 :: "char \<Rightarrow> string \<Rightarrow> string" where
  "set_char0 c s = (if c = NUL then [] else c # tl s)"

definition volatile_vars :: "var_reader list" where
  "volatile_vars =
     [(CI_VLINE, ''utility'', \<lambda>a u. u\<lparr>LineVoltage := atof a\<rparr>),
      (CI_LOAD, ''loadpct'', \<lambda>a u. u\<lparr>UPSLoad := atof a\<rparr>),
      (CI_BATTLEV, ''battcap'', \<lambda>a u. u\<lparr>BattChg := atof a\<rparr>),
      (CI_RUNTIM, ''runtime'', \<lambda>a u. u\<lparr>TimeLeft := atof a\<rparr>),
      (CI_VMAX, ''linemax'', \<lambda>a u. u\<lparr>LineMax := atof a\<rparr>),
      (CI_VMIN, ''linemin'', \<lambda>a u. u\<lparr>LineMin := atof a\<rparr>),
      (CI_VOUT, ''outputv'', \<lambda>a u. u\<lparr>OutputVoltage := atof a\<rparr>),
      (CI_SENS, ''sense'', \<lambda>a u. u\<lparr>sensitivity := set_char0 (char0 a) (sensitivity u)\<rparr>),
      (CI_DLBATT, ''lowbatt'', \<lambda>a u. u\<lparr>dlowbatt := trunc (atof a)\<rparr>),
      (CI_LTRANS, ''lowxfer'', \<lambda>a u. u\<lparr>lotrans := trunc (atof a)\<rparr>),
      (CI_HTRANS, ''highxfer'', \<lambda>a u. u\<lparr>hitrans := trunc (atof a)\<rparr>),
      (CI_RETPCT, ''retpct'', \<lambda>a u. u\<lparr>rtnpct := trunc (atof a)\<rparr>),
      (CI_ITEMP, ''upstemp'', \<lambda>a u. u\<lparr>UPSTemp := atof a\<rparr>),
      (CI_VBATT, ''battvolt'', \<lambda>a u. u\<lparr>BattVoltage := atof a\<rparr>),
      (CI_FREQ, ''outputfreq'', \<lambda>a u. u\<lparr>LineFreq := atof a\<rparr>),
      (CI_WHY_BATT, ''lastxfer'', \<lambda>a u. u\<lparr>lastxfer := decode_lastxfer a\<rparr>),
      (CI_ST_STAT, ''selftest'', \<lambda>a u. u\<lparr>testresult := decode_testresult a\<rparr>)]"

definition static_vars :: "var_reader list" where
  "static_vars =
     [(CI_SERNO, ''serialno'', \<lambda>a u. u\<lparr>serial := strlcpy_to 32 a\<rparr>),
      (CI_BATTDAT, ''battdate'', \<lambda>a u. u\<lparr>battdat := strlcpy_to 20 a\<rparr>),
      (CI_NOMBATTV, ''nombattv'', \<lambda>a u. u\<lparr>nombattv := atof a\<rparr>),
      (CI_NOMINV, ''nominv'', \<lambda>a u. u\<lparr>NomInputVoltage := trunc (atof a)\<rparr>),
      (CI_NOMOUTV, ''nomoutv'', \<lambda>a u. u\<lparr>NomOutputVoltage := trunc (atof a)\<rparr>),
      (CI_NOMPOWER, ''nompower'', \<lambda>a u. u\<lparr>NomPower := trunc (atof a)\<rparr>),
      (CI_REVNO, ''firmware'', \<lambda>a u. u\<lparr>firmrev := strlcpy_to 20 a\<rparr>)]"

text \<open>A variable read straight into a field; the complaint when it is not there.\<close>

definition read_field ::
    "string \<Rightarrow> nat \<Rightarrow> (upsinfo \<Rightarrow> string) \<Rightarrow> (string \<Rightarrow> upsinfo \<Rightarrow> upsinfo) \<Rightarrow>
     net_drv sys \<Rightarrow> net_drv sys" where
  "read_field var size' get assign s =
     (let (ok, val) = getupsvar var (get (ups s)) size' (statbuf (drv s));
          s1 = upd_ups (assign val) s
      in if ok then s1 else log_event LOG_ERR (''getupsvar: failed for '' @ [CHR 0x22] @ var @ [CHR 0x22] @ ''.'') s1)"

definition read_net_fields :: "net_drv sys \<Rightarrow> net_drv sys" where
  "read_net_fields s =
     read_field ''upsmode'' 256 (\<lambda>u. gi_long_name (upsclass u))
         (\<lambda>v u. u\<lparr>upsclass := (upsclass u)\<lparr>gi_long_name := v\<rparr>\<rparr>)
       (read_field ''model'' 256 upsmodel (\<lambda>v u. u\<lparr>upsmodel := v\<rparr>)
         (read_field ''upsname'' 100 upsname (\<lambda>v u. u\<lparr>upsname := v\<rparr>) s))"

definition net_read_static_data :: "net_drv sys \<Rightarrow> bool \<times> net_drv sys" where
  "net_read_static_data s =
     (let (ok, s1) = poll_ups (write_lock s);
          s2 = (if ok
                then upd_drv (\<lambda>d. d\<lparr>got_static_data := True\<rparr>)
                       (upd_ups (\<lambda>u. snd (read_vars (statbuf (drv s1)) static_vars
                                            (nd_stack (drv s1), u)))
                         (read_net_fields s1))
                else upd_drv (\<lambda>d. d\<lparr>got_static_data := False\<rparr>) s1)
      in (True, write_unlock s2))"

subsection \<open>fill_status_buffer\<close>

definition fill_failed :: "int \<Rightarrow> net_drv sys \<Rightarrow> net_drv sys" where
  "fill_failed now s =
     (let s1 = (if \<not> comm_err (drv s)
                then upd_drv (\<lambda>d. d\<lparr>comm_err := True\<rparr>) (run_command CMDCOMMFAILURE s) else s)
      in if now - tlog (drv s1) \<ge> 10 * 60
         then log_cmd CMDCOMMFAILURE (upd_drv (\<lambda>d. d\<lparr>tlog := now\<rparr>) s1) else s1)"

definition fill_done :: "int \<Rightarrow> net_drv sys \<Rightarrow> net_drv sys" where
  "fill_done now s =
     (let s1 = (if comm_err (drv s)
                then upd_drv (\<lambda>d. d\<lparr>tlog := 0, comm_err := False\<rparr>) (plain_event CMDCOMMOK s) else s);
          s2 = upd_drv (\<lambda>d. d\<lparr>last_fill_time := now\<rparr>) s1;
          s3 = (if \<not> got_caps (drv s2) then snd (net_get_capabilities s2) else s2)
      in if got_caps (drv s3) \<and> \<not> got_static_data (drv s3) then snd (net_read_static_data s3)
         else s3)"

definition fill_status_buffer :: "net_drv sys \<Rightarrow> bool \<times> net_drv sys" where
  "fill_status_buffer s =
     (let (now, s1) = time_now s
      in if now - last_fill_time (drv s1) < 2 then (True, s1)
         else let (ok, s2) = poll_ups s1;
                  s3 = (if ok then fill_done now s2 else fill_failed now s2)
              in (\<not> comm_err (drv s3), s3))"

subsection \<open>The status flag\<close>

text \<open>The master's status replaces all bits but the local ones; two local bits it can set.\<close>

definition merge_status :: "32 word \<Rightarrow> 32 word \<Rightarrow> 32 word" where
  "merge_status master own =
     ((own AND UPS_LOCAL_BITS) OR (master AND NOT UPS_LOCAL_BITS)) OR
     (master AND (UPS_commlost OR UPS_fastpoll))"

definition lost_master :: "bool \<Rightarrow> net_drv sys \<Rightarrow> net_drv sys" where
  "lost_master stat s =
     (if \<not> stat \<and> is_onbatt (ups s)
      then let s1 = upd_drv (\<lambda>d. d\<lparr>comm_loss := comm_loss d + 1\<rparr>) s
           in if comm_loss (drv s) = 4 \<and> \<not> is_shut_remote (ups s1)
              then log_event LOG_ERR
                     ''Shutdown because loss of comm with NIS master while on batteries.''
                     (upd_ups set_shut_remote s1)
              else s1
      else upd_drv (\<lambda>d. d\<lparr>comm_loss := 0\<rparr>) s)"

definition apply_status_flag :: "bool \<Rightarrow> net_drv sys \<Rightarrow> bool \<times> net_drv sys" where
  "apply_status_flag stat s =
     (let (ok, answer) = getupsvar ''status'' [] 200 (statbuf (drv s));
          stat' = (stat \<and> ok);
          master = (if ok then word_of_int (strtol0 answer) else 0) :: 32 word;
          s1 = (if ok then upd_ups (\<lambda>u. u\<lparr>Status := merge_status master (Status u)\<rparr>) s else s);
          s2 = (if master AND UPS_shutdown \<noteq> 0 \<and> \<not> is_shut_remote (ups s1)
                then log_event LOG_ERR ''Shutdown because NIS master is shutting down.''
                       (upd_ups set_shut_remote s1)
                else s1)
      in (stat', lost_master stat' s2))"

definition get_ups_status_flag :: "bool \<Rightarrow> net_drv sys \<Rightarrow> bool \<times> net_drv sys" where
  "get_ups_status_flag fill s =
     (let s1 = (if \<not> got_caps (drv s) then snd (net_get_capabilities s) else s)
      in if \<not> got_caps (drv s1) then (False, s1)
         else let s2 = (if \<not> got_static_data (drv s1) then snd (net_read_static_data s1) else s1)
              in if \<not> got_static_data (drv s2) then (False, s2)
                 else let (stat, s3) = (if fill then fill_status_buffer s2 else (True, s2));
                          (stat', s4) = apply_status_flag stat (write_lock s3)
                      in (stat', write_unlock s4))"

subsection \<open>The driver\<close>

definition net_open_driver :: "net_drv sys \<Rightarrow> bool \<times> net_drv sys" where
  "net_open_driver s =
     (let dev = strlcpy_to 256 (device (ups s));
          (host, port) = (case split_at CHR '':'' dev of
                            Some (h, p) \<Rightarrow> (h, atoi p)
                          | None \<Rightarrow> (dev, statusport (ups s)))
      in (True,
          upd_drv (\<lambda>d. d\<lparr>nd_device := dev, nd_hostname := host, nd_port := port,
                         statbuf := poke 0 [NUL] (statbuf d), statlen := 0\<rparr>)
            (upd_ups (\<lambda>u. u\<lparr>master_name := device u,
                            upsclass := (upsclass u)\<lparr>gi_long_name := ''Net Slave''\<rparr>,
                            fd := 1\<rparr>) s)))"

definition net_close_driver :: "net_drv sys \<Rightarrow> bool \<times> net_drv sys" where
  "net_close_driver s = (True, upd_ups (\<lambda>u. u\<lparr>fd := -1\<rparr>) s)"

definition net_check_state :: "net_drv sys \<Rightarrow> bool \<times> net_drv sys" where
  "net_check_state s =
     (True, snd (get_ups_status_flag True (emit (Slept (wait_time (ups s))) s)))"

definition net_read_volatile_data :: "net_drv sys \<Rightarrow> bool \<times> net_drv sys" where
  "net_read_volatile_data s =
     (let (ok, s1) = fill_status_buffer s
      in if \<not> ok then (False, s1)
         else let s2 = upd_ups set_slave (write_lock s1);
                  (now, s3) = time_now s2;
                  s4 = upd_ups (\<lambda>u. snd (read_vars (statbuf (drv s3)) volatile_vars
                           (nd_stack (drv s3),
                            u\<lparr>poll_time := now, last_master_connect_time := now\<rparr>))) s3
              in (True, snd (get_ups_status_flag False (write_unlock s4))))"

text \<open>\<open>GETVAR\<close> outside a sequence of readings.\<close>

definition getvar :: "nat \<Rightarrow> string \<Rightarrow> net_drv sys \<Rightarrow> string option" where
  "getvar ci var s =
     (if UPS_Cap (ups s) ci
      then (let (ok, a) = getupsvar var (nd_stack (drv s)) 200 (statbuf (drv s))
            in if ok then Some a else None)
      else None)"

definition net_entry_point :: "devcmd \<Rightarrow> net_drv sys \<Rightarrow> bool \<times> net_drv sys" where
  "net_entry_point cmd s =
     (case cmd of
        DEVICE_CMD_CHECK_SELFTEST \<Rightarrow>
          (True,
           (case getvar CI_WHY_BATT ''lastxfer'' s of
              None \<Rightarrow> s
            | Some a \<Rightarrow>
                (let s1 = upd_ups (\<lambda>u. u\<lparr>lastxfer := decode_lastxfer a\<rparr>) s
                 in if lastxfer (ups s1) = XFER_SELFTEST
                    then let (t, s2) = time_now s1 in upd_ups (\<lambda>u. u\<lparr>SelfTest := t\<rparr>) s2
                    else s1)))
      | DEVICE_CMD_GET_SELFTEST_MSG \<Rightarrow>
          (case getvar CI_ST_STAT ''selftest'' s of
             None \<Rightarrow> (False, s)
           | Some a \<Rightarrow> (True, upd_ups (\<lambda>u. u\<lparr>testresult := decode_testresult a\<rparr>) s))
      | _ \<Rightarrow> (False, s))"

definition net_driver :: "net_drv driver" where
  "net_driver = \<lparr>
     drv_open = net_open_driver, drv_close = net_close_driver,
     drv_read_static_data = net_read_static_data,
     drv_read_volatile_data = net_read_volatile_data,
     drv_get_capabilities = net_get_capabilities, drv_check_state = net_check_state,
     drv_setup = default_setup, drv_kill_power = default_kill_power,
     drv_shutdown = default_shutdown, drv_entry_point = net_entry_point\<rparr>"

subsection \<open>The driver keeps the contract\<close>

lemma read_vars_Status:
  assumes "\<And>ci var f a u. (ci, var, f) \<in> set vars \<Longrightarrow> Status (f a u) = Status u"
  shows "Status (snd (read_vars buf vars (ans, u))) = Status u"
  using assms
proof (induction vars arbitrary: ans u)
  case (Cons v vars)
  obtain ci var f where v: "v = (ci, var, f)" by (metis prod_cases3)
  have step: "Status (f a u) = Status u" for a u using Cons.prems [of ci var f] v by simp
  have "Status (snd (read_vars buf vars (a, w))) = Status w" for a w
    using Cons.IH [of a w] Cons.prems by force
  then show ?case using step by (simp add: read_vars_def v split_beta)
qed (simp add: read_vars_def)

lemma volatile_vars_Status:
  "Status (snd (read_vars buf volatile_vars (ans, u))) = Status u"
  by (rule read_vars_Status) (auto simp: volatile_vars_def)

lemma static_vars_Status:
  "Status (snd (read_vars buf static_vars (ans, u))) = Status u"
  by (rule read_vars_Status) (auto simp: static_vars_def)

lemma poll_ups_quiet: "quiet s (snd (poll_ups s))"
  by (simp add: poll_ups_def Let_def split_beta quiet_def is_shutdown_device is_shutdown_commlost)

lemma net_get_capabilities_quiet: "quiet s (snd (net_get_capabilities s))"
  using poll_ups_quiet [of "write_lock s"]
  by (auto simp: net_get_capabilities_def Let_def split_beta
      intro!: quiet_locked quiet_upd_same_Status intro: quiet_trans [OF _ quiet_upd_drv])

lemma read_field_quiet:
  "(\<And>v u. Status (assign v u) = Status u) \<Longrightarrow> quiet s t \<Longrightarrow>
   quiet s (read_field var n get assign t)"
  by (auto simp: read_field_def Let_def split_beta
      intro!: quiet_trans [OF _ quiet_log_event] quiet_upd_same_Status)

lemma read_net_fields_quiet: "quiet s t \<Longrightarrow> quiet s (read_net_fields t)"
  unfolding read_net_fields_def by (intro read_field_quiet) simp_all

lemma net_read_static_data_quiet: "quiet s (snd (net_read_static_data s))"
  using poll_ups_quiet [of "write_lock s"]
  by (auto simp: net_read_static_data_def Let_def split_beta static_vars_Status
      intro!: quiet_locked quiet_trans [OF _ quiet_upd_drv] quiet_upd_same_Status
        read_net_fields_quiet)

lemma fill_failed_quiet: "quiet s (fill_failed now s)"
  by (auto simp: fill_failed_def Let_def
      intro!: quiet_trans [OF _ quiet_log_cmd] quiet_trans [OF _ quiet_upd_drv] quiet_run_command)

lemma fill_done_quiet: "quiet s (fill_done now s)"
proof -
  define s2 where "s2 = upd_drv (\<lambda>d. d\<lparr>last_fill_time := now\<rparr>) (if comm_err (drv s)
    then upd_drv (\<lambda>d. d\<lparr>tlog := 0, comm_err := False\<rparr>) (plain_event CMDCOMMOK s) else s)"
  define s3 where "s3 = (if \<not> got_caps (drv s2) then snd (net_get_capabilities s2) else s2)"
  have "quiet s s2"
    by (auto simp: s2_def intro!: quiet_trans [OF _ quiet_upd_drv] plain_event_quiet)
  moreover have "quiet s2 s3" by (simp add: s3_def net_get_capabilities_quiet)
  moreover have "fill_done now s =
      (if got_caps (drv s3) \<and> \<not> got_static_data (drv s3) then snd (net_read_static_data s3) else s3)"
    by (simp add: fill_done_def Let_def s2_def s3_def)
  ultimately show ?thesis
    using net_read_static_data_quiet [of s3] by (auto intro: quiet_trans)
qed

lemma fill_status_buffer_quiet: "quiet s (snd (fill_status_buffer s))"
proof -
  have "quiet s (snd (time_now s))" by (simp add: time_now_def quiet_def)
  then show ?thesis
    using poll_ups_quiet [of "snd (time_now s)"]
    by (auto simp: fill_status_buffer_def Let_def split_beta
        intro: quiet_trans fill_done_quiet fill_failed_quiet)
qed

text \<open>What a merge does to each bit.\<close>

lemma local_bit:
  "bit UPS_commlost i \<longleftrightarrow> i = 8" "bit UPS_shutdown i \<longleftrightarrow> i = 9" "bit UPS_slave i \<longleftrightarrow> i = 10"
  "bit UPS_slavedown i \<longleftrightarrow> i = 11" "bit UPS_onbatt_msg i \<longleftrightarrow> i = 17"
  "bit UPS_fastpoll i \<longleftrightarrow> i = 18" "bit UPS_shut_load i \<longleftrightarrow> i = 19"
  "bit UPS_shut_btime i \<longleftrightarrow> i = 20" "bit UPS_shut_ltime i \<longleftrightarrow> i = 21"
  "bit UPS_shut_emerg i \<longleftrightarrow> i = 22" "bit UPS_plugged i \<longleftrightarrow> i = 24"
  by (rule single_bit; simp add: status_bits)+

lemma bit_local: "bit UPS_LOCAL_BITS i \<longleftrightarrow> i \<in> {8, 9, 10, 11, 17, 18, 19, 20, 21, 22, 24}"
  by (auto simp: UPS_LOCAL_BITS_def bit_or_iff local_bit)

lemma bit_merge:
  "i < 32 \<Longrightarrow> bit (merge_status m own) i \<longleftrightarrow>
     (if bit UPS_LOCAL_BITS i then bit own i \<or> i \<in> {8, 18} \<and> bit m i else bit m i)"
  by (auto simp: merge_status_def bit_and_iff bit_or_iff bit_not_iff bit_local local_bit)

lemma is_shutdown_shut_remote [simp]: "is_shutdown (set_shut_remote u) = is_shutdown u"
  by (simp add: is_bits set_bits)

lemma is_shutdown_set_slave [simp]: "is_shutdown (set_slave u) = is_shutdown u"
  by (simp add: is_bits set_bits)

lemma lost_master_quiet: "quiet s (lost_master stat s)"
  by (simp add: lost_master_def Let_def quiet_def)

lemma is_shutdown_merge [simp]:
  "is_shutdown (u\<lparr>Status := merge_status m (Status u)\<rparr>) = is_shutdown u"
  by (simp add: shutdown_bit bit_merge bit_local)

lemma apply_status_flag_quiet: "quiet s (snd (apply_status_flag stat s))"
proof -
  have "quiet s t \<Longrightarrow> quiet s (lost_master b t)" for b t
    by (rule quiet_trans [OF _ lost_master_quiet])
  then show ?thesis
    by (simp add: apply_status_flag_def Let_def split_beta) (simp add: quiet_def)
qed

lemma get_ups_status_flag_quiet: "quiet s (snd (get_ups_status_flag fill s))"
proof -
  define s1 where "s1 = (if \<not> got_caps (drv s) then snd (net_get_capabilities s) else s)"
  define s2 where "s2 = (if \<not> got_static_data (drv s1) then snd (net_read_static_data s1) else s1)"
  define s3 where "s3 = (if fill then fill_status_buffer s2 else (True, s2))"
  have "quiet s s1" by (simp add: s1_def net_get_capabilities_quiet)
  moreover have "quiet s1 s2" by (simp add: s2_def net_read_static_data_quiet)
  moreover have "quiet s2 (snd s3)" by (simp add: s3_def fill_status_buffer_quiet)
  moreover have "quiet (snd s3) (write_unlock (snd (apply_status_flag b (write_lock (snd s3)))))"
    for b by (rule quiet_locked) (rule apply_status_flag_quiet)
  moreover have "snd (get_ups_status_flag fill s) =
      (if \<not> got_caps (drv s1) then s1 else if \<not> got_static_data (drv s2) then s2
       else write_unlock (snd (apply_status_flag (fst s3) (write_lock (snd s3)))))"
    unfolding get_ups_status_flag_def Let_def s1_def s2_def s3_def
    by (simp add: split_beta)
  ultimately show ?thesis by (auto intro: quiet_trans)
qed

lemma net_read_volatile_data_quiet: "quiet s (snd (net_read_volatile_data s))"
proof -
  define s1 where "s1 = snd (fill_status_buffer s)"
  define s3 where "s3 = snd (time_now (upd_ups set_slave (write_lock s1)))"
  define s4 where "s4 = upd_ups (\<lambda>u. snd (read_vars (statbuf (drv s3)) volatile_vars
      (nd_stack (drv s3), u\<lparr>poll_time := fst (time_now (upd_ups set_slave (write_lock s1))),
        last_master_connect_time := fst (time_now (upd_ups set_slave (write_lock s1)))\<rparr>))) s3"
  have "quiet (write_lock s1) s3" by (simp add: s3_def time_now_def quiet_def)
  then have "quiet (write_lock s1) s4"
    unfolding s4_def by (intro quiet_upd_same_Status) (simp_all add: volatile_vars_Status)
  then have "quiet s1 (write_unlock s4)" by (rule quiet_locked)
  moreover have "quiet s s1" by (simp add: s1_def fill_status_buffer_quiet)
  moreover have "snd (net_read_volatile_data s) =
      (if \<not> fst (fill_status_buffer s) then s1 else snd (get_ups_status_flag False (write_unlock s4)))"
    unfolding net_read_volatile_data_def Let_def s1_def s3_def s4_def by (simp add: split_beta)
  ultimately show ?thesis
    using get_ups_status_flag_quiet [of "write_unlock s4" False] by (auto intro: quiet_trans)
qed

lemma net_entry_point_quiet: "quiet s (snd (net_entry_point cmd s))"
  by (auto simp: net_entry_point_def Let_def time_now_def quiet_def shutdown_bit
      split: devcmd.split option.split)

interpretation net: ups_driver net_driver
proof
  fix f and s :: "net_drv sys"
  assume "f \<in> driver_ops net_driver"
  then consider "f = net_open_driver" | "f = net_close_driver" | "f = net_read_static_data"
    | "f = net_read_volatile_data" | "f = net_get_capabilities" | "f = net_check_state"
    | "f \<in> {default_setup, default_kill_power, default_shutdown}"
    | cmd where "f = net_entry_point cmd"
    by (auto simp: driver_ops_def net_driver_def)
  then show "quiet s (snd (f s))"
  proof cases
    case 6
    have "quiet s (emit (Slept n) s)" for n by (simp add: quiet_def)
    then show ?thesis
      using 6 by (auto simp: net_check_state_def intro: quiet_trans get_ups_status_flag_quiet)
  qed (auto simp: net_open_driver_def net_close_driver_def default_setup_def Let_def
      default_kill_power_def default_shutdown_def split_beta
      intro!: quiet_trans [OF _ quiet_upd_drv] quiet_upd_same_Status
      intro: net_read_static_data_quiet net_read_volatile_data_quiet net_get_capabilities_quiet
        net_entry_point_quiet)
qed

subsection \<open>Reading back a report\<close>

abbreviation statflag_line :: "32 word \<Rightarrow> string" where
  "statflag_line w \<equiv> ln ''STATFLAG '' (''0x'' @ show_hex_pad 8 (unat w))"

lemma scan_statflag:
  "scan_third 200 (statflag_line w @ post) = Some (''0x'' @ show_hex_pad 8 (unat w))"
proof -
  have len: "length (show_hex_pad 8 (unat w)) = 8"
    using length_show_hex [of "unat w" 7] unat_32 [of w] by (simp add: show_hex_pad_def)
  obtain ds where ds: "show_hex_pad 8 (unat w) = map hex_digit ds" "\<forall>d\<in>set ds. d < 16"
    using show_hex_pad_digits by blast
  then have "\<forall>c\<in>set (show_hex_pad 8 (unat w)). \<not> isspace c" by auto
  then have "takeWhile (\<lambda>c. \<not> isspace c) (show_hex_pad 8 (unat w) @ NL # post) =
      show_hex_pad 8 (unat w)"
    by (simp add: takeWhile_append isspace_def)
  moreover have "isspace CHR '' ''" "\<not> isspace CHR ''S''" "\<not> isspace CHR ''T''"
    "\<not> isspace CHR ''A''" "\<not> isspace CHR ''F''" "\<not> isspace CHR ''L''" "\<not> isspace CHR ''G''"
    "\<not> isspace CHR '':''" "\<not> isspace CHR ''0''" "\<not> isspace CHR ''x''"
    by (simp_all add: isspace_def)
  ultimately show ?thesis
    using len by (simp add: scan_third_def skip_word_def Let_def)
qed

text \<open>The memory of \<open>_statbuf\<close> while it holds a report.\<close>

definition holds_report :: "string \<Rightarrow> string \<Rightarrow> bool" where
  "holds_report mem txt \<longleftrightarrow> (\<exists>junk. mem = txt @ NUL # junk) \<and> NUL \<notin> set txt"

lemma holds_report_c_str: "holds_report mem txt \<Longrightarrow> c_str mem = txt"
  by (auto simp: holds_report_def c_str_def takeWhile_append)

lemma getupsvar_status:
  assumes "holds_report mem (pre @ statflag_line w @ post)" "strstr pre ''STATFLAG'' = None"
  shows "getupsvar ''status'' ans 200 mem = (True, ''0x'' @ show_hex_pad 8 (unat w))"
proof -
  have "strstr (pre @ ''STATFLAG'' @ ('' : 0x'' @ show_hex_pad 8 (unat w) @ [NL] @ post)) ''STATFLAG''
      = Some (''STATFLAG'' @ ('' : 0x'' @ show_hex_pad 8 (unat w) @ [NL] @ post))"
  proof (rule strstr_first [OF assms(2)])
    fix m :: nat
    assume "0 < m" "m < length ''STATFLAG''"
    then have "m \<in> {1, 2, 3, 4, 5, 6, 7}" by auto
    then show "take (length ''STATFLAG'' - m) (drop m ''STATFLAG'') \<noteq>
        take (length ''STATFLAG'' - m) ''STATFLAG''" by auto
  qed
  then have "strstr (c_str mem) ''STATFLAG'' = Some (statflag_line w @ post)"
    using holds_report_c_str [OF assms(1)] by simp
  moreover have "map_of cmdtrans ''status'' = Some (''STATFLAG'', 1)"
    by (simp add: cmdtrans_def)
  ultimately show ?thesis
    using scan_statflag [of w post] by (simp add: getupsvar_def Let_def)
qed

lemma lost_master_ups: "ups (lost_master True s) = ups s"
  by (simp add: lost_master_def)

lemma apply_status_bits:
  assumes "holds_report (statbuf (drv s)) (pre @ statflag_line w @ post)"
    and "strstr pre ''STATFLAG'' = None" and "i < 32"
  shows "bit (Status (ups (snd (apply_status_flag True s)))) i \<longleftrightarrow>
    (if i \<in> {8, 9, 10, 11, 17, 18, 19, 20, 21, 22, 24}
     then bit (Status (ups s)) i \<or> i \<in> {8, 18} \<and> bit w i
     else bit w i \<or> i = 23 \<and> bit w 9)"
proof -
  have v: "getupsvar ''status'' [] 200 (statbuf (drv s)) = (True, ''0x'' @ show_hex_pad 8 (unat w))"
    by (rule getupsvar_status [OF assms(1,2)])
  have "unat w < 2 ^ 63" using unat_32 [of w] by simp
  then have m: "word_of_int (strtol0 (''0x'' @ show_hex_pad 8 (unat w))) = w"
    by (simp add: strtol0_hex del: append.simps)
  have sd: "w AND UPS_shutdown \<noteq> 0 \<longleftrightarrow> bit w 9"
  proof -
    have "w AND UPS_shutdown = (if bit w 9 then UPS_shutdown else 0)"
      by (rule bit_eqI) (auto simp: bit_and_iff local_bit)
    moreover have "UPS_shutdown \<noteq> 0" by (simp add: status_bits)
    ultimately show ?thesis by simp
  qed
  show ?thesis
    using assms(3)
    by (auto simp: apply_status_flag_def Let_def v m sd lost_master_ups bit_merge bit_local
        shut_remote.bit_set_f shut_remote.is_f_bit simp del: append.simps)
qed

lemma apply_status_frame:
  "halted (snd (apply_status_flag b s)) = halted s"
  "action_first (snd (apply_status_flag b s)) = action_first s"
  "PrevStatus (ups (snd (apply_status_flag b s))) = PrevStatus (ups s)"
  by (simp_all add: apply_status_flag_def lost_master_def Let_def split_beta set_shut_remote_def)

text \<open>
  A slave that finds the master's \<open>STATFLAG\<close> line in its buffer takes over the master's
  status bit by bit: all bits that are not local, and of the local ones only \<open>UPS_commlost\<close>
  (8) and \<open>UPS_fastpoll\<close> (18), which it sets and never clears. When the master is shutting
  down (bit 9), the slave marks a remote shutdown (bit 23), but not itself as shutting down.
\<close>

theorem slave_mirrors_master:
  assumes "holds_report (statbuf (drv s)) (pre @ statflag_line w @ post)"
    and "strstr pre ''STATFLAG'' = None" and "i < 32"
  shows "bit (Status (ups (snd (apply_status_flag True s)))) i \<longleftrightarrow>
    (if i \<in> {8, 9, 10, 11, 17, 18, 19, 20, 21, 22, 24}
     then bit (Status (ups s)) i \<or> i \<in> {8, 18} \<and> bit w i
     else bit w i \<or> i = 23 \<and> bit w 9)"
  by (rule apply_status_bits [OF assms])

lemma nul_show_hex_pad: "NUL \<notin> set (show_hex_pad w n)"
proof -
  obtain ds where ds: "show_hex_pad w n = map hex_digit ds" "\<forall>d\<in>set ds. d < 16"
    using show_hex_pad_digits by blast
  have "digit_val 16 NUL = None" by (simp add: digit_val_def char_code_def)
  then show ?thesis using ds digit_val_hex by fastforce
qed

text \<open>The driver data after the constructor, with the connections it will make.\<close>

definition new_net_drv :: "(nat \<Rightarrow> net_env \<times> conn) \<Rightarrow> net_drv" where
  "new_net_drv conns = \<lparr>nd_device = [], nd_hostname = [], nd_port = 0, got_caps = False,
     got_static_data = False, last_fill_time = 0, statbuf = replicate 4096 NUL, statlen = 0,
     tlog = 0, comm_err = False, comm_loss = 0, nd_conns = conns, nd_conn_pos = 0,
     nd_stack = []\<rparr>"

definition offline :: "nat \<Rightarrow> net_env \<times> conn" where
  "offline n = (\<lparr>ne_host = NoHost, ne_socket = Inr 3, ne_nonblock = Done, ne_connect = Connected,
     ne_selects = [], ne_sockopt = Inr (True, 0), ne_block = Done\<rparr>,
     \<lparr>rx = [], tx = [], sent = []\<rparr>)"

definition demo_slave :: "net_drv sys" where
  "demo_slave = start_sys ((new_net_drv offline)
     \<lparr>statbuf := ''UPSNAME  : x'' @ NL # statflag_line 0x05000010 @ [NUL]\<rparr>)"

theorem slave_mirrors_master_witness:
  "bit (Status (ups (snd (apply_status_flag True demo_slave)))) 4 \<longleftrightarrow>
    (if (4 :: nat) \<in> {8, 9, 10, 11, 17, 18, 19, 20, 21, 22, 24}
     then bit (Status (ups demo_slave)) 4 \<or> (4 :: nat) \<in> {8, 18} \<and> bit (0x05000010 :: 32 word) 4
     else bit (0x05000010 :: 32 word) 4 \<or> (4 :: nat) = 23 \<and> bit (0x05000010 :: 32 word) 9)"
proof (rule slave_mirrors_master [of _ "''UPSNAME  : x'' @ [NL]" "0x05000010" "[]"])
  show "holds_report (statbuf (drv demo_slave))
      ((''UPSNAME  : x'' @ [NL]) @ statflag_line 0x05000010 @ [])"
    using nul_show_hex_pad [of 8 "unat (0x05000010 :: 32 word)"]
    by (simp add: holds_report_def demo_slave_def start_sys_def)
qed (simp_all add: is_prefix_def)

subsection \<open>A whole report\<close>

lemma strlcat_raw_text:
  assumes "length mem = 4096" "holds_report mem body" "NUL \<notin> set src"
    and "length body + length src < 4096"
  shows "holds_report (strlcat_raw mem src) (body @ src)" "length (strlcat_raw mem src) = 4096"
proof -
  obtain junk where mem: "mem = body @ NUL # junk" and nul: "NUL \<notin> set body"
    using assms(2) by (auto simp: holds_report_def)
  have "c_str (take 4096 mem) = body"
    using holds_report_c_str [OF assms(2)] assms(1) by simp
  then have "strlcat_raw mem src = poke (length body) (src @ [NUL]) mem"
    using assms(4) by (simp add: strlcat_raw_def Let_def)
  then show "holds_report (strlcat_raw mem src) (body @ src)"
    "length (strlcat_raw mem src) = 4096"
    using assms mem nul by (auto simp: holds_report_def poke_def)
qed

lemma poll_loop_report:
  assumes "list_all delivers (rx c)"
    and "rx_bytes (rx c) = concat (map frame ls) @ frame [] @ rest"
    and "\<forall>l\<in>set ls. 0 < length l \<and> length l \<le> 999 \<and> NUL \<notin> set l"
    and "length mem = 4096" "holds_report mem body" "length buf = 1000"
    and "length body + length (concat ls) < 4096"
  shows "\<exists>mem'. poll_loop buf mem c = (0, mem') \<and> length mem' = 4096 \<and>
    holds_report mem' (body @ concat ls)"
  using assms
proof (induction ls arbitrary: c mem buf body)
  case Nil
  have "rx_bytes (rx c) = frame [] @ rest" using Nil.prems by simp
  then obtain c' where "net_recv [NUL, NUL] 999 buf c = (0, buf, c')"
    using net_recv_frame [of c "[]" rest "[NUL, NUL]" buf 999] Nil.prems(1) by auto
  then show ?case using Nil.prems by (simp add: poll_loop.simps)
next
  case (Cons l ls)
  have l: "0 < length l" "length l \<le> 999" "NUL \<notin> set l" using Cons.prems by auto
  have "rx_bytes (rx c) = frame l @ (concat (map frame ls) @ frame [] @ rest)"
    using Cons.prems by simp
  then obtain c' where recv: "net_recv [NUL, NUL] 999 buf c =
        (int (length l), l @ drop (length l) buf, c')"
    and c': "list_all delivers (rx c')"
      "rx_bytes (rx c') = concat (map frame ls) @ frame [] @ rest"
    using net_recv_frame [of c l "concat (map frame ls) @ frame [] @ rest" "[NUL, NUL]" buf 999]
      Cons.prems l by auto
  have mem': "holds_report (strlcat_raw mem l) (body @ l)" "length (strlcat_raw mem l) = 4096"
    using strlcat_raw_text [OF Cons.prems(4,5) l(3)] Cons.prems(7) by auto
  have "poll_loop buf mem c = poll_loop (l @ drop (length l) buf) (strlcat_raw mem l) c'"
    by (subst poll_loop.simps) (use recv l in simp)
  moreover have "\<exists>mem''. poll_loop (l @ drop (length l) buf) (strlcat_raw mem l) c' = (0, mem'') \<and>
      length mem'' = 4096 \<and> holds_report mem'' ((body @ l) @ concat ls)"
    by (rule Cons.IH [OF c' _ mem'(2,1)]) (use Cons.prems l in auto)
  ultimately show ?case by simp
qed

lemma poll_ups_report:
  assumes "nd_conns (drv s) (nd_conn_pos (drv s)) = (env, c)"
    and "0 \<le> fst (net_open env)" "list_all accepts (tx c)"
    and "list_all delivers (rx c)"
    and "rx_bytes (rx c) = concat (map frame ls) @ frame [] @ rest"
    and "\<forall>l\<in>set ls. 0 < length l \<and> length l \<le> 999 \<and> NUL \<notin> set l"
    and "length (concat ls) < 4096" "length (statbuf (drv s)) = 4096"
  shows "fst (poll_ups s)" "holds_report (statbuf (drv (snd (poll_ups s)))) (concat ls)"
    "ups (snd (poll_ups s)) = clear_commlost (ups s)"
proof -
  obtain c1 where send: "net_send ''status'' c = (6, c1)" and c1: "rx c1 = rx c"
    by (rule net_send_accepts [OF assms(3), of "''status''"]) auto
  define mem where "mem = poke 0 [NUL] (statbuf (drv s))"
  have len: "length mem = 4096" using assms(8) by (simp add: mem_def length_poke)
  have empty: "holds_report mem []"
    using assms(8) by (auto simp: mem_def poke_def holds_report_def)
  have "\<exists>mem'. poll_loop (replicate 1000 NUL) mem c1 = (0, mem') \<and> length mem' = 4096 \<and>
      holds_report mem' ([] @ concat ls)"
    by (rule poll_loop_report [OF _ _ assms(6) len empty]) (use assms c1 in simp_all)
  then obtain mem' where "poll_loop (replicate 1000 NUL) mem c1 = (0, mem')"
    and r: "holds_report mem' (concat ls)" by auto
  then have "poll_ups s = (True, upd_drv (\<lambda>d. d\<lparr>statbuf := mem', statlen := length (c_str mem')\<rparr>)
      (upd_ups clear_commlost (upd_drv (\<lambda>d. d\<lparr>nd_conn_pos := Suc (nd_conn_pos d),
        statbuf := poke 0 [NUL] (statbuf d), statlen := 0\<rparr>) s)))"
    using assms(1,2) send by (simp add: poll_ups_def Let_def mem_def)
  then show "fst (poll_ups s)" "holds_report (statbuf (drv (snd (poll_ups s)))) (concat ls)"
    "ups (snd (poll_ups s)) = clear_commlost (ups s)" using r by simp_all
qed

text \<open>
  However the connection cuts the stream, a poll of the master leaves in \<open>_statbuf\<close> exactly
  the lines the master sent, and clears \<open>UPS_commlost\<close>.
\<close>

theorem poll_ups_reads_report:
  assumes "nd_conns (drv s) (nd_conn_pos (drv s)) = (env, c)"
    and "0 \<le> fst (net_open env)" "list_all accepts (tx c)"
    and "list_all delivers (rx c)"
    and "rx_bytes (rx c) = concat (map frame ls) @ frame [] @ rest"
    and "\<forall>l\<in>set ls. 0 < length l \<and> length l \<le> 999 \<and> NUL \<notin> set l"
    and "length (concat ls) < 4096" "length (statbuf (drv s)) = 4096"
  shows "fst (poll_ups s) \<and> c_str (statbuf (drv (snd (poll_ups s)))) = concat ls \<and>
    \<not> is_commlost (ups (snd (poll_ups s)))"
  using poll_ups_report [OF assms] by (simp add: holds_report_c_str)

definition online :: "nat \<Rightarrow> net_env \<times> conn" where
  "online n = ((fst (offline n))\<lparr>ne_host := Address\<rparr>,
     \<lparr>rx = [RecvData (take 3 (frame ''A : 1'')), RecvIntr, RecvData (drop 3 (frame ''A : 1'') @ frame [])],
      tx = [Accept 4, SendIntr], sent = []\<rparr>)"

theorem poll_ups_reads_report_witness:
  "fst (poll_ups (start_sys (new_net_drv online))) \<and>
   c_str (statbuf (drv (snd (poll_ups (start_sys (new_net_drv online)))))) = concat [''A : 1''] \<and>
   \<not> is_commlost (ups (snd (poll_ups (start_sys (new_net_drv online)))))"
  by (rule poll_ups_reads_report [of _ "fst (online 0)" "snd (online 0)" _ "[]"])
    (simp_all add: start_sys_def new_net_drv_def online_def offline_def net_open_def
      connect_status_def frame_def short_bytes_def char_of_def)

subsection \<open>Loss of the master\<close>

lemma getupsvar_empty: "c_str mem = [] \<Longrightarrow> fst (getupsvar ''status'' ans n mem) = False"
  by (simp add: getupsvar_def cmdtrans_def)

definition missed_pass :: "net_drv sys \<Rightarrow> net_drv sys" where
  "missed_pass s = snd (apply_status_flag False s)"

lemma missed_pass:
  assumes "c_str (statbuf (drv s)) = []" "is_onbatt (ups s)"
  shows "statbuf (drv (missed_pass s)) = statbuf (drv s)" "is_onbatt (ups (missed_pass s))"
    "comm_loss (drv (missed_pass s)) = comm_loss (drv s) + 1"
    "is_shut_remote (ups (missed_pass s)) \<longleftrightarrow> is_shut_remote (ups s) \<or> comm_loss (drv s) = 4"
  using assms getupsvar_empty [OF assms(1), of "[]" 200]
  by (auto simp: missed_pass_def apply_status_flag_def lost_master_def Let_def split_beta
      onbatt.is_f_bit shut_remote.is_f_bit shut_remote.bit_set_f)

text \<open>
  On battery, a slave that has lost its master waits for five failing passes in a row
  before it shuts down (the comment above the test says four).
\<close>

theorem slave_gives_up_on_fifth:
  assumes "c_str (statbuf (drv s)) = []" "is_onbatt (ups s)"
    and "comm_loss (drv s) = 0" "\<not> is_shut_remote (ups s)"
  shows "is_shut_remote (ups ((missed_pass ^^ k) s)) \<longleftrightarrow> 5 \<le> k"
proof -
  have "c_str (statbuf (drv ((missed_pass ^^ k) s))) = [] \<and> is_onbatt (ups ((missed_pass ^^ k) s)) \<and>
    comm_loss (drv ((missed_pass ^^ k) s)) = int k \<and>
    (is_shut_remote (ups ((missed_pass ^^ k) s)) \<longleftrightarrow> 5 \<le> k)"
    using assms by (induction k) (auto simp: missed_pass)
  then show ?thesis by blast
qed

theorem slave_gives_up_on_fifth_witness:
  "is_shut_remote (ups ((missed_pass ^^ 4)
      (upd_ups set_onbatt (start_sys (new_net_drv offline))))) \<longleftrightarrow> (5 :: nat) \<le> 4"
  by (rule slave_gives_up_on_fifth)
    (simp_all add: start_sys_def new_net_drv_def c_str_def new_ups_def onbatt.is_f_bit
      onbatt.bit_set_f shut_remote.is_f_bit battpresent.bit_set_f zero_ups_def)

text \<open>
  The width in the format of \<open>sscanf\<close> is the size of the buffer, so a long enough word fills
  it completely and the terminating NUL goes one byte behind it: a name of 100 or more
  characters in the master's report overruns \<open>upsname[100]\<close>.
\<close>

theorem getupsvar_overrun:
  "snd (getupsvar ''upsname'' ans 100
      (''UPSNAME  : '' @ replicate (100 + n) CHR ''x'' @ [NL, NUL])) = replicate 100 CHR ''x''"
proof -
  define mem where "mem = ''UPSNAME  : '' @ replicate (100 + n) CHR ''x'' @ [NL, NUL]"
  have c: "c_str mem = ''UPSNAME  : '' @ replicate (100 + n) CHR ''x'' @ [NL]"
    by (simp add: c_str_def takeWhile_append mem_def)
  have sp: "isspace CHR '' ''" "isspace NL" "\<not> isspace CHR ''x''" "\<not> isspace CHR '':''"
    "\<not> isspace CHR ''U''" "\<not> isspace CHR ''P''" "\<not> isspace CHR ''S''" "\<not> isspace CHR ''N''"
    "\<not> isspace CHR ''A''" "\<not> isspace CHR ''M''" "\<not> isspace CHR ''E''"
    by (simp_all add: isspace_def)
  have x: "replicate (100 + n) CHR ''x'' = CHR ''x'' # replicate (99 + n) CHR ''x''"
    by (simp flip: replicate_Suc)
  have "scan_third 100 (c_str mem) = Some (replicate 100 CHR ''x'')"
    unfolding c x using sp
    by (simp add: scan_third_def skip_word_def Let_def takeWhile_append takeWhile_replicate
        dropWhile_append flip: replicate_Suc)
  moreover have "strstr (c_str mem) ''UPSNAME'' = Some (c_str mem)"
    by (simp add: c is_prefix_def)
  moreover have "map_of cmdtrans ''upsname'' = Some (''UPSNAME'', 1)" by (simp add: cmdtrans_def)
  ultimately have "snd (getupsvar ''upsname'' ans 100 mem) = replicate 100 CHR ''x''"
    by (simp add: getupsvar_def Let_def)
  then show ?thesis by (simp only: mem_def)
qed

text \<open>
  A variable is looked up as a substring, not as a key: in a report without \<open>LINEV\<close> the line
  voltage is read from \<open>MAXLINEV\<close>.
\<close>

theorem getupsvar_confuses_keys:
  "getupsvar ''utility'' ans 200 (''MAXLINEV : 121.0 Volts'' @ [NL, NUL]) = (True, ''121.0'')"
  by (simp add: getupsvar_def cmdtrans_def c_str_def is_prefix_def scan_third_def skip_word_def
      isspace_def Let_def)

end
