(* ===== verification/Md5.thy ===== *)
theory Md5
  imports Prelude
begin

text \<open>
  The MD5 hash of \<open>src/lib/md5.c\<close>. A byte is an \<open>8 word\<close>, the registers and counters are
  \<open>32 word\<close>s. The first half is the code, with its block buffer and its two-word bit
  counter; the second half shows that any way of cutting a message into pieces gives the hash
  that RFC 1321 defines of the whole: \<open>md5_spec\<close>.
\<close>

unbundle bit_operations_syntax

subsection \<open>One block\<close>

type_synonym regs = "32 word \<times> 32 word \<times> 32 word \<times> 32 word"

definition rotate_left :: "32 word \<Rightarrow> nat \<Rightarrow> 32 word" where
  "rotate_left x n = push_bit n x OR drop_bit (32 - n) x"

definition md5_F :: "32 word \<Rightarrow> 32 word \<Rightarrow> 32 word \<Rightarrow> 32 word" where
  "md5_F x y z = (x AND y) OR (NOT x AND z)"

definition md5_G :: "32 word \<Rightarrow> 32 word \<Rightarrow> 32 word \<Rightarrow> 32 word" where
  "md5_G x y z = (x AND z) OR (y AND NOT z)"

definition md5_H :: "32 word \<Rightarrow> 32 word \<Rightarrow> 32 word \<Rightarrow> 32 word" where
  "md5_H x y z = x XOR y XOR z"

definition md5_I :: "32 word \<Rightarrow> 32 word \<Rightarrow> 32 word \<Rightarrow> 32 word" where
  "md5_I x y z = y XOR (x OR NOT z)"

definition T_MASK :: "32 word" where
  "T_MASK = NOT 0"

text \<open>
  The macro \<open>SET(a, b, c, d, k, s, Ti)\<close>. In the code each call names the registers one place
  further on (\<open>a b c d\<close>, then \<open>d a b c\<close>, ...); here the tuple is turned by one place instead.
\<close>

definition md5_set ::
    "(32 word \<Rightarrow> 32 word \<Rightarrow> 32 word \<Rightarrow> 32 word) \<Rightarrow> 32 word list \<Rightarrow> nat \<times> nat \<times> 32 word \<Rightarrow>
     regs \<Rightarrow> regs" where
  "md5_set F X = (\<lambda>(k, s, Ti) (a, b, c, d).
     let t = a + F b c d + X ! k + Ti in (d, rotate_left t s + b, b, c))"

text \<open>The calls of the four rounds: index into the block, shift and constant.\<close>

definition md5_round1 :: "(nat \<times> nat \<times> 32 word) list" where
  "md5_round1 =
    [(0, 7, T_MASK XOR 0x28955b87), (1, 12, T_MASK XOR 0x173848a9),
     (2, 17, 0x242070db), (3, 22, T_MASK XOR 0x3e423111),
     (4, 7, T_MASK XOR 0x0a83f050), (5, 12, 0x4787c62a),
     (6, 17, T_MASK XOR 0x57cfb9ec), (7, 22, T_MASK XOR 0x02b96afe),
     (8, 7, 0x698098d8), (9, 12, T_MASK XOR 0x74bb0850),
     (10, 17, T_MASK XOR 0x0000a44e), (11, 22, T_MASK XOR 0x76a32841),
     (12, 7, 0x6b901122), (13, 12, T_MASK XOR 0x02678e6c),
     (14, 17, T_MASK XOR 0x5986bc71), (15, 22, 0x49b40821)]"

definition md5_round2 :: "(nat \<times> nat \<times> 32 word) list" where
  "md5_round2 =
    [(1, 5, T_MASK XOR 0x09e1da9d), (6, 9, T_MASK XOR 0x3fbf4cbf),
     (11, 14, 0x265e5a51), (0, 20, T_MASK XOR 0x16493855),
     (5, 5, T_MASK XOR 0x29d0efa2), (10, 9, 0x02441453),
     (15, 14, T_MASK XOR 0x275e197e), (4, 20, T_MASK XOR 0x182c0437),
     (9, 5, 0x21e1cde6), (14, 9, T_MASK XOR 0x3cc8f829),
     (3, 14, T_MASK XOR 0x0b2af278), (8, 20, 0x455a14ed),
     (13, 5, T_MASK XOR 0x561c16fa), (2, 9, T_MASK XOR 0x03105c07),
     (7, 14, 0x676f02d9), (12, 20, T_MASK XOR 0x72d5b375)]"

definition md5_round3 :: "(nat \<times> nat \<times> 32 word) list" where
  "md5_round3 =
    [(5, 4, T_MASK XOR 0x0005c6bd), (8, 11, T_MASK XOR 0x788e097e),
     (11, 16, 0x6d9d6122), (14, 23, T_MASK XOR 0x021ac7f3),
     (1, 4, T_MASK XOR 0x5b4115bb), (4, 11, 0x4bdecfa9),
     (7, 16, T_MASK XOR 0x0944b49f), (10, 23, T_MASK XOR 0x4140438f),
     (13, 4, 0x289b7ec6), (0, 11, T_MASK XOR 0x155ed805),
     (3, 16, T_MASK XOR 0x2b10cf7a), (6, 23, 0x04881d05),
     (9, 4, T_MASK XOR 0x262b2fc6), (12, 11, T_MASK XOR 0x1924661a),
     (15, 16, 0x1fa27cf8), (2, 23, T_MASK XOR 0x3b53a99a)]"

definition md5_round4 :: "(nat \<times> nat \<times> 32 word) list" where
  "md5_round4 =
    [(0, 6, T_MASK XOR 0x0bd6ddbb), (7, 10, 0x432aff97),
     (14, 15, T_MASK XOR 0x546bdc58), (5, 21, T_MASK XOR 0x036c5fc6),
     (12, 6, 0x655b59c3), (3, 10, T_MASK XOR 0x70f3336d),
     (10, 15, T_MASK XOR 0x00100b82), (1, 21, T_MASK XOR 0x7a7ba22e),
     (8, 6, 0x6fa87e4f), (15, 10, T_MASK XOR 0x01d3191f),
     (6, 15, T_MASK XOR 0x5cfebceb), (13, 21, 0x4e0811a1),
     (4, 6, T_MASK XOR 0x08ac817d), (11, 10, T_MASK XOR 0x42c50dca),
     (2, 15, 0x2ad7d2bb), (9, 21, T_MASK XOR 0x14792c6e)]"

text \<open>Four bytes as a word, least significant first, and back.\<close>

definition le_word :: "byte \<Rightarrow> byte \<Rightarrow> byte \<Rightarrow> byte \<Rightarrow> 32 word" where
  "le_word a b c d = ucast a + push_bit 8 (ucast b) + push_bit 16 (ucast c) + push_bit 24 (ucast d)"

definition le_bytes :: "32 word \<Rightarrow> byte list" where
  "le_bytes w = map (\<lambda>i. ucast (drop_bit (8 * i) w)) [0..<4]"

definition md5_words :: "byte list \<Rightarrow> 32 word list" where
  "md5_words data = map (\<lambda>i. le_word (data ! (4 * i)) (data ! (4 * i + 1)) (data ! (4 * i + 2))
                               (data ! (4 * i + 3))) [0..<16]"

definition md5_process :: "byte list \<Rightarrow> regs \<Rightarrow> regs" where
  "md5_process data regs =
     (let X = md5_words data;
          (a, b, c, d) = fold (md5_set md5_I X) md5_round4 (fold (md5_set md5_H X) md5_round3
                           (fold (md5_set md5_G X) md5_round2 (fold (md5_set md5_F X) md5_round1 regs)));
          (a0, b0, c0, d0) = regs
      in (a0 + a, b0 + b, c0 + c, d0 + d))"

subsection \<open>The incremental interface\<close>

record md5_state =
  md_count :: "32 word \<times> 32 word"     \<comment> \<open>length in bits, least significant word first\<close>
  md_abcd :: regs
  md_buf :: "byte list"               \<comment> \<open>\<open>buf[64]\<close>\<close>

definition md5_start :: regs where
  "md5_start = (0x67452301, T_MASK XOR 0x10325476, T_MASK XOR 0x67452301, 0x10325476)"

text \<open>\<open>md5_init\<close> leaves the buffer as it is; here it is taken to be zero.\<close>

definition md5_init :: md5_state where
  "md5_init = \<lparr>md_count = (0, 0), md_abcd = md5_start, md_buf = replicate 64 0\<rparr>"

text \<open>The loop over full blocks, with what is left at its end.\<close>

function md5_loop :: "regs \<Rightarrow> byte list \<Rightarrow> regs \<times> byte list" where
  "md5_loop h p = (if 64 \<le> length p then md5_loop (md5_process (take 64 p) h) (drop 64 p) else (h, p))"
  by pat_completeness auto
termination by (relation "measure (\<lambda>(h, p). length p)") auto

declare md5_loop.simps [simp del]

definition md5_count :: "int \<Rightarrow> 32 word \<times> 32 word \<Rightarrow> 32 word \<times> 32 word" where
  "md5_count nbytes = (\<lambda>(c0, c1).
     let nbits = word_of_int (nbytes * 8); c1' = c1 + word_of_int (nbytes div 2 ^ 29); c0' = c0 + nbits
     in (c0', if c0' < nbits then c1' + 1 else c1'))"

definition md5_blocks :: "byte list \<Rightarrow> md5_state \<Rightarrow> md5_state" where
  "md5_blocks p s =
     (let (h, left) = md5_loop (md_abcd s) p
      in s\<lparr>md_abcd := h, md_buf := if left \<noteq> [] then poke 0 left (md_buf s) else md_buf s\<rparr>)"

definition md5_append :: "md5_state \<Rightarrow> byte list \<Rightarrow> md5_state" where
  "md5_append s data =
     (let nbytes = length data; offset = unat (drop_bit 3 (fst (md_count s)) AND 63)
      in if nbytes = 0 then s
         else let s1 = s\<lparr>md_count := md5_count (int nbytes) (md_count s)\<rparr>
              in if offset \<noteq> 0
                 then let copy = (if offset + nbytes > 64 then 64 - offset else nbytes);
                          s2 = s1\<lparr>md_buf := poke offset (take copy data) (md_buf s1)\<rparr>
                      in if offset + copy < 64 then s2
                         else md5_blocks (drop copy data)
                                (s2\<lparr>md_abcd := md5_process (md_buf s2) (md_abcd s2)\<rparr>)
                 else md5_blocks data s1)"

definition md5_finish :: "md5_state \<Rightarrow> byte list" where
  "md5_finish s =
     (let data = le_bytes (fst (md_count s)) @ le_bytes (snd (md_count s));
          n = unat ((55 - drop_bit 3 (fst (md_count s))) AND 63) + 1;
          s1 = md5_append s (take n (0x80 # replicate 63 0));
          (a, b, c, d) = md_abcd (md5_append s1 data)
      in le_bytes a @ le_bytes b @ le_bytes c @ le_bytes d)"

subsection \<open>The reference\<close>

text \<open>
  RFC 1321 on a whole message: a one bit and zeros up to 56 bytes modulo 64, the length in bits
  as two words, and the blocks from the start value.
\<close>

definition md5_padded :: "byte list \<Rightarrow> byte list" where
  "md5_padded m =
     m @ 0x80 # replicate ((119 - length m mod 64) mod 64) 0 @
     le_bytes (word_of_int (int (length m) * 8)) @ le_bytes (word_of_int (int (length m) * 8 div 2 ^ 32))"

definition md5_spec :: "byte list \<Rightarrow> byte list" where
  "md5_spec m =
     (let (a, b, c, d) = fst (md5_loop md5_start (md5_padded m))
      in le_bytes a @ le_bytes b @ le_bytes c @ le_bytes d)"

subsection \<open>A streaming hash\<close>

text \<open>
  What a client relies on: a state stands for the bytes appended so far (\<open>holds\<close>), and the
  result depends on nothing else.
\<close>

locale streaming_hash =
  fixes start :: 's and append :: "'s \<Rightarrow> 'a list \<Rightarrow> 's" and finish :: "'s \<Rightarrow> 'b"
    and holds :: "'s \<Rightarrow> 'a list \<Rightarrow> bool" and spec :: "'a list \<Rightarrow> 'b"
  assumes start_holds: "holds start []"
    and append_holds: "holds s m \<Longrightarrow> holds (append s d) (m @ d)"
    and finish_spec: "holds s m \<Longrightarrow> finish s = spec m"
begin

lemma foldl_holds: "holds s m \<Longrightarrow> holds (foldl append s ds) (m @ concat ds)"
proof (induction ds arbitrary: s m)
  case (Cons d ds)
  then show ?case using Cons.IH [OF append_holds [OF Cons.prems, of d]] by simp
qed simp

lemma chunks: "finish (foldl append start ds) = spec (concat ds)"
  using finish_spec [OF foldl_holds [OF start_holds, of ds]] by simp

lemma three_chunks: "finish (append (append (append start a) b) c) = spec (a @ b @ c)"
  using chunks [of "[a, b, c]"] by simp

lemma same_message: "concat ds = concat es \<Longrightarrow>
    finish (foldl append start ds) = finish (foldl append start es)"
  by (simp add: chunks)

end

subsection \<open>The block loop\<close>

lemma md5_loop_short: "length p < 64 \<Longrightarrow> md5_loop h p = (h, p)"
  by (simp add: md5_loop.simps)

lemma md5_loop_block:
  "length b = 64 \<Longrightarrow> md5_loop h (b @ p) = md5_loop (md5_process b h) p"
  by (subst md5_loop.simps) simp

lemma md5_loop_append:
  "md5_loop h (p @ q) = (let (h', r) = md5_loop h p in md5_loop h' (r @ q))"
proof (induction h p rule: md5_loop.induct)
  case (1 h p)
  show ?case
  proof (cases "64 \<le> length p")
    case True
    then show ?thesis
      using 1 by (subst (1 2) md5_loop.simps) simp
  qed (simp add: md5_loop_short)
qed

lemma md5_loop_left: "length (snd (md5_loop h p)) = length p mod 64"
proof (induction h p rule: md5_loop.induct)
  case (1 h p)
  then show ?case
    by (subst md5_loop.simps) (auto simp: le_mod_geq)
qed

subsection \<open>The counter\<close>

definition counts :: "32 word \<times> 32 word \<Rightarrow> nat \<Rightarrow> bool" where
  "counts c n \<longleftrightarrow> c = (word_of_int (int n * 8), word_of_int (int n * 8 div 2 ^ 32))"

lemma word_carry: "(a + b < (b :: 32 word)) \<longleftrightarrow> 2 ^ 32 \<le> uint a + uint b"
proof -
  have "uint a < 2 ^ 32" "uint b < 2 ^ 32" using uint_lt2p [of a] uint_lt2p [of b] by simp_all
  then show ?thesis by (auto simp: word_less_def uint_plus_if')
qed

lemma counts_add:
  assumes "counts c n"
  shows "counts (md5_count (int k) c) (n + k)"
proof -
  let ?n = "int n * 8" and ?k = "int k * 8"
  have c: "c = (word_of_int ?n, word_of_int (?n div 2 ^ 32))"
    using assms by (simp add: counts_def)
  have carry: "(word_of_int ?n + word_of_int ?k < (word_of_int ?k :: 32 word)) \<longleftrightarrow>
      2 ^ 32 \<le> ?n mod 2 ^ 32 + ?k mod 2 ^ 32"
    unfolding word_carry uint_word_of_int by simp
  have "(?n mod 2 ^ 32 + ?k mod 2 ^ 32) div 2 ^ 32 =
      (if 2 ^ 32 \<le> ?n mod 2 ^ 32 + ?k mod 2 ^ 32 then 1 else 0)"
    using pos_mod_bound [of "2 ^ 32" ?n] pos_mod_bound [of "2 ^ 32" ?k]
    by (simp add: div_pos_geq div_pos_pos_trivial)
  moreover have "?k div 2 ^ 32 = int k div 2 ^ 29" by simp
  ultimately have "(?n + ?k) div 2 ^ 32 = ?n div 2 ^ 32 + int k div 2 ^ 29 +
      (if 2 ^ 32 \<le> ?n mod 2 ^ 32 + ?k mod 2 ^ 32 then 1 else 0)"
    using div_add1_eq [of ?n ?k "2 ^ 32"] by presburger
  then show ?thesis
    using carry by (simp add: counts_def md5_count_def c distrib_right Let_def)
qed

lemma and_63: "unat (w AND (63 :: 32 word)) = unat w mod 64"
proof -
  have "w AND 63 = take_bit 6 w" by (simp add: take_bit_eq_mask mask_eq_exp_minus_1)
  then show ?thesis by (simp add: take_bit_eq_mod unat_mod)
qed

lemma pad_count: "r < 64 \<Longrightarrow> (119 - r) mod 64 = (if r \<le> 55 then 55 - r else 119 - r)" for r :: nat
proof -
  assume r: "r < 64"
  show ?thesis
  proof (cases "r \<le> 55")
    case True
    then have "(119 - r) mod 64 = (64 + (55 - r)) mod 64" by simp
    also have "\<dots> = (55 - r) mod 64" by (rule mod_add_self1)
    finally show ?thesis using True by simp
  qed (use r in simp)
qed

lemma pad_zeros:
  fixes e :: nat
  assumes "e \<le> 2 ^ 32 + 55"
  shows "(if e \<le> 55 then 55 - e else 2 ^ 32 + 55 - e) mod 64 = (119 - e mod 64) mod 64"
proof -
  have "int ((119 - e mod 64) mod 64) = (55 + 64 - int e) mod 64"
    by (simp add: zmod_int of_nat_diff mod_diff_right_eq)
  also have "\<dots> = (55 - int e) mod 64"
    using mod_add_self2 [of "55 - int e" 64] by (simp add: algebra_simps)
  also have "\<dots> = int ((if e \<le> 55 then 55 - e else 2 ^ 32 + 55 - e) mod 64)"
  proof (cases "e \<le> 55")
    case False
    have "(2 ^ 32 + (55 - int e)) mod 64 = (55 - int e) mod 64"
      using mod_mult_self3 [of "2 ^ 26" 64 "55 - int e"] by simp
    then show ?thesis using False assms by (simp add: zmod_int of_nat_diff add_diff_eq)
  qed (simp add: zmod_int of_nat_diff)
  finally show ?thesis by simp
qed

lemma counts_offset:
  assumes "counts c n"
  shows "unat (drop_bit 3 (fst c) AND 63) = n mod 64"
    and "unat ((55 - drop_bit 3 (fst c)) AND 63) = (119 - n mod 64) mod 64"
proof -
  have "uint (fst c) = (int n * 8) mod 2 ^ 32"
    using assms unfolding counts_def by (simp only: fst_conv uint_word_of_int) simp
  then have c: "unat (fst c) = (n * 8) mod 2 ^ 32"
    by (simp add: unat_eq_nat_uint nat_mod_distrib nat_mult_distrib)
  have "unat (drop_bit 3 (fst c)) = (n * 8) mod 2 ^ 32 div 8"
    using c by (simp add: drop_bit_eq_div unat_div)
  also have "\<dots> = n mod 2 ^ 29" using mod_mult_mult2 [of n 8 "2 ^ 29"] by simp
  finally have d: "unat (drop_bit 3 (fst c)) = n mod 2 ^ 29" .
  then show n: "unat (drop_bit 3 (fst c) AND 63) = n mod 64"
    unfolding and_63 by (simp add: mod_mod_cancel)
  show "unat ((55 - drop_bit 3 (fst c)) AND 63) = (119 - n mod 64) mod 64"
  proof -
    let ?x = "drop_bit 3 (fst c)"
    have "unat (55 - ?x) = (if n mod 2 ^ 29 \<le> 55 then 55 - n mod 2 ^ 29 else 2 ^ 32 + 55 - n mod 2 ^ 29)"
      using d by (simp add: unat_sub_if' word_le_nat_alt)
    moreover have "n mod 2 ^ 29 mod 64 = n mod 64" by (simp add: mod_mod_cancel)
    moreover have "n mod 2 ^ 29 \<le> 2 ^ 32 + 55" by (rule order.trans [OF less_imp_le [OF mod_less_divisor]]) simp_all
    ultimately show ?thesis unfolding and_63 using pad_zeros [of "n mod 2 ^ 29"] by simp
  qed
qed


subsection \<open>The code computes the reference\<close>

definition md5_holds :: "md5_state \<Rightarrow> byte list \<Rightarrow> bool" where
  "md5_holds s m \<longleftrightarrow> counts (md_count s) (length m) \<and> length (md_buf s) = 64 \<and>
     md5_loop md5_start m = (md_abcd s, take (length m mod 64) (md_buf s))"

lemma md5_blocks_eq:
  assumes "length (md_buf s) = 64" "md5_loop (md_abcd s) p = (h, left)"
  shows "md_abcd (md5_blocks p s) = h" "md_count (md5_blocks p s) = md_count s"
    "length (md_buf (md5_blocks p s)) = 64"
    "take (length p mod 64) (md_buf (md5_blocks p s)) = left"
proof -
  have l: "length left = length p mod 64" using md5_loop_left [of "md_abcd s" p] assms(2) by simp
  then have "length left \<le> 64" by simp
  then show "md_abcd (md5_blocks p s) = h" "md_count (md5_blocks p s) = md_count s"
    "length (md_buf (md5_blocks p s)) = 64"
    "take (length p mod 64) (md_buf (md5_blocks p s)) = left"
    using assms l by (auto simp: md5_blocks_def poke_0)
qed

lemma md5_append_holds:
  assumes "md5_holds s m"
  shows "md5_holds (md5_append s d) (m @ d)"
proof (cases "d = []")
  case True
  then show ?thesis using assms by (simp add: md5_append_def)
next
  case False
  let ?off = "length m mod 64" and ?n = "length d"
  define r where "r = take ?off (md_buf s)"
  have s: "counts (md_count s) (length m)" "length (md_buf s) = 64" "md5_loop md5_start m = (md_abcd s, r)"
    using assms by (simp_all add: md5_holds_def r_def)
  have off: "unat (drop_bit 3 (fst (md_count s)) AND 63) = ?off" by (rule counts_offset(1) [OF s(1)])
  have r: "length r = ?off" using md5_loop_left [of md5_start m] s(3) by simp
  have loop: "md5_loop md5_start (m @ d) = md5_loop (md_abcd s) (r @ d)"
    by (subst md5_loop_append) (simp add: s(3))
  have cnt: "counts (md5_count (int ?n) (md_count s)) (length (m @ d))"
    using counts_add [OF s(1)] by simp
  let ?s1 = "s\<lparr>md_count := md5_count (int ?n) (md_count s)\<rparr>"
  consider "?off = 0" | "?off \<noteq> 0" "?off + ?n < 64" | "?off \<noteq> 0" "64 \<le> ?off + ?n" by linarith
  then show ?thesis
  proof cases
    case 1
    obtain h left where hl: "md5_loop (md_abcd s) d = (h, left)" by (rule prod.exhaust)
    have "(length m + ?n) mod 64 = ?n mod 64" using 1 mod_add_left_eq [of "length m" 64 ?n] by simp
    then show ?thesis
      using md5_blocks_eq [of ?s1 d h left] s(2) hl cnt loop r 1 False
      by (simp add: md5_append_def off md5_holds_def Let_def)
  next
    case 2
    have "(length m + ?n) mod 64 = ?off + ?n"
      using 2(2) mod_add_left_eq [of "length m" 64 ?n] by simp
    moreover have "md5_loop (md_abcd s) (r @ d) = (md_abcd s, r @ d)"
      using 2(2) r by (intro md5_loop_short) simp
    ultimately show ?thesis
      using 2 s(2) cnt loop r False by (simp add: md5_append_def off md5_holds_def poke_def r_def Let_def)
  next
    case 3
    define copy where "copy = 64 - ?off"
    have copy: "(if ?off + ?n > 64 then 64 - ?off else ?n) = copy" "copy \<le> ?n" "?off + copy = 64"
      using 3 by (auto simp: copy_def)
    define b where "b = r @ take copy d"
    let ?s2 = "?s1\<lparr>md_buf := b, md_abcd := md5_process b (md_abcd s)\<rparr>"
    have b: "poke ?off (take copy d) (md_buf s) = b" "length b = 64"
      using copy s(2) r by (simp_all add: poke_def b_def r_def min_def)
    obtain h left where hl: "md5_loop (md5_process b (md_abcd s)) (drop copy d) = (h, left)" by (rule prod.exhaust)
    have "r @ d = b @ drop copy d" by (simp add: b_def)
    then have "md5_loop md5_start (m @ d) = (h, left)"
      using loop hl by (simp only: md5_loop_block [OF b(2)])
    moreover have "(length m + ?n) mod 64 = length (drop copy d) mod 64"
    proof -
      have "?off + ?n = 64 + length (drop copy d)" using copy by simp
      then show ?thesis using mod_add_left_eq [of "length m" 64 ?n] by simp
    qed
    moreover have "md5_append s d = md5_blocks (drop copy d) ?s2"
      using 3 False copy b by (simp add: md5_append_def off Let_def)
    ultimately show ?thesis
      using md5_blocks_eq [of ?s2 "drop copy d" h left] hl b cnt by (simp add: md5_holds_def)
  qed
qed

lemma md5_finish_spec:
  assumes "md5_holds s m"
  shows "md5_finish s = md5_spec m"
proof -
  let ?z = "(119 - length m mod 64) mod 64"
  have c: "counts (md_count s) (length m)" using assms by (simp add: md5_holds_def)
  have n: "unat ((55 - drop_bit 3 (fst (md_count s))) AND 63) = ?z" by (rule counts_offset(2) [OF c])
  have "?z \<le> 63" by (simp add: less_Suc_eq_le [symmetric])
  then have pad: "take (?z + 1) (0x80 # replicate 63 0) = 0x80 # replicate ?z (0 :: byte)"
    by (simp add: min_def)
  let ?data = "le_bytes (fst (md_count s)) @ le_bytes (snd (md_count s))"
  let ?t = "md5_append (md5_append s (0x80 # replicate ?z 0)) ?data"
  have "md5_holds ?t ((m @ 0x80 # replicate ?z 0) @ ?data)"
    by (intro md5_append_holds assms)
  moreover have "(m @ 0x80 # replicate ?z 0) @ ?data = md5_padded m"
    using c by (simp add: md5_padded_def counts_def)
  ultimately have "fst (md5_loop md5_start (md5_padded m)) = md_abcd ?t" by (simp add: md5_holds_def)
  then show ?thesis by (simp add: md5_finish_def n pad md5_spec_def Let_def)
qed

lemma md5_init_holds: "md5_holds md5_init []"
  by (simp add: md5_holds_def md5_init_def counts_def md5_loop_short)

interpretation md5: streaming_hash md5_init md5_append md5_finish md5_holds md5_spec
  by unfold_locales (simp_all add: md5_init_holds md5_append_holds md5_finish_spec)

text \<open>
  C16: However a message is cut into the pieces that are appended one after the other, the digest
  is the hash RFC 1321 defines of the whole message.
\<close>

theorem md5_of_pieces: "md5_finish (foldl md5_append md5_init ds) = md5_spec (concat ds)"
  by (rule md5.chunks)

text \<open>
  Padding is always to a whole number of blocks, and adds at least the marker and the
  length: at least 9 and at most 72 bytes.
\<close>

theorem md5_padded_blocks:
  "length (md5_padded m) mod 64 = 0 \<and> length m + 9 \<le> length (md5_padded m) \<and>
   length (md5_padded m) \<le> length m + 72"
proof -
  define q r where "q = length m div 64" and "r = length m mod 64"
  have l: "length m = 64 * q + r" "r < 64" by (simp_all add: q_def r_def)
  have "length (md5_padded m) = length m + 9 + (119 - r) mod 64"
    by (simp add: md5_padded_def le_bytes_def r_def)
  with l pad_count [of r] show ?thesis by (cases "r \<le> 55") simp_all
qed

text \<open>The digests of two messages from the test suite of RFC 1321.\<close>

theorem md5_test_vectors:
  "md5_finish md5_init =
     [0xd4, 0x1d, 0x8c, 0xd9, 0x8f, 0x00, 0xb2, 0x04, 0xe9, 0x80, 0x09, 0x98, 0xec, 0xf8, 0x42, 0x7e] \<and>
   md5_finish (md5_append md5_init [0x61, 0x62, 0x63]) =
     [0x90, 0x01, 0x50, 0x98, 0x3c, 0xd2, 0x4f, 0xb0, 0xd6, 0x96, 0x3f, 0x7d, 0x28, 0xe1, 0x7f, 0x72]"
  by code_simp

end
