(* ===== verification/Pcnet.thy ===== *)
theory Pcnet
  imports DriverKit Md5
begin

text \<open>
  The driver for the PowerChute Network Shutdown protocol (\<open>src/drivers/pcnet/pcnet.c\<close>). The
  management card broadcasts datagrams of lines \<open>key=value\<close>; with a user and a passphrase they
  are authenticated by an MD5 over the text before \<open>MD=\<close>, and two counters protect against
  replay.

  The datagrams come from the script \<open>pn_events\<close>, one entry for each outcome of \<open>select\<close> and
  \<open>recvfrom\<close> (whose retries on a signal are not visible). \<open>gettimeofday\<close> reads the clock
  \<open>pn_usec\<close>, in microseconds. The TCP connection of \<open>kill_power\<close> is the script \<open>pn_http\<close>.
\<close>

unbundle bit_operations_syntax

subsection \<open>State\<close>

datatype pcnet_event =
    PcIdle                \<comment> \<open>\<open>select\<close> timed out\<close>
  | PcIntr                \<comment> \<open>\<open>select\<close> was interrupted\<close>
  | PcSelectError
  | PcRecvError
  | PcPacket string

record pcnet_http =
  ht_socket :: bool
  ht_connect :: bool
  ht_send1 :: bool
  ht_recv :: "string option list"   \<comment> \<open>what \<open>recv\<close> finds; \<open>None\<close> is an error\<close>
  ht_send2 :: bool

record pcnet_drv =
  pn_ipaddr :: string
  pn_user :: string
  pn_pass :: string
  pn_auth :: bool
  pn_uptime :: nat
  pn_reboots :: nat
  pn_datatime :: int
  pn_secs :: bool                   \<comment> \<open>\<open>_runtimeInSeconds\<close>\<close>
  pn_open :: bool                   \<comment> \<open>\<open>_fd\<close> is a socket\<close>
  pn_port :: nat                    \<comment> \<open>the port it is bound to\<close>
  pn_sent :: "string list"          \<comment> \<open>the HTTP requests sent\<close>
  pn_socket_ok :: bool
  pn_bind_ok :: bool
  pn_events :: "pcnet_event list"
  pn_usec :: "nat \<Rightarrow> int"
  pn_usec_pos :: nat
  pn_http :: pcnet_http

definition new_pcnet :: pcnet_drv where
  "new_pcnet = \<lparr>pn_ipaddr = [], pn_user = [], pn_pass = [], pn_auth = False, pn_uptime = 0,
     pn_reboots = 0, pn_datatime = 0, pn_secs = False, pn_open = False, pn_port = 0, pn_sent = [],
     pn_socket_ok = True, pn_bind_ok = True, pn_events = [], pn_usec = (\<lambda>n. int n), pn_usec_pos = 0,
     pn_http = \<lparr>ht_socket = True, ht_connect = True, ht_send1 = True, ht_recv = [], ht_send2 = True\<rparr>\<rparr>"

subsection \<open>The data of a packet\<close>

definition pcnet_testresult :: "string \<Rightarrow> SelfTestResult" where
  "pcnet_testresult str =
     (if is_prefix ''OK'' str then TEST_PASSED
      else if is_prefix ''BT'' str then TEST_FAILCAP
      else if is_prefix ''NG'' str then TEST_FAILLOAD
      else TEST_NONE)"

definition pcnet_lastxfer :: "string \<Rightarrow> LastXferCause" where
  "pcnet_lastxfer str =
     (case str of
        [] \<Rightarrow> XFER_UNKNOWN
      | c # _ \<Rightarrow>
          if c = CHR ''N'' then XFER_NA
          else if c = CHR ''R'' then XFER_RIPPLE
          else if c = CHR ''H'' then XFER_OVERVOLT
          else if c = CHR ''L'' then XFER_UNDERVOLT
          else if c = CHR ''T'' then XFER_NOTCHSPIKE
          else if c = CHR ''O'' then XFER_NONE
          else if c = CHR ''K'' then XFER_FORCED
          else if c = CHR ''S'' then XFER_SELFTEST
          else XFER_UNKNOWN)"

abbreviation hex_uint :: "string \<Rightarrow> nat" where
  "hex_uint v \<equiv> strtoul 16 v mod 2 ^ 32"

text \<open>The \<open>switch\<close> over the command index: what each case assigns.\<close>

definition pcnet_cases :: "bool \<Rightarrow> (nat \<times> (string \<Rightarrow> upsinfo \<Rightarrow> upsinfo)) list" where
  "pcnet_cases secs =
     [(CI_STATUS, \<lambda>v u. u\<lparr>Status := (Status u AND NOT 0xFF) OR (of_nat (strtoul 16 v) AND 0xFF)\<rparr>),
      (CI_LQUAL, \<lambda>v u. u\<lparr>linequal := strlcpy_to 8 v\<rparr>),
      (CI_WHY_BATT, \<lambda>v u. u\<lparr>lastxfer := pcnet_lastxfer v\<rparr>),
      (CI_ST_STAT, \<lambda>v u. u\<lparr>testresult := pcnet_testresult v\<rparr>),
      (CI_VLINE, \<lambda>v u. u\<lparr>LineVoltage := atof v\<rparr>),
      (CI_VMIN, \<lambda>v u. u\<lparr>LineMin := atof v\<rparr>),
      (CI_VMAX, \<lambda>v u. u\<lparr>LineMax := atof v\<rparr>),
      (CI_VOUT, \<lambda>v u. u\<lparr>OutputVoltage := atof v\<rparr>),
      (CI_BATTLEV, \<lambda>v u. u\<lparr>BattChg := atof v\<rparr>),
      (CI_VBATT, \<lambda>v u. u\<lparr>BattVoltage := atof v\<rparr>),
      (CI_LOAD, \<lambda>v u. u\<lparr>UPSLoad := atof v\<rparr>),
      (CI_FREQ, \<lambda>v u. u\<lparr>LineFreq := atof v\<rparr>),
      (CI_RUNTIM, \<lambda>v u. u\<lparr>TimeLeft := if secs then atof v / 60 else atof v\<rparr>),
      (CI_ITEMP, \<lambda>v u. u\<lparr>UPSTemp := atof v\<rparr>),
      (CI_DIPSW, \<lambda>v u. u\<lparr>dipsw := hex_uint v\<rparr>),
      (CI_REG1, \<lambda>v u. u\<lparr>reg1 := hex_uint v\<rparr>),
      (CI_REG2, \<lambda>v u. (if bit (hex_uint v) 5 then clear_battpresent else set_battpresent)
                        (u\<lparr>reg2 := hex_uint v\<rparr>)),
      (CI_REG3, \<lambda>v u. u\<lparr>reg3 := hex_uint v\<rparr>),
      (CI_HUMID, \<lambda>v u. u\<lparr>humidity := atof v\<rparr>),
      (CI_ATEMP, \<lambda>v u. u\<lparr>ambtemp := atof v\<rparr>),
      (CI_ST_TIME, \<lambda>v u. u\<lparr>LastSTTime := atof v\<rparr>),
      (CI_SENS, \<lambda>v u. u\<lparr>sensitivity := strlcpy_to 8 v\<rparr>),
      (CI_DWAKE, \<lambda>v u. u\<lparr>dwake := trunc (atof v)\<rparr>),
      (CI_DSHUTD, \<lambda>v u. u\<lparr>dshutd := trunc (atof v)\<rparr>),
      (CI_LTRANS, \<lambda>v u. u\<lparr>lotrans := trunc (atof v)\<rparr>),
      (CI_HTRANS, \<lambda>v u. u\<lparr>hitrans := trunc (atof v)\<rparr>),
      (CI_RETPCT, \<lambda>v u. u\<lparr>rtnpct := trunc (atof v)\<rparr>),
      (CI_DALARM, \<lambda>v u. u\<lparr>beepstate := strlcpy_to 8 v\<rparr>),
      (CI_DLBATT, \<lambda>v u. u\<lparr>dlowbatt := trunc (atof v)\<rparr>),
      (CI_IDEN, \<lambda>v u. if upsname u = [] then u\<lparr>upsname := strlcpy_to 100 v\<rparr> else u),
      (CI_STESTI, \<lambda>v u. u\<lparr>selftest := strlcpy_to 9 v\<rparr>),
      (CI_MANDAT, \<lambda>v u. u\<lparr>birth := strlcpy_to 20 v\<rparr>),
      (CI_SERNO, \<lambda>v u. u\<lparr>serial := strlcpy_to 32 v\<rparr>),
      (CI_BATTDAT, \<lambda>v u. u\<lparr>battdat := strlcpy_to 20 v\<rparr>),
      (CI_NOMOUTV, \<lambda>v u. u\<lparr>NomOutputVoltage := trunc (atof v)\<rparr>),
      (CI_NOMBATTV, \<lambda>v u. u\<lparr>nombattv := atof v\<rparr>),
      (CI_REVNO, \<lambda>v u. u\<lparr>firmrev := strlcpy_to 20 v\<rparr>),
      (CI_EXTBATTS, \<lambda>v u. u\<lparr>extbatts := trunc (atof v)\<rparr>),
      (CI_BADBATTS, \<lambda>v u. u\<lparr>badbatts := trunc (atof v)\<rparr>),
      (CI_UPSMODEL, \<lambda>v u. u\<lparr>upsmodel := strlcpy_to 256 v\<rparr>),
      (CI_EPROM, \<lambda>v u. u\<lparr>eprom := strlcpy_to 500 v\<rparr>)]"

definition pcnet_shutdown_cmd :: "string \<Rightarrow> upsinfo \<Rightarrow> upsinfo" where
  "pcnet_shutdown_cmd v u =
     (if strtoul 10 v = 0 then clear_shut_remote u
      else if strtoul 10 v = 1 then set_shut_remote u else u)"

fun two_hex_digits :: "string \<Rightarrow> bool" where
  "two_hex_digits (a # b # _) = (isxdigit a \<and> isxdigit b)"
| "two_hex_digits _ = False"

definition pcnet_process_data :: "bool \<Rightarrow> string \<times> string \<Rightarrow> upsinfo \<Rightarrow> bool \<times> upsinfo" where
  "pcnet_process_data secs = (\<lambda>(key, val) u.
     if val = [] then (False, u)
     else if key = ''SD'' then (True, pcnet_shutdown_cmd val u)
     else if \<not> two_hex_digits key then (False, u)
     else case List.find (\<lambda>ci. UPS_Cmd u ci = strtoul 16 key) [0..<CI_MAXCI] of
            None \<Rightarrow> (False, u)
          | Some ci \<Rightarrow>
              let u1 = u\<lparr>UPS_Cap := (UPS_Cap u)(ci := True)\<rparr>
              in case map_of (pcnet_cases secs) ci of
                   None \<Rightarrow> (False, u1)
                 | Some assign \<Rightarrow> (True, assign val u1))"

fun pcnet_process :: "bool \<Rightarrow> (string \<times> string) list \<Rightarrow> upsinfo \<Rightarrow> bool \<times> upsinfo" where
  "pcnet_process secs [] u = (False, u)"
| "pcnet_process secs (p # ps) u =
     (let (done1, u1) = pcnet_process_data secs p u; (done2, u2) = pcnet_process secs ps u1
      in (done1 \<or> done2, u2))"

subsection \<open>Authentication\<close>

definition bytes :: "string \<Rightarrow> byte list" where
  "bytes = map (\<lambda>c. of_nat (char_code c))"

text \<open>\<open>%02x\<close> of each byte, appended to \<open>char ascii[33]\<close>.\<close>

definition hex_byte :: "byte \<Rightarrow> string" where
  "hex_byte b = map tolower (show_hex_pad 2 (unat b))"

definition digest2ascii :: "byte list \<Rightarrow> string" where
  "digest2ascii digest = foldl (\<lambda>ascii b. fst (strlcat ascii (hex_byte b) 33)) [] digest"

definition rtrim :: "string \<Rightarrow> string" where
  "rtrim line = rev (dropWhile isspace (rev line))"

definition not_eol :: "char \<Rightarrow> bool" where
  "not_eol c \<longleftrightarrow> c \<noteq> CR \<and> c \<noteq> NL"

lemma rest_shorter:
  "buf \<noteq> [] \<Longrightarrow> length (dropWhile f (dropWhile g buf)) - Suc 0 < length buf"
proof -
  assume "buf \<noteq> []"
  moreover have "length (dropWhile f (dropWhile g buf)) \<le> length buf"
    using length_dropWhile_le [of f "dropWhile g buf"] length_dropWhile_le [of g buf] by linarith
  ultimately show ?thesis by (cases buf) auto
qed

text \<open>The table of key/value pairs, at most \<open>MAX_PAIRS\<close> of them; \<open>idx\<close> is the next free place.\<close>

function pcnet_pairs :: "nat \<Rightarrow> string \<Rightarrow> (string \<times> string) list" where
  "pcnet_pairs idx buf =
     (if buf = [] \<or> idx \<ge> 256 then []
      else let start = dropWhile isspace buf;
               line = rtrim (takeWhile not_eol start);
               rest = drop 1 (dropWhile not_eol start)
           in case split_at CHR ''='' line of
                None \<Rightarrow> pcnet_pairs idx rest
              | Some (key, val) \<Rightarrow> (key, val) # pcnet_pairs (Suc idx) rest)"
  by pat_completeness auto

termination
  by (relation "measure (\<lambda>(idx, buf). length buf)") (auto intro: rest_shorter)

declare pcnet_pairs.simps [simp del]

definition pcnet_hash :: "pcnet_drv \<Rightarrow> string \<Rightarrow> string" where
  "pcnet_hash d text =
     digest2ascii (md5_finish (md5_append (md5_append (md5_append md5_init (bytes text))
       (bytes (pn_user d))) (bytes (pn_pass d))))"

definition authentic :: "pcnet_drv \<Rightarrow> string \<Rightarrow> (string \<times> string) list \<Rightarrow> bool" where
  "authentic d hash pairs \<longleftrightarrow>
     map_of pairs ''MD'' = Some hash \<and> map_of pairs ''PC'' = Some (pn_ipaddr d)"

definition stale :: "pcnet_drv \<Rightarrow> nat \<Rightarrow> nat \<Rightarrow> bool" where
  "stale d reboots uptime \<longleftrightarrow>
     (reboots = pn_reboots d \<and> uptime \<le> pn_uptime d) \<or> reboots < pn_reboots d"

definition auth_and_map_packet ::
    "string \<Rightarrow> pcnet_drv \<Rightarrow> (string \<times> string) list option \<times> pcnet_drv" where
  "auth_and_map_packet buf d =
     (case strstr buf ''MD='' of
        None \<Rightarrow> (None, d)
      | Some tail \<Rightarrow>
          if tail = buf then (None, d)
          else let hash = pcnet_hash d (take (length buf - length tail) buf);
                   pairs = pcnet_pairs 0 buf
               in if pn_auth d \<and> \<not> authentic d hash pairs then (None, d)
                  else (case (map_of pairs ''SR'', map_of pairs ''SU'') of
                         (Some sr, Some su) \<Rightarrow>
                           let reboots = strtoul 16 sr; uptime = strtoul 16 su
                           in if stale d reboots uptime then (None, d)
                              else (Some pairs, d\<lparr>pn_reboots := reboots, pn_uptime := uptime\<rparr>)
                       | _ \<Rightarrow> (None, d)))"

subsection \<open>Waiting for a packet\<close>

definition usec_now :: "pcnet_drv sys \<Rightarrow> int \<times> pcnet_drv sys" where
  "usec_now s =
     (let d = drv s in (pn_usec d (pn_usec_pos d), upd_drv (\<lambda>d. d\<lparr>pn_usec_pos := Suc (pn_usec_pos d)\<rparr>) s))"

text \<open>One datagram, cut to the 4095 bytes of the buffer: whether any of its data was used.\<close>

definition pcnet_receive :: "string \<Rightarrow> pcnet_drv sys \<Rightarrow> bool \<times> pcnet_drv sys" where
  "pcnet_receive p s =
     (let (m, d) = auth_and_map_packet (c_str (take 4095 p)) (drv s); s1 = upd_drv (\<lambda>_. d) s
      in case m of
           None \<Rightarrow> (False, s1)
         | Some pairs \<Rightarrow>
             let s2 = write_lock s1; (done, u) = pcnet_process (pn_secs d) pairs (ups s2)
             in (done, write_unlock (upd_ups (\<lambda>_. u) s2)))"

text \<open>The loop; a script that has come to its end is a \<open>select\<close> that times out.\<close>

fun wait_loop :: "pcnet_event list \<Rightarrow> int \<Rightarrow> pcnet_drv sys \<Rightarrow> bool \<times> pcnet_drv sys" where
  "wait_loop [] quit s = (False, snd (usec_now s))"
| "wait_loop (e # es) quit s =
     (let (now, s1) = usec_now s; s2 = upd_drv (\<lambda>d. d\<lparr>pn_events := es\<rparr>) s1
      in if now \<ge> quit then (False, s1)
         else case e of
                PcIdle \<Rightarrow> (False, s2)
              | PcIntr \<Rightarrow> wait_loop es quit s2
              | PcSelectError \<Rightarrow> (False, s2)
              | PcRecvError \<Rightarrow> (False, s2)
              | PcPacket p \<Rightarrow>
                  let (done, s3) = pcnet_receive p s2
                  in if done then (True, s3) else wait_loop es quit s3)"

definition wait_for_data :: "int \<Rightarrow> pcnet_drv sys \<Rightarrow> bool \<times> pcnet_drv sys" where
  "wait_for_data secs s =
     (let (now, s1) = usec_now s;
          (done, s2) = wait_loop (pn_events (drv s1)) (now + secs * 1000000) s1
      in if done
         then let (t, s3) = time_now s2 in (True, upd_drv (\<lambda>d. d\<lparr>pn_datatime := t\<rparr>) s3)
         else (False, s2))"

subsection \<open>The methods of the driver\<close>

abbreviation (input) COMMLOST_TIMEOUT :: int where "COMMLOST_TIMEOUT \<equiv> 55"
abbreviation (input) PCNET_DEFAULT_PORT :: nat where "PCNET_DEFAULT_PORT \<equiv> 3052"

definition pcnet_check_state :: "pcnet_drv sys \<Rightarrow> bool \<times> pcnet_drv sys" where
  "pcnet_check_state s = wait_for_data (wait_time (ups s)) s"

text \<open>\<open>ip:user:pass\<close> with an optional \<open>:port\<close>.\<close>

definition pcnet_parse_device :: "string \<Rightarrow> (string \<times> string \<times> string \<times> nat) option" where
  "pcnet_parse_device dev =
     (case split_at CHR '':'' dev of
        None \<Rightarrow> None
      | Some (ip, r1) \<Rightarrow>
          (case split_at CHR '':'' r1 of
             None \<Rightarrow> None
           | Some (user, r2) \<Rightarrow>
               if r2 = [] then None
               else (case split_at CHR '':'' r2 of
                       None \<Rightarrow> Some (ip, user, r2, PCNET_DEFAULT_PORT)
                     | Some (pass, p) \<Rightarrow>
                         let port = nat (atoi p mod 65536)
                         in Some (ip, user, pass, if port = 0 then PCNET_DEFAULT_PORT else port))))"

definition pcnet_bind :: "nat \<Rightarrow> pcnet_drv sys \<Rightarrow> bool \<times> pcnet_drv sys" where
  "pcnet_bind port s =
     (if \<not> pn_socket_ok (drv s) then (False, error_abort (''Cannot create socket'' @ [NL]) s)
      else if \<not> pn_bind_ok (drv s) then (False, error_abort (''Cannot bind socket'' @ [NL]) s)
      else let (t, s1) = time_now (upd_drv (\<lambda>d. d\<lparr>pn_open := True, pn_port := port\<rparr>) s)
           in (True, write_unlock (upd_ups (\<lambda>u. u\<lparr>fd := 1\<rparr>)
                       (upd_drv (\<lambda>d. d\<lparr>pn_datatime := t\<rparr>) s1))))"

definition pcnet_open_driver :: "pcnet_drv sys \<Rightarrow> bool \<times> pcnet_drv sys" where
  "pcnet_open_driver s =
     (let s1 = write_lock s
      in if device (ups s1) = [] then pcnet_bind PCNET_DEFAULT_PORT s1
         else case pcnet_parse_device (strlcpy_to 256 (device (ups s1))) of
                None \<Rightarrow> (False, error_abort (''Malformed DEVICE [ip:user:pass]'' @ [NL]) s1)
              | Some (ip, user, pass, port) \<Rightarrow>
                  pcnet_bind port (upd_drv (\<lambda>d. d\<lparr>pn_auth := True, pn_ipaddr := ip, pn_user := user,
                                                  pn_pass := pass\<rparr>) s1))"

definition pcnet_close_driver :: "pcnet_drv sys \<Rightarrow> bool \<times> pcnet_drv sys" where
  "pcnet_close_driver s =
     (True, write_unlock (upd_drv (\<lambda>d. d\<lparr>pn_open := False\<rparr>) (write_lock s)))"

definition pcnet_get_capabilities :: "pcnet_drv sys \<Rightarrow> bool \<times> pcnet_drv sys" where
  "pcnet_get_capabilities s =
     (let s1 = snd (wait_for_data COMMLOST_TIMEOUT s) in (UPS_Cap (ups s1) CI_STATUS, s1))"

definition pcnet_read_static_data :: "pcnet_drv sys \<Rightarrow> bool \<times> pcnet_drv sys" where
  "pcnet_read_static_data s = (True, s)"

definition pcnet_read_volatile_data :: "pcnet_drv sys \<Rightarrow> bool \<times> pcnet_drv sys" where
  "pcnet_read_volatile_data s =
     (let (now, s1) = time_now s; diff = now - pn_datatime (drv s1)
      in (True,
          if is_commlost (ups s1)
          then (if diff < COMMLOST_TIMEOUT
                then upd_ups clear_commlost (plain_event CMDCOMMOK s1) else s1)
          else (if diff \<ge> COMMLOST_TIMEOUT
                then upd_ups set_commlost (plain_event CMDCOMMFAILURE s1) else s1)))"

definition pcnet_entry_point :: "devcmd \<Rightarrow> pcnet_drv sys \<Rightarrow> bool \<times> pcnet_drv sys" where
  "pcnet_entry_point cmd s =
     (case cmd of
        DEVICE_CMD_CHECK_SELFTEST \<Rightarrow>
          (False,
           if UPS_Cap (ups s) CI_WHY_BATT \<and> lastxfer (ups s) = XFER_SELFTEST
           then let (t, s1) = time_now s in upd_ups (\<lambda>u. u\<lparr>SelfTest := t\<rparr>) s1
           else s)
      | DEVICE_CMD_GET_SELFTEST_MSG \<Rightarrow>
          (False, write_lock (snd (wait_for_data 12 (write_unlock s))))
      | _ \<Rightarrow> (True, s))"

subsection \<open>kill_power\<close>

abbreviation CRLF :: string where "CRLF \<equiv> [CR, NL]"

text \<open>The loop over \<open>recv\<close> into \<open>char data[1024]\<close>; it ends with the last chunk of the answer.\<close>

fun kill_recv :: "string option list \<Rightarrow> string \<Rightarrow> string option" where
  "kill_recv [] data = Some data"
| "kill_recv (e # es) data =
     (if length data = 1023 then Some data
      else case e of
             None \<Rightarrow> None
           | Some chunk \<Rightarrow>
               let got = take (1023 - length data) chunk; data' = data @ got
               in if got = [] \<or> strstr (c_str data') (CRLF @ ''0'' @ CRLF) \<noteq> None then Some data'
                  else kill_recv es data')"

definition kill_get :: "string \<Rightarrow> string" where
  "kill_get ip = take 1023 (''GET /macontrol.htm HTTP/1.1'' @ CRLF @ ''Host: '' @ ip @ CRLF @ CRLF)"

definition kill_body :: "string \<Rightarrow> string" where
  "kill_body hash = ''macontrol1%5fcontrol%5fshutdown%5f1=1%2C'' @ hash"

definition kill_post :: "string \<Rightarrow> string \<Rightarrow> string" where
  "kill_post ip hash = take 1023
     (''POST /Forms/macontrol1 HTTP/1.1'' @ CRLF @ ''Host: '' @ ip @ CRLF @
      ''Content-Type: application/x-www-form-urlencoded'' @ CRLF @ ''Content-Length: 72'' @ CRLF @ CRLF @
      kill_body hash)"

definition kill_hash :: "pcnet_drv \<Rightarrow> string \<Rightarrow> string" where
  "kill_hash d cs = digest2ascii (md5_finish (foldl md5_append md5_init
     [take 32 (bytes ''macontrol1_control_shutdown_1=1,''), bytes cs, bytes (pn_user d),
      bytes (pn_pass d)]))"

text \<open>The answer of the card: authenticated from \<open><html>\<close> on, it holds the challenge \<open>CS\<close>.\<close>

definition kill_challenge :: "string \<Rightarrow> pcnet_drv \<Rightarrow> string option \<times> pcnet_drv" where
  "kill_challenge data d =
     (case strstr (c_str data) ''<html>'' of
        None \<Rightarrow> (None, d)
      | Some start \<Rightarrow>
          let (m, d') = auth_and_map_packet start d
          in ((case m of None \<Rightarrow> None | Some pairs \<Rightarrow> map_of pairs ''CS''), d'))"

definition no_auth_msg :: string where
  "no_auth_msg = ''Cannot perform killpower without authentication data. '' @
     ''Please set ip:user:pass for DEVICE in apcupsd.conf.'' @ [NL]"

definition pcnet_kill_power :: "pcnet_drv sys \<Rightarrow> bool \<times> pcnet_drv sys" where
  "pcnet_kill_power s =
     (let d = drv s; h = pn_http d
      in if \<not> pn_auth d then (False, error_abort no_auth_msg s)
         else if \<not> ht_socket h \<or> \<not> ht_connect h \<or> \<not> ht_send1 h then (False, s)
         else let s1 = upd_drv (\<lambda>d. d\<lparr>pn_sent := pn_sent d @ [kill_get (pn_ipaddr d)]\<rparr>) s
              in case kill_recv (ht_recv h) [] of
                   None \<Rightarrow> (False, s1)
                 | Some data \<Rightarrow>
                     let (cs, d2) = kill_challenge data (drv s1); s2 = upd_drv (\<lambda>_. d2) s1
                     in (case cs of
                           None \<Rightarrow> (False, s2)
                         | Some c \<Rightarrow>
                             if ht_send2 h
                             then (True, upd_drv (\<lambda>d. d\<lparr>pn_sent := pn_sent d @
                                                     [kill_post (pn_ipaddr d) (kill_hash d c)]\<rparr>) s2)
                             else (False, s2)))"

definition pcnet_driver :: "pcnet_drv driver" where
  "pcnet_driver = \<lparr>
     drv_open = pcnet_open_driver, drv_close = pcnet_close_driver,
     drv_read_static_data = pcnet_read_static_data,
     drv_read_volatile_data = pcnet_read_volatile_data,
     drv_get_capabilities = pcnet_get_capabilities, drv_check_state = pcnet_check_state,
     drv_setup = default_setup, drv_kill_power = pcnet_kill_power,
     drv_shutdown = default_shutdown, drv_entry_point = pcnet_entry_point\<rparr>"

subsection \<open>The driver keeps the contract\<close>

lemma bit_apc_byte: "bit (0xFF :: 32 word) n \<longleftrightarrow> n < 8"
proof -
  have ff: "(0xFF :: 32 word) = mask 8" by (simp add: mask_eq_exp_minus_1)
  show ?thesis unfolding ff bit_mask_iff by auto
qed

lemma pcnet_cases_shutdown:
  "(ci, f) \<in> set (pcnet_cases secs) \<Longrightarrow> is_shutdown (f v u) = is_shutdown u"
  by (auto simp: pcnet_cases_def shutdown_bit bit_or_iff bit_and_iff bit_not_iff bit_apc_byte
      set_bits clear_bits split: if_splits)

lemma pcnet_process_data_shutdown:
  "is_shutdown (snd (pcnet_process_data secs p u)) = is_shutdown u"
proof -
  have "is_shutdown (pcnet_shutdown_cmd v u) = is_shutdown u" for v
    by (simp add: pcnet_shutdown_cmd_def shutdown_bit set_bits clear_bits)
  then show ?thesis
    by (auto simp: pcnet_process_data_def Let_def split_beta shutdown_bit
        dest!: map_of_SomeD pcnet_cases_shutdown [of _ _ _ _ "u\<lparr>UPS_Cap := _\<rparr>"]
        split: option.split)
qed

lemma pcnet_process_shutdown: "is_shutdown (snd (pcnet_process secs ps u)) = is_shutdown u"
  by (induction ps arbitrary: u) (simp_all add: split_beta Let_def pcnet_process_data_shutdown)

lemma usec_now_quiet: "quiet s (snd (usec_now s))"
  by (simp add: usec_now_def Let_def quiet_def)

lemma pcnet_receive_quiet: "quiet s (snd (pcnet_receive p s))"
  by (auto simp: pcnet_receive_def Let_def split_beta quiet_upd_drv pcnet_process_shutdown
      intro!: quiet_trans [OF quiet_upd_drv quiet_locked] quiet_upd_ups split: option.split)

lemma wait_loop_quiet: "quiet s (snd (wait_loop es quit s))"
proof (induction es arbitrary: s)
  case (Cons e es)
  note q1 = usec_now_quiet [of s]
  note q2 = quiet_trans [OF q1 quiet_upd_drv]
  note q3 = quiet_trans [OF q2 pcnet_receive_quiet]
  show ?case
    by (auto simp: Let_def split_beta q1 q2 q3 split: pcnet_event.split
        intro: quiet_trans [OF q2 Cons.IH] quiet_trans [OF q3 Cons.IH])
qed (simp add: usec_now_quiet)

lemma wait_for_data_quiet: "quiet s (snd (wait_for_data n s))"
  using quiet_trans [OF usec_now_quiet wait_loop_quiet]
  by (auto simp: wait_for_data_def Let_def split_beta
      intro!: quiet_trans [OF _ quiet_upd_drv] quiet_trans [OF _ quiet_time_now])

lemma is_shutdown_fd [simp]: "is_shutdown (u\<lparr>fd := x\<rparr>) = is_shutdown u"
  by (simp add: shutdown_bit)

lemma pcnet_bind_quiet: "quiet (write_lock s) t \<Longrightarrow> quiet s (snd (pcnet_bind port t))"
  by (auto simp: pcnet_bind_def Let_def split_beta time_now_def error_abort_def quiet_def
      write_lock_def write_unlock_def shutdown_count_def emit_def)

lemma pcnet_open_quiet: "quiet s (snd (pcnet_open_driver s))"
  by (auto simp: pcnet_open_driver_def Let_def intro!: pcnet_bind_quiet quiet_upd_drv
      split: option.split)
    (simp add: error_abort_def quiet_def write_lock_def shutdown_count_def emit_def)

lemma pcnet_kill_quiet: "quiet s (snd (pcnet_kill_power s))"
  by (auto simp: pcnet_kill_power_def Let_def split_beta quiet_exit split: option.split
      intro!: quiet_trans [OF _ quiet_upd_drv])

lemma pcnet_entry_point_quiet: "quiet s (snd (pcnet_entry_point cmd s))"
  using wait_for_data_quiet [of "write_unlock s" 12]
  by (auto simp: pcnet_entry_point_def Let_def split_beta quiet_unlocked split: devcmd.split
      intro!: quiet_upd_same_Status quiet_time_now)

lemma pcnet_read_volatile_quiet: "quiet s (snd (pcnet_read_volatile_data s))"
proof -
  note event = quiet_trans [OF quiet_time_now plain_event_quiet]
  have "quiet s (upd_ups clear_commlost (plain_event CMDCOMMOK (snd (time_now s))))"
    "quiet s (upd_ups set_commlost (plain_event CMDCOMMFAILURE (snd (time_now s))))"
    by (rule quiet_trans [OF event quiet_upd_ups]; simp add: shutdown_bit set_bits clear_bits)+
  then show ?thesis
    by (simp add: pcnet_read_volatile_data_def Let_def split_beta quiet_time_now)
qed

interpretation pcnet: ups_driver pcnet_driver
proof
  fix f :: "pcnet_drv sys \<Rightarrow> bool \<times> pcnet_drv sys" and s
  assume "f \<in> driver_ops pcnet_driver"
  then show "quiet s (snd (f s))"
    by (auto simp: driver_ops_def pcnet_driver_def pcnet_open_quiet pcnet_close_driver_def
        pcnet_read_static_data_def pcnet_read_volatile_quiet pcnet_get_capabilities_def Let_def
        wait_for_data_quiet pcnet_check_state_def default_setup_def pcnet_kill_quiet
        default_shutdown_def pcnet_entry_point_quiet intro!: quiet_locked quiet_upd_drv)
qed

subsection \<open>Packets\<close>

lemma auth_and_map_packet_Some:
  assumes "auth_and_map_packet p d = (Some pairs, d')"
  obtains pre tail sr su where "strstr p ''MD='' = Some tail" "p = pre @ tail" "pre \<noteq> []"
    "pairs = pcnet_pairs 0 p" "pn_auth d \<longrightarrow> authentic d (pcnet_hash d pre) pairs"
    "map_of pairs ''SR'' = Some sr" "map_of pairs ''SU'' = Some su"
    "\<not> stale d (strtoul 16 sr) (strtoul 16 su)"
    "d' = d\<lparr>pn_reboots := strtoul 16 sr, pn_uptime := strtoul 16 su\<rparr>"
proof -
  obtain tail where tail: "strstr p ''MD='' = Some tail" "tail \<noteq> p"
    using assms by (auto simp: auth_and_map_packet_def split: option.splits if_splits)
  obtain pre where pre: "p = pre @ tail" using strstr_suffix [OF tail(1)] by blast
  then have "take (length p - length tail) p = pre" "pre \<noteq> []" using tail(2) by auto
  then show thesis
    using assms tail pre that
    by (auto simp: auth_and_map_packet_def Let_def split: option.splits if_splits)
qed

text \<open>The counters only grow, in the order of the pair.\<close>

definition later :: "pcnet_drv \<Rightarrow> pcnet_drv \<Rightarrow> bool" where
  "later d e \<longleftrightarrow> pn_reboots d < pn_reboots e \<or> pn_reboots d = pn_reboots e \<and> pn_uptime d \<le> pn_uptime e"

lemma later_packet: "later d (snd (auth_and_map_packet p d))"
  by (auto simp: auth_and_map_packet_def later_def stale_def Let_def split: option.split)

lemma later_packets: "later d (fold (\<lambda>q d. snd (auth_and_map_packet q d)) qs d)"
proof (induction qs arbitrary: d)
  case (Cons q qs)
  show ?case using later_packet [of d q] Cons.IH [of "snd (auth_and_map_packet q d)"]
    by (auto simp: later_def)
qed (simp add: later_def)

subsection \<open>Lines\<close>

lemma pcnet_pairs_end: "pcnet_pairs i [] = []"
  by (simp add: pcnet_pairs.simps)

lemma pcnet_pairs_line:
  "i < 256 \<Longrightarrow> buf \<noteq> [] \<Longrightarrow> dropWhile isspace buf = start \<Longrightarrow>
   pcnet_pairs i buf =
     (case split_at CHR ''='' (rtrim (takeWhile not_eol start)) of
        None \<Rightarrow> pcnet_pairs i (drop (Suc 0) (dropWhile not_eol start))
      | Some (key, val) \<Rightarrow> (key, val) # pcnet_pairs (Suc i) (drop (Suc 0) (dropWhile not_eol start)))"
  by (subst pcnet_pairs.simps) (simp add: Let_def)

lemma pcnet_pairs_space:
  assumes "\<forall>c\<in>set w. isspace c"
  shows "pcnet_pairs i (w @ b) = pcnet_pairs i b"
proof -
  have start: "dropWhile isspace (w @ b) = dropWhile isspace b"
    using assms by (simp add: dropWhile_append2)
  consider "256 \<le> i" | "w = []" | "i < 256" "w \<noteq> []" "b = []" | "i < 256" "b \<noteq> []" by force
  then show ?thesis
  proof cases
    case 1
    then show ?thesis by (simp add: pcnet_pairs.simps)
  next
    case 3
    then show ?thesis
      using pcnet_pairs_line [of i "w @ b" "[]"] start by (simp add: rtrim_def pcnet_pairs_end)
  next
    case 4
    then show ?thesis
      using pcnet_pairs_line [of i "w @ b"] pcnet_pairs_line [of i b] start by simp
  qed simp
qed

lemma pcnet_pairs_append:
  "pcnet_pairs i (a @ NL # b) = pcnet_pairs i a @ pcnet_pairs (i + length (pcnet_pairs i a)) b"
proof (induction i a rule: pcnet_pairs.induct)
  case (1 i a)
  have nl: "pcnet_pairs i (NL # b) = pcnet_pairs i b"
    using pcnet_pairs_space [of "[NL]" i b] by (simp add: isspace_def)
  let ?s = "dropWhile isspace a"
  consider "256 \<le> i" | "i < 256" "?s = []" | "i < 256" "?s \<noteq> []" by linarith
  then show ?case
  proof cases
    case 1
    then show ?thesis by (simp add: pcnet_pairs.simps)
  next
    case 2
    then have "\<forall>c\<in>set a. isspace c" by (simp add: dropWhile_eq_Nil_conv)
    then have "pcnet_pairs i a = []" "pcnet_pairs i (a @ NL # b) = pcnet_pairs i b"
      using pcnet_pairs_space [of a i "[]"] pcnet_pairs_space [of a i "NL # b"] nl
      by (simp_all add: pcnet_pairs_end)
    then show ?thesis by simp
  next
    case 3
    then have a: "a \<noteq> []" by auto
    obtain x where x: "x \<in> set a" "\<not> isspace x" using 3(2) by (auto simp: dropWhile_eq_Nil_conv)
    then have start: "dropWhile isspace (a @ NL # b) = ?s @ NL # b" by (rule dropWhile_append1)
    note whole = pcnet_pairs_line [OF 3(1) _ start] and first = pcnet_pairs_line [OF 3(1) a refl]
    show ?thesis
    proof (cases "\<forall>c\<in>set ?s. not_eol c")
      case True
      then have nl: "takeWhile not_eol (?s @ NL # b) = ?s"
          "drop (Suc 0) (dropWhile not_eol (?s @ NL # b)) = b"
        and eol: "takeWhile not_eol ?s = ?s" "dropWhile not_eol ?s = []"
        by (simp_all add: takeWhile_append2 dropWhile_append2 not_eol_def)
      have "pcnet_pairs i (a @ NL # b) = (case split_at CHR ''='' (rtrim ?s) of
          None \<Rightarrow> pcnet_pairs i b | Some (key, val) \<Rightarrow> (key, val) # pcnet_pairs (Suc i) b)"
        using whole unfolding nl by simp
      moreover have "pcnet_pairs i a = (case split_at CHR ''='' (rtrim ?s) of
          None \<Rightarrow> [] | Some (key, val) \<Rightarrow> [(key, val)])"
        using first unfolding eol drop_Nil pcnet_pairs_end .
      ultimately show ?thesis by (auto split: option.split)
    next
      case False
      then obtain y where y: "y \<in> set ?s" "\<not> not_eol y" "dropWhile not_eol ?s \<noteq> []"
        by (auto simp: dropWhile_eq_Nil_conv)
      then have line: "takeWhile not_eol (?s @ NL # b) = takeWhile not_eol ?s"
        "drop (Suc 0) (dropWhile not_eol (?s @ NL # b)) = drop (Suc 0) (dropWhile not_eol ?s) @ NL # b"
        using y(3) by (simp_all add: takeWhile_append1 [where x = y] dropWhile_append1 [where x = y]
          y(1,2)) (cases "dropWhile not_eol ?s"; simp)
      show ?thesis
      proof (cases "split_at CHR ''='' (rtrim (takeWhile not_eol ?s))")
        case None
        then show ?thesis
          using whole first "1.IH"(1) [OF _ refl refl refl None] 3(1) a line by simp
      next
        case (Some kv)
        obtain k v where kv: "kv = (k, v)" by force
        then show ?thesis
          using whole first "1.IH"(2) [OF _ refl refl refl Some kv [symmetric]] 3(1) a line Some by simp
      qed
    qed
  qed
qed

lemma tail_unauthenticated:
  assumes "auth_and_map_packet p d = (Some pairs, d')"
  shows "auth_and_map_packet (p @ NL # extra) d =
    (Some (pairs @ pcnet_pairs (length pairs) extra), d')"
proof -
  obtain pre tail sr su where p: "strstr p ''MD='' = Some tail" "p = pre @ tail" "pre \<noteq> []"
    "pairs = pcnet_pairs 0 p" "pn_auth d \<longrightarrow> authentic d (pcnet_hash d pre) pairs"
    "map_of pairs ''SR'' = Some sr" "map_of pairs ''SU'' = Some su"
    "\<not> stale d (strtoul 16 sr) (strtoul 16 su)"
    "d' = d\<lparr>pn_reboots := strtoul 16 sr, pn_uptime := strtoul 16 su\<rparr>"
    using auth_and_map_packet_Some [OF assms] by metis
  let ?more = "pcnet_pairs (length pairs) extra"
  have "strstr (p @ NL # extra) ''MD='' = Some (tail @ NL # extra)" by (rule strstr_append [OF p(1)])
  moreover have "take (length (p @ NL # extra) - length (tail @ NL # extra)) (p @ NL # extra) = pre"
    by (simp add: p(2))
  moreover have "tail @ NL # extra \<noteq> p @ NL # extra" by (simp add: p(2,3))
  moreover have "pcnet_pairs 0 (p @ NL # extra) = pairs @ ?more"
    using pcnet_pairs_append [of 0 p extra] by (simp add: p(4))
  moreover have "pn_auth d \<longrightarrow> authentic d (pcnet_hash d pre) (pairs @ ?more)"
    using p(5) by (auto simp: authentic_def)
  ultimately show ?thesis
    using p(6-9) by (simp add: auth_and_map_packet_def Let_def)
qed

subsection \<open>A packet\<close>

lemma length_hex_byte: "length (hex_byte b) = 2"
proof -
  have "unat b < 16 ^ Suc 1" using unsigned_less [of b, where 'a = nat] by simp
  from length_show_hex_pad [OF this] show ?thesis by (simp add: hex_byte_def numeral_2_eq_2)
qed

lemma hex_byte_digits: "c \<in> set (hex_byte b) \<Longrightarrow> isxdigit c"
  using show_hex_pad_digits [of 2 "unat b"] by (auto simp: hex_byte_def isxdigit_tolower_hex)

lemma digest2ascii_eq:
  assumes "length ds \<le> 16"
  shows "digest2ascii ds = concat (map hex_byte ds)"
proof -
  have "foldl (\<lambda>ascii b. fst (strlcat ascii (hex_byte b) 33)) acc es = acc @ concat (map hex_byte es)"
    if "length acc + 2 * length es < 33" for acc es
    using that
  proof (induction es arbitrary: acc)
    case (Cons b es)
    then have "strlcat acc (hex_byte b) 33 = (acc @ hex_byte b, length acc + length (hex_byte b))"
      using strlcat_fits [of acc 33 "hex_byte b"] by (simp add: length_hex_byte)
    then show ?case using Cons by (simp add: length_hex_byte)
  qed simp
  then show ?thesis using assms by (simp add: digest2ascii_def)
qed

lemma length_md5_spec: "length (md5_spec m) = 16"
  by (simp add: md5_spec_def le_bytes_def split_beta Let_def)

lemma hash_text:
  "length (digest2ascii (md5_spec m)) = 32" "c \<in> set (digest2ascii (md5_spec m)) \<Longrightarrow> isxdigit c"
proof -
  have "length (concat (map hex_byte bs)) = 2 * length bs" for bs
    by (induction bs) (simp_all add: length_hex_byte)
  then show "length (digest2ascii (md5_spec m)) = 32"
    by (simp add: digest2ascii_eq length_md5_spec)
  show "c \<in> set (digest2ascii (md5_spec m)) \<Longrightarrow> isxdigit c"
    by (auto simp: digest2ascii_eq length_md5_spec hex_byte_digits)
qed

lemma pcnet_hash_spec: "pcnet_hash d text = digest2ascii (md5_spec (bytes (text @ pn_user d @ pn_pass d)))"
  by (simp add: pcnet_hash_def md5.three_chunks bytes_def)

lemma pcnet_pairs_single:
  assumes "i < 256" "k \<noteq> []" "v \<noteq> []" "\<forall>c\<in>set k. \<not> isspace c \<and> c \<noteq> CHR ''=''" "\<forall>c\<in>set v. \<not> isspace c"
  shows "pcnet_pairs i (k @ CHR ''='' # v) = [(k, v)]"
proof -
  let ?l = "k @ CHR ''='' # v"
  have plain: "\<forall>c\<in>set ?l. \<not> isspace c" using assms by (auto simp: isspace_def)
  have start: "dropWhile isspace ?l = ?l" using assms(2) plain by (cases k) auto
  have eol: "\<forall>c\<in>set ?l. not_eol c" using plain by (auto simp: not_eol_def isspace_def)
  have "dropWhile isspace (rev ?l) = rev ?l"
    using plain assms(3) by (cases "rev v") auto
  then have trim: "rtrim ?l = ?l" by (simp add: rtrim_def)
  have split: "split_at CHR ''='' ?l = Some (k, v)" using assms(4) by (induction k) auto
  have all: "takeWhile not_eol ?l = ?l" "dropWhile not_eol ?l = []"
    using eol by (simp_all only: takeWhile_eq_all_conv dropWhile_eq_Nil_conv)
  show ?thesis
    using pcnet_pairs_line [OF assms(1) _ start]
    unfolding all trim split drop_Nil pcnet_pairs_end by simp
qed

lemma pcnet_hash_plain:
  "length (pcnet_hash d text) = 32" "c \<in> set (pcnet_hash d text) \<Longrightarrow> \<not> isspace c \<and> c \<noteq> NUL"
  using hash_text isxdigit_plain unfolding pcnet_hash_spec by blast+

definition key_lines :: "(string \<times> string) list \<Rightarrow> string" where
  "key_lines kvs = concat (map (\<lambda>(k, v). k @ CHR ''='' # v @ [NL]) kvs)"

fun plain_pair :: "string \<times> string \<Rightarrow> bool" where
  "plain_pair (k, v) \<longleftrightarrow> k \<noteq> [] \<and> v \<noteq> [] \<and> (\<forall>c\<in>set k. \<not> isspace c \<and> c \<noteq> CHR ''='') \<and>
     (\<forall>c\<in>set v. \<not> isspace c)"

lemma pcnet_pairs_lines:
  "\<forall>p\<in>set kvs. plain_pair p \<Longrightarrow> i + length kvs \<le> 255 \<Longrightarrow>
   pcnet_pairs i (key_lines kvs @ r) = kvs @ pcnet_pairs (i + length kvs) r"
proof (induction kvs arbitrary: i)
  case (Cons p kvs)
  obtain k v where p: "p = (k, v)" by force
  have "pcnet_pairs i (key_lines (p # kvs) @ r) =
      pcnet_pairs i ((k @ CHR ''='' # v) @ NL # (key_lines kvs @ r))"
    by (simp add: key_lines_def p)
  also have "\<dots> = (k, v) # pcnet_pairs (Suc i) (key_lines kvs @ r)"
    using pcnet_pairs_single [of i k v] Cons.prems unfolding pcnet_pairs_append by (simp add: p)
  also have "\<dots> = (p # kvs) @ pcnet_pairs (i + length (p # kvs)) r"
    using Cons.IH [of "Suc i"] Cons.prems by (simp add: p)
  finally show ?case .
qed (simp add: key_lines_def)

text \<open>A packet as a card makes it: some lines before the first pair, the pairs, and the hash.\<close>

definition signed_packet :: "pcnet_drv \<Rightarrow> string \<Rightarrow> (string \<times> string) list \<Rightarrow> string" where
  "signed_packet d head kvs =
     (let text = head @ key_lines kvs in text @ ''MD='' @ pcnet_hash d text)"

lemma signed_pairs:
  assumes "\<forall>p\<in>set kvs. plain_pair p" "length kvs \<le> 255" "head = [] \<or> (\<exists>h. head = h @ [NL] \<and> pcnet_pairs 0 h = [])"
  shows "pcnet_pairs 0 (signed_packet d head kvs) = kvs @ [(''MD'', pcnet_hash d (head @ key_lines kvs))]"
proof -
  let ?h = "pcnet_hash d (head @ key_lines kvs)"
  let ?r = "''MD='' @ ?h"
  have "length ?h = 32" by (rule pcnet_hash_plain)
  then have h: "?h \<noteq> []" "\<forall>c\<in>set ?h. \<not> isspace c" using pcnet_hash_plain(2) by auto
  have last: "pcnet_pairs i ?r = [(''MD'', ?h)]" if "i < 256" for i
    using pcnet_pairs_single [OF that, of "''MD''" ?h] h by (simp add: isspace_def)
  have "pcnet_pairs 0 (signed_packet d head kvs) = pcnet_pairs 0 (head @ (key_lines kvs @ ?r))"
    by (simp add: signed_packet_def Let_def)
  also have "\<dots> = pcnet_pairs 0 (key_lines kvs @ ?r)"
  proof (cases "head = []")
    case False
    then obtain g where g: "head = g @ [NL]" "pcnet_pairs 0 g = []" using assms(3) by blast
    then show ?thesis using pcnet_pairs_append [of 0 g "key_lines kvs @ ?r"] by simp
  qed simp
  also have "\<dots> = kvs @ [(''MD'', ?h)]"
    using pcnet_pairs_lines [OF assms(1), of 0 ?r] last [of "length kvs"] assms(2) by simp
  finally show ?thesis .
qed

lemma signed_accepted:
  assumes "\<forall>p\<in>set kvs. plain_pair p" "length kvs \<le> 255" "kvs \<noteq> []"
    and "head = [] \<or> (\<exists>h. head = h @ [NL] \<and> pcnet_pairs 0 h = [])"
    and "strstr (head @ key_lines kvs) ''MD='' = None"
    and "map_of kvs ''MD'' = None" "map_of kvs ''PC'' = Some (pn_ipaddr d)"
    and "map_of kvs ''SR'' = Some sr" "map_of kvs ''SU'' = Some su"
    and "\<not> stale d (strtoul 16 sr) (strtoul 16 su)"
  shows "auth_and_map_packet (signed_packet d head kvs) d =
    (Some (kvs @ [(''MD'', pcnet_hash d (head @ key_lines kvs))]),
     d\<lparr>pn_reboots := strtoul 16 sr, pn_uptime := strtoul 16 su\<rparr>)"
proof -
  let ?t = "head @ key_lines kvs"
  let ?tail = "''MD='' @ pcnet_hash d ?t"
  have t: "?t \<noteq> []" using assms(3) by (cases kvs) (auto simp: key_lines_def)
  have p: "signed_packet d head kvs = ?t @ ?tail" by (simp add: signed_packet_def Let_def)
  have "strstr (signed_packet d head kvs) ''MD='' = Some ?tail"
    unfolding p
  proof (rule strstr_first [OF assms(5)])
    fix m :: nat assume "0 < m" "m < length ''MD=''"
    then have "m = 1 \<or> m = 2" by auto
    then show "take (length ''MD='' - m) (drop m ''MD='') \<noteq> take (length ''MD='' - m) ''MD=''" by auto
  qed
  moreover have "?tail \<noteq> signed_packet d head kvs" using t unfolding p by simp
  moreover have "take (length (signed_packet d head kvs) - length ?tail) (signed_packet d head kvs) = ?t"
    unfolding p by simp
  moreover have "authentic d (pcnet_hash d ?t) (kvs @ [(''MD'', pcnet_hash d ?t)])"
    using assms(6,7) by (simp add: authentic_def map_add_def)
  ultimately show ?thesis
    using assms(8-10) by (simp add: auth_and_map_packet_def signed_pairs [OF assms(1,2,4)] Let_def)
qed

definition demo_card :: pcnet_drv where
  "demo_card = new_pcnet\<lparr>pn_auth := True, pn_ipaddr := ''10.0.0.7'', pn_user := ''apc'',
     pn_pass := ''secret''\<rparr>"

definition demo_keys :: "(string \<times> string) list" where
  "demo_keys = [(''PC'', ''10.0.0.7''), (''SR'', ''1''), (''SU'', ''2''), (''CS'', ''f00'')]"

definition demo_packet :: string where
  "demo_packet = signed_packet demo_card [] demo_keys"

definition demo_pairs :: "(string \<times> string) list" where
  "demo_pairs = demo_keys @ [(''MD'', pcnet_hash demo_card (key_lines demo_keys))]"

lemma demo_numbers: "strtoul 16 ''1'' = 1" "strtoul 16 ''2'' = 2"
  by (simp_all add: strtoul_def isspace_def digit_val_def char_code_def skip_0x_def)

lemma demo_facts:
  "\<forall>p\<in>set demo_keys. plain_pair p" "length demo_keys \<le> 255" "demo_keys \<noteq> []"
  "strstr (key_lines demo_keys) ''MD='' = None" "map_of demo_keys ''MD'' = None"
  "map_of demo_keys ''PC'' = Some (pn_ipaddr demo_card)" "map_of demo_keys ''SR'' = Some ''1''"
  "map_of demo_keys ''SU'' = Some ''2''" "\<not> stale demo_card 1 2"
  by (simp_all add: demo_keys_def demo_card_def new_pcnet_def isspace_def key_lines_def is_prefix_def
      stale_def)

lemma demo_accepted:
  "auth_and_map_packet demo_packet demo_card =
     (Some demo_pairs, demo_card\<lparr>pn_reboots := 1, pn_uptime := 2\<rparr>)"
  using signed_accepted [OF demo_facts(1-3) _ _ demo_facts(5-8), of "[]"] demo_facts(4,9)
  by (simp add: demo_packet_def demo_pairs_def demo_numbers)

subsection \<open>Properties\<close>

text \<open>
  C13: No replay: a packet that was accepted is refused for ever after, whatever packets
  arrive in between.
\<close>

theorem pcnet_no_replay:
  assumes "auth_and_map_packet p d = (Some pairs, d')"
    and "d'' = fold (\<lambda>q d. snd (auth_and_map_packet q d)) qs d'"
  shows "auth_and_map_packet p d'' = (None, d'')"
proof -
  obtain tail sr su where p: "strstr p ''MD='' = Some tail" "pairs = pcnet_pairs 0 p"
    "map_of pairs ''SR'' = Some sr" "map_of pairs ''SU'' = Some su"
    "d' = d\<lparr>pn_reboots := strtoul 16 sr, pn_uptime := strtoul 16 su\<rparr>"
    using auth_and_map_packet_Some [OF assms(1)] by metis
  have "later d' d''" unfolding assms(2) by (rule later_packets)
  then have "stale d'' (strtoul 16 sr) (strtoul 16 su)" by (auto simp: p(5) later_def stale_def)
  then show ?thesis using p by (simp add: auth_and_map_packet_def Let_def)
qed

theorem pcnet_no_replay_witness:
  "fst (auth_and_map_packet demo_packet (snd (auth_and_map_packet demo_packet demo_card))) = None"
  using pcnet_no_replay [OF demo_accepted refl, of "[]"] by (simp add: demo_accepted)

text \<open>
  C15: And it is live: a packet of plain pairs with the card's address, fresh counters and the
  hash made with the right user and passphrase is accepted, with all its pairs.
\<close>

theorem pcnet_accepts_signed:
  assumes "\<forall>p\<in>set kvs. plain_pair p" "length kvs \<le> 255"
    and "strstr (key_lines kvs) ''MD='' = None"
    and "map_of kvs ''MD'' = None" "map_of kvs ''PC'' = Some (pn_ipaddr d)"
    and "map_of kvs ''SR'' = Some sr" "map_of kvs ''SU'' = Some su"
    and "\<not> stale d (strtoul 16 sr) (strtoul 16 su)"
  shows "auth_and_map_packet (signed_packet d [] kvs) d =
    (Some (kvs @ [(''MD'', pcnet_hash d (key_lines kvs))]),
     d\<lparr>pn_reboots := strtoul 16 sr, pn_uptime := strtoul 16 su\<rparr>)"
proof -
  have "kvs \<noteq> []" using assms(5) by auto
  then show ?thesis using signed_accepted [of kvs "[]" d sr su] assms by simp
qed

theorem pcnet_accepts_signed_witness:
  "fst (auth_and_map_packet (signed_packet demo_card [] demo_keys) demo_card) = Some demo_pairs"
  using pcnet_accepts_signed [OF demo_facts(1,2,4-8)] demo_facts(9)
  by (simp add: demo_pairs_def demo_numbers)

text \<open>
  C14: With a passphrase set, an accepted packet carries the MD5 of the text before its first
  \<open>MD=\<close>, the user and the passphrase, and names the card's address. Its counters, which become those of
  the driver, are newer than these: the card has been started again since, or it has been up for longer.
\<close>

theorem pcnet_accepts_authentic:
  assumes "pn_auth d" "auth_and_map_packet p d = (Some pairs, d')"
  shows "\<exists>pre tail sr su. p = pre @ tail \<and> strstr p ''MD='' = Some tail \<and> pairs = pcnet_pairs 0 p \<and>
    map_of pairs ''MD'' = Some (digest2ascii (md5_spec (bytes (pre @ pn_user d @ pn_pass d)))) \<and>
    map_of pairs ''PC'' = Some (pn_ipaddr d) \<and>
    map_of pairs ''SR'' = Some sr \<and> map_of pairs ''SU'' = Some su \<and>
    (pn_reboots d < strtoul 16 sr \<or> pn_reboots d = strtoul 16 sr \<and> pn_uptime d < strtoul 16 su) \<and>
    d' = d\<lparr>pn_reboots := strtoul 16 sr, pn_uptime := strtoul 16 su\<rparr>"
proof -
  obtain pre tail sr su where p: "strstr p ''MD='' = Some tail" "p = pre @ tail" "pairs = pcnet_pairs 0 p"
    "authentic d (pcnet_hash d pre) pairs"
    "map_of pairs ''SR'' = Some sr" "map_of pairs ''SU'' = Some su" "\<not> stale d (strtoul 16 sr) (strtoul 16 su)"
    "d' = d\<lparr>pn_reboots := strtoul 16 sr, pn_uptime := strtoul 16 su\<rparr>"
    using auth_and_map_packet_Some [OF assms(2)] assms(1) by metis
  then have "pn_reboots d < strtoul 16 sr \<or> pn_reboots d = strtoul 16 sr \<and> pn_uptime d < strtoul 16 su"
    by (auto simp: stale_def)
  moreover have "map_of pairs ''MD'' = Some (digest2ascii (md5_spec (bytes (pre @ pn_user d @ pn_pass d)))) \<and>
      map_of pairs ''PC'' = Some (pn_ipaddr d)"
    using p(4) by (simp add: authentic_def pcnet_hash_def md5.three_chunks bytes_def)
  ultimately show ?thesis using p(1-3,5,6,8) by (intro exI [of _ pre] exI [of _ tail] exI [of _ sr] exI [of _ su]) simp
qed

theorem pcnet_accepts_authentic_witness:
  "\<exists>pre tail sr su. demo_packet = pre @ tail \<and> strstr demo_packet ''MD='' = Some tail \<and>
    map_of demo_pairs ''MD'' = Some (digest2ascii (md5_spec (bytes (pre @ ''apc'' @ ''secret'')))) \<and>
    map_of demo_pairs ''PC'' = Some ''10.0.0.7'' \<and> map_of demo_pairs ''SU'' = Some su \<and>
    map_of demo_pairs ''SR'' = Some sr \<and>
    (pn_reboots demo_card < strtoul 16 sr \<or> pn_reboots demo_card = strtoul 16 sr \<and> pn_uptime demo_card < strtoul 16 su)"
proof -
  have d: "pn_auth demo_card" "pn_user demo_card = ''apc''" "pn_pass demo_card = ''secret''"
    "pn_ipaddr demo_card = ''10.0.0.7''"
    by (simp_all add: demo_card_def)
  show ?thesis using pcnet_accepts_authentic [OF d(1) demo_accepted] unfolding d(2-4) by blast
qed

text \<open>
  What follows the \<open>MD=\<close> line is not authenticated: to any packet that would be accepted,
  anyone can add lines, and it is accepted with their data as well.
\<close>

theorem pcnet_tail_unauthenticated:
  assumes "auth_and_map_packet p d = (Some pairs, d')"
  shows "auth_and_map_packet (p @ NL # extra) d =
    (Some (pairs @ pcnet_pairs (length pairs) extra), d')"
  by (rule tail_unauthenticated [OF assms])

theorem pcnet_tail_unauthenticated_witness:
  "fst (auth_and_map_packet (demo_packet @ NL # ''SD=1'') demo_card) =
     Some (demo_pairs @ pcnet_pairs (length demo_pairs) ''SD=1'')"
  using pcnet_tail_unauthenticated [OF demo_accepted, of "''SD=1''"] by simp

text \<open>
  C40: So a forged line can shut the computer down: a packet that would be accepted, with
  \<open>SD=1\<close> added behind it, sets \<open>UPS_shut_remote\<close>.
\<close>

theorem pcnet_forged_shutdown:
  assumes "auth_and_map_packet (c_str (take 4095 p)) (drv s) = (Some pairs, d')"
    and "NUL \<notin> set p" "length p \<le> 4090" "length pairs < 256"
  shows "is_shut_remote (ups (snd (pcnet_receive (p @ NL # ''SD=1'') s)))"
proof -
  have "pcnet_pairs i ''SD=1'' = [(''SD'', ''1'')]" if "i < 256" for i
    using that pcnet_pairs_line [of i "''SD=1''" "''SD=1''"]
    by (simp add: isspace_def rtrim_def not_eol_def pcnet_pairs_end)
  then have "auth_and_map_packet (p @ NL # ''SD=1'') (drv s) = (Some (pairs @ [(''SD'', ''1'')]), d')"
    using tail_unauthenticated [of p "drv s" pairs d' "''SD=1''"] assms by simp
  moreover have "c_str (take 4095 (p @ NL # ''SD=1'')) = p @ NL # ''SD=1''"
    using assms(2,3) by simp
  moreover have "is_shut_remote (snd (pcnet_process secs (qs @ [(''SD'', ''1'')]) u))" for secs qs u
  proof (induction qs arbitrary: u)
    case Nil
    have "strtoul 10 ''1'' = 1"
      by (simp add: strtoul_def isspace_def digit_val_def char_code_def)
    then show ?case
      by (simp add: pcnet_process_data_def pcnet_shutdown_cmd_def is_bits set_bits)
  qed (simp add: split_beta Let_def)
  ultimately show ?thesis
    by (simp add: pcnet_receive_def split_beta Let_def write_lock_def write_unlock_def)
qed

theorem pcnet_forged_shutdown_witness:
  "is_shut_remote (ups (snd (pcnet_receive (demo_packet @ NL # ''SD=1'') (start_sys demo_card))))"
proof (rule pcnet_forged_shutdown)
  let ?h = "pcnet_hash demo_card (key_lines demo_keys)"
  have h: "length ?h = 32" "NUL \<notin> set ?h" using pcnet_hash_plain by blast+
  have p: "demo_packet = key_lines demo_keys @ ''MD='' @ ?h"
    by (simp add: demo_packet_def signed_packet_def Let_def)
  show len: "length demo_packet \<le> 4090" and nul: "NUL \<notin> set demo_packet"
    unfolding p using h by (simp_all add: key_lines_def demo_keys_def)
  show "auth_and_map_packet (c_str (take 4095 demo_packet)) (drv (start_sys demo_card)) =
      (Some demo_pairs, demo_card\<lparr>pn_reboots := 1, pn_uptime := 2\<rparr>)"
    using len nul by (simp add: start_sys_def demo_accepted)
  show "length demo_pairs < 256" by (simp add: demo_pairs_def demo_keys_def)
qed

text \<open>
  After a poll the UPS counts as lost exactly when no valid data has come for 55 seconds.
\<close>

theorem pcnet_commlost_iff:
  "is_commlost (ups (snd (pcnet_read_volatile_data s))) \<longleftrightarrow>
     55 \<le> clock s (clock_pos s) - pn_datatime (drv s)"
  by (auto simp: pcnet_read_volatile_data_def Let_def time_now_def is_bits set_bits clear_bits)

text \<open>
  A killpower that succeeds has sent, as its last request, a form of exactly the announced 72
  bytes with the MD5 of the command, the challenge of an accepted answer, the user and the
  passphrase.
\<close>

theorem pcnet_kill_request:
  assumes "pcnet_kill_power s = (True, t)" "length (pn_ipaddr (drv s)) \<le> 255"
  shows "\<exists>cs head. last (pn_sent (drv t)) = head @ ''Content-Length: 72'' @ CRLF @ CRLF @
      kill_body (digest2ascii (md5_spec (bytes
        (''macontrol1_control_shutdown_1=1,'' @ cs @ pn_user (drv t) @ pn_pass (drv t))))) \<and>
    length (kill_body (digest2ascii (md5_spec (bytes
        (''macontrol1_control_shutdown_1=1,'' @ cs @ pn_user (drv t) @ pn_pass (drv t)))))) = 72"
proof -
  have creds: "pn_user (snd (kill_challenge data d)) = pn_user d"
    "pn_pass (snd (kill_challenge data d)) = pn_pass d"
    "pn_ipaddr (snd (kill_challenge data d)) = pn_ipaddr d" for data d
    by (auto simp: kill_challenge_def auth_and_map_packet_def Let_def split: option.split)
  define d1 where "d1 = (drv s)\<lparr>pn_sent := pn_sent (drv s) @ [kill_get (pn_ipaddr (drv s))]\<rparr>"
  obtain data cs where kc: "fst (kill_challenge data d1) = Some cs" and
    "drv t = (let d = snd (kill_challenge data d1)
              in d\<lparr>pn_sent := pn_sent d @ [kill_post (pn_ipaddr d) (kill_hash d cs)]\<rparr>)"
    using assms(1) by (auto simp: pcnet_kill_power_def Let_def split_beta d1_def
        split: if_splits option.splits)
  moreover define d where "d = snd (kill_challenge data d1)"
  ultimately have d: "pn_ipaddr d = pn_ipaddr (drv s)"
    "drv t = d\<lparr>pn_sent := pn_sent d @ [kill_post (pn_ipaddr d) (kill_hash d cs)]\<rparr>"
    by (simp_all add: creds d1_def Let_def)
  let ?h = "digest2ascii (md5_spec (bytes (''macontrol1_control_shutdown_1=1,'' @ cs @ pn_user d @ pn_pass d)))"
  have h: "kill_hash d cs = ?h" unfolding kill_hash_def md5.chunks by (simp add: bytes_def)
  have len: "length (kill_body ?h) = 72" by (simp add: kill_body_def hash_text)
  then have "kill_post (pn_ipaddr d) ?h = ''POST /Forms/macontrol1 HTTP/1.1'' @ CRLF @ ''Host: '' @
      pn_ipaddr d @ CRLF @ ''Content-Type: application/x-www-form-urlencoded'' @ CRLF @
      ''Content-Length: 72'' @ CRLF @ CRLF @ kill_body ?h"
    using assms(2) unfolding kill_post_def d(1) by (intro take_all) simp
  then show ?thesis
    using len by (intro exI [of _ cs] exI [of _ "''POST /Forms/macontrol1 HTTP/1.1'' @ CRLF @ ''Host: '' @
      pn_ipaddr d @ CRLF @ ''Content-Type: application/x-www-form-urlencoded'' @ CRLF"])
      (simp add: d(2) h)
qed

definition demo_killer :: "pcnet_drv sys" where
  "demo_killer = start_sys (demo_card\<lparr>pn_http := \<lparr>ht_socket = True, ht_connect = True, ht_send1 = True,
     ht_recv = [Some (''HTTP/1.1 200 OK'' @ CRLF), Some (signed_packet demo_card (''<html>'' @ [NL]) demo_keys)],
     ht_send2 = True\<rparr>\<rparr>)"

lemma demo_killed: "\<exists>t. pcnet_kill_power demo_killer = (True, t)"
proof -
  let ?a = "''HTTP/1.1 200 OK'' @ CRLF" and ?head = "''<html>'' @ [NL]"
  let ?h = "pcnet_hash demo_card (?head @ key_lines demo_keys)"
  define b where "b = signed_packet demo_card ?head demo_keys"
  define d where "d = (drv demo_killer)\<lparr>pn_sent := [kill_get ''10.0.0.7'']\<rparr>"
  have b: "b = ''<html>'' @ (NL # key_lines demo_keys @ ''MD='' @ ?h)"
    by (simp add: b_def signed_packet_def Let_def)
  have h: "length ?h = 32" "NUL \<notin> set ?h" using pcnet_hash_plain by blast+
  then have b_len: "length b \<le> 900" "b \<noteq> []" "NUL \<notin> set b"
    unfolding b by (simp_all add: key_lines_def demo_keys_def)
  have recv: "kill_recv [Some ?a, Some b] [] = Some (?a @ b)"
    using b_len by (simp add: Let_def is_prefix_def)
  have "strstr (?a @ b) ''<html>'' = Some b"
    unfolding b
  proof (rule strstr_first)
    fix m :: nat assume "0 < m" "m < length ''<html>''"
    then have "m \<in> {1, 2, 3, 4, 5}" by auto
    then show "take (length ''<html>'' - m) (drop m ''<html>'') \<noteq> take (length ''<html>'' - m) ''<html>''"
      by auto
  qed (simp add: is_prefix_def)
  moreover have "c_str (?a @ b) = ?a @ b" using b_len(3) by (intro c_str_no_nul) simp
  moreover have "pcnet_pairs 0 ''<html>'' = []"
    using pcnet_pairs_line [of 0 "''<html>''" "''<html>''"]
    by (simp add: isspace_def not_eol_def rtrim_def pcnet_pairs_end)
  then have "fst (auth_and_map_packet b d) = Some (demo_keys @ [(''MD'', pcnet_hash d (?head @ key_lines demo_keys))])"
  proof -
    assume html: "pcnet_pairs 0 ''<html>'' = []"
    have "b = signed_packet d ?head demo_keys"
      by (simp add: b_def d_def signed_packet_def demo_killer_def start_sys_def pcnet_hash_def Let_def)
    moreover have "strstr (?head @ key_lines demo_keys) ''MD='' = None"
      by (simp add: key_lines_def demo_keys_def is_prefix_def)
    moreover have "?head = [] \<or> (\<exists>h. ?head = h @ [NL] \<and> pcnet_pairs 0 h = [])" using html by blast
    moreover have "map_of demo_keys ''PC'' = Some (pn_ipaddr d)" "\<not> stale d 1 2"
      using demo_facts(6,9) by (simp_all add: d_def demo_killer_def start_sys_def stale_def)
    ultimately show ?thesis
      using signed_accepted [OF demo_facts(1-3), of ?head d "''1''" "''2''"] demo_facts(5,7,8)
      by (simp add: demo_numbers)
  qed
  ultimately have "fst (kill_challenge (?a @ b) d) = Some ''f00''"
    by (simp add: kill_challenge_def split_beta Let_def) (simp add: demo_keys_def)
  then obtain d2 where ch: "kill_challenge (?a @ b) d = (Some ''f00'', d2)"
    by (metis prod.collapse)
  have d1: "drv (upd_drv (\<lambda>d. d\<lparr>pn_sent := pn_sent d @ [kill_get (pn_ipaddr d)]\<rparr>) demo_killer) = d"
    by (simp add: d_def demo_killer_def start_sys_def demo_card_def new_pcnet_def)
  have http: "pn_http (drv demo_killer) = \<lparr>ht_socket = True, ht_connect = True, ht_send1 = True,
      ht_recv = [Some ?a, Some b], ht_send2 = True\<rparr>"
    by (simp add: demo_killer_def start_sys_def b_def)
  have "pn_auth (drv demo_killer)" "pn_ipaddr (drv demo_killer) = ''10.0.0.7''"
    by (simp_all add: demo_killer_def start_sys_def demo_card_def)
  then show ?thesis
    unfolding pcnet_kill_power_def http Let_def
    by (simp only: d1 ch recv pcnet_http.simps option.simps prod.case if_True if_False
        not_True_eq_False not_False_eq_True simp_thms) blast
qed

theorem pcnet_kill_request_witness:
  "\<exists>t cs head. pcnet_kill_power demo_killer = (True, t) \<and>
    last (pn_sent (drv t)) = head @ ''Content-Length: 72'' @ CRLF @ CRLF @
      kill_body (digest2ascii (md5_spec (bytes
        (''macontrol1_control_shutdown_1=1,'' @ cs @ pn_user (drv t) @ pn_pass (drv t)))))"
proof -
  obtain t where t: "pcnet_kill_power demo_killer = (True, t)" using demo_killed by blast
  have "length (pn_ipaddr (drv demo_killer)) \<le> 255"
    by (simp add: demo_killer_def start_sys_def demo_card_def)
  from pcnet_kill_request [OF t this] t show ?thesis by blast
qed

end
