(* ===== verification/ModbusFrame.thy ===== *)
theory ModbusFrame
  imports Prelude
begin

text \<open>
  The frames of the MODBUS protocol (\<open>src/drivers/modbus/ModbusComm.h\<close> and \<open>ModbusCrc\<close> of
  \<open>ModbusComm.cpp\<close>): a slave address, a function code, the PDU, and a 16-bit checksum, least
  significant byte first. The checksum is a fold of a step that is injective in the state and
  in the symbol (locale \<open>injective_step\<close>), so an error confined to one byte of a frame is
  always seen.
\<close>

unbundle bit_operations_syntax

subsection \<open>The constants\<close>

abbreviation (input) MODBUS_FC_ERROR :: byte where "MODBUS_FC_ERROR \<equiv> 0x80"
abbreviation (input) MODBUS_FC_READ_HOLDING_REGS :: byte where "MODBUS_FC_READ_HOLDING_REGS \<equiv> 0x03"
abbreviation (input) MODBUS_FC_WRITE_MULTIPLE_REGS :: byte where "MODBUS_FC_WRITE_MULTIPLE_REGS \<equiv> 0x10"
abbreviation (input) MODBUS_MAX_FRAME_SZ :: nat where "MODBUS_MAX_FRAME_SZ \<equiv> 256"
abbreviation (input) MODBUS_MAX_PDU_SZ :: nat where "MODBUS_MAX_PDU_SZ \<equiv> 252"

text \<open>The timeouts, in microseconds.\<close>

abbreviation (input) INTERCHAR_TIMEOUT :: int where "INTERCHAR_TIMEOUT \<equiv> 25000"
abbreviation (input) INTERFRAME_TIMEOUT :: int where "INTERFRAME_TIMEOUT \<equiv> 500000"
abbreviation (input) IDLE_WAIT_TIMEOUT :: int where "IDLE_WAIT_TIMEOUT \<equiv> 2000000"
abbreviation (input) RESPONSE_TIMEOUT :: int where "RESPONSE_TIMEOUT \<equiv> 1000000"

text \<open>And the one that is compared in milliseconds.\<close>

abbreviation (input) TOTAL_REQUEST_TIMEOUT_MS :: int where "TOTAL_REQUEST_TIMEOUT_MS \<equiv> 3000"

subsection \<open>The checksum\<close>

definition crc_shift :: "16 word \<Rightarrow> 16 word" where
  "crc_shift crc = (if bit crc 0 then drop_bit 1 crc XOR 0xA001 else drop_bit 1 crc)"

definition crc_byte :: "16 word \<Rightarrow> byte \<Rightarrow> 16 word" where
  "crc_byte crc b = (crc_shift ^^ 8) (crc XOR ucast b)"

definition modbus_crc :: "byte list \<Rightarrow> 16 word" where
  "modbus_crc data = foldl crc_byte 0xffff data"

text \<open>The two bytes of a checksum in the order they travel, and the check of a received frame.\<close>

definition crc_bytes :: "16 word \<Rightarrow> byte list" where
  "crc_bytes crc = [ucast crc, ucast (drop_bit 8 crc)]"

definition with_crc :: "byte list \<Rightarrow> byte list" where
  "with_crc body = body @ crc_bytes (modbus_crc body)"

definition crc_good :: "byte list \<Rightarrow> bool" where
  "crc_good frm \<longleftrightarrow>
     (let sz = length frm; crc = modbus_crc (take (sz - 2) frm)
      in [frm ! (sz - 2), frm ! (sz - 1)] = crc_bytes crc)"

text \<open>A 16-bit number in two bytes, most significant first.\<close>

definition hi_lo :: "nat \<Rightarrow> byte list" where
  "hi_lo n = [of_nat (n div 256), of_nat n]"

subsection \<open>A fold that forgets nothing\<close>

locale injective_step =
  fixes step :: "'s \<Rightarrow> 'b \<Rightarrow> 's"
  assumes step_state: "step s b = step s' b \<Longrightarrow> s = s'"
    and step_symbol: "step s b = step s b' \<Longrightarrow> b = b'"
begin

lemma fold_state: "foldl step s bs = foldl step s' bs \<Longrightarrow> s = s'"
  by (induction bs arbitrary: s s') (auto dest: step_state)

lemma fold_symbol: "foldl step s (xs @ b # ys) = foldl step s (xs @ b' # ys) \<Longrightarrow> b = b'"
  by (auto dest: fold_state step_symbol)

end

lemma xor_cancel: "a XOR x = b XOR x \<Longrightarrow> a = (b :: 'a::len word)"
  by (metis xor.assoc xor.right_neutral xor_self_eq)

lemma crc_shift_inj: "inj crc_shift"
proof (rule injI)
  fix c d :: "16 word" assume eq: "crc_shift c = crc_shift d"
  have top: "bit (crc_shift x) 15 = bit x 0" for x :: "16 word"
    by (simp add: crc_shift_def bit_xor_iff bit_drop_bit_eq bit_numeral_word_iff
        impossible_bit)
  have zero: "bit c 0 = bit d 0" using top [of c] top [of d] eq by simp
  then have "drop_bit 1 c = drop_bit 1 d"
    using eq by (auto simp: crc_shift_def split: if_splits dest: xor_cancel)
  then have "bit c (1 + n) = bit d (1 + n)" for n
    by (metis bit_drop_bit_eq comp_apply)
  then show "c = d"
    using zero by (intro bit_eqI) (metis Suc_eq_plus1_left not0_implies_Suc)
qed

lemma crc_byte_state: "crc_byte c b = crc_byte d b \<Longrightarrow> c = d"
proof -
  assume "crc_byte c b = crc_byte d b"
  moreover have "inj (crc_shift ^^ 8)" by (rule inj_fn [OF crc_shift_inj])
  ultimately have "c XOR ucast b = d XOR ucast b" unfolding crc_byte_def by (auto dest: injD)
  then show "c = d" by (rule xor_cancel)
qed

lemma crc_byte_symbol: "crc_byte c b = crc_byte c b' \<Longrightarrow> b = b'"
proof -
  assume "crc_byte c b = crc_byte c b'"
  moreover have "inj (crc_shift ^^ 8)" by (rule inj_fn [OF crc_shift_inj])
  ultimately have "c XOR ucast b = c XOR ucast b'" unfolding crc_byte_def by (auto dest: injD)
  then have "(ucast b :: 16 word) = ucast b'"
    by (metis xor.commute xor_cancel)
  then have "unat (ucast b :: 16 word) = unat (ucast b' :: 16 word)" by simp
  then show "b = b'" using unsigned_less [of b, where ?'a = nat] unsigned_less [of b', where ?'a = nat]
    by (simp add: word_unat_eq_iff unsigned_ucast_eq take_bit_nat_eq_self)
qed

interpretation crc: injective_step crc_byte
  by unfold_locales (blast intro: crc_byte_state crc_byte_symbol)+

subsection \<open>Properties\<close>

lemma crc_bytes_inj: "crc_bytes c = crc_bytes d \<Longrightarrow> c = d"
proof (rule bit_word_eqI)
  fix n assume eq: "crc_bytes c = crc_bytes d" and n: "n < LENGTH(16)"
  have "bit (ucast c :: byte) n = bit (ucast d :: byte) n"
    and "bit (ucast (drop_bit 8 c) :: byte) (n - 8) = bit (ucast (drop_bit 8 d) :: byte) (n - 8)"
    using eq by (simp_all add: crc_bytes_def)
  then show "bit c n = bit d n"
    using n by (cases "n < 8") (auto simp: bit_ucast_iff bit_drop_bit_eq)
qed

lemma crc_good_append: "length t = 2 \<Longrightarrow> crc_good (body @ t) \<longleftrightarrow> t = crc_bytes (modbus_crc body)"
proof -
  assume "length t = 2"
  then obtain a b where "t = [a, b]" by (auto simp: length_Suc_conv numeral_2_eq_2)
  then show ?thesis by (auto simp: crc_good_def Let_def nth_append)
qed

lemma length_crc_bytes [simp]: "length (crc_bytes c) = 2"
  by (simp add: crc_bytes_def)

lemma with_crc_good [simp]: "crc_good (with_crc body)"
  by (simp add: with_crc_def crc_good_append)

lemma length_with_crc [simp]: "length (with_crc body) = length body + 2"
  by (simp add: with_crc_def)

lemma crc_one_byte:
  assumes "modbus_crc (xs @ b # ys) = modbus_crc (xs @ b' # ys)" shows "b = b'"
  using assms crc.fold_symbol unfolding modbus_crc_def by blast

text \<open>
  C19: The checksum sees every error that is confined to one byte: a good frame in which any one
  byte, of the message or of the checksum itself, is replaced by another is not good.
\<close>

theorem crc_detects_byte_error:
  assumes "crc_good frm" "2 \<le> length frm" "i < length frm" "b \<noteq> frm ! i"
  shows "\<not> crc_good (frm[i := b])"
proof
  define body t where "body = take (length frm - 2) frm" and "t = drop (length frm - 2) frm"
  have frm: "frm = body @ t" and t: "length t = 2" using assms(2) by (auto simp: body_def t_def)
  have crc: "t = crc_bytes (modbus_crc body)" using assms(1) t unfolding frm by (simp add: crc_good_append)
  assume good: "crc_good (frm[i := b])"
  show False
  proof (cases "i < length body")
    case True
    then have "crc_bytes (modbus_crc (body[i := b])) = t"
      using good t unfolding frm by (simp add: list_update_append crc_good_append)
    then have "modbus_crc (body[i := b]) = modbus_crc body"
      unfolding crc by (rule crc_bytes_inj)
    then have "b = body ! i"
      using True by (metis crc_one_byte id_take_nth_drop upd_conv_take_nth_drop)
    then show False using assms(4) True frm by (simp add: nth_append)
  next
    case False
    then have "t[i - length body := b] = t"
      using good t crc unfolding frm by (simp add: list_update_append crc_good_append)
    then have "b = t ! (i - length body)"
      using assms(3) False t unfolding frm by (metis length_append nth_list_update_eq
          add_diff_inverse_nat nat_add_left_cancel_less)
    then show False using assms(4) False unfolding frm by (simp add: nth_append)
  qed
qed

theorem crc_detects_byte_error_witness:
  "crc_good (with_crc [1, 3, 0, 0, 0, 2]) \<and> \<not> crc_good ((with_crc [1, 3, 0, 0, 0, 2])[5 := 3])"
  by (intro conjI crc_detects_byte_error with_crc_good) (simp_all add: nth_append with_crc_def)

end
