(* ===== verification/HidUps.thy ===== *)
theory HidUps
  imports Prelude
begin

text \<open>
  The USB side of the MODBUS driver: \<open>src/libusbhid/HidUps.cpp\<close> with the table of devices of
  \<open>src/lib/usbvidpid.cpp\<close> and the \<open>trim\<close> of \<open>src/lib/astring.cpp\<close>. What libusb finds on the
  bus is a list of \<open>usb_dev\<close>, each with the answers it will give; the HID parser
  (\<open>libusbhid\<close>) is present as the list of items it reads from a report descriptor. The
  object keeps a log of what it does with its handle and its descriptor.
\<close>

unbundle bit_operations_syntax

subsection \<open>Strings\<close>

definition astring_trim :: "string \<Rightarrow> string" where
  "astring_trim s =
     rev (dropWhile isspace (rev (dropWhile (\<lambda>c. c \<in> {CHR '' '', CHR 0x09, CR, NL}) s)))"

subsection \<open>HID items\<close>

datatype hid_kind = hid_input | hid_output | hid_feature | hid_collection | hid_endcollection

fun kind_no :: "hid_kind \<Rightarrow> nat" where
  "kind_no hid_input = 0"
| "kind_no hid_output = 1"
| "kind_no hid_feature = 2"
| "kind_no hid_collection = 3"
| "kind_no hid_endcollection = 4"

definition HID_KIND :: "hid_kind \<Rightarrow> int" where
  "HID_KIND k = 2 ^ kind_no k"

record hid_item =
  it_kind :: hid_kind
  it_collection :: int
  it_usage :: "32 word"
  it_report_ID :: int
  it_pos :: nat                  \<comment> \<open>the position of its data in the report, in bits\<close>
  it_report_size :: nat          \<comment> \<open>and their number\<close>
  it_logical_minimum :: int
  it_unit :: "32 word"
  it_unit_exponent :: int

text \<open>The three stacks of \<open>LocateItem\<close>, the top first, of at most ten usages each.\<close>

record hid_stacks =
  st_phys :: "int list"
  st_app :: "int list"
  st_logical :: "int list"

definition no_stacks :: hid_stacks where
  "no_stacks = \<lparr>st_phys = [], st_app = [], st_logical = []\<rparr>"

definition push_collection :: "int \<Rightarrow> int list \<Rightarrow> int list" where
  "push_collection v stk = (if length stk < 10 then v # stk else stk)"

definition top_collection :: "int list \<Rightarrow> int" where
  "top_collection stk = (case stk of [] \<Rightarrow> -1 | v # _ \<Rightarrow> v)"

definition open_collection :: "hid_item \<Rightarrow> hid_stacks \<Rightarrow> hid_stacks" where
  "open_collection it st =
     (let v = sint (it_usage it)
      in if it_kind it \<noteq> hid_collection then st
         else if it_collection it = 0 then st\<lparr>st_phys := push_collection v (st_phys st)\<rparr>
         else if it_collection it = 2 then st\<lparr>st_logical := push_collection v (st_logical st)\<rparr>
         else if it_collection it = 1 then st\<lparr>st_app := push_collection v (st_app st)\<rparr>
         else st)"

definition close_collection :: "hid_item \<Rightarrow> hid_stacks \<Rightarrow> hid_stacks" where
  "close_collection it st =
     (if it_kind it \<noteq> hid_endcollection then st
      else if it_collection it = 0 then st\<lparr>st_phys := tl (st_phys st)\<rparr>
      else if it_collection it = 2 then st\<lparr>st_logical := tl (st_logical st)\<rparr>
      else if it_collection it = 1 then st\<lparr>st_app := tl (st_app st)\<rparr>
      else st)"

text \<open>What is looked for; \<open>-1\<close> is \<open>don't care\<close>.\<close>

record hid_query =
  q_usage :: int
  q_app :: int
  q_phys :: int
  q_logical :: int
  q_kind :: int

definition item_matches :: "hid_query \<Rightarrow> hid_stacks \<Rightarrow> hid_item \<Rightarrow> bool" where
  "item_matches q st it \<longleftrightarrow>
     (q_usage q = -1 \<or> word_of_int (q_usage q) = it_usage it) \<and>
     (q_app q = -1 \<or> q_app q = top_collection (st_app st)) \<and>
     (q_phys q = -1 \<or> q_phys q = top_collection (st_phys st)) \<and>
     (q_logical q = -1 \<or> q_logical q = top_collection (st_logical st)) \<and>
     (q_kind q = -1 \<or> bit (q_kind q) (kind_no (it_kind it)))"

fun locate_loop :: "hid_query \<Rightarrow> hid_stacks \<Rightarrow> hid_item list \<Rightarrow> hid_item option" where
  "locate_loop q st [] = None"
| "locate_loop q st (it # its) =
     (let st1 = open_collection it st
      in if item_matches q st1 it then Some it
         else locate_loop q (close_collection it st1) its)"

definition locate_item :: "hid_query \<Rightarrow> hid_item list \<Rightarrow> hid_item option" where
  "locate_item q its = locate_loop q no_stacks its"

text \<open>A query for a usage and a kind only; the usage is an \<open>int\<close> parameter.\<close>

definition usage_query :: "32 word \<Rightarrow> hid_kind \<Rightarrow> hid_query" where
  "usage_query u k = \<lparr>q_usage = sint u, q_app = -1, q_phys = -1, q_logical = -1, q_kind = HID_KIND k\<rparr>"

subsection \<open>Devices\<close>

definition SUPPORTED_DEVICES :: "(nat \<times> nat) list" where
  "SUPPORTED_DEVICES =
     [(0x051D, 0x0002), (0x051D, 0x0003), (0x051D, 0x0004),
      (0x051D, 0xC801), (0x051D, 0xC802), (0x051D, 0xC803), (0x051D, 0xC804), (0x051D, 0xC805),
      (0x16DE, 0xC801), (0x16DE, 0xC802), (0x16DE, 0xC803), (0x16DE, 0xC804), (0x16DE, 0xC805),
      (0x051D, 0x0001), (0x051D, 0xffff), (0x051D, 0x0005), (0x03F0, 0x1FE3)]"

definition MatchVidPid :: "nat \<Rightarrow> nat \<Rightarrow> bool" where
  "MatchVidPid vid pid \<longleftrightarrow> (vid, pid) \<in> set SUPPORTED_DEVICES"

record usb_dev =
  ud_vid :: nat
  ud_pid :: nat
  ud_opens :: bool                       \<comment> \<open>\<open>usb_open\<close> succeeds\<close>
  ud_iSerialNumber :: nat
  ud_serial :: "string option"           \<comment> \<open>\<open>usb_get_string_simple\<close>\<close>
  ud_configured :: bool                  \<comment> \<open>\<open>usb_set_configuration\<close> and\<close>
  ud_claimed :: bool                     \<comment> \<open>\<open>usb_claim_interface\<close> return 0\<close>
  ud_items :: "hid_item list option"     \<comment> \<open>the report descriptor, parsed\<close>

datatype hid_effect = UsbOpen | UsbRelease | UsbClose | DescAlloc | DescFree

text \<open>
  The object: the handle \<open>_fd\<close>, and the pointer \<open>_rdesc\<close>, which may be left pointing to a
  descriptor that was freed.
\<close>

datatype rdesc = NoDesc | Desc "hid_item list" | FreedDesc "hid_item list"

record hid_ups =
  hu_fd :: bool
  hu_rdesc :: rdesc
  hu_log :: "hid_effect list"

definition new_hid_ups :: hid_ups where
  "new_hid_ups = \<lparr>hu_fd = False, hu_rdesc = NoDesc, hu_log = []\<rparr>"

definition hid_log :: "hid_effect list \<Rightarrow> hid_ups \<Rightarrow> hid_ups" where
  "hid_log es h = h\<lparr>hu_log := hu_log h @ es\<rparr>"

text \<open>Whether the serial number the user asks for, if any, is the device's.\<close>

definition serial_accepted :: "usb_dev \<Rightarrow> string \<Rightarrow> bool" where
  "serial_accepted dev serno \<longleftrightarrow>
     serno = [] \<or>
     (ud_iSerialNumber dev \<noteq> 0 \<and>
      (case ud_serial dev of None \<Rightarrow> False
       | Some ser \<Rightarrow> strcaseeq (astring_trim ser) serno))"

abbreviation (input) UPS_USAGE :: "32 word" where "UPS_USAGE \<equiv> 0x840004"

definition init_device :: "usb_dev \<Rightarrow> string \<Rightarrow> hid_ups \<Rightarrow> bool \<times> hid_ups" where
  "init_device dev serno h =
     (if \<not> MatchVidPid (ud_vid dev) (ud_pid dev) then (False, h)
      else if \<not> ud_opens dev then (False, h\<lparr>hu_fd := False\<rparr>)
      else let h1 = hid_log [UsbOpen] (h\<lparr>hu_fd := True\<rparr>); shut = (\<lambda>es h. hid_log es (h\<lparr>hu_fd := False\<rparr>))
           in if \<not> serial_accepted dev serno \<or> \<not> ud_configured dev \<or> \<not> ud_claimed dev
              then (False, shut [UsbClose] h1)
              else case ud_items dev of
                     None \<Rightarrow> (False, shut [UsbRelease, UsbClose] h1)
                   | Some its \<Rightarrow>
                       let h2 = hid_log [DescAlloc] (h1\<lparr>hu_rdesc := Desc its\<rparr>)
                       in if locate_item (usage_query UPS_USAGE hid_collection) its = None
                          then (False, shut [DescFree, UsbRelease, UsbClose] (h2\<lparr>hu_rdesc := FreedDesc its\<rparr>))
                          else (True, h2))"

fun hid_open :: "usb_dev list \<Rightarrow> string \<Rightarrow> hid_ups \<Rightarrow> bool \<times> hid_ups" where
  "hid_open [] serno h = (False, h)"
| "hid_open (dev # devs) serno h =
     (let (ok, h1) = init_device dev serno h in if ok then (True, h1) else hid_open devs serno h1)"

definition hid_close :: "hid_ups \<Rightarrow> hid_ups" where
  "hid_close h =
     (let h1 = (if hu_rdesc h = NoDesc then h else hid_log [DescFree] (h\<lparr>hu_rdesc := NoDesc\<rparr>))
      in if hu_fd h1 then hid_log [UsbRelease, UsbClose] (h1\<lparr>hu_fd := False\<rparr>) else h1)"

text \<open>\<open>LocateItem\<close> on the descriptor in use.\<close>

definition hid_locate :: "hid_query \<Rightarrow> hid_ups \<Rightarrow> hid_item option" where
  "hid_locate q h = (case hu_rdesc h of Desc its \<Rightarrow> locate_item q its | _ \<Rightarrow> None)"

subsection \<open>Handles and descriptors\<close>

definition open_handles :: "hid_ups \<Rightarrow> int" where
  "open_handles h = int (count_list (hu_log h) UsbOpen) - int (count_list (hu_log h) UsbClose)"

definition handles_tracked :: "hid_ups \<Rightarrow> bool" where
  "handles_tracked h \<longleftrightarrow> open_handles h = (if hu_fd h then 1 else 0)"

lemma init_device_handles:
  assumes "\<not> hu_fd h" "handles_tracked h"
  shows "handles_tracked (snd (init_device dev serno h))"
    and "hu_fd (snd (init_device dev serno h)) = fst (init_device dev serno h)"
  using assms
  by (auto simp: init_device_def handles_tracked_def open_handles_def hid_log_def Let_def
      split: option.splits)

lemma hid_open_handles:
  "\<not> hu_fd h \<Longrightarrow> handles_tracked h \<Longrightarrow>
    handles_tracked (snd (hid_open devs serno h)) \<and>
    hu_fd (snd (hid_open devs serno h)) = fst (hid_open devs serno h)"
proof (induction devs arbitrary: h)
  case (Cons dev devs)
  then show ?case
    using init_device_handles [of h dev serno] by (auto simp: split_beta Let_def)
qed (simp add: handles_tracked_def)

lemma hid_close_handles:
  "handles_tracked h \<Longrightarrow> handles_tracked (hid_close h) \<and> \<not> hu_fd (hid_close h)"
  by (auto simp: hid_close_def handles_tracked_def open_handles_def hid_log_def Let_def)

text \<open>
  The handle of the USB device is never leaked and never closed twice: a close followed by an
  attempt to open, whatever is on the bus, leaves exactly one handle open if the attempt
  succeeded, and none if it failed.
\<close>

theorem hid_handles_balanced:
  assumes "handles_tracked h" "hid_open devs serno (hid_close h) = (ok, h')"
  shows "open_handles h' = (if ok then 1 else 0)"
  using hid_close_handles [OF assms(1)] hid_open_handles [of "hid_close h" devs serno] assms(2)
  by (simp add: handles_tracked_def)

text \<open>A device that is claimed, but whose descriptor has no UPS collection.\<close>

definition not_an_ups :: "usb_dev \<Rightarrow> string \<Rightarrow> hid_item list \<Rightarrow> bool" where
  "not_an_ups dev serno its \<longleftrightarrow>
     MatchVidPid (ud_vid dev) (ud_pid dev) \<and> ud_opens dev \<and> serial_accepted dev serno \<and>
     ud_configured dev \<and> ud_claimed dev \<and> ud_items dev = Some its \<and>
     locate_item (usage_query UPS_USAGE hid_collection) its = None"

definition demo_apc :: usb_dev where
  "demo_apc = \<lparr>ud_vid = 0x051D, ud_pid = 2, ud_opens = True, ud_iSerialNumber = 0, ud_serial = None,
     ud_configured = True, ud_claimed = True, ud_items = Some []\<rparr>"

theorem hid_handles_balanced_witness:
  "open_handles (snd (hid_open [demo_apc] [] (hid_close new_hid_ups))) = 0"
  using hid_handles_balanced [of new_hid_ups "[demo_apc]" "[]" False
      "snd (hid_open [demo_apc] [] (hid_close new_hid_ups))"]
  by (simp add: handles_tracked_def open_handles_def new_hid_ups_def demo_apc_def init_device_def
      MatchVidPid_def SUPPORTED_DEVICES_def serial_accepted_def hid_log_def hid_close_def
      locate_item_def Let_def)

text \<open>
  A device that is claimed but turns out to be no UPS leaves its descriptor freed and the
  pointer to it in place: closing the object, as every new attempt to open it begins with,
  frees the descriptor a second time.
\<close>

theorem hid_reopen_double_free:
  assumes "not_an_ups dev serno its" "hu_rdesc h = NoDesc"
  shows "\<exists>h'. hid_open [dev] serno h = (False, h') \<and>
    count_list (hu_log (hid_close h')) DescAlloc = count_list (hu_log h) DescAlloc + 1 \<and>
    count_list (hu_log (hid_close h')) DescFree = count_list (hu_log h) DescFree + 2"
  using assms
  by (auto simp: not_an_ups_def init_device_def hid_log_def hid_close_def Let_def)

theorem hid_reopen_double_free_witness:
  "\<exists>h'. hid_open [demo_apc] [] new_hid_ups = (False, h') \<and>
    count_list (hu_log (hid_close h')) DescAlloc = 1 \<and>
    count_list (hu_log (hid_close h')) DescFree = 2"
  using hid_reopen_double_free [of demo_apc "[]" "[]" new_hid_ups]
  by (simp add: not_an_ups_def demo_apc_def new_hid_ups_def MatchVidPid_def SUPPORTED_DEVICES_def
      serial_accepted_def locate_item_def numeral_2_eq_2)

end
