(* ===== verification/ModbusLine.thy ===== *)
theory ModbusLine
  imports ModbusFrame HidUps
begin

text \<open>
  The two lines MODBUS frames travel on: a serial port (\<open>ModbusRs232Comm.cpp\<close>, the POSIX
  branches) and the interrupt endpoints of a USB device (\<open>ModbusUsbComm.cpp\<close>), with the
  watchdog that interrupts a read that does not return.

  Time is a number of microseconds. It passes while a call waits, and is handed from call to
  call. What a line delivers is a list of events, each with the time it becomes visible: a call
  that waits until \<open>t\<close> sees the first event if that is due by \<open>t\<close>, and times out otherwise;
  behind the last event the line is silent. What the calls that write return is a list too, of
  pairs of the time taken and the result; behind its end every write succeeds at once.
\<close>

unbundle bit_operations_syntax

subsection \<open>The serial port\<close>

datatype serial_event =
    SerialBytes "byte list"     \<comment> \<open>bytes to read; with none of them, \<open>read\<close> returns 0\<close>
  | SelectFails int             \<comment> \<open>with this \<open>errno\<close>\<close>
  | ReadFails

record serial_port =
  sp_fd :: bool                           \<comment> \<open>\<open>_fd\<close> is open\<close>
  sp_open_ok :: "nat \<Rightarrow> bool"             \<comment> \<open>whether the \<open>n\<close>-th \<open>open\<close> succeeds\<close>
  sp_opens :: nat
  sp_writes :: "(int \<times> int) list"
  sp_wire :: "(int \<times> serial_event) list"
  sp_sent :: "byte list list"             \<comment> \<open>the frames handed to \<open>write\<close>\<close>

text \<open>Opening closes first, and flushes what has come in before.\<close>

definition serial_open :: "int \<Rightarrow> serial_port \<Rightarrow> bool \<times> serial_port" where
  "serial_open now p =
     (let p1 = p\<lparr>sp_fd := False, sp_opens := Suc (sp_opens p)\<rparr>
      in if sp_open_ok p (sp_opens p)
         then (True, p1\<lparr>sp_fd := True, sp_wire := dropWhile (\<lambda>(t, e). t \<le> now) (sp_wire p)\<rparr>)
         else (False, p1))"

definition serial_close :: "serial_port \<Rightarrow> serial_port" where
  "serial_close p = p\<lparr>sp_fd := False\<rparr>"

text \<open>
  The loop of \<open>ModbusRx\<close>: the frame ends with a silence of 25 ms, or when the buffer is full;
  bytes that do not fit stay on the line. The result is the frame, the time and the line.
\<close>

fun serial_rx_loop ::
    "int \<Rightarrow> byte list \<Rightarrow> int \<Rightarrow> (int \<times> serial_event) list \<Rightarrow>
      byte list option \<times> int \<times> (int \<times> serial_event) list" where
  "serial_rx_loop timeout frm now [] = (if frm \<noteq> [] then Some frm else None, now + timeout, [])"
| "serial_rx_loop timeout frm now ((t, e) # es) =
     (if t > now + timeout then (if frm \<noteq> [] then Some frm else None, now + timeout, (t, e) # es)
      else let now' = max now t
           in case e of
                SelectFails errno \<Rightarrow>
                  if errno = EAGAIN \<or> errno = EINTR then serial_rx_loop timeout frm now' es
                  else (None, now', es)
              | ReadFails \<Rightarrow> (None, now', es)
              | SerialBytes bs \<Rightarrow>
                  let room = MODBUS_MAX_FRAME_SZ - length frm; frm' = frm @ take room bs;
                      es' = (if length bs > room then (t, SerialBytes (drop room bs)) # es else es)
                  in if length frm' = MODBUS_MAX_FRAME_SZ then (Some frm', now', es')
                     else serial_rx_loop INTERCHAR_TIMEOUT frm' now' es)"

definition serial_rx :: "int \<Rightarrow> serial_port \<Rightarrow> byte list option \<times> int \<times> serial_port" where
  "serial_rx now p =
     (let (r, now', w) = serial_rx_loop RESPONSE_TIMEOUT [] now (sp_wire p)
      in (r, now', p\<lparr>sp_wire := w\<rparr>))"

text \<open>How much a line still holds: every event, and every byte of it.\<close>

fun serial_size :: "serial_event \<Rightarrow> nat" where
  "serial_size (SerialBytes bs) = Suc (length bs)"
| "serial_size _ = 1"

definition serial_weight :: "(int \<times> serial_event) list \<Rightarrow> nat" where
  "serial_weight w = sum_list (map (\<lambda>(t, e). serial_size e) w)"

text \<open>
  \<open>ModbusWaitIdle\<close>: bytes that come are read and dropped one at a time, until 500 ms have been
  silent or two seconds are over. What is on the line after one \<open>read\<close> of a byte:
\<close>

definition after_byte :: "int \<Rightarrow> serial_event \<Rightarrow> (int \<times> serial_event) list \<Rightarrow> (int \<times> serial_event) list" where
  "after_byte t e es =
     (case e of SerialBytes (b # b' # bs) \<Rightarrow> (t, SerialBytes (b' # bs)) # es | _ \<Rightarrow> es)"

definition select_error :: "serial_event \<Rightarrow> bool" where
  "select_error e \<longleftrightarrow>
     (case e of SelectFails errno \<Rightarrow> errno \<noteq> EINTR \<and> errno \<noteq> EAGAIN | _ \<Rightarrow> False)"

lemma serial_weight_simps [simp]:
  "serial_weight [] = 0" "serial_weight ((t, e) # w) = serial_size e + serial_weight w"
  by (simp_all add: serial_weight_def)

lemma after_byte_weight: "serial_weight (after_byte t e es) < serial_size e + serial_weight es"
  by (auto simp: after_byte_def split: serial_event.split list.split)

function serial_idle_loop ::
    "int \<Rightarrow> int \<Rightarrow> (int \<times> serial_event) list \<Rightarrow> bool \<times> int \<times> (int \<times> serial_event) list" where
  "serial_idle_loop quit now [] = (True, now + INTERFRAME_TIMEOUT, [])"
| "serial_idle_loop quit now ((t, e) # es) =
     (if t > now + INTERFRAME_TIMEOUT then (True, now + INTERFRAME_TIMEOUT, (t, e) # es)
      else let now' = max now t
           in if select_error e then (False, now', es)
              else if now' \<ge> quit then (False, now', after_byte t e es)
              else serial_idle_loop quit now' (after_byte t e es))"
  by pat_completeness auto

termination
  by (relation "measure (\<lambda>(quit, now, w). serial_weight w)") (auto simp: after_byte_weight)

definition serial_idle :: "int \<Rightarrow> serial_port \<Rightarrow> bool \<times> int \<times> serial_port" where
  "serial_idle now p =
     (let (ok, now', w) = serial_idle_loop (now + IDLE_WAIT_TIMEOUT) now (sp_wire p)
      in (ok, now', p\<lparr>sp_wire := w\<rparr>))"

text \<open>The result of the next write of \<open>n\<close> bytes.\<close>

definition next_write :: "nat \<Rightarrow> (int \<times> int) list \<Rightarrow> int \<times> int \<times> (int \<times> int) list" where
  "next_write n ws = (case ws of [] \<Rightarrow> (0, int n, []) | (dt, rc) # ws' \<Rightarrow> (max 0 dt, rc, ws'))"

definition serial_tx :: "byte list \<Rightarrow> int \<Rightarrow> serial_port \<Rightarrow> bool \<times> int \<times> serial_port" where
  "serial_tx frm now p =
     (let (idle, now1, p1) = serial_idle now p
      in if \<not> idle then (False, now1, p1)
         else let (dt, rc, ws) = next_write (length frm) (sp_writes p1)
              in (rc = int (length frm), now1 + dt,
                  p1\<lparr>sp_writes := ws, sp_sent := sp_sent p1 @ [frm]\<rparr>))"

subsection \<open>The USB endpoints\<close>

abbreviation (input) MODBUS_USB_REPORT_SIZE :: nat where "MODBUS_USB_REPORT_SIZE \<equiv> 64"
abbreviation (input) MODBUS_USB_REPORT_MAX_FRAME_SIZE :: nat where
  "MODBUS_USB_REPORT_MAX_FRAME_SIZE \<equiv> 63"
abbreviation (input) WATCHDOG_POLL :: int where "WATCHDOG_POLL \<equiv> 100000"
abbreviation (input) WATCHDOG_GRACE_MS :: int where "WATCHDOG_GRACE_MS \<equiv> 500"

text \<open>
  What an interrupt read meets: a report, an error code of libusb, or a transfer that ignores its
  timeout. Such a read ends when the watchdog, which looks every 100 ms, finds the deadline
  passed; \<open>lag\<close> is by how much it has passed then.
\<close>

datatype usb_event =
    UsbReport "byte list"
  | UsbFails int
  | UsbStuck int

record usb_port =
  up_hid :: hid_ups
  up_bus :: "nat \<Rightarrow> usb_dev list"         \<comment> \<open>what the \<open>n\<close>-th enumeration finds\<close>
  up_opens :: nat
  up_watchdog :: bool                     \<comment> \<open>\<open>_watchdogRunning\<close>\<close>
  up_rxrpt :: byte
  up_txrpt :: byte
  up_writes :: "(int \<times> int) list"
  up_wire :: "(int \<times> usb_event) list"
  up_sent :: "byte list list"             \<comment> \<open>the reports handed to the write\<close>

text \<open>The clock in nanoseconds, and the watchdog's deadline for a call that starts now.\<close>

definition get_tod :: "int \<Rightarrow> int" where
  "get_tod now = now * 1000"

definition watchdog_deadline :: "int \<Rightarrow> int \<Rightarrow> int" where
  "watchdog_deadline now timeout_ms = get_tod now + timeout_ms * 1000000 + WATCHDOG_GRACE_MS * 1000000"

definition watchdog_fires :: "int \<Rightarrow> int \<Rightarrow> bool" where
  "watchdog_fires deadline now \<longleftrightarrow> deadline \<noteq> 0 \<and> get_tod now > deadline"

text \<open>The time at which it fires on a stuck call, in microseconds.\<close>

definition watchdog_wakes :: "int \<Rightarrow> int \<Rightarrow> int \<Rightarrow> int" where
  "watchdog_wakes now timeout_ms lag =
     watchdog_deadline now timeout_ms div 1000 + 1 + max 0 (min (WATCHDOG_POLL - 1) lag)"

text \<open>An interrupt read that meets an event: its result, the data, the time it returns.\<close>

definition usb_result :: "int \<Rightarrow> int \<Rightarrow> int \<Rightarrow> usb_event \<Rightarrow> int \<times> byte list \<times> int" where
  "usb_result timeout_ms now t e =
     (let now' = max now t
      in case e of
           UsbReport r \<Rightarrow> let got = take MODBUS_USB_REPORT_SIZE r in (int (length got), got, now')
         | UsbFails rc \<Rightarrow> (min 0 rc, [], now')
         | UsbStuck lag \<Rightarrow> (- EINTR, [], watchdog_wakes now timeout_ms lag))"

definition usb_open :: "string \<Rightarrow> usb_port \<Rightarrow> bool \<times> usb_port" where
  "usb_open path p =
     (let (ok, h) = hid_open (up_bus p (up_opens p)) path (hid_close (up_hid p));
          p1 = p\<lparr>up_hid := h, up_opens := Suc (up_opens p), up_watchdog := False\<rparr>
      in if \<not> ok then (False, p1)
         else case hid_locate (usage_query 0xFF8600FD hid_input) h of
                None \<Rightarrow> (False, p1\<lparr>up_hid := hid_close h\<rparr>)
              | Some rx \<Rightarrow>
                  let p2 = p1\<lparr>up_rxrpt := word_of_int (it_report_ID rx)\<rparr>
                  in case hid_locate (usage_query 0xFF8600FC hid_output) h of
                       None \<Rightarrow> (False, p2\<lparr>up_hid := hid_close h\<rparr>)
                     | Some tx \<Rightarrow>
                         (True, p2\<lparr>up_txrpt := word_of_int (it_report_ID tx), up_watchdog := True\<rparr>))"

definition usb_close :: "usb_port \<Rightarrow> usb_port" where
  "usb_close p = p\<lparr>up_watchdog := False, up_hid := hid_close (up_hid p)\<rparr>"

text \<open>
  The frame in a report: its length follows from the function code, and a checksum is filled in.
\<close>

definition usb_frame_size :: "byte list \<Rightarrow> nat option" where
  "usb_frame_size rpt =
     (if rpt ! 2 = MODBUS_FC_READ_HOLDING_REGS then Some (unat (rpt ! 3) + 3)
      else if rpt ! 2 = MODBUS_FC_WRITE_MULTIPLE_REGS then Some 6
      else None)"

definition usb_frame :: "byte list \<Rightarrow> byte list option" where
  "usb_frame rpt =
     (case usb_frame_size rpt of
        None \<Rightarrow> None
      | Some frmsz \<Rightarrow>
          if frmsz > MODBUS_USB_REPORT_MAX_FRAME_SIZE then None
          else Some (with_crc (take frmsz (drop 1 rpt))))"

fun usb_rx_loop ::
    "byte \<Rightarrow> int \<Rightarrow> int \<Rightarrow> (int \<times> usb_event) list \<Rightarrow>
      byte list option \<times> int \<times> (int \<times> usb_event) list" where
  "usb_rx_loop rxrpt quit now [] =
     (let timeout = tv_diff_ms now quit in (None, if timeout \<le> 0 then now else now + timeout * 1000, []))"
| "usb_rx_loop rxrpt quit now ((t, e) # es) =
     (let timeout = tv_diff_ms now quit
      in if timeout \<le> 0 then (None, now, (t, e) # es)
         else if t > now + timeout * 1000 then (None, now + timeout * 1000, (t, e) # es)
         else let (ret, rpt, now') = usb_result timeout now t e
              in if ret = - ETIMEDOUT then (None, now', es)
                 else if ret = - EINTR \<or> ret = - EAGAIN then usb_rx_loop rxrpt quit now' es
                 else if ret \<le> 0 then (None, now', es)
                 else if rpt ! 0 \<noteq> rxrpt then usb_rx_loop rxrpt quit now' es
                 else if ret \<noteq> int MODBUS_USB_REPORT_SIZE then (None, now', es)
                 else (usb_frame rpt, now', es))"

definition usb_rx :: "int \<Rightarrow> usb_port \<Rightarrow> byte list option \<times> int \<times> usb_port" where
  "usb_rx now p =
     (let (r, now', w) = usb_rx_loop (up_rxrpt p) (now + RESPONSE_TIMEOUT) now (up_wire p)
      in (r, now', p\<lparr>up_wire := w\<rparr>))"

text \<open>\<open>NS_TO_MS\<close> rounds up; the wait is at least a millisecond.\<close>

definition remain_ms :: "int \<Rightarrow> int \<Rightarrow> int" where
  "remain_ms target now = (if target > now then (target - now + 999999) div 1000000 else 1)"

fun usb_idle_loop ::
    "byte \<Rightarrow> int \<Rightarrow> int \<Rightarrow> int \<Rightarrow> (int \<times> usb_event) list \<Rightarrow> bool \<times> int \<times> (int \<times> usb_event) list" where
  "usb_idle_loop rxrpt quit target now [] =
     (if target \<le> quit then (True, now + remain_ms target (get_tod now) * 1000, []) else (False, now, []))"
| "usb_idle_loop rxrpt quit target now ((t, e) # es) =
     (let timeout = remain_ms target (get_tod now)
      in if \<not> target \<le> quit then (False, now, (t, e) # es)
         else if t > now + timeout * 1000 then (True, now + timeout * 1000, (t, e) # es)
         else let (rc, rpt, now') = usb_result timeout now t e
              in if rc = - ETIMEDOUT then (True, now', es)
                 else if rc \<le> 0 \<and> rc \<noteq> - EINTR \<and> rc \<noteq> - EAGAIN then (False, now', es)
                 else usb_idle_loop rxrpt quit
                        (if rc > 0 \<and> rpt ! 0 = rxrpt then get_tod now' + 500 * 1000000 else target) now' es)"

definition usb_idle :: "int \<Rightarrow> usb_port \<Rightarrow> bool \<times> int \<times> usb_port" where
  "usb_idle now p =
     (let (ok, now', w) = usb_idle_loop (up_rxrpt p) (get_tod now + 2000 * 1000000)
            (get_tod now + 500 * 1000000) now (up_wire p)
      in (ok, now', p\<lparr>up_wire := w\<rparr>))"

definition usb_report :: "byte \<Rightarrow> byte list \<Rightarrow> byte list" where
  "usb_report txrpt frm =
     (let body = txrpt # take (length frm - 2) frm
      in body @ replicate (MODBUS_USB_REPORT_SIZE - length body) 0)"

definition usb_tx :: "byte list \<Rightarrow> int \<Rightarrow> usb_port \<Rightarrow> bool \<times> int \<times> usb_port" where
  "usb_tx frm now p =
     (if length frm - 2 > MODBUS_USB_REPORT_MAX_FRAME_SIZE then (False, now, p)
      else let (idle, now1, p1) = usb_idle now p
           in if \<not> idle then (False, now1, p1)
              else let (dt, ret, ws) = next_write MODBUS_USB_REPORT_SIZE (up_writes p1)
                   in (ret = int MODBUS_USB_REPORT_SIZE, now1 + dt,
                       p1\<lparr>up_writes := ws, up_sent := up_sent p1 @ [usb_report (up_txrpt p1) frm]\<rparr>))"

subsection \<open>The contract of a line\<close>

text \<open>
  What the layer above relies on: time does not run backwards, a received frame fits the buffer
  and takes something off the line, nothing but a write sends, and a write sends one thing.
\<close>

locale modbus_port =
  fixes rx :: "int \<Rightarrow> 'p \<Rightarrow> byte list option \<times> int \<times> 'p"
    and tx :: "byte list \<Rightarrow> int \<Rightarrow> 'p \<Rightarrow> bool \<times> int \<times> 'p"
    and weight :: "'p \<Rightarrow> nat"
    and sent :: "'p \<Rightarrow> byte list list"
  assumes rx_step: "rx now p = (r, now', p') \<Longrightarrow> now \<le> now' \<and> weight p' \<le> weight p \<and> sent p' = sent p"
    and rx_frame: "rx now p = (Some frm, now', p') \<Longrightarrow> weight p' < weight p \<and> length frm \<le> 256"
    and tx_step: "tx frm now p = (b, now', p') \<Longrightarrow> now \<le> now' \<and> weight p' \<le> weight p"
    and tx_sent: "tx frm now p = (b, now', p') \<Longrightarrow>
      (b \<longrightarrow> (\<exists>r. sent p' = sent p @ [r])) \<and> length (sent p') \<le> Suc (length (sent p))"

text \<open>The loops, first of the serial port.\<close>

lemma serial_rx_loop_step:
  "serial_rx_loop timeout frm now w = (r, now', w') \<Longrightarrow> 0 \<le> timeout \<Longrightarrow>
    now \<le> now' \<and> serial_weight w' \<le> serial_weight w"
proof (induction w arbitrary: timeout frm now)
  case (Cons x es)
  obtain t e where x: "x = (t, e)" by (cases x)
  show ?case using Cons.prems Cons.IH [of _ _ "max now t"]
    by (fastforce simp: x Let_def split: if_splits serial_event.splits)
qed auto

lemma serial_rx_loop_frame:
  "serial_rx_loop timeout frm now w = (Some f, now', w') \<Longrightarrow> length frm < 256 \<Longrightarrow>
    length f \<le> 256 \<and> (frm = [] \<longrightarrow> serial_weight w' < serial_weight w) \<and>
    serial_weight w' \<le> serial_weight w"
proof (induction w arbitrary: timeout frm now)
  case (Cons x es)
  obtain t e where x: "x = (t, e)" by (cases x)
  show ?case
  proof (cases "t > now + timeout")
    case False
    show ?thesis
    proof (cases e)
      case (SerialBytes bs)
      show ?thesis
      proof (cases "256 - length frm \<le> length bs")
        case True
        then show ?thesis using Cons.prems False
          by (auto simp: x Let_def SerialBytes split: if_splits)
      next
        case short: False
        then have "take (256 - length frm) bs = bs" "length frm + length bs \<noteq> 256" by auto
        then have "serial_rx_loop 25000 (frm @ bs) (max now t) es = (Some f, now', w')"
          using Cons.prems False short by (simp add: x Let_def SerialBytes)
        then show ?thesis using Cons.IH short Cons.prems(2) by (fastforce simp: x SerialBytes)
      qed
    next
      case (SelectFails n)
      then show ?thesis using Cons.prems Cons.IH [of _ frm "max now t"] False
        by (fastforce simp: x Let_def split: if_splits)
    qed (use Cons.prems False in \<open>simp add: x Let_def\<close>)
  qed (use Cons.prems x in \<open>auto split: if_splits\<close>)
qed (auto split: if_splits)

lemma serial_idle_loop_step:
  "serial_idle_loop quit now w = (b, now', w') \<Longrightarrow>
    now \<le> now' \<and> serial_weight w' \<le> serial_weight w \<and> now' \<le> max quit now + INTERFRAME_TIMEOUT"
proof (induction quit now w rule: serial_idle_loop.induct)
  case (2 quit now t e es)
  then show ?case using after_byte_weight [of t e es]
    by (fastforce simp: Let_def split: if_splits)
qed auto

interpretation serial: modbus_port serial_rx serial_tx "\<lambda>p. serial_weight (sp_wire p)" sp_sent
proof
  fix now p r now' p' assume "serial_rx now p = (r, now', p')"
  then show "now \<le> now' \<and> serial_weight (sp_wire p') \<le> serial_weight (sp_wire p) \<and> sp_sent p' = sp_sent p"
    using serial_rx_loop_step [of 1000000 "[]" now "sp_wire p"]
    by (auto simp: serial_rx_def split: prod.splits)
next
  fix now p frm now' p' assume "serial_rx now p = (Some frm, now', p')"
  then show "serial_weight (sp_wire p') < serial_weight (sp_wire p) \<and> length frm \<le> 256"
    using serial_rx_loop_frame [of 1000000 "[]" now "sp_wire p"]
    by (auto simp: serial_rx_def split: prod.splits)
next
  fix frm now p b now' p' assume tx: "serial_tx frm now p = (b, now', p')"
  obtain ok n w where idle: "serial_idle_loop (now + 2000000) now (sp_wire p) = (ok, n, w)"
    by (rule prod_cases3)
  show "now \<le> now' \<and> serial_weight (sp_wire p') \<le> serial_weight (sp_wire p)"
    and "(b \<longrightarrow> (\<exists>r. sp_sent p' = sp_sent p @ [r])) \<and> length (sp_sent p') \<le> Suc (length (sp_sent p))"
    using tx serial_idle_loop_step [OF idle] idle
    by (auto simp: serial_tx_def serial_idle_def next_write_def split: if_splits list.splits prod.splits)
qed

lemma watchdog_wakes_bounds:
  "now + timeout * 1000 + 500000 < watchdog_wakes now timeout lag"
  "watchdog_wakes now timeout lag \<le> now + timeout * 1000 + 600000"
  by (simp_all add: watchdog_wakes_def watchdog_deadline_def get_tod_def)

text \<open>The watchdog fires there, and at no time before the deadline.\<close>

lemma watchdog_wakes_fires:
  "0 \<le> now \<Longrightarrow> 0 \<le> timeout \<Longrightarrow>
    watchdog_fires (watchdog_deadline now timeout) (watchdog_wakes now timeout lag)"
  using watchdog_wakes_bounds(1) [of now timeout lag]
  by (simp add: watchdog_fires_def watchdog_deadline_def get_tod_def)

lemma usb_result_time:
  "usb_result timeout now t e = (ret, rpt, now') \<Longrightarrow> 0 \<le> timeout \<Longrightarrow> t \<le> now + timeout * 1000 \<Longrightarrow>
    now \<le> now' \<and> now' \<le> now + timeout * 1000 + 600000"
  using watchdog_wakes_bounds [of now timeout "case e of UsbStuck lag \<Rightarrow> lag | _ \<Rightarrow> 0"]
  by (cases e) (auto simp: usb_result_def Let_def)

lemma usb_rx_loop_step:
  "usb_rx_loop rxrpt quit now w = (r, now', w') \<Longrightarrow>
    now \<le> now' \<and> length w' \<le> length w \<and> now' \<le> max now (quit + 601000) \<and>
    (r \<noteq> None \<longrightarrow> length w' < length w)"
proof (induction w arbitrary: now)
  case Nil
  then show ?case using tv_diff_ms_bounds(1) [of now quit] by (auto simp: Let_def split: if_splits)
next
  case (Cons x es)
  obtain t e where x: "x = (t, e)" by (cases x)
  define timeout where "timeout = tv_diff_ms now quit"
  obtain ret rpt n where res: "usb_result timeout now t e = (ret, rpt, n)" by (rule prod_cases3)
  have le: "timeout * 1000 \<le> quit - now + 999" unfolding timeout_def by (rule tv_diff_ms_bounds)
  show ?case
  proof (cases "timeout \<le> 0 \<or> t > now + timeout * 1000")
    case True
    then show ?thesis using Cons.prems le
      by (auto simp: x timeout_def [symmetric] Let_def split: if_splits)
  next
    case False
    then have time: "now \<le> n" "n \<le> quit + 601000"
      using usb_result_time [OF res] le by auto
    from False Cons.prems have "usb_rx_loop rxrpt quit n es = (r, now', w') \<or> (now' = n \<and> w' = es)"
      by (auto simp: x Let_def timeout_def [symmetric] res split: if_splits)
    then show ?thesis using Cons.IH [of n] time by (auto simp: x)
  qed
qed

lemma usb_rx_loop_frame:
  "usb_rx_loop rxrpt quit now w = (Some f, now', w') \<Longrightarrow> length f \<le> 65"
proof (induction w arbitrary: now)
  case (Cons x es)
  obtain t e where x: "x = (t, e)" by (cases x)
  show ?case using Cons
    by (auto simp: x Let_def usb_frame_def split: if_splits prod.splits option.splits)
qed (simp add: Let_def)

lemma usb_idle_loop_step:
  "usb_idle_loop rxrpt quit target now w = (b, now', w') \<Longrightarrow> now \<le> now' \<and> length w' \<le> length w"
proof (induction w arbitrary: now target)
  case Nil
  then show ?case by (auto simp: remain_ms_def get_tod_def split: if_splits)
next
  case (Cons x es)
  obtain t e where x: "x = (t, e)" by (cases x)
  define timeout where "timeout = remain_ms target (get_tod now)"
  obtain ret rpt n where res: "usb_result timeout now t e = (ret, rpt, n)" by (rule prod_cases3)
  have pos: "0 < timeout" by (simp add: timeout_def remain_ms_def pos_imp_zdiv_pos_iff)
  show ?case
  proof (cases "\<not> target \<le> quit \<or> t > now + timeout * 1000")
    case True
    then show ?thesis using Cons.prems pos
      by (auto simp: x timeout_def [symmetric] Let_def split: if_splits)
  next
    case False
    then have "now \<le> n" using usb_result_time [OF res] pos by auto
    moreover from False Cons.prems
    have "(\<exists>target'. usb_idle_loop rxrpt quit target' n es = (b, now', w')) \<or> (now' = n \<and> w' = es)"
      by (auto simp: x Let_def timeout_def [symmetric] res split: if_splits)
    ultimately show ?thesis using Cons.IH by (fastforce simp: x)
  qed
qed

interpretation usb: modbus_port usb_rx usb_tx "\<lambda>p. length (up_wire p)" up_sent
proof
  fix now p r now' p' assume "usb_rx now p = (r, now', p')"
  then show "now \<le> now' \<and> length (up_wire p') \<le> length (up_wire p) \<and> up_sent p' = up_sent p"
    using usb_rx_loop_step [of "up_rxrpt p" "now + 1000000" now "up_wire p"]
    by (auto simp: usb_rx_def split: prod.splits)
next
  fix now p frm now' p' assume "usb_rx now p = (Some frm, now', p')"
  then show "length (up_wire p') < length (up_wire p) \<and> length frm \<le> 256"
    using usb_rx_loop_step [of "up_rxrpt p" "now + 1000000" now "up_wire p"]
      usb_rx_loop_frame [of "up_rxrpt p" "now + 1000000" now "up_wire p"]
    by (fastforce simp: usb_rx_def split: prod.splits)
next
  fix frm now p b now' p' assume tx: "usb_tx frm now p = (b, now', p')"
  obtain ok n w where idle: "usb_idle_loop (up_rxrpt p) (get_tod now + 2000 * 1000000)
      (get_tod now + 500 * 1000000) now (up_wire p) = (ok, n, w)"
    by (rule prod_cases3)
  show "now \<le> now' \<and> length (up_wire p') \<le> length (up_wire p)"
    and "(b \<longrightarrow> (\<exists>r. up_sent p' = up_sent p @ [r])) \<and> length (up_sent p') \<le> Suc (length (up_sent p))"
    using tx usb_idle_loop_step [OF idle] idle
    by (auto simp: usb_tx_def usb_idle_def next_write_def split: if_splits list.splits prod.splits)
qed

subsection \<open>Properties\<close>

text \<open>
  A wait for a response on USB is over after one second and 601 milliseconds at the latest,
  whatever the endpoint does: reports of other kinds, errors that are retried, and reads that
  ignore their timeout and have to be interrupted by the watchdog.
\<close>

theorem usb_rx_bounded: "fst (snd (usb_rx now p)) \<le> now + 1601000"
proof -
  obtain r n w where "usb_rx_loop (up_rxrpt p) (now + 1000000) now (up_wire p) = (r, n, w)"
    by (rule prod_cases3)
  with usb_rx_loop_step [OF this] show ?thesis by (simp add: usb_rx_def)
qed

text \<open>
  The serial line is given up after two and a half seconds at the latest if it does not become
  idle, however many bytes come.
\<close>

theorem serial_idle_bounded: "fst (snd (serial_idle now p)) \<le> now + 2500000"
proof -
  obtain b n w where "serial_idle_loop (now + 2000000) now (sp_wire p) = (b, n, w)"
    by (rule prod_cases3)
  with serial_idle_loop_step [OF this] show ?thesis by (simp add: serial_idle_def)
qed

text \<open>
  The wait for an idle USB line has no such bound. A read that the watchdog interrupts is
  repeated, and neither the time it took nor the two seconds are looked at: an endpoint on
  which every read hangs keeps the driver waiting for half a second longer with each of them,
  and is then called idle.
\<close>

lemma usb_idle_stuck:
  assumes "target \<le> quit" "\<And>t. t \<in> set ts \<Longrightarrow> t \<le> now"
  shows "\<exists>n. usb_idle_loop rxrpt quit target now (map (\<lambda>t. (t, UsbStuck lag)) ts) = (True, n, []) \<and>
    now + 500000 * int (length ts) \<le> n"
  using assms(2)
proof (induction ts arbitrary: now)
  case Nil
  then show ?case using assms(1) by (auto simp: remain_ms_def pos_imp_zdiv_nonneg_iff)
next
  case (Cons t ts)
  define timeout where "timeout = remain_ms target (get_tod now)"
  have pos: "0 < timeout" by (simp add: timeout_def remain_ms_def pos_imp_zdiv_pos_iff)
  define n where "n = watchdog_wakes now timeout lag"
  have n: "now + 500000 \<le> n" using watchdog_wakes_bounds(1) [of now timeout lag] pos by (simp add: n_def)
  moreover have "t \<le> now" using Cons.prems by simp
  moreover obtain n' where "usb_idle_loop rxrpt quit target n (map (\<lambda>t. (t, UsbStuck lag)) ts) = (True, n', [])"
    "n + 500000 * int (length ts) \<le> n'"
    using Cons.IH [of n] Cons.prems n by fastforce
  ultimately show ?case
    using assms(1) pos by (auto simp: Let_def timeout_def [symmetric] usb_result_def n_def [symmetric])
qed

theorem usb_idle_unbounded:
  assumes "up_wire p = replicate k (now, UsbStuck lag)"
  shows "\<exists>n p'. usb_idle now p = (True, n, p') \<and> now + 500000 * int k \<le> n"
  using usb_idle_stuck [of "get_tod now + 500 * 1000000" "get_tod now + 2000 * 1000000" "replicate k now" now
      "up_rxrpt p" lag] assms
  by (auto simp: usb_idle_def map_replicate_const)

definition demo_usb :: usb_port where
  "demo_usb = \<lparr>up_hid = new_hid_ups, up_bus = (\<lambda>_. []), up_opens = 0, up_watchdog = True,
     up_rxrpt = 0x8A, up_txrpt = 0x89, up_writes = [], up_wire = [], up_sent = []\<rparr>"

theorem usb_idle_unbounded_witness:
  "\<exists>n p'. usb_idle 0 (demo_usb\<lparr>up_wire := replicate 100 (0, UsbStuck 0)\<rparr>) = (True, n, p') \<and> 50000000 \<le> n"
  using usb_idle_unbounded [of "demo_usb\<lparr>up_wire := replicate 100 (0, UsbStuck 0)\<rparr>" 100 0 0]
  by simp

text \<open>
  A response to a read that fits a report is recovered from it exactly, padding removed and a
  good checksum added, whatever the report's padding holds.
\<close>

theorem usb_frame_recovered:
  assumes "length data \<le> 60" "length rpt = 64"
    and "rpt = rid # addr # MODBUS_FC_READ_HOLDING_REGS # of_nat (length data) # data @ padding"
  shows "usb_frame rpt = Some (with_crc (addr # MODBUS_FC_READ_HOLDING_REGS # of_nat (length data) # data))"
proof -
  have "unat (of_nat (length data) :: byte) = length data"
    using assms(1) by (simp add: unat_of_nat)
  then show ?thesis
    using assms by (simp add: usb_frame_def usb_frame_size_def numeral_3_eq_3)
qed

theorem usb_frame_recovered_witness:
  "usb_frame ([0x8A, 1, 3, 2, 0xAB, 0xCD] @ replicate 58 0) = Some (with_crc [1, 3, 2, 0xAB, 0xCD])"
  using usb_frame_recovered [of "[0xAB, 0xCD]" "[0x8A, 1, 3, 2, 0xAB, 0xCD] @ replicate 58 0" "0x8A" 1
      "replicate 58 0"]
  by simp

end
