(* ===== verification/ModbusComm.thy ===== *)
theory ModbusComm
  imports ModbusLine
begin

text \<open>
  The request/response layer of the MODBUS driver (\<open>ModbusComm.cpp\<close>): a request is framed, sent
  and repeated, answers are checked and compared with the last six accepted ones, since the
  USB gateway is known to send old answers again. The base class and its two subclasses are
  one record whose line is a serial or a USB port.
\<close>

unbundle bit_operations_syntax

datatype modbus_line = Serial serial_port | Usb usb_port

record modbus_comm =
  mc_slaveaddr :: byte
  mc_open :: bool
  mc_history :: "(byte \<times> byte list) option list"   \<comment> \<open>\<open>_haveLastRx\<close>, \<open>_lastRxFc\<close>, \<open>_lastRxPdu\<close>\<close>
  mc_next :: nat
  mc_now :: int
  mc_line :: modbus_line

abbreviation (input) LAST_RX_HISTORY :: nat where "LAST_RX_HISTORY \<equiv> 6"

definition new_comm :: "modbus_line \<Rightarrow> int \<Rightarrow> modbus_comm" where
  "new_comm l now = \<lparr>mc_slaveaddr = 1, mc_open = False, mc_history = replicate LAST_RX_HISTORY None,
     mc_next = 0, mc_now = now, mc_line = l\<rparr>"

subsection \<open>The virtual methods\<close>

fun line_open :: "string \<Rightarrow> int \<Rightarrow> modbus_line \<Rightarrow> bool \<times> modbus_line" where
  "line_open dev now (Serial p) = (let (ok, p') = serial_open now p in (ok, Serial p'))"
| "line_open dev now (Usb p) = (let (ok, p') = usb_open dev p in (ok, Usb p'))"

fun line_close :: "modbus_line \<Rightarrow> modbus_line" where
  "line_close (Serial p) = Serial (serial_close p)"
| "line_close (Usb p) = Usb (usb_close p)"

fun line_tx :: "byte list \<Rightarrow> int \<Rightarrow> modbus_line \<Rightarrow> bool \<times> int \<times> modbus_line" where
  "line_tx frm now (Serial p) = (let (ok, now', p') = serial_tx frm now p in (ok, now', Serial p'))"
| "line_tx frm now (Usb p) = (let (ok, now', p') = usb_tx frm now p in (ok, now', Usb p'))"

fun line_rx :: "int \<Rightarrow> modbus_line \<Rightarrow> byte list option \<times> int \<times> modbus_line" where
  "line_rx now (Serial p) = (let (r, now', p') = serial_rx now p in (r, now', Serial p'))"
| "line_rx now (Usb p) = (let (r, now', p') = usb_rx now p in (r, now', Usb p'))"

definition comm_open :: "string \<Rightarrow> modbus_comm \<Rightarrow> bool \<times> modbus_comm" where
  "comm_open dev c = (let (ok, l) = line_open dev (mc_now c) (mc_line c) in (ok, c\<lparr>mc_open := ok, mc_line := l\<rparr>))"

definition comm_close :: "modbus_comm \<Rightarrow> bool \<times> modbus_comm" where
  "comm_close c = (True, c\<lparr>mc_open := False, mc_line := line_close (mc_line c)\<rparr>)"

definition modbus_tx :: "byte list \<Rightarrow> modbus_comm \<Rightarrow> bool \<times> modbus_comm" where
  "modbus_tx frm c =
     (let (ok, now, l) = line_tx frm (mc_now c) (mc_line c) in (ok, c\<lparr>mc_now := now, mc_line := l\<rparr>))"

definition modbus_rx :: "modbus_comm \<Rightarrow> byte list option \<times> modbus_comm" where
  "modbus_rx c =
     (let (r, now, l) = line_rx (mc_now c) (mc_line c) in (r, c\<lparr>mc_now := now, mc_line := l\<rparr>))"

subsection \<open>A line of either kind is a port\<close>

fun line_weight :: "modbus_line \<Rightarrow> nat" where
  "line_weight (Serial p) = serial_weight (sp_wire p)"
| "line_weight (Usb p) = length (up_wire p)"

fun line_sent :: "modbus_line \<Rightarrow> byte list list" where
  "line_sent (Serial p) = sp_sent p"
| "line_sent (Usb p) = up_sent p"

interpretation line: modbus_port line_rx line_tx line_weight line_sent
proof
  fix now l r now' l' assume "line_rx now l = (r, now', l')"
  then show "now \<le> now' \<and> line_weight l' \<le> line_weight l \<and> line_sent l' = line_sent l"
    using serial.rx_step usb.rx_step by (cases l) (fastforce split: prod.splits)+
next
  fix now l frm now' l' assume "line_rx now l = (Some frm, now', l')"
  then show "line_weight l' < line_weight l \<and> length frm \<le> 256"
    using serial.rx_frame usb.rx_frame by (cases l) (fastforce split: prod.splits)+
next
  fix frm now l b now' l' assume tx: "line_tx frm now l = (b, now', l')"
  show "now \<le> now' \<and> line_weight l' \<le> line_weight l"
    using tx serial.tx_step usb.tx_step by (cases l) (fastforce split: prod.splits)+
  show "(b \<longrightarrow> (\<exists>r. line_sent l' = line_sent l @ [r])) \<and> length (line_sent l') \<le> Suc (length (line_sent l))"
    using tx serial.tx_sent usb.tx_sent by (cases l) (fastforce split: prod.splits)+
qed

lemma modbus_rx_step:
  assumes "modbus_rx c = (r, c')"
  shows "mc_now c \<le> mc_now c'" "line_weight (mc_line c') \<le> line_weight (mc_line c)"
    "line_sent (mc_line c') = line_sent (mc_line c)"
    "r = Some frm \<Longrightarrow> line_weight (mc_line c') < line_weight (mc_line c) \<and> length frm \<le> 256"
    "mc_history c' = mc_history c" "mc_next c' = mc_next c" "mc_slaveaddr c' = mc_slaveaddr c"
    "mc_open c' = mc_open c"
  using assms line.rx_step line.rx_frame
  by (fastforce simp: modbus_rx_def split: prod.splits)+

lemma modbus_tx_step:
  assumes "modbus_tx frm c = (b, c')"
  shows "mc_now c \<le> mc_now c'" "line_weight (mc_line c') \<le> line_weight (mc_line c)"
    "length (line_sent (mc_line c')) \<le> Suc (length (line_sent (mc_line c)))"
    "mc_history c' = mc_history c" "mc_next c' = mc_next c" "mc_slaveaddr c' = mc_slaveaddr c"
    "mc_open c' = mc_open c"
  using assms line.tx_step line.tx_sent
  by (fastforce simp: modbus_tx_def split: prod.splits)+

subsection \<open>SendAndWait\<close>

text \<open>What becomes of a received frame, \<open>elapsed\<close> milliseconds after the request.\<close>

datatype verdict = Discard | Fatal | Accept

definition frame_pdu :: "nat \<Rightarrow> byte list \<Rightarrow> byte list" where
  "frame_pdu rxsz frm = take rxsz (drop 2 frm)"

definition stale_duplicate :: "byte \<Rightarrow> nat \<Rightarrow> byte list \<Rightarrow> modbus_comm \<Rightarrow> bool" where
  "stale_duplicate fc rxsz frm c \<longleftrightarrow> Some (fc, frame_pdu rxsz frm) \<in> set (mc_history c)"

definition judge :: "byte \<Rightarrow> nat \<Rightarrow> int \<Rightarrow> byte list \<Rightarrow> modbus_comm \<Rightarrow> verdict" where
  "judge fc rxsz elapsed frm c =
     (let sz = length frm; near_deadline = elapsed > TOTAL_REQUEST_TIMEOUT_MS * 4 div 5
      in if sz < 4 then Discard
         else if \<not> crc_good frm then Discard
         else if frm ! 0 \<noteq> mc_slaveaddr c then Discard
         else if frm ! 1 = fc OR MODBUS_FC_ERROR then Fatal
         else if frm ! 1 \<noteq> fc then Discard
         else if sz \<noteq> rxsz + 4 then Discard
         else if \<not> near_deadline \<and> stale_duplicate fc rxsz frm c then Discard
         else Accept)"

definition remember_rx :: "byte \<Rightarrow> byte list \<Rightarrow> modbus_comm \<Rightarrow> modbus_comm" where
  "remember_rx fc pdu c =
     c\<lparr>mc_history := (mc_history c)[mc_next c := Some (fc, pdu)],
       mc_next := (mc_next c + 1) mod LAST_RX_HISTORY\<rparr>"

text \<open>The loop that listens after a transmission at time \<open>start\<close>, and how it ends.\<close>

datatype outcome = Answer "byte list" | Refused | NoAnswer

function listen :: "byte \<Rightarrow> nat \<Rightarrow> int \<Rightarrow> modbus_comm \<Rightarrow> outcome \<times> modbus_comm" where
  "listen fc rxsz start c =
     (case modbus_rx c of
        (None, c') \<Rightarrow> (NoAnswer, c')
      | (Some frm, c') \<Rightarrow>
          (let elapsed = tv_diff_ms start (mc_now c')
           in if elapsed > TOTAL_REQUEST_TIMEOUT_MS then (NoAnswer, c')
              else case judge fc rxsz elapsed frm c' of
                     Discard \<Rightarrow> listen fc rxsz start c'
                   | Fatal \<Rightarrow> (Refused, c')
                   | Accept \<Rightarrow> (Answer (frame_pdu rxsz frm), remember_rx fc (frame_pdu rxsz frm) c')))"
  by pat_completeness auto

termination
  by (relation "measure (\<lambda>(fc, rxsz, start, c). line_weight (mc_line c))")
    (auto dest: modbus_rx_step(4) [OF sym])

declare listen.simps [simp del]

fun attempts :: "nat \<Rightarrow> byte \<Rightarrow> byte list \<Rightarrow> nat \<Rightarrow> modbus_comm \<Rightarrow> byte list option \<times> modbus_comm" where
  "attempts 0 fc frm rxsz c = (None, c)"
| "attempts (Suc n) fc frm rxsz c =
     (let (ok, c1) = modbus_tx frm c
      in if \<not> ok then (None, c1)
         else case listen fc rxsz (mc_now c1) c1 of
                (Answer pdu, c2) \<Rightarrow> (Some pdu, c2)
              | (Refused, c2) \<Rightarrow> (None, c2)
              | (NoAnswer, c2) \<Rightarrow> attempts n fc frm rxsz c2)"

definition request_frame :: "byte \<Rightarrow> byte list \<Rightarrow> modbus_comm \<Rightarrow> byte list" where
  "request_frame fc txpdu c = with_crc (mc_slaveaddr c # fc # txpdu)"

text \<open>Two retries: three attempts.\<close>

definition send_and_wait :: "byte \<Rightarrow> byte list \<Rightarrow> nat \<Rightarrow> modbus_comm \<Rightarrow> byte list option \<times> modbus_comm" where
  "send_and_wait fc txpdu rxsz c =
     (if length txpdu > MODBUS_MAX_PDU_SZ \<or> rxsz > MODBUS_MAX_PDU_SZ then (None, c)
      else attempts 3 fc (request_frame fc txpdu c) rxsz c)"

subsection \<open>Registers\<close>

text \<open>A byte count in the response that is not \<open>2 * nregs\<close> is logged, and nothing more.\<close>

definition read_register :: "nat \<Rightarrow> nat \<Rightarrow> modbus_comm \<Rightarrow> byte list option \<times> modbus_comm" where
  "read_register reg nregs c =
     (let nbytes = nregs * 2
      in if \<not> mc_open c then (None, c)
         else let (r, c') = send_and_wait MODBUS_FC_READ_HOLDING_REGS (hi_lo reg @ hi_lo nregs) (nbytes + 1) c
              in (map_option (\<lambda>rxpdu. take nbytes (drop 1 rxpdu)) r, c'))"

definition write_register :: "nat \<Rightarrow> nat \<Rightarrow> byte list \<Rightarrow> modbus_comm \<Rightarrow> bool \<times> modbus_comm" where
  "write_register reg nregs data c =
     (let nbytes = nregs * 2; txpdu = hi_lo reg @ hi_lo nregs @ of_nat nbytes # take nbytes data
      in if \<not> mc_open c then (False, c)
         else let (r, c') = send_and_wait MODBUS_FC_WRITE_MULTIPLE_REGS txpdu 4 c
              in (case r of None \<Rightarrow> False | Some rxpdu \<Rightarrow> take 4 rxpdu = take 4 txpdu, c'))"

text \<open>Time only goes forward, through any request.\<close>

lemma listen_time: "mc_now c \<le> mc_now (snd (listen fc rxsz start c))"
proof (induction fc rxsz start c rule: listen.induct)
  case (1 fc rxsz start c)
  obtain r c1 where rx: "modbus_rx c = (r, c1)" by (rule prod.exhaust)
  note step = modbus_rx_step [OF rx]
  show ?case
  proof (cases r)
    case None
    then show ?thesis using rx step by (simp add: listen.simps [of fc rxsz start c])
  next
    case (Some frm)
    then show ?thesis
      using 1 [OF rx [symmetric] Some refl] rx step(1)
      by (auto simp: listen.simps [of fc rxsz start c] Let_def remember_rx_def split: verdict.splits)
  qed
qed

lemma attempts_time: "mc_now c \<le> mc_now (snd (attempts n fc frm rxsz c))"
proof (induction n arbitrary: c)
  case (Suc n)
  obtain ok c1 where tx: "modbus_tx frm c = (ok, c1)" by (rule prod.exhaust)
  obtain r c2 where l: "listen fc rxsz (mc_now c1) c1 = (r, c2)" by (rule prod.exhaust)
  have "mc_now c \<le> mc_now c1" "mc_now c1 \<le> mc_now c2"
    using modbus_tx_step(1) [OF tx] listen_time [of c1 fc rxsz "mc_now c1"] l by simp_all
  then show ?case using tx l Suc [of c2] by (auto split: outcome.split)
qed simp

lemma register_time [simp]:
  "mc_now c \<le> mc_now (snd (read_register reg nregs c))"
  "mc_now c \<le> mc_now (snd (write_register reg nregs data c))"
  using attempts_time by (auto simp: read_register_def write_register_def send_and_wait_def Let_def split_beta)

lemma open_close_time [simp]:
  "mc_now (snd (comm_open dev c)) = mc_now c" "mc_now (snd (comm_close c)) = mc_now c"
  by (simp_all add: comm_open_def comm_close_def split_beta)

subsection \<open>What an answer is\<close>

lemma judge_Accept:
  assumes "judge fc rxsz elapsed frm c = Accept"
  shows "frm = with_crc (mc_slaveaddr c # fc # frame_pdu rxsz frm)"
    and "length (frame_pdu rxsz frm) = rxsz"
    and "Some (fc, frame_pdu rxsz frm) \<in> set (mc_history c) \<Longrightarrow> elapsed > 2400"
proof -
  have sz: "length frm = rxsz + 4" and good: "crc_good frm"
    and start: "frm ! 0 = mc_slaveaddr c" "frm ! 1 = fc"
    and stale: "elapsed \<le> 2400 \<Longrightarrow> \<not> stale_duplicate fc rxsz frm c"
    using assms by (auto simp: judge_def Let_def not_less split: if_splits)
  define body t where "body = take (rxsz + 2) frm" and "t = drop (rxsz + 2) frm"
  have frm: "frm = body @ t" and t: "length t = 2" using sz by (auto simp: body_def t_def)
  obtain a b r where "frm = a # b # r" using sz by (auto simp: length_Suc_conv numeral_2_eq_2 eval_nat_numeral)
  then have body: "body = mc_slaveaddr c # fc # frame_pdu rxsz frm"
    using start by (simp add: body_def frame_pdu_def)
  show "frm = with_crc (mc_slaveaddr c # fc # frame_pdu rxsz frm)"
  proof -
    have "t = crc_bytes (modbus_crc body)" using good t unfolding frm by (simp add: crc_good_append)
    then have "frm = with_crc body" using frm by (simp add: with_crc_def)
    then show ?thesis unfolding body .
  qed
  show "length (frame_pdu rxsz frm) = rxsz" using sz by (simp add: frame_pdu_def)
  show "Some (fc, frame_pdu rxsz frm) \<in> set (mc_history c) \<Longrightarrow> elapsed > 2400"
    using stale by (force simp: stale_duplicate_def)
qed

text \<open>The calls of the line that make up an exchange: listening, and sending the request.\<close>

definition rx_step :: "modbus_comm \<Rightarrow> modbus_comm \<Rightarrow> bool" where
  "rx_step c c' \<longleftrightarrow> c' = snd (modbus_rx c)"

definition exchange_step :: "byte list \<Rightarrow> modbus_comm \<Rightarrow> modbus_comm \<Rightarrow> bool" where
  "exchange_step req c c' \<longleftrightarrow> rx_step c c' \<or> c' = snd (modbus_tx req c)"

lemma rx_stepI: "modbus_rx c = (r, c') \<Longrightarrow> rx_step c c'"
  by (simp add: rx_step_def)

lemma exchange_rx: "rx_step\<^sup>*\<^sup>* c c' \<Longrightarrow> (exchange_step req)\<^sup>*\<^sup>* c c'"
  by (induction rule: rtranclp_induct) (auto simp: exchange_step_def intro: rtranclp.rtrancl_into_rtrancl)

lemma rx_steps_sent: "rx_step\<^sup>*\<^sup>* c c' \<Longrightarrow> line_sent (mc_line c') = line_sent (mc_line c)"
  by (induction rule: rtranclp_induct) (auto simp: rx_step_def modbus_rx_step(3) [OF prod.collapse [symmetric]])

lemma listen_heard: "rx_step\<^sup>*\<^sup>* c (snd (listen fc rxsz start c)) \<or> (\<exists>pdu. fst (listen fc rxsz start c) = Answer pdu)"
proof (induction fc rxsz start c rule: listen.induct)
  case (1 fc rxsz start c)
  obtain r c1 where rx: "modbus_rx c = (r, c1)" by (rule prod.exhaust)
  show ?case
  proof (cases r)
    case None
    then show ?thesis using rx rx_stepI [OF rx] by (simp add: listen.simps [of fc rxsz start c] r_into_rtranclp)
  next
    case (Some frm)
    then show ?thesis
      using 1 [OF rx [symmetric] Some refl] rx rx_stepI [OF rx]
      by (auto simp: listen.simps [of fc rxsz start c] Let_def split: verdict.splits
          intro: converse_rtranclp_into_rtranclp r_into_rtranclp)
  qed
qed

lemma listen_answer:
  "listen fc rxsz start c = (Answer pdu, c') \<Longrightarrow>
    \<exists>c1 frm c2. rx_step\<^sup>*\<^sup>* c c1 \<and> modbus_rx c1 = (Some frm, c2) \<and> mc_history c2 = mc_history c \<and>
      mc_slaveaddr c2 = mc_slaveaddr c \<and> tv_diff_ms start (mc_now c2) \<le> 3000 \<and>
      judge fc rxsz (tv_diff_ms start (mc_now c2)) frm c2 = Accept \<and> pdu = frame_pdu rxsz frm \<and>
      c' = remember_rx fc pdu c2"
proof (induction fc rxsz start c rule: listen.induct)
  case (1 fc rxsz start c)
  obtain r c1 where rx: "modbus_rx c = (r, c1)" by (rule prod.exhaust)
  note step = modbus_rx_step [OF rx]
  from 1(2) rx obtain frm where r: "r = Some frm" by (cases r) (auto simp: listen.simps [of fc rxsz start c])
  define elapsed where "elapsed = tv_diff_ms start (mc_now c1)"
  have le: "elapsed \<le> 3000"
    using 1(2) rx r by (auto simp: listen.simps [of fc rxsz start c] Let_def elapsed_def [symmetric]
        split: if_splits)
  show ?case
  proof (cases "judge fc rxsz elapsed frm c1")
    case Discard
    then have "listen fc rxsz start c1 = (Answer pdu, c')"
      using 1(2) rx r le by (simp add: listen.simps [of fc rxsz start c] Let_def elapsed_def [symmetric])
    from 1(1) [OF rx [symmetric] r elapsed_def _ Discard this] le
    obtain c2 frm2 c3 where found: "rx_step\<^sup>*\<^sup>* c1 c2" "modbus_rx c2 = (Some frm2, c3)"
        "mc_history c3 = mc_history c1" "mc_slaveaddr c3 = mc_slaveaddr c1"
        "tv_diff_ms start (mc_now c3) \<le> 3000"
        "judge fc rxsz (tv_diff_ms start (mc_now c3)) frm2 c3 = Accept" "pdu = frame_pdu rxsz frm2"
        "c' = remember_rx fc pdu c3"
      by auto
    have "rx_step\<^sup>*\<^sup>* c c2" using found(1) rx by (meson converse_rtranclp_into_rtranclp rx_stepI)
    with found step show ?thesis by (intro exI [of _ c2] exI [of _ frm2] exI [of _ c3]) simp
  next
    case Fatal
    then show ?thesis
      using 1(2) rx r le by (simp add: listen.simps [of fc rxsz start c] Let_def elapsed_def [symmetric])
  next
    case Accept
    then have "pdu = frame_pdu rxsz frm" "c' = remember_rx fc pdu c1"
      using 1(2) rx r le by (auto simp: listen.simps [of fc rxsz start c] Let_def elapsed_def [symmetric])
    then show ?thesis
      using rx r le Accept step by (intro exI [of _ c] exI [of _ frm] exI [of _ c1]) (simp add: elapsed_def)
  qed
qed

lemma listen_frame:
  "listen fc rxsz start c = (NoAnswer, c') \<Longrightarrow>
    mc_history c' = mc_history c \<and> mc_slaveaddr c' = mc_slaveaddr c"
proof (induction fc rxsz start c rule: listen.induct)
  case (1 fc rxsz start c)
  obtain r c1 where rx: "modbus_rx c = (r, c1)" by (rule prod.exhaust)
  note step = modbus_rx_step [OF rx]
  show ?case
  proof (cases r)
    case None
    then show ?thesis using 1(2) rx step by (simp add: listen.simps [of fc rxsz start c])
  next
    case (Some frm)
    then show ?thesis
      using 1(1) [OF rx [symmetric] Some refl] 1(2) rx step
      by (auto simp: listen.simps [of fc rxsz start c] Let_def split: if_splits verdict.splits)
  qed
qed

lemma attempts_answer:
  "attempts n fc frm rxsz c = (Some pdu, c') \<Longrightarrow>
    \<exists>c0 c1. (exchange_step frm)\<^sup>*\<^sup>* c c0 \<and> modbus_tx frm c0 = (True, c1) \<and>
      mc_history c1 = mc_history c \<and> mc_slaveaddr c1 = mc_slaveaddr c \<and>
      length (line_sent (mc_line c1)) \<le> length (line_sent (mc_line c)) + n \<and>
      listen fc rxsz (mc_now c1) c1 = (Answer pdu, c')"
proof (induction n arbitrary: c)
  case (Suc n)
  obtain ok c1 where tx: "modbus_tx frm c = (ok, c1)" by (rule prod.exhaust)
  obtain r c2 where l: "listen fc rxsz (mc_now c1) c1 = (r, c2)" by (rule prod.exhaust)
  have ok: "ok" using Suc.prems tx by (cases ok) auto
  note step = modbus_tx_step [OF tx]
  show ?case
  proof (cases r)
    case (Answer p)
    then have "p = pdu" "c2 = c'" using Suc.prems tx ok l by auto
    then show ?thesis using tx ok l Answer step(3,4,6) by (intro exI [of _ c] exI [of _ c1]) simp
  next
    case Refused
    then show ?thesis using Suc.prems tx ok l by auto
  next
    case NoAnswer
    then have "attempts n fc frm rxsz c2 = (Some pdu, c')" using Suc.prems tx ok l by auto
    from Suc.IH [OF this] obtain c3 c4 where found: "(exchange_step frm)\<^sup>*\<^sup>* c2 c3"
        "modbus_tx frm c3 = (True, c4)" "mc_history c4 = mc_history c2" "mc_slaveaddr c4 = mc_slaveaddr c2"
        "length (line_sent (mc_line c4)) \<le> length (line_sent (mc_line c2)) + n"
        "listen fc rxsz (mc_now c4) c4 = (Answer pdu, c')"
      by blast
    have heard: "rx_step\<^sup>*\<^sup>* c1 c2" using listen_heard [of c1 fc rxsz "mc_now c1"] l NoAnswer by simp
    have "exchange_step frm c c1" using tx by (simp add: exchange_step_def)
    then have "(exchange_step frm)\<^sup>*\<^sup>* c c3"
      using exchange_rx [OF heard] found(1) by (meson converse_rtranclp_into_rtranclp rtranclp_trans)
    then show ?thesis
      using found(2-) listen_frame [OF l [unfolded NoAnswer]] step(3,4,6) rx_steps_sent [OF heard]
      by (intro exI [of _ c3] exI [of _ c4]) simp
  qed
qed simp

text \<open>
  C18: What \<open>SendAndWait\<close> returns was heard in that very exchange: among the calls of the line that lead
  from the state it was called in to the one it leaves, there is a transmission of the request,
  the third one at most, and behind it, with nothing sent any more, the reception of a frame of
  exactly the expected size with a good checksum, the address of the slave and the function code
  asked for, whose data are the answer. It came at most three seconds after the request was sent;
  if it repeats one of the last six answers, more than 2400 ms after it; and it is then
  remembered, and nothing else is done.
\<close>

theorem accepted_answer:
  assumes "send_and_wait fc txpdu rxsz c = (Some pdu, c')"
  shows "length pdu = rxsz \<and> length (line_sent (mc_line c')) \<le> length (line_sent (mc_line c)) + 3 \<and>
    (\<exists>c0 c1 c2 c3. (exchange_step (request_frame fc txpdu c))\<^sup>*\<^sup>* c c0 \<and>
       modbus_tx (request_frame fc txpdu c) c0 = (True, c1) \<and> rx_step\<^sup>*\<^sup>* c1 c2 \<and>
       modbus_rx c2 = (Some (with_crc (mc_slaveaddr c # fc # pdu)), c3) \<and>
       tv_diff_ms (mc_now c1) (mc_now c3) \<le> 3000 \<and>
       (Some (fc, pdu) \<in> set (mc_history c) \<longrightarrow> tv_diff_ms (mc_now c1) (mc_now c3) > 2400) \<and>
       c' = remember_rx fc pdu c3)"
proof -
  have "attempts 3 fc (request_frame fc txpdu c) rxsz c = (Some pdu, c')"
    using assms by (auto simp: send_and_wait_def split: if_splits)
  then obtain c0 c1 where sent: "(exchange_step (request_frame fc txpdu c))\<^sup>*\<^sup>* c c0"
      "modbus_tx (request_frame fc txpdu c) c0 = (True, c1)"
      "length (line_sent (mc_line c1)) \<le> length (line_sent (mc_line c)) + 3"
    and c1: "mc_history c1 = mc_history c" "mc_slaveaddr c1 = mc_slaveaddr c"
    and l: "listen fc rxsz (mc_now c1) c1 = (Answer pdu, c')"
    using attempts_answer by blast
  obtain c2 frm c3 where rx: "rx_step\<^sup>*\<^sup>* c1 c2" "modbus_rx c2 = (Some frm, c3)"
      "mc_history c3 = mc_history c" "mc_slaveaddr c3 = mc_slaveaddr c"
      "tv_diff_ms (mc_now c1) (mc_now c3) \<le> 3000" "c' = remember_rx fc pdu c3"
    and j: "judge fc rxsz (tv_diff_ms (mc_now c1) (mc_now c3)) frm c3 = Accept"
    and pdu: "pdu = frame_pdu rxsz frm"
    using listen_answer [OF l] c1 by auto
  note frame = judge_Accept [OF j, folded pdu]
  have "line_sent (mc_line c') = line_sent (mc_line c1)"
    using modbus_rx_step(3) [OF rx(2)] rx_steps_sent [OF rx(1)] rx(6) by (simp add: remember_rx_def)
  then show ?thesis using frame sent rx by (intro conjI exI [of _ c0] exI [of _ c1] exI [of _ c2] exI [of _ c3]) simp_all
qed

subsection \<open>Exchanges on a serial line\<close>

text \<open>
  A serial line at time \<open>now\<close>, with \<open>w\<close> to come and \<open>sent\<close> behind it, whose writes succeed; and
  silence on it up to and including time \<open>t\<close>.
\<close>

definition serial_at :: "int \<Rightarrow> (int \<times> serial_event) list \<Rightarrow> byte list list \<Rightarrow> modbus_comm \<Rightarrow> bool" where
  "serial_at now w sent c \<longleftrightarrow> mc_now c = now \<and>
     (\<exists>p. mc_line c = Serial p \<and> sp_writes p = [] \<and> sp_wire p = w \<and> sp_sent p = sent)"

definition silent_until :: "int \<Rightarrow> (int \<times> serial_event) list \<Rightarrow> bool" where
  "silent_until t w \<longleftrightarrow> (case w of [] \<Rightarrow> True | (t', _) # _ \<Rightarrow> t < t')"

definition same_link :: "modbus_comm \<Rightarrow> modbus_comm \<Rightarrow> bool" where
  "same_link c c' \<longleftrightarrow> mc_history c' = mc_history c \<and> mc_next c' = mc_next c \<and>
     mc_slaveaddr c' = mc_slaveaddr c \<and> mc_open c' = mc_open c"

lemma same_link_trans: "same_link a b \<Longrightarrow> same_link b c \<Longrightarrow> same_link a c"
  by (simp add: same_link_def)

lemma serial_idle_silent:
  "silent_until (now + 500000) w \<Longrightarrow> serial_idle_loop quit now w = (True, now + 500000, w)"
  by (cases w) (auto simp: silent_until_def)

lemma serial_rx_silent:
  "silent_until (now + timeout) w \<Longrightarrow>
    serial_rx_loop timeout frm now w = (if frm \<noteq> [] then Some frm else None, now + timeout, w)"
  by (cases w) (auto simp: silent_until_def)

lemma serial_tx_exchange:
  assumes "serial_at now w sent c" "silent_until (now + 500000) w"
  shows "\<exists>c'. modbus_tx frm c = (True, c') \<and> serial_at (now + 500000) w (sent @ [frm]) c' \<and>
    same_link c c'"
  using assms
  by (auto simp: serial_at_def same_link_def modbus_tx_def serial_tx_def serial_idle_def serial_idle_silent next_write_def)

lemma serial_rx_exchange:
  assumes "serial_at now ((t, SerialBytes frm) # w) sent c" "now \<le> t" "t \<le> now + 1000000"
    and "frm \<noteq> []" "length frm < 256" "silent_until (t + 25000) w"
  shows "\<exists>c'. modbus_rx c = (Some frm, c') \<and> serial_at (t + 25000) w sent c' \<and>
    same_link c c'"
  using assms
  by (auto simp: serial_at_def same_link_def modbus_rx_def serial_rx_def Let_def serial_rx_silent max_def)

lemma serial_rx_timeout:
  assumes "serial_at now w sent c" "silent_until (now + 1000000) w"
  shows "\<exists>c'. modbus_rx c = (None, c') \<and> serial_at (now + 1000000) w sent c' \<and>
    same_link c c'"
  using assms by (auto simp: serial_at_def same_link_def modbus_rx_def serial_rx_def serial_rx_silent)

lemma silent_mono: "silent_until t w \<Longrightarrow> t' \<le> t \<Longrightarrow> silent_until t' w"
  by (auto simp: silent_until_def split: list.splits)

text \<open>The verdict on a well-formed answer that is in time.\<close>

lemma judge_answer:
  assumes "frm = with_crc (mc_slaveaddr c # fc # pdu)" "fc \<noteq> fc OR 0x80" "elapsed \<le> 2400"
  shows "judge fc (length pdu) elapsed frm c =
      (if Some (fc, pdu) \<in> set (mc_history c) then Discard else Accept)"
    and "frame_pdu (length pdu) frm = pdu"
  using assms with_crc_good [of "mc_slaveaddr c # fc # pdu"]
  by (auto simp: judge_def Let_def stale_duplicate_def frame_pdu_def with_crc_def nth_append)

lemma fc_plain: "(3 :: byte) \<noteq> 3 OR 0x80" "(0x10 :: byte) \<noteq> 0x10 OR 0x80"
  by simp_all

text \<open>An answer that repeats a remembered one: it is dropped, and the attempt runs out of time.\<close>

lemma listen_repeated:
  assumes "serial_at now ((t, SerialBytes frm) # w) sent c" "now \<le> t" "t \<le> now + 1000000"
    and frm: "frm = with_crc (mc_slaveaddr c # fc # pdu)" and "fc \<noteq> fc OR 0x80" "length pdu < 252"
    and "Some (fc, pdu) \<in> set (mc_history c)" "silent_until (t + 1025000) w"
  shows "\<exists>c'. listen fc (length pdu) now c = (NoAnswer, c') \<and> serial_at (t + 1025000) w sent c' \<and>
    same_link c c'"
proof -
  obtain c1 where rx: "modbus_rx c = (Some frm, c1)" "serial_at (t + 25000) w sent c1"
    and c1: "same_link c c1"
    using serial_rx_exchange [OF assms(1-3), of] assms(6) silent_mono [OF assms(8), of "t + 25000"]
    by (fastforce simp: frm with_crc_def)
  obtain c2 where rx2: "modbus_rx c1 = (None, c2)" "serial_at (t + 25000 + 1000000) w sent c2"
    and c2: "same_link c1 c2"
    using serial_rx_timeout [OF rx(2)] assms(8) by (auto simp: add.commute)
  have now: "mc_now c1 = t + 25000" using rx(2) by (simp add: serial_at_def)
  have el: "tv_diff_ms now (t + 25000) \<le> 2400"
    using tv_diff_ms_bounds(1) [of now "t + 25000"] assms(3) by linarith
  have "judge fc (length pdu) (tv_diff_ms now (t + 25000)) frm c1 = Discard"
    using judge_answer(1) [of frm c1 fc pdu] frm c1 assms(5,7) el by (simp add: same_link_def)
  then have "listen fc (length pdu) now c = (NoAnswer, c2)"
    using rx(1) rx2(1) el now by (simp add: listen.simps [of _ _ _ c] listen.simps [of _ _ _ c1] Let_def)
  then show ?thesis using rx2(2) same_link_trans [OF c1 c2] by (auto simp: add.commute)
qed

lemma listen_fresh:
  assumes "serial_at now ((t, SerialBytes frm) # w) sent c" "now \<le> t" "t \<le> now + 1000000"
    and frm: "frm = with_crc (mc_slaveaddr c # fc # pdu)" and "fc \<noteq> fc OR 0x80" "length pdu < 252"
    and "Some (fc, pdu) \<notin> set (mc_history c)" "silent_until (t + 25000) w"
  shows "\<exists>c'. listen fc (length pdu) now c = (Answer pdu, c') \<and> serial_at (t + 25000) w sent c' \<and>
    mc_history c' = (mc_history c)[mc_next c := Some (fc, pdu)] \<and> mc_slaveaddr c' = mc_slaveaddr c \<and>
    mc_open c' = mc_open c \<and> mc_next c' = (mc_next c + 1) mod 6"
proof -
  obtain c1 where rx: "modbus_rx c = (Some frm, c1)" "serial_at (t + 25000) w sent c1"
    and c1: "same_link c c1"
    using serial_rx_exchange [OF assms(1-3), of] assms(6,8) by (fastforce simp: frm with_crc_def)
  have now: "mc_now c1 = t + 25000" using rx(2) by (simp add: serial_at_def)
  have el: "tv_diff_ms now (t + 25000) \<le> 2400"
    using tv_diff_ms_bounds(1) [of now "t + 25000"] assms(3) by linarith
  have "judge fc (length pdu) (tv_diff_ms now (t + 25000)) frm c1 = Accept"
    and "frame_pdu (length pdu) frm = pdu"
    using judge_answer [of frm c1 fc pdu] frm c1 assms(5,7) el by (simp_all add: same_link_def)
  then have "listen fc (length pdu) now c = (Answer pdu, remember_rx fc pdu c1)"
    using rx(1) el now by (simp add: listen.simps [of _ _ _ c] Let_def)
  then show ?thesis using rx(2) c1 by (auto simp: remember_rx_def serial_at_def same_link_def)
qed

text \<open>
  A device that answers each transmission with the same frame, \<open>d\<close> microseconds after it, while
  the driver transmits whenever it may.
\<close>

fun replies :: "int \<Rightarrow> int \<Rightarrow> byte list \<Rightarrow> nat \<Rightarrow> (int \<times> serial_event) list" where
  "replies now d frm 0 = []"
| "replies now d frm (Suc n) =
     (now + 500000 + d, SerialBytes frm) # replies (now + d + 1525000) d frm n"

lemma attempts_repeated:
  assumes "0 < d" "d \<le> 1000000" "fc \<noteq> fc OR 0x80" "length pdu < 252"
  shows "serial_at now (replies now d (with_crc (mc_slaveaddr c # fc # pdu)) n @ w) sent c \<Longrightarrow>
    silent_until (now + int n * (d + 1525000)) w \<Longrightarrow> Some (fc, pdu) \<in> set (mc_history c) \<Longrightarrow>
    \<exists>c'. attempts n fc frm (length pdu) c = (None, c') \<and>
      serial_at (now + int n * (d + 1525000)) w (sent @ replicate n frm) c' \<and> same_link c c'"
proof (induction n arbitrary: now sent c)
  case 0
  then show ?case by (simp add: same_link_def)
next
  case (Suc n)
  define reply where "reply = with_crc (mc_slaveaddr c # fc # pdu)"
  define v where "v = replies (now + d + 1525000) d reply n @ w"
  have v: "silent_until (now + d + 1525000) v"
    using assms(1) Suc.prems(2) by (cases n) (simp_all add: v_def silent_until_def algebra_simps)
  have at: "serial_at now ((now + 500000 + d, SerialBytes reply) # v) sent c"
    using Suc.prems(1) by (simp add: v_def reply_def)
  obtain c1 where tx: "modbus_tx frm c = (True, c1)"
      "serial_at (now + 500000) ((now + 500000 + d, SerialBytes reply) # v) (sent @ [frm]) c1"
      "same_link c c1"
    using serial_tx_exchange [OF at, of frm] assms(1) by (auto simp: silent_until_def)
  obtain c2 where rx: "listen fc (length pdu) (now + 500000) c1 = (NoAnswer, c2)"
      "serial_at (now + d + 1525000) v (sent @ [frm]) c2" "same_link c1 c2"
  proof -
    have sum: "now + 500000 + d + 1025000 = now + d + 1525000" by simp
    show ?thesis
      using listen_repeated [OF tx(2) _ _ _ assms(3,4)] tx(3) Suc.prems(3) assms(1,2) v that
      unfolding sum by (auto simp: reply_def same_link_def)
  qed
  have link: "same_link c c2" using same_link_trans [OF tx(3) rx(3)] .
  have "serial_at (now + d + 1525000) (replies (now + d + 1525000) d (with_crc (mc_slaveaddr c2 # fc # pdu)) n @ w)
      (sent @ [frm]) c2"
    using rx(2) link by (simp add: v_def reply_def same_link_def)
  moreover have "silent_until (now + d + 1525000 + int n * (d + 1525000)) w"
    using Suc.prems(2) by (simp add: algebra_simps)
  ultimately obtain c3 where "attempts n fc frm (length pdu) c2 = (None, c3)"
      "serial_at (now + d + 1525000 + int n * (d + 1525000)) w ((sent @ [frm]) @ replicate n frm) c3"
      "same_link c2 c3"
    using Suc.IH [of "now + d + 1525000" c2 "sent @ [frm]"] Suc.prems(3) link by (auto simp: same_link_def)
  moreover have "mc_now c1 = now + 500000" using tx(2) by (simp add: serial_at_def)
  ultimately show ?case
    using tx(1) rx(1) same_link_trans [OF link] by (auto simp: algebra_simps)
qed

lemma length_hi_lo [simp]: "length (hi_lo n) = 2"
  by (simp add: hi_lo_def)

lemma read_register_attempts:
  "mc_open c \<Longrightarrow> nregs \<le> 125 \<Longrightarrow>
    read_register reg nregs c =
      (let (r, c') = attempts 3 3 (request_frame 3 (hi_lo reg @ hi_lo nregs) c) (Suc (2 * nregs)) c
       in (map_option (\<lambda>rxpdu. take (2 * nregs) (drop 1 rxpdu)) r, c'))"
  by (simp add: read_register_def send_and_wait_def mult.commute Let_def)

lemma read_repeated:
  assumes "serial_at now (replies now d (with_crc (mc_slaveaddr c # 3 # pdu)) 3 @ w) sent c"
    and "silent_until (now + 3 * (d + 1525000)) w"
    and "mc_open c" "0 < d" "d \<le> 1000000" "length pdu = 2 * nregs + 1" "nregs \<le> 125"
    and "Some (3, pdu) \<in> set (mc_history c)"
  shows "\<exists>c'. read_register reg nregs c = (None, c') \<and> same_link c c' \<and>
    serial_at (now + 3 * (d + 1525000)) w (sent @ replicate 3 (request_frame 3 (hi_lo reg @ hi_lo nregs) c)) c'"
proof -
  have "length pdu < 252" using assms(6,7) by simp
  with attempts_repeated [OF assms(4,5) fc_plain(1) _ assms(1) _ assms(8), of "request_frame 3 (hi_lo reg @ hi_lo nregs) c"]
  show ?thesis using assms(2,3,6,7) by (auto simp: read_register_attempts)
qed

text \<open>
  A read of a register whose answer is among the last six accepted ones is refused: the device
  answers every transmission promptly and correctly, and the driver drops the answer, waits a
  second for another one, and repeats the request, three times in all. The rule that a
  repetition is accepted after 2400 ms does not help, since that time starts anew with each
  transmission.
\<close>

theorem repeated_answer_refused:
  assumes "serial_at now (replies now d (with_crc (mc_slaveaddr c # 3 # pdu)) 3) sent c"
    and "mc_open c" "0 < d" "d \<le> 1000000" "length pdu = 2 * nregs + 1" "nregs \<le> 125"
    and "Some (3, pdu) \<in> set (mc_history c)"
  shows "\<exists>c'. read_register reg nregs c = (None, c') \<and>
    serial_at (now + 3 * (d + 1525000)) [] (sent @ replicate 3 (request_frame 3 (hi_lo reg @ hi_lo nregs) c)) c'"
  using read_repeated [of now d c pdu "[]" sent nregs reg] assms by (auto simp: silent_until_def)

lemma send_fresh:
  assumes "serial_at now ((t, SerialBytes (with_crc (mc_slaveaddr c # fc # pdu))) # w) sent c"
    and "now + 500000 < t" "t \<le> now + 1500000" "silent_until (t + 25000) w"
    and "length pdu < 252" "length txpdu \<le> 252" "fc \<noteq> fc OR 0x80"
    and "Some (fc, pdu) \<notin> set (mc_history c)"
  shows "\<exists>c'. send_and_wait fc txpdu (length pdu) c = (Some pdu, c') \<and>
    serial_at (t + 25000) w (sent @ [request_frame fc txpdu c]) c' \<and>
    mc_history c' = (mc_history c)[mc_next c := Some (fc, pdu)] \<and> mc_slaveaddr c' = mc_slaveaddr c \<and>
    mc_open c' = mc_open c \<and> mc_next c' = (mc_next c + 1) mod 6"
proof -
  let ?req = "request_frame fc txpdu c"
  obtain c1 where tx: "modbus_tx ?req c = (True, c1)" "same_link c c1"
      "serial_at (now + 500000) ((t, SerialBytes (with_crc (mc_slaveaddr c # fc # pdu))) # w) (sent @ [?req]) c1"
    using serial_tx_exchange [OF assms(1), of ?req] assms(2) by (auto simp: silent_until_def)
  obtain c2 where rx: "listen fc (length pdu) (now + 500000) c1 = (Answer pdu, c2)"
      "serial_at (t + 25000) w (sent @ [?req]) c2"
      "mc_history c2 = (mc_history c1)[mc_next c1 := Some (fc, pdu)]" "mc_slaveaddr c2 = mc_slaveaddr c1"
      "mc_open c2 = mc_open c1" "mc_next c2 = (mc_next c1 + 1) mod 6"
    using listen_fresh [OF tx(3) _ _ _ assms(7), of pdu] tx(2) assms(2-5,8)
    by (fastforce simp: same_link_def)
  have "mc_now c1 = now + 500000" using tx(3) by (simp add: serial_at_def)
  then have "attempts 3 fc ?req (length pdu) c = (Some pdu, c2)"
    using tx(1) rx(1) by (simp add: numeral_3_eq_3)
  then show ?thesis
    using rx tx(2) assms(5,6) by (auto simp: send_and_wait_def same_link_def)
qed

lemma read_register_fresh:
  assumes "serial_at now ((t, SerialBytes (with_crc (mc_slaveaddr c # 3 # count # data))) # w) sent c"
    and "now + 500000 < t" "t \<le> now + 1500000" "silent_until (t + 25000) w"
    and "mc_open c" "length data = 2 * nregs" "nregs \<le> 125"
    and "Some (3, count # data) \<notin> set (mc_history c)"
  shows "\<exists>c'. read_register reg nregs c = (Some data, c') \<and>
    serial_at (t + 25000) w (sent @ [request_frame 3 (hi_lo reg @ hi_lo nregs) c]) c' \<and>
    mc_history c' = (mc_history c)[mc_next c := Some (3, count # data)] \<and>
    mc_slaveaddr c' = mc_slaveaddr c \<and> mc_open c' = mc_open c \<and> mc_next c' = (mc_next c + 1) mod 6"
  using send_fresh [of now t c 3 "count # data" w sent "hi_lo reg @ hi_lo nregs"] assms
  by (auto simp: read_register_def send_and_wait_def fc_plain Let_def mult.commute)

text \<open>
  An answer that is not among the last six accepted ones is taken at once, and what is read are
  its data bytes, whatever its byte count says.
\<close>

theorem prompt_answer_read:
  assumes "serial_at now ((t, SerialBytes (with_crc (mc_slaveaddr c # 3 # count # data))) # w) sent c"
    and "now + 500000 < t" "t \<le> now + 1500000" "silent_until (t + 25000) w"
    and "mc_open c" "length data = 2 * nregs" "nregs \<le> 125"
    and "Some (3, count # data) \<notin> set (mc_history c)"
  shows "\<exists>c'. read_register reg nregs c = (Some data, c') \<and>
    serial_at (t + 25000) w (sent @ [request_frame 3 (hi_lo reg @ hi_lo nregs) c]) c' \<and>
    mc_history c' = (mc_history c)[mc_next c := Some (3, count # data)]"
  using read_register_fresh [OF assms] by blast

subsection \<open>Exceptions on USB\<close>

lemma tv_diff_second: "tv_diff_ms now (now + 1000000) = 1000"
proof -
  have "(now + 1000000) div 1000000 = now div 1000000 + 1" by simp
  then show ?thesis by (simp add: tv_diff_ms_def)
qed

lemma usb_idle_silent:
  "(case w of [] \<Rightarrow> True | (t, _) # _ \<Rightarrow> now + 500000 < t) \<Longrightarrow>
    usb_idle_loop rxrpt (get_tod now + 2000 * 1000000) (get_tod now + 500 * 1000000) now w =
      (True, now + 500000, w)"
  by (cases w) (auto simp: remain_ms_def Let_def)

lemma exception_code: "fc OR 0x80 \<noteq> (3 :: byte)" "fc OR 0x80 \<noteq> (0x10 :: byte)"
proof -
  have "bit (fc OR 0x80) 7" by (simp add: bit_or_iff bit_numeral_word_iff)
  moreover have "\<not> bit (3 :: byte) 7" "\<not> bit (0x10 :: byte) 7" by simp_all
  ultimately show "fc OR 0x80 \<noteq> (3 :: byte)" "fc OR 0x80 \<noteq> (0x10 :: byte)" by metis+
qed

fun usb_replies :: "int \<Rightarrow> int \<Rightarrow> byte list \<Rightarrow> nat \<Rightarrow> (int \<times> usb_event) list" where
  "usb_replies now d rpt 0 = []"
| "usb_replies now d rpt (Suc n) =
     (now + 500000 + d, UsbReport rpt) # usb_replies (now + 500000 + d) d rpt n"

lemma usb_attempts_exception:
  assumes "0 < d" "d \<le> 1000000" "length rpt = 64" "rpt ! 2 = fc' OR 0x80" "length frm \<le> 65"
  shows "mc_line c = Usb p \<Longrightarrow> up_writes p = [] \<Longrightarrow> up_wire p = usb_replies (mc_now c) d rpt n \<Longrightarrow>
    rpt ! 0 = up_rxrpt p \<Longrightarrow>
    \<exists>c'. attempts n fc frm rxsz c = (None, c') \<and>
      line_sent (mc_line c') = up_sent p @ replicate n (usb_report (up_txrpt p) frm)"
proof (induction n arbitrary: c p)
  case (Suc n)
  define now where "now = mc_now c"
  define w where "w = usb_replies (now + 500000 + d) d rpt n"
  have wire: "up_wire p = (now + 500000 + d, UsbReport rpt) # w"
    using Suc.prems(3) by (simp add: now_def w_def)
  define p1 where "p1 = p\<lparr>up_sent := up_sent p @ [usb_report (up_txrpt p) frm]\<rparr>"
  define c1 where "c1 = c\<lparr>mc_now := now + 500000, mc_line := Usb p1\<rparr>"
  have tx: "modbus_tx frm c = (True, c1)"
    using Suc.prems(1,2) assms(1,5) usb_idle_silent [where w = "up_wire p" and now = now]
    by (simp add: modbus_tx_def usb_tx_def usb_idle_def now_def [symmetric] next_write_def p1_def
        c1_def wire)
  define c2 where "c2 = c1\<lparr>mc_now := now + 500000 + d, mc_line := Usb (p1\<lparr>up_wire := w\<rparr>)\<rparr>"
  have "usb_frame rpt = None"
    using exception_code assms(4) by (simp add: usb_frame_def usb_frame_size_def)
  then have "modbus_rx c1 = (None, c2)"
    using Suc.prems(4) assms(1,2,3) tv_diff_second [of "now + 500000"]
    by (simp add: modbus_rx_def usb_rx_def p1_def c1_def c2_def wire usb_result_def Let_def)
  then have listen: "listen fc rxsz (mc_now c1) c1 = (NoAnswer, c2)"
    by (simp add: listen.simps [of _ _ _ c1])
  have "\<exists>c'. attempts n fc frm rxsz c2 = (None, c') \<and> line_sent (mc_line c') =
      up_sent (p1\<lparr>up_wire := w\<rparr>) @ replicate n (usb_report (up_txrpt (p1\<lparr>up_wire := w\<rparr>)) frm)"
    by (rule Suc.IH) (use Suc.prems in \<open>simp_all add: c2_def p1_def w_def\<close>)
  then show ?case using tx listen by (auto simp: p1_def)
qed simp

text \<open>
  Over USB an exception response is not recognised: the device's refusal ends the reception like
  a timeout, and the request it refuses is transmitted three times.
\<close>

theorem usb_exception_retried:
  assumes "mc_line c = Usb p" "up_writes p = []" "up_wire p = usb_replies (mc_now c) d rpt 3"
    and "0 < d" "d \<le> 1000000" "length rpt = 64" "rpt ! 0 = up_rxrpt p" "rpt ! 2 = fc OR 0x80"
    and "length txpdu \<le> 61" "rxsz \<le> 252"
  shows "\<exists>c'. send_and_wait fc txpdu rxsz c = (None, c') \<and>
    line_sent (mc_line c') = up_sent p @ replicate 3 (usb_report (up_txrpt p) (request_frame fc txpdu c))"
  using usb_attempts_exception [OF assms(4-6,8) _ assms(1-3,7), of "request_frame fc txpdu c" fc rxsz] assms(9,10)
  by (simp add: send_and_wait_def request_frame_def)

subsection \<open>The properties at a concrete input\<close>

definition demo_serial :: "(int \<times> serial_event) list \<Rightarrow> modbus_comm" where
  "demo_serial w = (new_comm (Serial \<lparr>sp_fd = True, sp_open_ok = (\<lambda>_. True), sp_opens = 1, sp_writes = [],
     sp_wire = w, sp_sent = []\<rparr>) 0)\<lparr>mc_open := True\<rparr>"

definition demo_answer :: "byte list" where
  "demo_answer = with_crc [1, 3, 4, 0, 0, 0, 2]"

lemma demo_serial_at [simp]: "serial_at 0 w [] (demo_serial w)"
  by (simp add: serial_at_def demo_serial_def new_comm_def)

lemma demo_serial_fields [simp]:
  "mc_slaveaddr (demo_serial w) = 1" "mc_open (demo_serial w)" "mc_history (demo_serial w) = replicate 6 None"
  by (simp_all add: demo_serial_def new_comm_def)

theorem prompt_answer_read_witness:
  "fst (read_register 0 2 (demo_serial [(510000, SerialBytes demo_answer)])) = Some [0, 0, 0, 2]"
  using prompt_answer_read [of 0 510000 "demo_serial [(510000, SerialBytes demo_answer)]" 4 "[0, 0, 0, 2]" "[]" "[]" 2 0]
  by (auto simp: demo_answer_def [symmetric] silent_until_def)

lemma demo_exchange:
  "\<exists>c'. send_and_wait 3 [0, 0, 0, 2] 5 (demo_serial [(510000, SerialBytes demo_answer)]) = (Some [4, 0, 0, 0, 2], c')"
proof -
  let ?c = "demo_serial [(510000, SerialBytes demo_answer)]"
  have at: "serial_at 0 [(510000, SerialBytes (with_crc (mc_slaveaddr ?c # 3 # [4, 0, 0, 0, 2])))] [] ?c"
    by (simp add: demo_answer_def [symmetric])
  have "\<exists>c'. send_and_wait 3 [0, 0, 0, 2] (length [4, 0, 0, 0, 2 :: byte]) ?c = (Some [4, 0, 0, 0, 2], c')"
    using send_fresh [OF at, of "[0, 0, 0, 2]"] by (auto simp: silent_until_def)
  moreover have "length [4, 0, 0, 0, 2 :: byte] = 5" by simp
  ultimately show ?thesis by metis
qed

theorem accepted_answer_witness:
  "\<exists>pdu c'. send_and_wait 3 [0, 0, 0, 2] 5 (demo_serial [(510000, SerialBytes demo_answer)]) = (Some pdu, c') \<and>
    length pdu = 5"
  using demo_exchange accepted_answer by blast

theorem repeated_answer_refused_witness:
  "\<exists>c'. read_register 0 2 ((demo_serial (replies 0 10000 demo_answer 3))
      \<lparr>mc_history := replicate 5 None @ [Some (3, [4, 0, 0, 0, 2])]\<rparr>) = (None, c') \<and>
    length (line_sent (mc_line c')) = 3"
proof -
  let ?c = "(demo_serial (replies 0 10000 demo_answer 3))\<lparr>mc_history := replicate 5 None @ [Some (3, [4, 0, 0, 0, 2])]\<rparr>"
  have at: "serial_at 0 (replies 0 10000 (with_crc (mc_slaveaddr ?c # 3 # [4, 0, 0, 0, 2])) 3) [] ?c"
    using demo_serial_at [of "replies 0 10000 demo_answer 3"]
    by (simp add: serial_at_def demo_answer_def [symmetric])
  have "length (line_sent l) = 3" if "l = Serial p" "sp_sent p = replicate 3 x" for l p and x :: "byte list"
    using that by simp
  then show ?thesis
    using repeated_answer_refused [OF at, of 2 0] by (auto simp: serial_at_def)
qed

theorem usb_exception_retried_witness:
  "\<exists>c'. send_and_wait 3 [0, 0, 0, 2] 5
      (new_comm (Usb (demo_usb\<lparr>up_wire := usb_replies 0 10000 ([0x8A, 1, 0x83, 2] @ replicate 60 0) 3\<rparr>)) 0) =
      (None, c') \<and> length (line_sent (mc_line c')) = 3"
  using usb_exception_retried [of "new_comm (Usb (demo_usb\<lparr>up_wire := usb_replies 0 10000 ([0x8A, 1, 0x83, 2] @ replicate 60 0) 3\<rparr>)) 0"
      "demo_usb\<lparr>up_wire := usb_replies 0 10000 ([0x8A, 1, 0x83, 2] @ replicate 60 0) 3\<rparr>" 10000
      "[0x8A, 1, 0x83, 2] @ replicate 60 0" 3 "[0, 0, 0, 2]" 5]
  by (auto simp: new_comm_def demo_usb_def simp del: usb_replies.simps)

end
