(* ===== verification/ModbusMap.thy ===== *)
theory ModbusMap
  imports ModbusComm DriverKit
begin

text \<open>
  The registers of an APC UPS (\<open>mapping.cpp\<close>, \<open>mapping.h\<close>; those the driver uses), how the bytes of
  a register are read as a number or a string, and what each reading assigns in \<open>UPSINFO\<close>
  (the two halves of \<open>UpdateCi\<close> in \<open>modbus.cpp\<close>).
\<close>

unbundle bit_operations_syntax

subsection \<open>Registers\<close>

datatype reg_type = DT_STRING | DT_UINT | DT_INT

record reg_info =
  ri_addr :: nat
  ri_nregs :: nat
  ri_type :: reg_type
  ri_scale :: nat

definition REG_UPS_STATUS :: reg_info where "REG_UPS_STATUS = \<lparr>ri_addr = 0, ri_nregs = 2, ri_type = DT_UINT, ri_scale = 0\<rparr>"
definition REG_UPS_STATUS_CHANGE_CAUSE :: reg_info where "REG_UPS_STATUS_CHANGE_CAUSE = \<lparr>ri_addr = 2, ri_nregs = 1, ri_type = DT_UINT, ri_scale = 0\<rparr>"
definition REG_SIMPLE_SIGNALLING_STATUS :: reg_info where "REG_SIMPLE_SIGNALLING_STATUS = \<lparr>ri_addr = 18, ri_nregs = 1, ri_type = DT_UINT, ri_scale = 0\<rparr>"
definition REG_POWER_SYSTEM_ERROR :: reg_info where "REG_POWER_SYSTEM_ERROR = \<lparr>ri_addr = 20, ri_nregs = 2, ri_type = DT_UINT, ri_scale = 0\<rparr>"
definition REG_BATTERY_SYSTEM_ERROR :: reg_info where "REG_BATTERY_SYSTEM_ERROR = \<lparr>ri_addr = 22, ri_nregs = 1, ri_type = DT_UINT, ri_scale = 0\<rparr>"
definition REG_BATTERY_TEST_STATUS :: reg_info where "REG_BATTERY_TEST_STATUS = \<lparr>ri_addr = 23, ri_nregs = 1, ri_type = DT_UINT, ri_scale = 0\<rparr>"
definition REG_CALIBRATION_STATUS :: reg_info where "REG_CALIBRATION_STATUS = \<lparr>ri_addr = 24, ri_nregs = 1, ri_type = DT_UINT, ri_scale = 0\<rparr>"
definition REG_RUNTIME_REMAINING :: reg_info where "REG_RUNTIME_REMAINING = \<lparr>ri_addr = 128, ri_nregs = 2, ri_type = DT_UINT, ri_scale = 0\<rparr>"
definition REG_STATE_OF_CHARGE_PCT :: reg_info where "REG_STATE_OF_CHARGE_PCT = \<lparr>ri_addr = 130, ri_nregs = 1, ri_type = DT_UINT, ri_scale = 9\<rparr>"
definition REG_BATTERY_VOLTAGE :: reg_info where "REG_BATTERY_VOLTAGE = \<lparr>ri_addr = 131, ri_nregs = 1, ri_type = DT_INT, ri_scale = 5\<rparr>"
definition REG_BATTERY_TEMPERATURE :: reg_info where "REG_BATTERY_TEMPERATURE = \<lparr>ri_addr = 135, ri_nregs = 1, ri_type = DT_INT, ri_scale = 7\<rparr>"
definition REG_OUTPUT_0_REAL_POWER_PCT :: reg_info where "REG_OUTPUT_0_REAL_POWER_PCT = \<lparr>ri_addr = 136, ri_nregs = 1, ri_type = DT_UINT, ri_scale = 8\<rparr>"
definition REG_OUTPUT_0_APPARENT_POWER_PCT :: reg_info where "REG_OUTPUT_0_APPARENT_POWER_PCT = \<lparr>ri_addr = 138, ri_nregs = 1, ri_type = DT_UINT, ri_scale = 8\<rparr>"
definition REG_OUTPUT_0_CURRENT :: reg_info where "REG_OUTPUT_0_CURRENT = \<lparr>ri_addr = 140, ri_nregs = 1, ri_type = DT_UINT, ri_scale = 5\<rparr>"
definition REG_OUTPUT_0_VOLTAGE :: reg_info where "REG_OUTPUT_0_VOLTAGE = \<lparr>ri_addr = 142, ri_nregs = 1, ri_type = DT_UINT, ri_scale = 6\<rparr>"
definition REG_OUTPUT_FREQUENCY :: reg_info where "REG_OUTPUT_FREQUENCY = \<lparr>ri_addr = 144, ri_nregs = 1, ri_type = DT_UINT, ri_scale = 7\<rparr>"
definition REG_INPUT_STATUS :: reg_info where "REG_INPUT_STATUS = \<lparr>ri_addr = 150, ri_nregs = 1, ri_type = DT_UINT, ri_scale = 0\<rparr>"
definition REG_INPUT_0_VOLTAGE :: reg_info where "REG_INPUT_0_VOLTAGE = \<lparr>ri_addr = 151, ri_nregs = 1, ri_type = DT_UINT, ri_scale = 6\<rparr>"
definition REG_FW_VERSION :: reg_info where "REG_FW_VERSION = \<lparr>ri_addr = 516, ri_nregs = 8, ri_type = DT_STRING, ri_scale = 0\<rparr>"
definition REG_MODEL :: reg_info where "REG_MODEL = \<lparr>ri_addr = 532, ri_nregs = 16, ri_type = DT_STRING, ri_scale = 0\<rparr>"
definition REG_SERIAL_NUMBER :: reg_info where "REG_SERIAL_NUMBER = \<lparr>ri_addr = 564, ri_nregs = 8, ri_type = DT_STRING, ri_scale = 0\<rparr>"
definition REG_OUTPUT_APPARENT_POWER_RATING :: reg_info where "REG_OUTPUT_APPARENT_POWER_RATING = \<lparr>ri_addr = 588, ri_nregs = 1, ri_type = DT_UINT, ri_scale = 0\<rparr>"
definition REG_OUTPUT_REAL_POWER_RATING :: reg_info where "REG_OUTPUT_REAL_POWER_RATING = \<lparr>ri_addr = 589, ri_nregs = 1, ri_type = DT_UINT, ri_scale = 0\<rparr>"
definition REG_MANUFACTURE_DATE :: reg_info where "REG_MANUFACTURE_DATE = \<lparr>ri_addr = 591, ri_nregs = 1, ri_type = DT_UINT, ri_scale = 0\<rparr>"
definition REG_OUTPUT_VOLTAGE_SETTING :: reg_info where "REG_OUTPUT_VOLTAGE_SETTING = \<lparr>ri_addr = 592, ri_nregs = 1, ri_type = DT_UINT, ri_scale = 0\<rparr>"
definition REG_BATTERY_DATE_SETTING :: reg_info where "REG_BATTERY_DATE_SETTING = \<lparr>ri_addr = 595, ri_nregs = 1, ri_type = DT_UINT, ri_scale = 0\<rparr>"
definition REG_NAME :: reg_info where "REG_NAME = \<lparr>ri_addr = 596, ri_nregs = 8, ri_type = DT_STRING, ri_scale = 0\<rparr>"
definition REG_MOG_TURN_OFF_COUNT_SETTING :: reg_info where "REG_MOG_TURN_OFF_COUNT_SETTING = \<lparr>ri_addr = 1029, ri_nregs = 1, ri_type = DT_INT, ri_scale = 0\<rparr>"
definition REG_MOG_TURN_ON_COUNT_SETTING :: reg_info where "REG_MOG_TURN_ON_COUNT_SETTING = \<lparr>ri_addr = 1030, ri_nregs = 1, ri_type = DT_INT, ri_scale = 0\<rparr>"
definition REG_SIMPLE_SIGNALLING_CMD :: reg_info where "REG_SIMPLE_SIGNALLING_CMD = \<lparr>ri_addr = 1540, ri_nregs = 1, ri_type = DT_UINT, ri_scale = 0\<rparr>"
definition REG_MODBUS_MAP_ID :: reg_info where "REG_MODBUS_MAP_ID = \<lparr>ri_addr = 2048, ri_nregs = 2, ri_type = DT_STRING, ri_scale = 0\<rparr>"

lemmas registers =
  REG_UPS_STATUS_def REG_UPS_STATUS_CHANGE_CAUSE_def REG_SIMPLE_SIGNALLING_STATUS_def
  REG_POWER_SYSTEM_ERROR_def REG_BATTERY_SYSTEM_ERROR_def REG_BATTERY_TEST_STATUS_def
  REG_CALIBRATION_STATUS_def REG_RUNTIME_REMAINING_def REG_STATE_OF_CHARGE_PCT_def
  REG_BATTERY_VOLTAGE_def REG_BATTERY_TEMPERATURE_def REG_OUTPUT_0_REAL_POWER_PCT_def
  REG_OUTPUT_0_APPARENT_POWER_PCT_def REG_OUTPUT_0_CURRENT_def REG_OUTPUT_0_VOLTAGE_def
  REG_OUTPUT_FREQUENCY_def REG_INPUT_STATUS_def REG_INPUT_0_VOLTAGE_def REG_FW_VERSION_def
  REG_MODEL_def REG_SERIAL_NUMBER_def REG_OUTPUT_APPARENT_POWER_RATING_def
  REG_OUTPUT_REAL_POWER_RATING_def REG_MANUFACTURE_DATE_def REG_OUTPUT_VOLTAGE_SETTING_def
  REG_BATTERY_DATE_SETTING_def REG_NAME_def REG_MOG_TURN_OFF_COUNT_SETTING_def
  REG_MOG_TURN_ON_COUNT_SETTING_def REG_SIMPLE_SIGNALLING_CMD_def REG_MODBUS_MAP_ID_def

text \<open>The capability, whether it is read again and again, and its register.\<close>

definition CI_TABLE :: "(nat \<times> bool \<times> reg_info) list" where
  "CI_TABLE =
     [(CI_UPSMODEL, False, REG_MODEL),
      (CI_SERNO, False, REG_SERIAL_NUMBER),
      (CI_IDEN, False, REG_NAME),
      (CI_MANDAT, False, REG_MANUFACTURE_DATE),
      (CI_BATTDAT, False, REG_BATTERY_DATE_SETTING),
      (CI_NOMOUTV, False, REG_OUTPUT_VOLTAGE_SETTING),
      (CI_REVNO, False, REG_FW_VERSION),
      (CI_BUPSelfTest, False, REG_MODBUS_MAP_ID),
      (CI_NOMPOWER, False, REG_OUTPUT_REAL_POWER_RATING),
      (CI_NomApparent, False, REG_OUTPUT_APPARENT_POWER_RATING),
      (CI_DSHUTD, False, REG_MOG_TURN_OFF_COUNT_SETTING),
      (CI_DWAKE, False, REG_MOG_TURN_ON_COUNT_SETTING),
      (CI_VLINE, True, REG_INPUT_0_VOLTAGE),
      (CI_VOUT, True, REG_OUTPUT_0_VOLTAGE),
      (CI_OutputCurrent, True, REG_OUTPUT_0_CURRENT),
      (CI_VBATT, True, REG_BATTERY_VOLTAGE),
      (CI_FREQ, True, REG_OUTPUT_FREQUENCY),
      (CI_ITEMP, True, REG_BATTERY_TEMPERATURE),
      (CI_BATTLEV, True, REG_STATE_OF_CHARGE_PCT),
      (CI_RUNTIM, True, REG_RUNTIME_REMAINING),
      (CI_STATUS, True, REG_UPS_STATUS),
      (CI_WHY_BATT, True, REG_UPS_STATUS_CHANGE_CAUSE),
      (CI_Calibration, True, REG_CALIBRATION_STATUS),
      (CI_ST_STAT, True, REG_BATTERY_TEST_STATUS),
      (CI_Overload, True, REG_POWER_SYSTEM_ERROR),
      (CI_NeedReplacement, True, REG_BATTERY_SYSTEM_ERROR),
      (CI_BatteryPresent, True, REG_BATTERY_SYSTEM_ERROR),
      (CI_Boost, True, REG_INPUT_STATUS),
      (CI_Trim, True, REG_INPUT_STATUS),
      (CI_LOAD, True, REG_OUTPUT_0_REAL_POWER_PCT),
      (CI_LoadApparent, True, REG_OUTPUT_0_APPARENT_POWER_PCT),
      (CI_LowBattery, True, REG_SIMPLE_SIGNALLING_STATUS)]"

subsection \<open>Decoding\<close>

record reg_value =
  rv_uint :: "64 word"
  rv_sint :: int
  rv_dbl :: rat
  rv_str :: string

text \<open>Most significant byte first.\<close>

definition be_word :: "byte list \<Rightarrow> 64 word" where
  "be_word data = foldl (\<lambda>u b. push_bit 8 u OR ucast b) 0 data"

text \<open>The sign extension: a shift to the left and an arithmetic one back.\<close>

definition sign_extend :: "nat \<Rightarrow> 64 word \<Rightarrow> int" where
  "sign_extend nbytes u = (let k = 8 * (8 - nbytes) in sint (signed_drop_bit k (push_bit k u)))"

definition ascii_char :: "byte \<Rightarrow> char" where
  "ascii_char b = (if b < 0x20 \<or> b > 0x7E then CHR '' '' else char_of (unat b))"

definition decode_string :: "byte list \<Rightarrow> string" where
  "decode_string data = astring_trim (map ascii_char data)"

definition decode_reg :: "reg_info \<Rightarrow> byte list \<Rightarrow> reg_value" where
  "decode_reg reg data =
     (if ri_type reg = DT_STRING
      then \<lparr>rv_uint = 0, rv_sint = 0, rv_dbl = 0, rv_str = decode_string data\<rparr>
      else let u = be_word data; s = (if ri_type reg = DT_INT then sign_extend (length data) u else 0)
           in \<lparr>rv_uint = u, rv_sint = s,
               rv_dbl = (if ri_scale reg = 0 then 0
                         else of_int (if ri_type reg = DT_INT then s else uint u) / 2 ^ ri_scale reg),
               rv_str = []\<rparr>)"

subsection \<open>Dates\<close>

text \<open>\<open>gmtime\<close> and \<open>strftime("%Y-%m-%d")\<close> on a number of days since 1970.\<close>

definition leap_year :: "nat \<Rightarrow> bool" where
  "leap_year y \<longleftrightarrow> (4 dvd y \<and> \<not> 100 dvd y) \<or> 400 dvd y"

definition days_in_year :: "nat \<Rightarrow> nat" where
  "days_in_year y = (if leap_year y then 366 else 365)"

definition month_lengths :: "nat \<Rightarrow> nat list" where
  "month_lengths y = [31, if leap_year y then 29 else 28, 31, 30, 31, 30, 31, 31, 30, 31, 30, 31]"

function civil_year :: "nat \<Rightarrow> nat \<Rightarrow> nat \<times> nat" where
  "civil_year y d = (if d < days_in_year y then (y, d) else civil_year (Suc y) (d - days_in_year y))"
  by pat_completeness auto

termination
  by (relation "measure snd") (auto simp: days_in_year_def)

declare civil_year.simps [simp del]

fun civil_month :: "nat list \<Rightarrow> nat \<Rightarrow> nat \<Rightarrow> nat \<times> nat" where
  "civil_month [] m d = (m, d)"
| "civil_month (l # ls) m d = (if d < l then (m, d) else civil_month ls (Suc m) (d - l))"

definition civil_date :: "nat \<Rightarrow> nat \<times> nat \<times> nat" where
  "civil_date days =
     (let (y, d) = civil_year 1970 days; (m, r) = civil_month (month_lengths y) 1 d in (y, m, Suc r))"

text \<open>A register date: days since 1 January 2000, that is 10957 days after 1970.\<close>

definition modbus_date :: "64 word \<Rightarrow> string" where
  "modbus_date reg =
     (let (y, m, d) = civil_date ((946684800 + unat reg * 60 * 60 * 24) div 86400)
      in show_nat y @ ''-'' @ show_pad 2 m @ ''-'' @ show_pad 2 d)"

subsection \<open>What a reading assigns\<close>

definition val_to :: "(upsinfo \<Rightarrow> upsinfo) \<Rightarrow> (upsinfo \<Rightarrow> upsinfo) \<Rightarrow> bool \<Rightarrow> upsinfo \<Rightarrow> upsinfo" where
  "val_to set_f clear_f v u = (if v then set_f u else clear_f u)"

definition nominal_voltage :: "64 word \<Rightarrow> int" where
  "nominal_voltage u =
     (if bit u 0 then 100 else if bit u 1 then 120 else if bit u 2 then 200 else if bit u 3 then 208
      else if bit u 4 then 220 else if bit u 5 then 230 else if bit u 6 then 240 else -1)"

definition battery_test :: "64 word \<Rightarrow> SelfTestResult" where
  "battery_test u =
     (if bit u 0 \<or> bit u 1 then TEST_INPROGRESS else if bit u 2 then TEST_PASSED
      else if bit u 3 then TEST_FAILED else if u = 0 then TEST_NONE else TEST_UNKNOWN)"

definition change_cause :: "64 word \<Rightarrow> LastXferCause" where
  "change_cause u =
     (if u = 1 then XFER_OVERVOLT
      else if u = 2 then XFER_UNDERVOLT
      else if u = 3 then XFER_NOTCHSPIKE
      else if u = 4 then XFER_RIPPLE
      else if u = 5 \<or> u = 6 \<or> u = 7 then XFER_FREQ
      else if u = 9 then XFER_SELFTEST
      else if u = 11 \<or> u = 12 then XFER_FORCED
      else XFER_UNKNOWN)"

definition modbus_status :: "64 word \<Rightarrow> upsinfo \<Rightarrow> upsinfo" where
  "modbus_status v u =
     (let u1 = clear_onbatt (clear_online u)
      in if bit v 1 then set_online u1 else if bit v 2 then set_onbatt u1 else u1)"

definition modbus_cases :: "(nat \<times> (reg_value \<Rightarrow> upsinfo \<Rightarrow> upsinfo)) list" where
  "modbus_cases =
     [(CI_UPSMODEL, \<lambda>v u. u\<lparr>upsmodel := strlcpy_to 256 (rv_str v)\<rparr>),
      (CI_SERNO, \<lambda>v u. u\<lparr>serial := strlcpy_to 32 (rv_str v)\<rparr>),
      (CI_IDEN, \<lambda>v u. u\<lparr>upsname := strlcpy_to 100 (rv_str v)\<rparr>),
      (CI_REVNO, \<lambda>v u. u\<lparr>firmrev := strlcpy_to 20 (rv_str v)\<rparr>),
      (CI_BUPSelfTest, \<lambda>v u. u\<lparr>firmrev := strlcpy_to 20 (firmrev u @ '' / '' @ rv_str v)\<rparr>),
      (CI_MANDAT, \<lambda>v u. u\<lparr>birth := modbus_date (rv_uint v)\<rparr>),
      (CI_BATTDAT, \<lambda>v u. u\<lparr>battdat := modbus_date (rv_uint v)\<rparr>),
      (CI_NOMOUTV, \<lambda>v u. u\<lparr>NomOutputVoltage := nominal_voltage (rv_uint v)\<rparr>),
      (CI_NOMPOWER, \<lambda>v u. u\<lparr>NomPower := uint (rv_uint v)\<rparr>),
      (CI_NomApparent, \<lambda>v u. u\<lparr>NomApparentPower := uint (rv_uint v)\<rparr>),
      (CI_DSHUTD, \<lambda>v u. u\<lparr>dshutd := rv_sint v\<rparr>),
      (CI_DWAKE, \<lambda>v u. u\<lparr>dwake := rv_sint v\<rparr>),
      (CI_LowBattery, \<lambda>v. val_to set_battlow clear_battlow (bit (rv_uint v) 1)),
      (CI_LOAD, \<lambda>v u. u\<lparr>UPSLoad := rv_dbl v\<rparr>),
      (CI_LoadApparent, \<lambda>v u. u\<lparr>LoadApparent := rv_dbl v\<rparr>),
      (CI_VLINE, \<lambda>v u. u\<lparr>LineVoltage := rv_dbl v\<rparr>),
      (CI_VOUT, \<lambda>v u. u\<lparr>OutputVoltage := rv_dbl v\<rparr>),
      (CI_OutputCurrent, \<lambda>v u. u\<lparr>OutputCurrent := rv_dbl v\<rparr>),
      (CI_VBATT, \<lambda>v u. u\<lparr>BattVoltage := rv_dbl v\<rparr>),
      (CI_FREQ, \<lambda>v u. u\<lparr>LineFreq := rv_dbl v\<rparr>),
      (CI_ITEMP, \<lambda>v u. u\<lparr>UPSTemp := rv_dbl v\<rparr>),
      (CI_BATTLEV, \<lambda>v u. u\<lparr>BattChg := rv_dbl v\<rparr>),
      (CI_RUNTIM, \<lambda>v u. u\<lparr>TimeLeft := of_int (uint (rv_uint v) div 60)\<rparr>),
      (CI_ST_STAT, \<lambda>v u. u\<lparr>testresult := battery_test (rv_uint v)\<rparr>),
      (CI_WHY_BATT, \<lambda>v u. if is_onbatt u then u\<lparr>lastxfer := change_cause (rv_uint v)\<rparr> else u),
      (CI_STATUS, \<lambda>v. modbus_status (rv_uint v)),
      (CI_Calibration, \<lambda>v. val_to set_calibration clear_calibration (bit (rv_uint v) 0 \<or> bit (rv_uint v) 1)),
      (CI_Overload, \<lambda>v. val_to set_overload clear_overload (bit (rv_uint v) 0)),
      (CI_NeedReplacement, \<lambda>v. val_to set_replacebatt clear_replacebatt (bit (rv_uint v) 2)),
      (CI_BatteryPresent, \<lambda>v. val_to set_battpresent clear_battpresent (\<not> bit (rv_uint v) 0)),
      (CI_Boost, \<lambda>v. val_to set_boost clear_boost (bit (rv_uint v) 5)),
      (CI_Trim, \<lambda>v. val_to set_trim clear_trim (bit (rv_uint v) 6))]"

definition modbus_apply :: "nat \<Rightarrow> reg_value \<Rightarrow> upsinfo \<Rightarrow> upsinfo" where
  "modbus_apply ci v u = (case map_of modbus_cases ci of None \<Rightarrow> u | Some f \<Rightarrow> f v u)"

subsection \<open>Numbers\<close>

lemma be_word_snoc: "be_word (bs @ [b]) = push_bit 8 (be_word bs) OR ucast b"
  by (simp add: be_word_def)

lemma bit_be_word_low: "k < 8 \<Longrightarrow> bit (be_word (bs @ [b])) k = bit b k"
  by (simp add: be_word_snoc bit_or_iff bit_push_bit_iff bit_ucast_iff)

fun be_value :: "byte list \<Rightarrow> nat" where
  "be_value [] = 0"
| "be_value (b # bs) = unat b * 256 ^ length bs + be_value bs"

lemma be_value_snoc: "be_value (bs @ [b]) = be_value bs * 256 + unat b"
  by (induction bs) (simp_all add: algebra_simps)

lemma be_value_less: "be_value bs < 256 ^ length bs"
proof (induction bs rule: rev_induct)
  case (snoc b bs)
  then show ?case using unsigned_less [of b, where ?'a = nat] by (simp add: be_value_snoc)
qed simp

lemma be_word_value: "length bs \<le> 8 \<Longrightarrow> unat (be_word bs) = be_value bs"
proof (induction bs rule: rev_induct)
  case (snoc b bs)
  have "unat (ucast b :: 64 word) = unat b"
    using unsigned_less [of b, where ?'a = nat] by (simp add: unsigned_ucast_eq take_bit_nat_eq_self)
  moreover have "push_bit 8 (be_word bs) OR ucast b = push_bit 8 (be_word bs) + (ucast b :: 64 word)"
    by (rule disjunctive_add [symmetric]) (auto simp: bit_push_bit_iff bit_ucast_iff dest: bit_imp_le_length)
  moreover have "be_value bs * 256 + unat b < 2 ^ 64"
    using be_value_less [of "bs @ [b]"] power_increasing [of "Suc (length bs)" 8 "256 :: nat"] snoc.prems
    by (simp add: be_value_snoc)
  ultimately show ?case
    using snoc by (simp add: be_word_snoc be_value_snoc push_bit_eq_mult unat_word_ariths)
qed (simp add: be_word_def)

lemma be_value_bytes: "be_value (be_bytes len val) = val mod 256 ^ len"
proof (induction len)
  case (Suc len)
  have "unat (of_nat n :: byte) = n mod 256" for n :: nat by (simp add: unat_of_nat)
  then show ?case
    using Suc mod_mult2_eq [of val "256 ^ len" 256] by (simp add: be_bytes_Suc mult.commute)
qed (simp add: be_bytes_def)

lemma signed_take_bit_push:
  "k \<le> n \<Longrightarrow> signed_take_bit n (push_bit k a) = push_bit k (signed_take_bit (n - k) (a :: int))"
  by (rule bit_eqI) (auto simp: bit_signed_take_bit_iff bit_push_bit_iff min_def)

lemma sign_extend_eq:
  assumes "0 < nbytes" "nbytes \<le> 8"
  shows "sign_extend nbytes u = signed_take_bit (8 * nbytes - 1) (uint u)"
proof -
  define k where "k = 8 * (8 - nbytes)"
  have k: "63 - k = 8 * nbytes - 1" "k \<le> 63" using assms by (auto simp: k_def)
  have "sint (push_bit k u) = push_bit k (signed_take_bit (63 - k) (sint u))"
    using k(2) by (simp add: signed_push_bit_eq signed_take_bit_push)
  also have "signed_take_bit (63 - k) (sint u) = signed_take_bit (63 - k) (uint u)"
    by (simp add: sint_uint)
  moreover have "drop_bit k (push_bit k x) = x" for x :: int by (simp add: drop_bit_eq_div push_bit_eq_mult)
  ultimately show ?thesis
    by (simp add: sign_extend_def Let_def k_def [symmetric] sint_signed_drop_bit_eq k(1))
qed

text \<open>
  A number written to a register and read from it again is the same number, and a signed reading
  is its two's complement interpretation.
\<close>

theorem modbus_int_round_trip:
  assumes "0 < n" "n \<le> 4" "val < 256 ^ (2 * n)"
  shows "unat (be_word (be_bytes (2 * n) val)) = val \<and>
    sign_extend (2 * n) (be_word (be_bytes (2 * n) val)) =
      (if 2 * val < 256 ^ (2 * n) then int val else int val - 256 ^ (2 * n))"
proof -
  have val: "unat (be_word (be_bytes (2 * n) val)) = val"
    using assms by (simp add: be_word_value be_value_bytes)
  then have u: "uint (be_word (be_bytes (2 * n) val)) = int val" by (simp add: uint_nat)
  define m where "m = 8 * (2 * n) - 1"
  have m: "(256 :: int) ^ (2 * n) = 2 * 2 ^ m"
  proof -
    have "(256 :: int) ^ (2 * n) = 2 ^ (8 * (2 * n))" by (simp add: power_mult)
    also have "\<dots> = 2 ^ Suc m" using assms(1) by (simp add: m_def)
    finally show ?thesis by simp
  qed
  have "int val < 2 * 2 ^ m" using assms(3) m by (metis of_nat_less_iff of_nat_numeral of_nat_power)
  moreover have "sign_extend (2 * n) (be_word (be_bytes (2 * n) val)) = signed_take_bit m (int val)"
    using assms sign_extend_eq [of "2 * n"] by (simp add: u m_def)
  moreover have "(2 * val < 256 ^ (2 * n)) = (int val < 2 ^ m)"
    using m by (metis mult_less_cancel_left_pos of_nat_less_iff of_nat_mult of_nat_numeral of_nat_power zero_less_numeral)
  moreover have "signed_take_bit m (int val) = int val" if "int val < 2 ^ m"
    using that by (intro signed_take_bit_int_eq_self) (simp_all add: order.trans [of _ 0])
  moreover have "signed_take_bit m (int val) = int val - 2 * 2 ^ m" if "\<not> int val < 2 ^ m"
  proof -
    have "signed_take_bit m (int val) = signed_take_bit m (int val - 2 ^ Suc m)"
      by (simp add: signed_take_bit_eq_iff_take_bit_eq take_bit_eq_mod minus_mod_self2 del: power_Suc)
    also have "\<dots> = int val - 2 ^ Suc m"
      using that \<open>int val < 2 * 2 ^ m\<close> by (intro signed_take_bit_int_eq_self) simp_all
    finally show ?thesis by simp
  qed
  ultimately show ?thesis using val m by auto
qed

theorem modbus_int_round_trip_witness:
  "unat (be_word (be_bytes 2 65000)) = 65000 \<and> sign_extend 2 (be_word (be_bytes 2 65000)) = -536"
  using modbus_int_round_trip [of 1 65000] by simp

text \<open>
  A status reading leaves exactly one of the two power bits set, or none: online if the register's
  bit 1 is set, on battery if bit 2 is and bit 1 is not; no other status bit changes.
\<close>

theorem modbus_status_decoded:
  assumes "length data = 4" "u' = modbus_apply CI_STATUS (decode_reg REG_UPS_STATUS data) u"
  shows "is_online u' = bit (data ! 3) 1 \<and> is_onbatt u' = (bit (data ! 3) 2 \<and> \<not> bit (data ! 3) 1) \<and>
    (\<forall>k. k \<noteq> 3 \<and> k \<noteq> 4 \<longrightarrow> bit (Status u') k = bit (Status u) k)"
proof -
  obtain a b c d where data: "data = [a, b, c] @ [d]"
    using assms(1) by (auto simp: length_Suc_conv numeral_eq_Suc)
  have low: "bit (be_word data) 1 = bit d 1" "bit (be_word data) 2 = bit d 2"
    unfolding data by (rule bit_be_word_low, simp)+
  have u': "u' = modbus_status (be_word data) u"
    by (simp add: assms(2) modbus_apply_def modbus_cases_def decode_reg_def REG_UPS_STATUS_def Let_def)
  have "bit UPS_online k \<longleftrightarrow> k = 3" "bit UPS_onbatt k \<longleftrightarrow> k = 4" for k
    by (rule single_bit; simp add: UPS_online_def UPS_onbatt_def)+
  then show ?thesis unfolding u' modbus_status_def Let_def low
    by (auto simp: data is_online_bit onbatt.is_f_bit onbatt.bit_set_f onbatt.bit_clear_f set_online_def
        clear_online_def bit_or_iff bit_and_iff bit_not_iff dest: bit_imp_le_length)
qed

theorem modbus_status_decoded_witness:
  "is_onbatt (modbus_apply CI_STATUS (decode_reg REG_UPS_STATUS [0, 0, 0, 4]) new_ups)"
proof -
  have "bit (4 :: byte) 2" "\<not> bit (4 :: byte) 1" by (simp_all add: bit_numeral_word_iff)
  then show ?thesis using modbus_status_decoded [of "[0, 0, 0, 4]" _ new_ups, OF _ refl] by simp
qed

subsection \<open>Dates\<close>

definition days_before_year :: "nat \<Rightarrow> nat" where
  "days_before_year y = (\<Sum>k = 1970..<y. days_in_year k)"

lemma civil_year_spec:
  "civil_year y d = (y', r) \<Longrightarrow> 1970 \<le> y \<Longrightarrow>
    y \<le> y' \<and> r < days_in_year y' \<and> days_before_year y' + r = days_before_year y + d"
proof (induction y d rule: civil_year.induct)
  case (1 y d)
  show ?case
  proof (cases "d < days_in_year y")
    case True
    then show ?thesis using 1(2) by (simp add: civil_year.simps [of y])
  next
    case False
    then have "civil_year (Suc y) (d - days_in_year y) = (y', r)"
      using 1(2) by (simp add: civil_year.simps [of y d])
    moreover have "days_before_year (Suc y) = days_before_year y + days_in_year y"
      using 1(3) by (simp add: days_before_year_def)
    ultimately show ?thesis using 1(1) [OF False] 1(3) False by simp
  qed
qed

lemma civil_month_spec:
  "civil_month ls m d = (m', r) \<Longrightarrow> d < sum_list ls \<Longrightarrow>
    m \<le> m' \<and> m' - m < length ls \<and> r < ls ! (m' - m) \<and> d = sum_list (take (m' - m) ls) + r"
proof (induction ls m d rule: civil_month.induct)
  case (2 l ls m d)
  show ?case
  proof (cases "d < l")
    case False
    then have "Suc m \<le> m' \<and> m' - Suc m < length ls \<and> r < ls ! (m' - Suc m) \<and>
        d - l = sum_list (take (m' - Suc m) ls) + r"
      using 2 by auto
    moreover from this have "m' - m = Suc (m' - Suc m)" by linarith
    moreover have "d = l + (d - l)" using False by simp
    ultimately show ?thesis using False by (simp add: add.assoc)
  qed (use 2 in auto)
qed auto

text \<open>
  The dates read from the UPS are right: the day of the calendar that is shown is the one that
  many days after 1 January 1970.
\<close>

theorem civil_date_correct:
  assumes "civil_date days = (y, m, d)"
  shows "1970 \<le> y \<and> 1 \<le> m \<and> m \<le> 12 \<and> 1 \<le> d \<and> d \<le> month_lengths y ! (m - 1) \<and>
    days = days_before_year y + sum_list (take (m - 1) (month_lengths y)) + (d - 1)"
proof -
  obtain r where y: "civil_year 1970 days = (y, r)" and m: "civil_month (month_lengths y) 1 r = (m, d - 1)"
    and d: "1 \<le> d"
    using assms by (auto simp: civil_date_def Let_def split: prod.splits)
  have year: "1970 \<le> y" "r < days_in_year y" "days_before_year y + r = days"
    using civil_year_spec [OF y] by (simp_all add: days_before_year_def)
  have "sum_list (month_lengths y) = days_in_year y" "length (month_lengths y) = 12"
    by (simp_all add: month_lengths_def days_in_year_def)
  then have "1 \<le> m" "m - 1 < 12" "d - 1 < month_lengths y ! (m - 1)"
    "r = sum_list (take (m - 1) (month_lengths y)) + (d - 1)"
    using civil_month_spec [OF m] year(2) by auto
  then show ?thesis using year(1,3) d by (simp only: add.assoc) auto
qed

theorem civil_date_correct_witness: "31 = days_before_year 1970 + sum_list (take 1 (month_lengths 1970)) + 0"
proof -
  have "civil_date 31 = (1970, 2, 1)"
    by (simp add: civil_date_def civil_year.simps days_in_year_def leap_year_def month_lengths_def)
  from civil_date_correct [OF this] show ?thesis by simp
qed

end
