(* ===== verification/Modbus.thy ===== *)
theory Modbus
  imports ModbusMap
begin

text \<open>
  The MODBUS driver (\<open>src/drivers/modbus/modbus.cpp\<close>): measurement registers are fetched in three
  blocks per cycle and decoded from there, the status is polled live once a second, and the
  connection counts as lost after three failed polls in a row. The driver's object for the
  line exists between \<open>Open\<close> and \<open>Close\<close>; a method that needs it does nothing without it
  (the code would dereference a null pointer there, and the core never calls it so).

  The clock of the line is the one behind \<open>gettimeofday\<close> and \<open>sleep\<close>; \<open>time(NULL)\<close> is the
  clock of the process, as in the rest of the daemon.
\<close>

unbundle bit_operations_syntax

record modbus_drv =
  mb_comm :: "modbus_comm option"
  mb_blockA :: "byte list option"            \<comment> \<open>\<open>_measBlockA\<close>, if \<open>_measBlockAValid\<close>\<close>
  mb_blockB :: "byte list option"
  mb_blockC :: "byte list option"
  mb_commlost_time :: int
  mb_fail_count :: int
  mb_last_ok :: int
  mb_lines :: "nat \<Rightarrow> bool \<Rightarrow> modbus_line"   \<comment> \<open>what the \<open>n\<close>-th object finds; \<open>True\<close> for serial\<close>
  mb_made :: nat
  mb_now :: int                              \<comment> \<open>the time, while there is no object\<close>
  mb_usb_built :: bool                       \<comment> \<open>\<open>HAVE_MODBUS_USB_DRIVER\<close>\<close>
  mb_stop_at :: "int option"                 \<comment> \<open>when another thread sets \<open>shutdown_requested\<close>\<close>

definition new_modbus :: "int \<Rightarrow> (nat \<Rightarrow> bool \<Rightarrow> modbus_line) \<Rightarrow> modbus_drv" where
  "new_modbus now lines = \<lparr>mb_comm = None, mb_blockA = None, mb_blockB = None, mb_blockC = None,
     mb_commlost_time = 0, mb_fail_count = 0, mb_last_ok = now, mb_lines = lines, mb_made = 0,
     mb_now = now * 1000000, mb_usb_built = True, mb_stop_at = None\<rparr>"

definition on_comm ::
    "'a \<Rightarrow> (modbus_comm \<Rightarrow> 'a \<times> modbus_comm) \<Rightarrow> modbus_drv sys \<Rightarrow> 'a \<times> modbus_drv sys" where
  "on_comm none f s =
     (case mb_comm (drv s) of
        None \<Rightarrow> (none, s)
      | Some c \<Rightarrow> let (r, c') = f c in (r, upd_drv (\<lambda>d. d\<lparr>mb_comm := Some c'\<rparr>) s))"

subsection \<open>Reading registers\<close>

abbreviation (input) MEAS_BLOCK_A_ADDR :: nat where "MEAS_BLOCK_A_ADDR \<equiv> 128"
abbreviation (input) MEAS_BLOCK_A_NREGS :: nat where "MEAS_BLOCK_A_NREGS \<equiv> 19"
abbreviation (input) MEAS_BLOCK_B_ADDR :: nat where "MEAS_BLOCK_B_ADDR \<equiv> 150"
abbreviation (input) MEAS_BLOCK_B_NREGS :: nat where "MEAS_BLOCK_B_NREGS \<equiv> 2"
abbreviation (input) MEAS_BLOCK_C_ADDR :: nat where "MEAS_BLOCK_C_ADDR \<equiv> 0"
abbreviation (input) MEAS_BLOCK_C_NREGS :: nat where "MEAS_BLOCK_C_NREGS \<equiv> 27"

fun fetch_block :: "nat \<Rightarrow> nat \<Rightarrow> nat \<Rightarrow> modbus_comm \<Rightarrow> byte list option \<times> modbus_comm" where
  "fetch_block 0 addr nregs c = (None, c)"
| "fetch_block (Suc n) addr nregs c =
     (case read_register addr nregs c of
        (Some data, c') \<Rightarrow> (Some data, c')
      | (None, c') \<Rightarrow> fetch_block n addr nregs c')"

definition fetch_measurement_blocks :: "modbus_drv sys \<Rightarrow> modbus_drv sys" where
  "fetch_measurement_blocks s =
     (let (a, s1) = on_comm None (fetch_block 2 MEAS_BLOCK_A_ADDR MEAS_BLOCK_A_NREGS) s;
          (b, s2) = on_comm None (fetch_block 2 MEAS_BLOCK_B_ADDR MEAS_BLOCK_B_NREGS) s1;
          (c, s3) = on_comm None (fetch_block 2 MEAS_BLOCK_C_ADDR MEAS_BLOCK_C_NREGS) s2
      in upd_drv (\<lambda>d. d\<lparr>mb_blockA := a, mb_blockB := b, mb_blockC := c\<rparr>) s3)"

definition in_block :: "nat \<Rightarrow> nat \<Rightarrow> reg_info \<Rightarrow> bool" where
  "in_block addr nregs reg \<longleftrightarrow> ri_addr reg \<ge> addr \<and> ri_addr reg + ri_nregs reg \<le> addr + nregs"

abbreviation "in_block_A \<equiv> in_block MEAS_BLOCK_A_ADDR MEAS_BLOCK_A_NREGS"
abbreviation "in_block_B \<equiv> in_block MEAS_BLOCK_B_ADDR MEAS_BLOCK_B_NREGS"
abbreviation "in_block_C \<equiv> in_block MEAS_BLOCK_C_ADDR MEAS_BLOCK_C_NREGS"

definition from_block :: "nat \<Rightarrow> reg_info \<Rightarrow> byte list \<Rightarrow> byte list" where
  "from_block addr reg block = take (ri_nregs reg * 2) (drop ((ri_addr reg - addr) * 2) block)"

definition get_register_data :: "reg_info \<Rightarrow> bool \<Rightarrow> modbus_drv sys \<Rightarrow> byte list option \<times> modbus_drv sys" where
  "get_register_data reg live s =
     (let d = drv s
      in if \<not> live \<and> (in_block_A reg \<or> in_block_B reg \<or> in_block_C reg)
         then (if in_block_A reg \<and> mb_blockA d \<noteq> None
               then map_option (from_block MEAS_BLOCK_A_ADDR reg) (mb_blockA d)
               else if in_block_B reg \<and> mb_blockB d \<noteq> None
               then map_option (from_block MEAS_BLOCK_B_ADDR reg) (mb_blockB d)
               else if in_block_C reg \<and> mb_blockC d \<noteq> None
               then map_option (from_block MEAS_BLOCK_C_ADDR reg) (mb_blockC d)
               else None, s)
         else on_comm None (read_register (ri_addr reg) (ri_nregs reg)) s)"

subsection \<open>Updating capabilities\<close>

definition update_ci :: "nat \<times> bool \<times> reg_info \<Rightarrow> bool \<Rightarrow> modbus_drv sys \<Rightarrow> bool \<times> modbus_drv sys" where
  "update_ci info live s =
     (let (ci, _, reg) = info; (r, s1) = get_register_data reg live s
      in case r of
           None \<Rightarrow> (False, s1)
         | Some data \<Rightarrow> (True, write_unlock (upd_ups (modbus_apply ci (decode_reg reg data)) (write_lock s1))))"

definition get_ci_info :: "nat \<Rightarrow> (nat \<times> bool \<times> reg_info) option" where
  "get_ci_info ci = List.find (\<lambda>(c, _, _). c = ci) CI_TABLE"

definition update_ci_no :: "nat \<Rightarrow> bool \<Rightarrow> modbus_drv sys \<Rightarrow> bool \<times> modbus_drv sys" where
  "update_ci_no ci live s =
     (case get_ci_info ci of None \<Rightarrow> (False, s) | Some info \<Rightarrow> update_ci info live s)"

fun update_list :: "(nat \<times> bool \<times> reg_info) list \<Rightarrow> bool \<Rightarrow> modbus_drv sys \<Rightarrow> bool \<times> modbus_drv sys" where
  "update_list [] dynamic s = (False, s)"
| "update_list ((ci, dyn, reg) # infos) dynamic s =
     (if UPS_Cap (ups s) ci \<and> dyn = dynamic
      then let (ok, s1) = update_ci (ci, dyn, reg) False s; (any, s2) = update_list infos dynamic s1
           in (ok \<or> any, s2)
      else update_list infos dynamic s)"

definition update_cis :: "bool \<Rightarrow> modbus_drv sys \<Rightarrow> bool \<times> modbus_drv sys" where
  "update_cis dynamic s = update_list CI_TABLE dynamic s"

subsection \<open>The methods\<close>

fun probe_ci :: "nat \<Rightarrow> nat \<Rightarrow> reg_info \<Rightarrow> modbus_drv sys \<Rightarrow> modbus_drv sys" where
  "probe_ci 0 ci reg s = s"
| "probe_ci (Suc n) ci reg s =
     (case get_register_data reg False s of
        (Some _, s1) \<Rightarrow> upd_ups (\<lambda>u. u\<lparr>UPS_Cap := (UPS_Cap u)(ci := True)\<rparr>) s1
      | (None, s1) \<Rightarrow> probe_ci n ci reg (fetch_measurement_blocks s1))"

definition modbus_get_capabilities :: "modbus_drv sys \<Rightarrow> bool \<times> modbus_drv sys" where
  "modbus_get_capabilities s =
     (let t = fold (\<lambda>(ci, _, reg). probe_ci 3 ci reg) CI_TABLE (fetch_measurement_blocks s)
      in (UPS_Cap (ups t) CI_STATUS, t))"

definition modbus_open :: "modbus_drv sys \<Rightarrow> bool \<times> modbus_drv sys" where
  "modbus_open s =
     (let d = drv s; serial = (\<not> mb_usb_built d \<or> gi_type (cable (ups s)) = CABLE_SMART);
          s1 = (case mb_comm d of
                  Some _ \<Rightarrow> s
                | None \<Rightarrow> upd_drv (\<lambda>d. d\<lparr>mb_comm := Some (new_comm (mb_lines d (mb_made d) serial) (mb_now d)),
                                         mb_made := Suc (mb_made d)\<rparr>) s)
      in on_comm False (comm_open (device (ups s))) (upd_ups (\<lambda>u. u\<lparr>fd := 1\<rparr>) s1))"

definition modbus_close :: "modbus_drv sys \<Rightarrow> bool \<times> modbus_drv sys" where
  "modbus_close s =
     (True, upd_ups (\<lambda>u. u\<lparr>fd := -1\<rparr>)
        (upd_drv (\<lambda>d. case mb_comm d of None \<Rightarrow> d
                   | Some c \<Rightarrow> d\<lparr>mb_comm := None, mb_now := mc_now (snd (comm_close c))\<rparr>) s))"

definition modbus_read_static_data :: "modbus_drv sys \<Rightarrow> bool \<times> modbus_drv sys" where
  "modbus_read_static_data s =
     (let (a, s1) = update_cis False s; (b, s2) = update_cis False s1; (c, s3) = update_cis False s2
      in (a \<or> b \<or> c, s3))"

abbreviation (input) VOLATILE_STALE_RECOVERY_SECS :: int where "VOLATILE_STALE_RECOVERY_SECS \<equiv> 180"

text \<open>The message without the conversion of the number in it.\<close>

definition stale_msg :: string where
  "stale_msg = ''MODBUS: measurement data stale for over 180 seconds -- '' @
     ''reopening device to force resync''"

definition recover_stale :: "modbus_drv sys \<Rightarrow> modbus_drv sys" where
  "recover_stale s =
     (let d = drv s; (now, s1) = time_now s
      in if mb_blockA d \<noteq> None \<and> mb_blockB d \<noteq> None \<and> mb_blockC d \<noteq> None
         then upd_drv (\<lambda>d. d\<lparr>mb_last_ok := now\<rparr>) s1
         else if now - mb_last_ok d \<ge> VOLATILE_STALE_RECOVERY_SECS
         then let s2 = log_event LOG_WARNING stale_msg s1;
                  s3 = snd (on_comm False comm_close s2);
                  s4 = snd (on_comm False (comm_open (device (ups s3))) s3);
                  (t, s5) = time_now s4
              in upd_drv (\<lambda>d. d\<lparr>mb_last_ok := t\<rparr>) s5
         else s1)"

definition modbus_read_volatile_data :: "modbus_drv sys \<Rightarrow> bool \<times> modbus_drv sys" where
  "modbus_read_volatile_data s =
     (let (ret, s1) = update_cis True (recover_stale (fetch_measurement_blocks s))
      in if ret
         then let (t, s2) = time_now (write_lock s1) in (True, write_unlock (upd_ups (\<lambda>u. u\<lparr>poll_time := t\<rparr>) s2))
         else (False, s1))"

definition write_int_to_ups :: "reg_info \<Rightarrow> nat \<Rightarrow> modbus_drv sys \<Rightarrow> bool \<times> modbus_drv sys" where
  "write_int_to_ups reg val s =
     (if ri_type reg = DT_STRING then (False, s)
      else on_comm False (write_register (ri_addr reg) (ri_nregs reg) (be_bytes (ri_nregs reg * 2) val)) s)"

definition read_int_from_ups :: "reg_info \<Rightarrow> modbus_drv sys \<Rightarrow> 64 word option \<times> modbus_drv sys" where
  "read_int_from_ups reg s =
     (if ri_type reg = DT_STRING then (None, s)
      else let (r, s1) = on_comm None (read_register (ri_addr reg) (ri_nregs reg)) s
           in (map_option be_word r, s1))"

definition write_string_to_ups :: "reg_info \<Rightarrow> string \<Rightarrow> modbus_drv sys \<Rightarrow> bool \<times> modbus_drv sys" where
  "write_string_to_ups reg str s =
     (if ri_type reg \<noteq> DT_STRING then (False, s)
      else let len = ri_nregs reg * 2;
               text = (if length str > len then take len str else str @ replicate (len - length str) CHR '' '')
           in on_comm False (write_register (ri_addr reg) (ri_nregs reg) (map of_char text)) s)"

definition read_string_from_ups :: "reg_info \<Rightarrow> modbus_drv sys \<Rightarrow> string option \<times> modbus_drv sys" where
  "read_string_from_ups reg s =
     (if ri_type reg \<noteq> DT_STRING then (None, s)
      else let (r, s1) = on_comm None (read_register (ri_addr reg) (ri_nregs reg)) s
           in (map_option decode_string r, s1))"

definition read_dbl_from_ups :: "reg_info \<Rightarrow> modbus_drv sys \<Rightarrow> rat option \<times> modbus_drv sys" where
  "read_dbl_from_ups reg s =
     (if ri_type reg = DT_STRING then (None, s)
      else let (r, s1) = read_int_from_ups reg s
           in (map_option (\<lambda>u. of_int (if ri_type reg = DT_INT then sign_extend (ri_nregs reg * 2) u else uint u)
                 / 2 ^ ri_scale reg) r, s1))"

definition modbus_kill_power :: "modbus_drv sys \<Rightarrow> bool \<times> modbus_drv sys" where
  "modbus_kill_power s = write_int_to_ups REG_SIMPLE_SIGNALLING_CMD 1 s"

definition modbus_shutdown :: "modbus_drv sys \<Rightarrow> bool \<times> modbus_drv sys" where
  "modbus_shutdown s = write_int_to_ups REG_SIMPLE_SIGNALLING_CMD 2 s"

definition modbus_entry_point :: "devcmd \<Rightarrow> modbus_drv sys \<Rightarrow> bool \<times> modbus_drv sys" where
  "modbus_entry_point cmd s =
     (case cmd of
        DEVICE_CMD_CHECK_SELFTEST \<Rightarrow>
          (True,
           if UPS_Cap (ups s) CI_WHY_BATT
           then let (ok, s1) = update_cis True s
                in if ok \<and> lastxfer (ups s1) = XFER_SELFTEST
                   then let (t, s2) = time_now s1 in upd_ups (\<lambda>u. u\<lparr>SelfTest := t\<rparr>) s2
                   else s1
           else s)
      | _ \<Rightarrow> (False, s))"

subsection \<open>check_state\<close>

definition drv_now :: "modbus_drv \<Rightarrow> int" where
  "drv_now d = (case mb_comm d of None \<Rightarrow> mb_now d | Some c \<Rightarrow> mc_now c)"

definition shutdown_requested :: "modbus_drv \<Rightarrow> bool" where
  "shutdown_requested d \<longleftrightarrow> (case mb_stop_at d of None \<Rightarrow> False | Some t \<Rightarrow> t \<le> drv_now d)"

definition sleep_1 :: "modbus_drv sys \<Rightarrow> modbus_drv sys" where
  "sleep_1 s =
     upd_drv (\<lambda>d. case mb_comm d of None \<Rightarrow> d\<lparr>mb_now := mb_now d + 1000000\<rparr>
              | Some c \<Rightarrow> d\<lparr>mb_comm := Some (c\<lparr>mc_now := mc_now c + 1000000\<rparr>)\<rparr>) s"

abbreviation (input) STATUS_FAIL_THRESHOLD :: int where "STATUS_FAIL_THRESHOLD \<equiv> 3"

text \<open>One poll that failed, and one that did not; the latter with whether the state changed.\<close>

definition poll_failed :: "modbus_drv sys \<Rightarrow> modbus_drv sys" where
  "poll_failed s =
     (let (now, s1) = time_now s; d = drv s1
      in if is_commlost (ups s1)
         then (if now - mb_commlost_time d \<ge> 10 * 60
               then log_cmd CMDCOMMFAILURE (upd_drv (\<lambda>d. d\<lparr>mb_commlost_time := now\<rparr>) s1)
               else s1)
         else let s2 = upd_drv (\<lambda>d. d\<lparr>mb_fail_count := mb_fail_count d + 1\<rparr>) s1
              in if mb_fail_count (drv s2) \<ge> STATUS_FAIL_THRESHOLD
                 then snd (on_comm False comm_close
                        (plain_event CMDCOMMFAILURE (upd_ups set_commlost
                          (upd_drv (\<lambda>d. d\<lparr>mb_commlost_time := now\<rparr>) s2))))
                 else s2)"

definition poll_succeeded :: "bool \<Rightarrow> bool \<Rightarrow> modbus_drv sys \<Rightarrow> bool \<times> modbus_drv sys" where
  "poll_succeeded online onbatt s =
     (let s1 = upd_drv (\<lambda>d. d\<lparr>mb_fail_count := 0\<rparr>) s;
          s2 = (if is_commlost (ups s1) then plain_event CMDCOMMOK (upd_ups clear_commlost s1) else s1)
      in (online \<noteq> is_online (ups s2) \<or> onbatt \<noteq> is_onbatt (ups s2), s2))"

definition check_pass :: "modbus_drv sys \<Rightarrow> bool \<times> modbus_drv sys" where
  "check_pass s =
     (let (reached, s1) = (if is_commlost (ups s) then on_comm False (comm_open (device (ups s))) s else (True, s));
          (ret, s2) = (if reached then update_ci_no CI_STATUS True s1 else (False, s1))
      in if ret then poll_succeeded (is_online (ups s1)) (is_onbatt (ups s1)) s2
         else (False, poll_failed s2))"

text \<open>The poll takes time, or none, but never gives any back; the loop ends because it sleeps.\<close>

lemma drv_now_simps [simp]:
  "drv_now (d\<lparr>mb_commlost_time := x\<rparr>) = drv_now d" "drv_now (d\<lparr>mb_fail_count := n\<rparr>) = drv_now d"
  by (simp_all add: drv_now_def split: option.split)

lemma on_comm_time:
  "(\<And>c. mc_now c \<le> mc_now (snd (f c))) \<Longrightarrow> drv_now (drv s) \<le> drv_now (drv (snd (on_comm none f s)))"
  by (auto simp: on_comm_def drv_now_def split_beta Let_def split: option.split)

lemma get_register_data_time: "drv_now (drv s) \<le> drv_now (drv (snd (get_register_data reg live s)))"
  by (simp add: get_register_data_def Let_def on_comm_time)

lemma update_ci_time: "drv_now (drv s) \<le> drv_now (drv (snd (update_ci info live s)))"
  using get_register_data_time [of s "snd (snd info)" live]
  by (auto simp: update_ci_def split_beta Let_def split: option.split)

lemma poll_failed_time: "drv_now (drv s) \<le> drv_now (drv (poll_failed s))"
proof -
  have "drv_now (drv t) \<le> drv_now (drv (snd (on_comm False comm_close t)))" for t
    by (rule on_comm_time) simp
  note close = this
  show ?thesis
    using close [of "plain_event CMDCOMMFAILURE (upd_ups set_commlost (upd_drv (\<lambda>d. d\<lparr>mb_commlost_time := fst (time_now s)\<rparr>)
        (upd_drv (\<lambda>d. d\<lparr>mb_fail_count := mb_fail_count d + 1\<rparr>) (snd (time_now s)))))"]
    by (simp add: poll_failed_def Let_def split_beta)
qed

lemma check_pass_time: "drv_now (drv s) \<le> drv_now (drv (snd (check_pass s)))"
proof -
  have o: "drv_now (drv s) \<le> drv_now (drv (snd (on_comm False (comm_open dev) s)))" for dev
    by (rule on_comm_time) simp
  have u: "drv_now (drv t) \<le> drv_now (drv (snd (update_ci_no CI_STATUS True t)))" for t
    by (auto simp: update_ci_no_def update_ci_time split: option.split)
  have ok: "drv_now (drv (snd (poll_succeeded x y t))) = drv_now (drv t)" for x y t
    by (simp add: poll_succeeded_def Let_def)
  define s1 where "s1 = snd (if is_commlost (ups s) then on_comm False (comm_open (device (ups s))) s else (True, s))"
  define s2 where "s2 = snd (if fst (if is_commlost (ups s) then on_comm False (comm_open (device (ups s))) s else (True, s))
      then update_ci_no CI_STATUS True s1 else (False, s1))"
  have "drv_now (drv s) \<le> drv_now (drv s1)" using o by (simp add: s1_def)
  also have "\<dots> \<le> drv_now (drv s2)" using u by (simp add: s2_def)
  also have "\<dots> \<le> drv_now (drv (snd (check_pass s)))"
    by (simp add: check_pass_def Let_def split_beta s1_def s2_def ok poll_failed_time)
  finally show ?thesis .
qed

lemma sleep_1_time: "drv_now (drv (sleep_1 s)) = drv_now (drv s) + 1000000"
  by (simp add: sleep_1_def drv_now_def split: option.split)

function check_loop :: "int \<Rightarrow> modbus_drv sys \<Rightarrow> bool \<times> modbus_drv sys" where
  "check_loop exittime s =
     (if shutdown_requested (drv s) \<or> drv_now (drv s) \<ge> exittime then (False, s)
      else let (changed, s1) = check_pass s
           in if changed then (True, s1) else check_loop exittime (sleep_1 s1))"
  by pat_completeness auto

termination
proof (relation "measure (\<lambda>(exittime, s). nat (exittime - drv_now (drv s)))")
  fix exittime s r and changed and s1
  assume "\<not> (shutdown_requested (drv s) \<or> drv_now (drv s) \<ge> exittime)" "r = check_pass s"
    "(changed, s1) = r" "\<not> changed"
  then show "((exittime, sleep_1 s1), exittime, s) \<in> measure (\<lambda>(exittime, s). nat (exittime - drv_now (drv s)))"
    using check_pass_time [of s] by (simp add: sleep_1_time prod_eq_iff)
qed auto

declare check_loop.simps [simp del]

definition modbus_check_state :: "modbus_drv sys \<Rightarrow> bool \<times> modbus_drv sys" where
  "modbus_check_state s = check_loop (drv_now (drv s) + wait_time (ups s) * 1000000) s"

definition modbus_driver :: "modbus_drv driver" where
  "modbus_driver = \<lparr>
     drv_open = modbus_open, drv_close = modbus_close,
     drv_read_static_data = modbus_read_static_data,
     drv_read_volatile_data = modbus_read_volatile_data,
     drv_get_capabilities = modbus_get_capabilities, drv_check_state = modbus_check_state,
     drv_setup = default_setup, drv_kill_power = modbus_kill_power,
     drv_shutdown = modbus_shutdown, drv_entry_point = modbus_entry_point\<rparr>"

subsection \<open>The driver keeps the contract\<close>

lemma then_on_comm: "quiet s t \<Longrightarrow> quiet s (snd (on_comm none f t))"
  by (auto simp: on_comm_def split_beta Let_def intro: then_quiet split: option.split)

lemma modbus_cases_shutdown: "(ci, f) \<in> set modbus_cases \<Longrightarrow> is_shutdown (f v u) = is_shutdown u"
  by (auto simp: modbus_cases_def shutdown_bit val_to_def modbus_status_def Let_def set_bits clear_bits
      set_online_def clear_online_def UPS_online_def UPS_onbatt_def bit_or_iff bit_and_iff bit_not_iff
      bit_numeral_word_iff split: if_splits)

lemma modbus_apply_shutdown [simp]: "is_shutdown (modbus_apply ci v u) = is_shutdown u"
  by (auto simp: modbus_apply_def dest!: map_of_SomeD modbus_cases_shutdown split: option.split)

lemma then_fetch: "quiet s t \<Longrightarrow> quiet s (fetch_measurement_blocks t)"
  by (auto simp: fetch_measurement_blocks_def Let_def split_beta intro!: then_quiet(1) then_on_comm)

lemma then_get: "quiet s t \<Longrightarrow> quiet s (snd (get_register_data reg live t))"
  by (simp add: get_register_data_def Let_def then_on_comm)

lemma then_update_ci: "quiet s t \<Longrightarrow> quiet s (snd (update_ci info live t))"
  using then_get [of s t "snd (snd info)" live]
  by (auto simp: update_ci_def split_beta Let_def then_locked split: option.split)

lemma then_update_list: "quiet s t \<Longrightarrow> quiet s (snd (update_list infos dynamic t))"
proof (induction infos arbitrary: t)
  case (Cons info infos)
  obtain ci dyn reg where "info = (ci, dyn, reg)" by (rule prod_cases3)
  then show ?case using Cons by (simp add: split_beta Let_def then_update_ci)
qed simp

lemma then_update_cis: "quiet s t \<Longrightarrow> quiet s (snd (update_cis dynamic t))"
  by (simp add: update_cis_def then_update_list)

lemma then_probe: "quiet s t \<Longrightarrow> quiet s (probe_ci n ci reg t)"
proof (induction n arbitrary: t)
  case (Suc n)
  then show ?case
    using then_get [OF Suc.prems, of reg False]
    by (auto split: prod.split option.split simp: prod_eq_iff then_fetch then_quiet(6))
qed simp

lemma then_capabilities: "quiet s t \<Longrightarrow> quiet s (snd (modbus_get_capabilities t))"
proof -
  have "quiet s t \<Longrightarrow> quiet s (fold (\<lambda>(ci, _, reg). probe_ci 3 ci reg) infos t)" for infos t
    by (induction infos arbitrary: t) (auto intro: then_probe)
  from this [OF then_fetch] show "quiet s t \<Longrightarrow> quiet s (snd (modbus_get_capabilities t))"
    by (simp add: modbus_get_capabilities_def Let_def)
qed

lemma then_recover: "quiet s t \<Longrightarrow> quiet s (recover_stale t)"
  by (auto simp: recover_stale_def Let_def split_beta intro!: then_quiet then_on_comm)

lemma then_volatile: "quiet s t \<Longrightarrow> quiet s (snd (modbus_read_volatile_data t))"
proof -
  assume q: "quiet s t"
  let ?u = "snd (update_cis True (recover_stale (fetch_measurement_blocks t)))"
  have u: "quiet s ?u" by (intro then_update_cis then_recover then_fetch q)
  have "quiet ?u (write_unlock (upd_ups g (snd (time_now (write_lock ?u)))))"
    if "\<And>v. is_shutdown (g v) = is_shutdown v" for g
    by (intro quiet_locked then_quiet quiet_refl that)
  then show ?thesis
    using quiet_trans [OF u] u by (simp add: modbus_read_volatile_data_def Let_def split_beta)
qed

lemma then_poll_failed: "quiet s t \<Longrightarrow> quiet s (poll_failed t)"
  by (auto simp: poll_failed_def Let_def split_beta intro!: then_quiet then_on_comm)

lemma then_poll_succeeded: "quiet s t \<Longrightarrow> quiet s (snd (poll_succeeded x y t))"
  by (auto simp: poll_succeeded_def Let_def intro!: then_quiet)

lemma then_update_no: "quiet s t \<Longrightarrow> quiet s (snd (update_ci_no ci live t))"
  by (auto simp: update_ci_no_def then_update_ci split: option.split)

lemma then_check_pass: "quiet s t \<Longrightarrow> quiet s (snd (check_pass t))"
  by (auto simp: check_pass_def Let_def split_beta
      intro!: then_poll_failed then_poll_succeeded then_update_no then_on_comm)

lemma then_check_loop: "quiet s t \<Longrightarrow> quiet s (snd (check_loop exittime t))"
proof (induction exittime t rule: check_loop.induct)
  case (1 exittime t)
  then show ?case
    using then_check_pass [OF 1(2)]
    by (auto simp: check_loop.simps [of exittime t] split_beta Let_def prod_eq_iff sleep_1_def then_quiet(1))
qed

lemma then_entry_point: "quiet s t \<Longrightarrow> quiet s (snd (modbus_entry_point cmd t))"
  by (auto simp: modbus_entry_point_def Let_def split_beta split: devcmd.split
      intro!: then_update_cis then_quiet)

interpretation modbus: ups_driver modbus_driver
proof
  fix f :: "modbus_drv sys \<Rightarrow> bool \<times> modbus_drv sys" and s
  note q = quiet_refl [of s]
  have "quiet s (snd (modbus_open s))"
    by (auto simp: modbus_open_def Let_def split: option.split intro!: then_on_comm then_quiet)
  moreover have "quiet s (snd (modbus_close s))"
    by (auto simp: modbus_close_def intro!: then_quiet)
  moreover have "quiet s (snd (modbus_read_static_data s))"
    by (auto simp: modbus_read_static_data_def Let_def split_beta intro!: then_update_cis)
  moreover have "quiet s (snd (modbus_kill_power s))" "quiet s (snd (modbus_shutdown s))"
    by (simp_all add: modbus_kill_power_def modbus_shutdown_def write_int_to_ups_def then_on_comm)
  moreover assume "f \<in> driver_ops modbus_driver"
  ultimately show "quiet s (snd (f s))"
    by (auto simp: driver_ops_def modbus_driver_def then_volatile [OF q] then_capabilities [OF q]
        modbus_check_state_def then_check_loop [OF q] default_setup_def then_entry_point [OF q])
qed

subsection \<open>The cached readings\<close>

text \<open>
  A bank of registers, two bytes each, and the bytes of \<open>n\<close> of them from address \<open>addr\<close> on. The
  blocks agree with a bank if they hold its bytes.
\<close>

definition bank_bytes :: "(nat \<Rightarrow> byte \<times> byte) \<Rightarrow> nat \<Rightarrow> nat \<Rightarrow> byte list" where
  "bank_bytes R addr n = concat (map (\<lambda>a. [fst (R a), snd (R a)]) [addr..<addr + n])"

lemma length_bank_bytes [simp]: "length (bank_bytes R addr n) = 2 * n"
  by (induction n) (simp_all add: bank_bytes_def)

lemma bank_bytes_add: "bank_bytes R addr (k + n) = bank_bytes R addr k @ bank_bytes R (addr + k) n"
  by (simp add: bank_bytes_def add.assoc upt_add_eq_append [of addr "addr + k" n, simplified add.assoc])

lemma from_block_bank:
  assumes "in_block addr nregs reg"
  shows "from_block addr reg (bank_bytes R addr nregs) = bank_bytes R (ri_addr reg) (ri_nregs reg)"
proof -
  define k where "k = ri_addr reg - addr"
  have "nregs = k + (ri_nregs reg + (nregs - k - ri_nregs reg))" "addr + k = ri_addr reg"
    using assms by (auto simp: in_block_def k_def)
  then have "bank_bytes R addr nregs = bank_bytes R addr k @ bank_bytes R (ri_addr reg) (ri_nregs reg) @
      bank_bytes R (ri_addr reg + ri_nregs reg) (nregs - k - ri_nregs reg)"
    by (metis bank_bytes_add)
  then show ?thesis by (simp add: from_block_def k_def [symmetric] mult.commute)
qed

definition blocks_hold :: "(nat \<Rightarrow> byte \<times> byte) \<Rightarrow> modbus_drv \<Rightarrow> bool" where
  "blocks_hold R d \<longleftrightarrow>
     mb_blockA d = Some (bank_bytes R MEAS_BLOCK_A_ADDR MEAS_BLOCK_A_NREGS) \<and>
     mb_blockB d = Some (bank_bytes R MEAS_BLOCK_B_ADDR MEAS_BLOCK_B_NREGS) \<and>
     mb_blockC d = Some (bank_bytes R MEAS_BLOCK_C_ADDR MEAS_BLOCK_C_NREGS)"

lemma cached_read:
  assumes "blocks_hold R (drv s)" "in_block_A reg \<or> in_block_B reg \<or> in_block_C reg"
  shows "get_register_data reg False s = (Some (bank_bytes R (ri_addr reg) (ri_nregs reg)), s)"
  using assms
  by (auto simp: get_register_data_def blocks_hold_def from_block_bank Let_def)

lemma drv_comm_read:
  "mb_comm (drv s) = Some c \<Longrightarrow> read_register (ri_addr reg) (ri_nregs reg) c = (r, c') \<Longrightarrow>
    get_register_data reg True s = (r, upd_drv (\<lambda>d. d\<lparr>mb_comm := Some c'\<rparr>) s)"
  by (simp add: get_register_data_def on_comm_def)

text \<open>
  C20: A reading from the measurement blocks is the reading the UPS would give: when the blocks hold
  the contents of the UPS's registers, a cached read of a register in one of them returns the
  bytes that a live read gets from a serial UPS that answers with its register, without
  transmitting anything.
\<close>

theorem cached_read_equals_live:
  assumes "blocks_hold R (drv s)" "in_block_A reg \<or> in_block_B reg \<or> in_block_C reg"
    and "mb_comm (drv s) = Some c" "mc_open c"
    and "serial_at now ((t, SerialBytes (with_crc (mc_slaveaddr c # 3 # count #
           bank_bytes R (ri_addr reg) (ri_nregs reg)))) # w) sent c"
    and "now + 500000 < t" "t \<le> now + 1500000" "silent_until (t + 25000) w"
    and "Some (3, count # bank_bytes R (ri_addr reg) (ri_nregs reg)) \<notin> set (mc_history c)"
  shows "fst (get_register_data reg False s) = fst (get_register_data reg True s) \<and>
    fst (get_register_data reg True s) \<noteq> None \<and> snd (get_register_data reg False s) = s"
proof -
  have "ri_nregs reg \<le> 125" using assms(2) by (auto simp: in_block_def)
  then obtain c' where "read_register (ri_addr reg) (ri_nregs reg) c =
      (Some (bank_bytes R (ri_addr reg) (ri_nregs reg)), c')"
    using read_register_fresh [OF assms(5-8,4) _ _ assms(9)] by auto
  from drv_comm_read [OF assms(3) this] cached_read [OF assms(1,2)] show ?thesis by simp
qed

subsection \<open>The loss of the connection\<close>

lemma on_comm_frame [simp]: "ups (snd (on_comm none f s)) = ups s"
  by (auto simp: on_comm_def split_beta Let_def split: option.split)

lemma on_comm_fail_count [simp]: "mb_fail_count (drv (snd (on_comm none f s))) = mb_fail_count (drv s)"
  by (auto simp: on_comm_def split_beta Let_def split: option.split)

lemma update_no_status:
  "update_ci_no CI_STATUS True s = update_ci (CI_STATUS, True, REG_UPS_STATUS) True s"
  by (simp add: update_ci_no_def get_ci_info_def CI_TABLE_def)

lemma status_keeps_commlost: "is_commlost (modbus_apply CI_STATUS v u) = is_commlost u"
proof -
  have "bit UPS_online k \<longleftrightarrow> k = 3" "bit UPS_onbatt k \<longleftrightarrow> k = 4" for k
    by (rule single_bit; simp add: UPS_online_def UPS_onbatt_def)+
  then show ?thesis
    by (simp add: modbus_apply_def modbus_cases_def commlost.is_f_bit modbus_status_def Let_def
        set_online_def clear_online_def onbatt.bit_set_f onbatt.bit_clear_f bit_or_iff bit_and_iff bit_not_iff)
qed

lemma status_read_frame:
  "is_commlost (ups (snd (update_ci_no CI_STATUS True s))) = is_commlost (ups s)"
  "mb_fail_count (drv (snd (update_ci_no CI_STATUS True s))) = mb_fail_count (drv s)"
  unfolding update_no_status update_ci_def get_register_data_def
  by (auto simp: split_beta Let_def status_keeps_commlost [simplified] write_lock_def write_unlock_def
      split: option.split)

text \<open>
  C21: One poll of a connected UPS: a reading clears the count of failures, a failure adds one to
  it, and the connection is given up exactly with the third failure in a row.
\<close>

theorem commlost_on_third_failure:
  assumes "\<not> is_commlost (ups s)"
  shows "(if fst (update_ci_no CI_STATUS True s)
     then mb_fail_count (drv (snd (check_pass s))) = 0 \<and> \<not> is_commlost (ups (snd (check_pass s)))
     else mb_fail_count (drv (snd (check_pass s))) = mb_fail_count (drv s) + 1 \<and>
       (is_commlost (ups (snd (check_pass s))) \<longleftrightarrow> mb_fail_count (drv s) \<ge> 2))"
  using assms status_read_frame [of s]
  by (auto simp: check_pass_def split_beta Let_def poll_succeeded_def poll_failed_def)

text \<open>
  A connection over a serial line at time \<open>now\<close>, with \<open>w\<close> to come and \<open>n\<close> failed polls behind it,
  whose last answers include \<open>pdu\<close>.
\<close>

definition polled :: "int \<Rightarrow> (int \<times> serial_event) list \<Rightarrow> byte list \<Rightarrow> int \<Rightarrow> modbus_drv sys \<Rightarrow> bool" where
  "polled now w pdu n s \<longleftrightarrow> \<not> is_commlost (ups s) \<and> mb_fail_count (drv s) = n \<and> mb_stop_at (drv s) = None \<and>
     (\<exists>c sent. mb_comm (drv s) = Some c \<and> serial_at now w sent c \<and> mc_open c \<and> mc_slaveaddr c = 1 \<and>
        Some (3, pdu) \<in> set (mc_history c))"

lemma polled_running: "polled now w pdu n s \<Longrightarrow> \<not> shutdown_requested (drv s) \<and> drv_now (drv s) = now"
  by (auto simp: polled_def shutdown_requested_def drv_now_def serial_at_def)

lemma polled_sleep: "polled now w pdu n s \<Longrightarrow> polled (now + 1000000) w pdu n (sleep_1 s)"
  by (auto simp: polled_def sleep_1_def serial_at_def)

lemma poll_repeated:
  assumes "polled now (replies now d (with_crc (1 # 3 # pdu)) 3 @ w) pdu n s"
    and "silent_until (now + 3 * (d + 1525000)) w" "0 < d" "d \<le> 1000000" "length pdu = 5"
  shows "\<exists>s'. update_ci_no CI_STATUS True s = (False, s') \<and> polled (now + 3 * (d + 1525000)) w pdu n s'"
proof -
  obtain c sent where s: "\<not> is_commlost (ups s)" "mb_fail_count (drv s) = n" "mb_stop_at (drv s) = None"
      "mb_comm (drv s) = Some c" "mc_open c" "mc_slaveaddr c = 1" "Some (3, pdu) \<in> set (mc_history c)"
    and at: "serial_at now (replies now d (with_crc (mc_slaveaddr c # 3 # pdu)) 3 @ w) sent c"
    using assms(1) by (auto simp: polled_def)
  obtain c' where r: "read_register (ri_addr REG_UPS_STATUS) (ri_nregs REG_UPS_STATUS) c = (None, c')"
      and c': "same_link c c'"
        "serial_at (now + 3 * (d + 1525000)) w (sent @ replicate 3 (request_frame 3 (hi_lo 0 @ hi_lo 2) c)) c'"
    using read_repeated [OF at assms(2) s(5) assms(3,4), of 2 0] assms(5) s(7)
    by (auto simp: REG_UPS_STATUS_def)
  let ?s = "upd_drv (\<lambda>d. d\<lparr>mb_comm := Some c'\<rparr>) s"
  have "update_ci_no CI_STATUS True s = (False, ?s)"
    unfolding update_no_status update_ci_def by (simp add: drv_comm_read [OF s(4) r])
  moreover have "polled (now + 3 * (d + 1525000)) w pdu n ?s"
    using s c' unfolding polled_def by (auto simp: same_link_def)
  ultimately show ?thesis by blast
qed

lemma pass_repeated:
  assumes "polled now (replies now d (with_crc (1 # 3 # pdu)) 3 @ w) pdu n s"
    and "silent_until (now + 3 * (d + 1525000)) w" "0 < d" "d \<le> 1000000" "length pdu = 5"
  shows "\<not> fst (check_pass s)"
    and "n < 2 \<Longrightarrow> polled (now + 3 * (d + 1525000)) w pdu (n + 1) (snd (check_pass s))"
    and "2 \<le> n \<Longrightarrow> is_commlost (ups (snd (check_pass s))) \<and>
      drv_now (drv (snd (check_pass s))) = now + 3 * (d + 1525000)"
proof -
  obtain s' where s': "update_ci_no CI_STATUS True s = (False, s')" "polled (now + 3 * (d + 1525000)) w pdu n s'"
    using poll_repeated [OF assms] by blast
  have pass: "check_pass s = (False, poll_failed s')"
    using assms(1) s'(1) by (simp add: check_pass_def polled_def)
  then show "\<not> fst (check_pass s)" by simp
  show "polled (now + 3 * (d + 1525000)) w pdu (n + 1) (snd (check_pass s))" if "n < 2"
    using s'(2) that by (auto simp: pass poll_failed_def polled_def Let_def split_beta)
  show "is_commlost (ups (snd (check_pass s))) \<and> drv_now (drv (snd (check_pass s))) = now + 3 * (d + 1525000)"
    if "2 \<le> n"
    using s'(2) that
    by (auto simp: pass poll_failed_def polled_def Let_def split_beta on_comm_def drv_now_def
        serial_at_def)
qed

text \<open>The line, when the UPS answers every poll of the status with the same frame.\<close>

fun steady :: "int \<Rightarrow> int \<Rightarrow> byte list \<Rightarrow> nat \<Rightarrow> (int \<times> serial_event) list" where
  "steady now d frm 0 = []"
| "steady now d frm (Suc n) =
     replies now d frm 3 @ steady (now + 3 * (d + 1525000) + 1000000) d frm n"

lemma steady_silent: "0 < d \<Longrightarrow> silent_until (now - 1000000) (steady now d frm n)"
  by (cases n) (auto simp: silent_until_def numeral_3_eq_3)

text \<open>
  C17: A UPS whose status does not change is given up. It answers each request of its status at once
  and correctly, but with an answer that is among the last six: three polls in a row fail, and the
  connection is declared lost while the UPS is answering.
\<close>

theorem steady_ups_declared_lost:
  assumes "polled now (steady now d (with_crc (1 # 3 # pdu)) 3) pdu 0 s"
    and "0 < d" "d \<le> 1000000" "length pdu = 5"
    and "2 * (3 * (d + 1525000) + 1000000) < wait_time (ups s) * 1000000"
    and "wait_time (ups s) * 1000000 \<le> 3 * (3 * (d + 1525000) + 1000000)"
  shows "\<exists>t. modbus_check_state s = (False, t) \<and> is_commlost (ups t)"
proof -
  define P frm where "P = 3 * (d + 1525000) + 1000000" and "frm = with_crc (1 # 3 # pdu)"
  define stop where "stop = now + wait_time (ups s) * 1000000"
  have silent: "silent_until (x + 3 * (d + 1525000)) (steady (x + P) d frm n)" for x n
    using steady_silent [OF assms(2), of "x + P" frm n] by (simp add: P_def ac_simps)
  have pass: "check_loop stop t = check_loop stop (sleep_1 (snd (check_pass t))) \<and>
      polled (x + P) (steady (x + P) d frm n) pdu (k + 1) (sleep_1 (snd (check_pass t)))"
    if "polled x (steady x d frm (Suc n)) pdu k t" "x < stop" "k < 2" for x n k t
  proof -
    from that(1) have t: "polled x (replies x d (with_crc (1 # 3 # pdu)) 3 @ steady (x + P) d frm n) pdu k t"
      by (simp add: P_def frm_def add.assoc)
    note p = pass_repeated [OF t silent assms(2-4)]
    from polled_sleep [OF p(2) [OF that(3)]] p(1) polled_running [OF t] that(2) show ?thesis
      by (simp add: check_loop.simps [of stop t] split_beta P_def add.assoc)
  qed
  define s1 s2 where "s1 = sleep_1 (snd (check_pass s))" and "s2 = sleep_1 (snd (check_pass s1))"
  have "0 < P" using assms(2) by (simp add: P_def)
  then have stop: "now < stop" "now + P < stop" "now + P + P < stop" "stop \<le> now + P + P + P"
    using assms(5,6) by (simp_all add: stop_def P_def)
  have s: "polled now (steady now d frm (Suc 2)) pdu 0 s"
    using assms(1) by (simp add: frm_def)
  have 1: "check_loop stop s = check_loop stop s1 \<and> polled (now + P) (steady (now + P) d frm (Suc 1)) pdu 1 s1"
    using pass [OF s] stop by (simp add: s1_def numeral_2_eq_2)
  then have 2: "check_loop stop s1 = check_loop stop s2 \<and>
      polled (now + P + P) (steady (now + P + P) d frm 1) pdu 2 s2"
    using pass [of "now + P" 1 1 s1] stop by (simp add: s2_def)
  then have t: "polled (now + P + P) (replies (now + P + P) d (with_crc (1 # 3 # pdu)) 3 @ []) pdu 2 s2"
    by (simp add: frm_def)
  note p = pass_repeated [OF t _ assms(2-4)]
  define t where "t = sleep_1 (snd (check_pass s2))"
  have "is_commlost (ups t)" "drv_now (drv t) = now + P + P + P"
    using p(3) by (simp_all add: silent_until_def t_def sleep_1_time) (simp_all add: sleep_1_def P_def)
  moreover from this have "check_loop stop s2 = (False, t)"
    using p(1) polled_running [OF t] stop
    by (simp add: silent_until_def check_loop.simps [of stop s2] split_beta t_def [symmetric]
        check_loop.simps [of stop t])
  moreover have "modbus_check_state s = check_loop stop s"
    using polled_running [OF s] by (simp add: modbus_check_state_def stop_def)
  ultimately show ?thesis using 1 2 by simp
qed

text \<open>
  Acknowledged by the UPS, \<open>kill_power\<close> has transmitted exactly one frame: a write of the value 1 to
  register 1540, the command to turn the outlets off.
\<close>

theorem kill_power_sent:
  assumes "mb_comm (drv s) = Some c" "mc_open c"
    and "serial_at now ((t, SerialBytes (with_crc (mc_slaveaddr c # 0x10 # [6, 4, 0, 1]))) # w) sent c"
    and "now + 500000 < t" "t \<le> now + 1500000" "silent_until (t + 25000) w"
    and "Some (0x10, [6, 4, 0, 1]) \<notin> set (mc_history c)"
  shows "\<exists>s' c'. modbus_kill_power s = (True, s') \<and> mb_comm (drv s') = Some c' \<and>
    serial_at (t + 25000) w (sent @ [with_crc [mc_slaveaddr c, 0x10, 6, 4, 0, 1, 2, 0, 1]]) c'"
proof -
  have pdu: "hi_lo 1540 = [6, 4]" "hi_lo (Suc 0) = [0, 1]" by (simp_all add: hi_lo_def)
  have four: "length [6, 4, 0, 1 :: byte] = 4" by simp
  have "\<exists>c'. send_and_wait 0x10 [6, 4, 0, 1, 2, 0, 1] (length [6, 4, 0, 1 :: byte]) c = (Some [6, 4, 0, 1], c') \<and>
      serial_at (t + 25000) w (sent @ [request_frame 0x10 [6, 4, 0, 1, 2, 0, 1] c]) c'"
    using send_fresh [OF assms(3-6) _ _ fc_plain(2) assms(7), of "[6, 4, 0, 1, 2, 0, 1]"] by (simp only: list.size) auto
  then obtain c' where c': "send_and_wait 0x10 [6, 4, 0, 1, 2, 0, 1] 4 c = (Some [6, 4, 0, 1], c')"
      "serial_at (t + 25000) w (sent @ [request_frame 0x10 [6, 4, 0, 1, 2, 0, 1] c]) c'"
    unfolding four by blast
  have "be_bytes 2 1 = [0, 1]" by (simp add: be_bytes_def upt_rec)
  then have "write_register 1540 1 (be_bytes 2 1) c = (True, c')"
    using assms(2) c'(1) pdu by (simp add: write_register_def Let_def)
  then have "modbus_kill_power s = (True, upd_drv (\<lambda>d. d\<lparr>mb_comm := Some c'\<rparr>) s)"
    using assms(1) by (simp add: modbus_kill_power_def write_int_to_ups_def on_comm_def REG_SIMPLE_SIGNALLING_CMD_def)
  then show ?thesis using c'(2) by (simp add: request_frame_def)
qed

subsection \<open>The properties at a concrete input\<close>

definition demo_modbus :: "modbus_comm \<Rightarrow> modbus_drv sys" where
  "demo_modbus c = upd_ups (\<lambda>u. u\<lparr>wait_time := 12\<rparr>)
     (start_sys ((new_modbus 0 (\<lambda>_ _. mc_line c))\<lparr>mb_comm := Some c\<rparr>))"

lemma demo_modbus [simp]:
  "mb_comm (drv (demo_modbus c)) = Some c" "mb_fail_count (drv (demo_modbus c)) = 0"
  "mb_stop_at (drv (demo_modbus c)) = None" "wait_time (ups (demo_modbus c)) = 12"
  "\<not> is_commlost (ups (demo_modbus c))"
  by (simp_all add: demo_modbus_def start_sys_def new_modbus_def is_bits new_ups_def zero_ups_def set_battpresent_def
      UPS_battpresent_def bit_numeral_word_iff)

theorem steady_ups_declared_lost_witness:
  "\<exists>t. modbus_check_state (demo_modbus ((demo_serial (steady 0 10000 demo_answer 3))
      \<lparr>mc_history := replicate 5 None @ [Some (3, [4, 0, 0, 0, 2])]\<rparr>)) = (False, t) \<and> is_commlost (ups t)"
proof (rule steady_ups_declared_lost [of 0 10000 "[4, 0, 0, 0, 2]"])
  let ?c = "(demo_serial (steady 0 10000 demo_answer 3))\<lparr>mc_history := replicate 5 None @ [Some (3, [4, 0, 0, 0, 2])]\<rparr>"
  have "serial_at 0 (steady 0 10000 demo_answer 3) [] ?c"
    using demo_serial_at [of "steady 0 10000 demo_answer 3"] by (simp add: serial_at_def)
  then show "polled 0 (steady 0 10000 (with_crc (1 # 3 # [4, 0, 0, 0, 2])) 3) [4, 0, 0, 0, 2] 0 (demo_modbus ?c)"
    by (auto simp: polled_def demo_answer_def)
qed simp_all

theorem commlost_on_third_failure_witness:
  "is_commlost (ups (snd (check_pass (upd_drv (\<lambda>d. d\<lparr>mb_fail_count := 2\<rparr>)
     (demo_modbus (new_comm (Serial undefined) 0))))))"
proof -
  let ?s = "upd_drv (\<lambda>d. d\<lparr>mb_fail_count := 2\<rparr>) (demo_modbus (new_comm (Serial undefined) 0))"
  have "\<not> fst (update_ci_no CI_STATUS True ?s)"
    unfolding update_no_status update_ci_def
    by (simp add: get_register_data_def on_comm_def read_register_def new_comm_def)
  then show ?thesis using commlost_on_third_failure [of ?s] by simp
qed

theorem kill_power_sent_witness:
  "fst (modbus_kill_power (demo_modbus (demo_serial [(510000, SerialBytes (with_crc [1, 0x10, 6, 4, 0, 1]))])))"
proof -
  let ?c = "demo_serial [(510000, SerialBytes (with_crc [1, 0x10, 6, 4, 0, 1]))]"
  have "serial_at 0 ((510000, SerialBytes (with_crc (mc_slaveaddr ?c # 0x10 # [6, 4, 0, 1]))) # []) [] ?c"
    by simp
  from kill_power_sent [OF demo_modbus(1) demo_serial_fields(2) this] show ?thesis
    by (auto simp: silent_until_def)
qed

definition zero_bank :: "nat \<Rightarrow> byte \<times> byte" where
  "zero_bank a = (0, if a = 1 then 2 else 0)"

theorem cached_read_equals_live_witness:
  "fst (get_register_data REG_UPS_STATUS True (upd_drv (\<lambda>d. d\<lparr>mb_blockA := Some (bank_bytes zero_bank 128 19),
     mb_blockB := Some (bank_bytes zero_bank 150 2), mb_blockC := Some (bank_bytes zero_bank 0 27)\<rparr>)
     (demo_modbus (demo_serial [(510000, SerialBytes demo_answer)])))) = Some [0, 0, 0, 2]"
proof -
  let ?c = "demo_serial [(510000, SerialBytes demo_answer)]"
  let ?s = "upd_drv (\<lambda>d. d\<lparr>mb_blockA := Some (bank_bytes zero_bank 128 19),
     mb_blockB := Some (bank_bytes zero_bank 150 2), mb_blockC := Some (bank_bytes zero_bank 0 27)\<rparr>) (demo_modbus ?c)"
  have hold: "blocks_hold zero_bank (drv ?s)" "in_block_C REG_UPS_STATUS"
    by (simp_all add: blocks_hold_def in_block_def REG_UPS_STATUS_def)
  have bytes: "bank_bytes zero_bank (ri_addr REG_UPS_STATUS) (ri_nregs REG_UPS_STATUS) = [0, 0, 0, 2]"
    by (simp add: bank_bytes_def zero_bank_def REG_UPS_STATUS_def upt_rec)
  have "fst (get_register_data REG_UPS_STATUS False ?s) = fst (get_register_data REG_UPS_STATUS True ?s)"
    using cached_read_equals_live [OF hold(1), of REG_UPS_STATUS ?c 0 510000 4 "[]" "[]"] hold(2)
    by (auto simp: bytes silent_until_def demo_answer_def [symmetric])
  moreover have "fst (get_register_data REG_UPS_STATUS False ?s) = Some [0, 0, 0, 2]"
    using cached_read [OF hold(1), of REG_UPS_STATUS] hold(2) by (simp add: bytes)
  ultimately show ?thesis by simp
qed

end
