(* ===== verification/UsbDriver.thy ===== *)
theory UsbDriver
  imports DriverKit
begin

text \<open>
  The part of the USB driver that is common to its platforms (\<open>src/drivers/usb/usb.c\<close>): the table
  of the readings it knows, what each reading assigns in \<open>UPSINFO\<close>, the polls, and the many ways
  to put a UPS into hibernation. A platform provides four operations; they are a record, as
  the virtual methods of the base class are, and their contract is the locale \<open>usb_platform\<close>.
\<close>

unbundle bit_operations_syntax

subsection \<open>Readings\<close>

datatype usb_data_type = T_NONE | T_INDEX | T_CAPACITY | T_BITS | T_UNITS | T_DATE | T_APCDATE

datatype usb_value_type = V_DEFAULT | V_DOUBLE | V_STRING | V_INTEGER

record usb_value =
  uv_type :: usb_value_type
  uv_dbl :: rat
  uv_int :: int
  uv_unit :: string
  uv_str :: string

definition new_usb_value :: usb_value where
  "new_usb_value = \<lparr>uv_type = V_DEFAULT, uv_dbl = 0, uv_int = 0, uv_unit = ''Uninitialized'',
     uv_str = ''Uninitialized''\<rparr>"

abbreviation (input) P_ANY :: "32 word" where "P_ANY \<equiv> 0"
abbreviation (input) P_OUTPUT :: "32 word" where "P_OUTPUT \<equiv> 0x84001C"
abbreviation (input) P_BATTERY :: "32 word" where "P_BATTERY \<equiv> 0x840012"
abbreviation (input) P_INPUT :: "32 word" where "P_INPUT \<equiv> 0x84001A"
abbreviation (input) P_PWSUM :: "32 word" where "P_PWSUM \<equiv> 0x840024"
abbreviation (input) P_APC1 :: "32 word" where "P_APC1 \<equiv> 0xFF860007"

text \<open>Capability (\<open>CI_NONE\<close> is \<open>None\<close>), usage, physical and logical collection, type, volatile?\<close>

type_synonym known_info =
  "nat option \<times> 32 word \<times> 32 word \<times> 32 word \<times> usb_data_type \<times> bool"

definition KNOWN_INFO :: "known_info list" where
  "KNOWN_INFO =
     [(None, 0x00840001, P_ANY, P_ANY, T_INDEX, False),
      (Some CI_VLINE, 0x00840030, P_INPUT, P_ANY, T_UNITS, True),
      (Some CI_VOUT, 0x00840030, P_OUTPUT, P_ANY, T_UNITS, True),
      (Some CI_VBATT, 0x00840030, P_BATTERY, P_ANY, T_UNITS, True),
      (Some CI_VBATT, 0x00840030, P_ANY, P_PWSUM, T_UNITS, True),
      (None, 0x00840031, P_ANY, P_ANY, T_UNITS, False),
      (Some CI_FREQ, 0x00840032, P_OUTPUT, P_ANY, T_UNITS, True),
      (None, 0x00840033, P_ANY, P_ANY, T_UNITS, False),
      (None, 0x00840034, P_ANY, P_ANY, T_UNITS, False),
      (Some CI_LOAD, 0x00840035, P_ANY, P_ANY, T_UNITS, True),
      (Some CI_ITEMP, 0x00840036, P_BATTERY, P_ANY, T_UNITS, True),
      (Some CI_ATEMP, 0x00840036, P_APC1, P_ANY, T_UNITS, True),
      (Some CI_HUMID, 0x00840037, P_ANY, P_ANY, T_UNITS, True),
      (Some CI_NOMBATTV, 0x00840040, P_BATTERY, P_ANY, T_UNITS, False),
      (Some CI_NOMBATTV, 0x00840040, P_ANY, P_PWSUM, T_UNITS, False),
      (Some CI_NOMOUTV, 0x00840040, P_OUTPUT, P_ANY, T_UNITS, False),
      (Some CI_NOMINV, 0x00840040, P_INPUT, P_ANY, T_UNITS, False),
      (None, 0x00840042, P_ANY, P_ANY, T_UNITS, False),
      (None, 0x00840043, P_ANY, P_ANY, T_UNITS, False),
      (Some CI_NOMPOWER, 0x00840044, P_ANY, P_ANY, T_UNITS, False),
      (Some CI_LTRANS, 0x00840053, P_ANY, P_ANY, T_UNITS, False),
      (Some CI_HTRANS, 0x00840054, P_ANY, P_ANY, T_UNITS, False),
      (Some CI_DelayBeforeReboot, 0x00840055, P_ANY, P_ANY, T_UNITS, False),
      (Some CI_DWAKE, 0x00840056, P_ANY, P_ANY, T_UNITS, False),
      (Some CI_DelayBeforeShutdown, 0x00840057, P_ANY, P_ANY, T_UNITS, False),
      (Some CI_ST_STAT, 0x00840058, P_ANY, P_ANY, T_NONE, False),
      (Some CI_DALARM, 0x0084005A, P_ANY, P_ANY, T_NONE, True),
      (None, 0x00840061, P_ANY, P_ANY, T_NONE, False),
      (Some CI_IFailure, 0x00840062, P_ANY, P_ANY, T_NONE, False),
      (Some CI_PWVoltageOOR, 0x00840063, P_ANY, P_ANY, T_NONE, False),
      (Some CI_PWFrequencyOOR, 0x00840064, P_ANY, P_ANY, T_NONE, False),
      (Some CI_Overload, 0x00840065, P_ANY, P_ANY, T_NONE, True),
      (Some CI_OverCharged, 0x00840066, P_ANY, P_ANY, T_NONE, False),
      (Some CI_OverTemp, 0x00840067, P_ANY, P_ANY, T_NONE, False),
      (Some CI_ShutdownRequested, 0x00840068, P_ANY, P_ANY, T_NONE, False),
      (Some CI_ShutdownImminent, 0x00840069, P_ANY, P_ANY, T_NONE, True),
      (None, 0x0084006B, P_ANY, P_ANY, T_NONE, False),
      (None, 0x0084006C, P_ANY, P_ANY, T_NONE, False),
      (Some CI_Boost, 0x0084006E, P_ANY, P_ANY, T_NONE, True),
      (Some CI_Trim, 0x0084006F, P_ANY, P_ANY, T_NONE, True),
      (Some CI_CommunicationLost, 0x00840073, P_ANY, P_ANY, T_NONE, False),
      (Some CI_Manufacturer, 0x008400FD, P_ANY, P_ANY, T_INDEX, False),
      (Some CI_UPSMODEL, 0x008400FE, P_ANY, P_ANY, T_INDEX, False),
      (Some CI_SERNO, 0x008400FF, P_ANY, P_ANY, T_INDEX, False),
      (Some CI_MANDAT, 0x00850085, P_ANY, P_PWSUM, T_DATE, False),
      (Some CI_RemCapLimit, 0x00850029, P_ANY, P_ANY, T_CAPACITY, False),
      (Some CI_RemTimeLimit, 0x0085002A, P_ANY, P_ANY, T_UNITS, False),
      (None, 0x0085002C, P_ANY, P_ANY, T_CAPACITY, False),
      (Some CI_BelowRemCapLimit, 0x00850042, P_ANY, P_ANY, T_NONE, True),
      (Some CI_RemTimeLimitExpired, 0x00850043, P_ANY, P_ANY, T_NONE, True),
      (Some CI_Charging, 0x00850044, P_ANY, P_ANY, T_NONE, False),
      (Some CI_Discharging, 0x00850045, P_ANY, P_ANY, T_NONE, True),
      (Some CI_NeedReplacement, 0x0085004B, P_ANY, P_ANY, T_NONE, True),
      (Some CI_BATTLEV, 0x00850066, P_ANY, P_ANY, T_CAPACITY, True),
      (None, 0x00850067, P_ANY, P_ANY, T_CAPACITY, False),
      (Some CI_RUNTIM, 0x00850068, P_ANY, P_ANY, T_UNITS, True),
      (Some CI_CycleCount, 0x0085006B, P_ANY, P_ANY, T_NONE, False),
      (Some CI_BattPackLevel, 0x00850080, P_ANY, P_ANY, T_NONE, False),
      (None, 0x00850083, P_ANY, P_ANY, T_CAPACITY, False),
      (Some CI_BATTDAT, 0x00850085, P_BATTERY, P_ANY, T_DATE, False),
      (Some CI_IDEN, 0x00850088, P_ANY, P_ANY, T_INDEX, False),
      (None, 0x00850089, P_ANY, P_ANY, T_INDEX, False),
      (None, 0x0085008B, P_ANY, P_ANY, T_NONE, False),
      (Some CI_WarningCapacityLimit, 0x0085008C, P_ANY, P_ANY, T_CAPACITY, False),
      (None, 0x0085008D, P_ANY, P_ANY, T_CAPACITY, False),
      (None, 0x0085008E, P_ANY, P_ANY, T_CAPACITY, False),
      (None, 0x0085008F, P_ANY, P_ANY, T_INDEX, False),
      (Some CI_ACPresent, 0x008500D0, P_ANY, P_ANY, T_NONE, True),
      (Some CI_BatteryPresent, 0x008500D1, P_ANY, P_ANY, T_NONE, True),
      (Some CI_ChargerVoltageOOR, 0x008500D8, P_ANY, P_ANY, T_NONE, False),
      (Some CI_ChargerCurrentOOR, 0x008500D9, P_ANY, P_ANY, T_NONE, False),
      (Some CI_CurrentNotRegulated, 0x008500DA, P_ANY, P_ANY, T_NONE, False),
      (Some CI_VoltageNotRegulated, 0x008500DB, P_ANY, P_ANY, T_NONE, False),
      (Some CI_STESTI, 0xFF86001A, P_ANY, P_ANY, T_NONE, False),
      (Some CI_STATUS, 0xFF860060, P_ANY, P_ANY, T_BITS, True),
      (Some CI_DSHUTD, 0xFF860076, P_ANY, P_ANY, T_UNITS, False),
      (None, 0xFF860005, P_ANY, P_ANY, T_NONE, False),
      (Some CI_APCForceShutdown, 0xFF86007C, P_ANY, P_ANY, T_NONE, False),
      (Some CI_TESTALARM, 0xFF860072, P_ANY, P_ANY, T_NONE, False),
      (None, 0xFF860042, P_ANY, P_ANY, T_NONE, False),
      (None, 0xFF860079, P_ANY, P_ANY, T_NONE, False),
      (Some CI_RETPCT, 0xFF860019, P_ANY, P_ANY, T_CAPACITY, False),
      (Some CI_APCDelayBeforeStartup, 0xFF86007E, P_ANY, P_ANY, T_UNITS, False),
      (Some CI_APCDelayBeforeShutdown, 0xFF86007D, P_ANY, P_ANY, T_UNITS, False),
      (Some CI_APCLineFailCause, 0xFF860052, P_ANY, P_ANY, T_NONE, True),
      (Some CI_SENS, 0xFF860061, P_ANY, P_ANY, T_NONE, False),
      (Some CI_BUPBattCapBeforeStartup, 0x00860012, P_ANY, P_ANY, T_NONE, False),
      (Some CI_BUPDelayBeforeStartup, 0x00860076, P_ANY, P_ANY, T_NONE, False),
      (Some CI_BUPSelfTest, 0x00860010, P_ANY, P_ANY, T_NONE, False),
      (Some CI_BUPHibernate, 0x00850058, P_ANY, P_ANY, T_NONE, False)]"

subsection \<open>What a reading assigns\<close>

definition status_byte :: "int \<Rightarrow> upsinfo \<Rightarrow> upsinfo" where
  "status_byte i u = u\<lparr>Status := (Status u AND NOT 0xFF) OR (word_of_int i AND 0xFF)\<rparr>"

definition when_set :: "(upsinfo \<Rightarrow> upsinfo) \<Rightarrow> usb_value \<Rightarrow> upsinfo \<Rightarrow> upsinfo" where
  "when_set f v u = (if uv_int v \<noteq> 0 then f u else u)"

definition usb_test_result :: "int \<Rightarrow> SelfTestResult" where
  "usb_test_result i =
     (if i = 1 then TEST_PASSED else if i = 2 then TEST_WARNING
      else if i = 3 \<or> i = 4 then TEST_FAILED else if i = 5 then TEST_INPROGRESS
      else if i = 6 then TEST_NONE else TEST_UNKNOWN)"

definition usb_test_interval :: "int \<Rightarrow> string" where
  "usb_test_interval i =
     (if i = 0 then ''None'' else if i = 1 then ''Power On'' else if i = 2 then ''7 days''
      else ''14 days'')"

definition usb_fail_cause :: "int \<Rightarrow> LastXferCause" where
  "usb_fail_cause i =
     (if i = 0 then XFER_NONE else if i = 2 then XFER_OVERVOLT else if i = 3 then XFER_RIPPLE
      else if i = 1 \<or> i = 4 \<or> i = 8 \<or> i = 9 then XFER_UNDERVOLT
      else if i = 6 \<or> i = 10 then XFER_FORCED
      else if i = 7 then XFER_FREQ
      else if i = 5 \<or> i = 11 \<or> i = 12 \<or> i = 13 then XFER_SELFTEST
      else XFER_UNKNOWN)"

definition usb_sensitivity :: "int \<Rightarrow> string" where
  "usb_sensitivity i =
     (if i = 0 then ''Low'' else if i = 1 then ''Medium'' else if i = 2 then ''High'' else ''Unknown'')"

text \<open>\<open>%4d-%02d-%02d\<close> of a HID date and of APC's own; the fields of a date are never negative.\<close>

definition show_date :: "nat \<Rightarrow> nat \<Rightarrow> nat \<Rightarrow> string" where
  "show_date y m d =
     replicate (4 - length (show_nat y)) CHR '' '' @ show_nat y @ ''-'' @ show_pad 2 m @ ''-'' @ show_pad 2 d"

definition hid_date :: "int \<Rightarrow> string" where
  "hid_date i = show_date (nat (i div 512 + 1980)) (nat (i div 32 mod 16)) (nat (i mod 32))"

definition bcd :: "int \<Rightarrow> int" where
  "bcd v = (v div 16 mod 16) * 10 + v mod 16"

definition apc_date :: "int \<Rightarrow> string" where
  "apc_date v = show_date (nat (bcd v + 2000)) (nat (bcd (v div 65536))) (nat (bcd (v div 256)))"

text \<open>Some UPSes get the units wrong.\<close>

function below_1000 :: "int \<Rightarrow> int" where
  "below_1000 v = (if v > 1000 then below_1000 (v div 10) else v)"
  by pat_completeness auto

termination by (relation "measure nat") auto

declare below_1000.simps [simp del]

definition model_and_firmware :: "string \<Rightarrow> upsinfo \<Rightarrow> upsinfo" where
  "model_and_firmware str u =
     (let (name, u1) =
        (case strstr str ''FW:'' of
           None \<Rightarrow> (str, u)
         | Some fw \<Rightarrow> (take (length str - length fw) str,
             u\<lparr>firmrev := strlcpy_to 20 (dropWhile isspace (drop 3 fw)),
               UPS_Cap := (UPS_Cap u)(CI_REVNO := True)\<rparr>))
      in u1\<lparr>upsmodel := strlcpy_to 256 (dropWhile isspace name)\<rparr>)"

definition serial_number :: "string \<Rightarrow> upsinfo \<Rightarrow> upsinfo" where
  "serial_number str u =
     (let ser = strlcpy_to 32 str
      in if \<exists>c\<in>set ser. char_code c < 32 \<or> char_code c > 122
         then u\<lparr>serial := [], UPS_Cap := (UPS_Cap u)(CI_SERNO := False)\<rparr>
         else u\<lparr>serial := ser\<rparr>)"

definition usb_cases :: "(nat \<times> (usb_value \<Rightarrow> upsinfo \<Rightarrow> upsinfo)) list" where
  "usb_cases =
     [(CI_STATUS, \<lambda>v. status_byte (uv_int v)),
      (CI_ACPresent, when_set set_online),
      (CI_Discharging, \<lambda>v. if uv_int v = 0 then set_online else clear_online),
      (CI_BelowRemCapLimit, when_set set_battlow),
      (CI_RemTimeLimitExpired, when_set set_battlow),
      (CI_ShutdownImminent, when_set set_battlow),
      (CI_Boost, when_set set_boost),
      (CI_Trim, when_set set_trim),
      (CI_Overload, when_set set_overload),
      (CI_NeedReplacement, when_set set_replacebatt),
      (CI_VLINE, \<lambda>v u. u\<lparr>LineVoltage := uv_dbl v\<rparr>),
      (CI_VOUT, \<lambda>v u. u\<lparr>OutputVoltage := uv_dbl v\<rparr>),
      (CI_BATTLEV, \<lambda>v u. u\<lparr>BattChg := uv_dbl v\<rparr>),
      (CI_VBATT, \<lambda>v u. u\<lparr>BattVoltage := uv_dbl v\<rparr>),
      (CI_LOAD, \<lambda>v u. u\<lparr>UPSLoad := uv_dbl v\<rparr>),
      (CI_FREQ, \<lambda>v u. u\<lparr>LineFreq := uv_dbl v\<rparr>),
      (CI_RUNTIM, \<lambda>v u. u\<lparr>TimeLeft := uv_dbl v / 60\<rparr>),
      (CI_ITEMP, \<lambda>v u. u\<lparr>UPSTemp := uv_dbl v - 27315 / 100\<rparr>),
      (CI_HUMID, \<lambda>v u. u\<lparr>humidity := uv_dbl v\<rparr>),
      (CI_ATEMP, \<lambda>v u. u\<lparr>ambtemp := uv_dbl v - 27315 / 100\<rparr>),
      (CI_ST_STAT, \<lambda>v u. u\<lparr>testresult := usb_test_result (uv_int v)\<rparr>),
      (CI_STESTI, \<lambda>v u. u\<lparr>selftest := strlcpy_to 9 (usb_test_interval (uv_int v))\<rparr>),
      (CI_APCLineFailCause, \<lambda>v u. u\<lparr>lastxfer := usb_fail_cause (uv_int v)\<rparr>),
      (CI_IDEN, \<lambda>v u. if upsname u = [] \<and> uv_str v \<noteq> [] then u\<lparr>upsname := strlcpy_to 100 (uv_str v)\<rparr> else u),
      (CI_UPSMODEL, \<lambda>v. model_and_firmware (uv_str v)),
      (CI_DWAKE, \<lambda>v u. u\<lparr>dwake := trunc (uv_dbl v)\<rparr>),
      (CI_DSHUTD, \<lambda>v u. u\<lparr>dshutd := trunc (uv_dbl v)\<rparr>),
      (CI_LTRANS, \<lambda>v u. u\<lparr>lotrans := trunc (uv_dbl v)\<rparr>),
      (CI_HTRANS, \<lambda>v u. u\<lparr>hitrans := trunc (uv_dbl v)\<rparr>),
      (CI_RETPCT, \<lambda>v u. u\<lparr>rtnpct := trunc (uv_dbl v)\<rparr>),
      (CI_DLBATT, \<lambda>v u. u\<lparr>dlowbatt := trunc (uv_dbl v)\<rparr>),
      (CI_MANDAT, \<lambda>v u. u\<lparr>birth := hid_date (uv_int v)\<rparr>),
      (CI_BATTDAT, \<lambda>v u. u\<lparr>battdat := hid_date (uv_int v)\<rparr>),
      (CI_BattReplaceDate, \<lambda>v u. u\<lparr>battdat := apc_date (uv_int v)\<rparr>),
      (CI_SERNO, \<lambda>v. serial_number (uv_str v)),
      (CI_NOMOUTV, \<lambda>v u. u\<lparr>NomOutputVoltage := below_1000 (trunc (uv_dbl v))\<rparr>),
      (CI_NOMINV, \<lambda>v u. u\<lparr>NomInputVoltage := below_1000 (trunc (uv_dbl v))\<rparr>),
      (CI_NOMBATTV, \<lambda>v u. u\<lparr>nombattv := uv_dbl v\<rparr>),
      (CI_NOMPOWER, \<lambda>v u. u\<lparr>NomPower := trunc (uv_dbl v)\<rparr>),
      (CI_SENS, \<lambda>v u. u\<lparr>sensitivity := strlcpy_to 8 (usb_sensitivity (uv_int v))\<rparr>),
      (CI_DALARM, \<lambda>v u. u\<lparr>beepstate := strlcpy_to 8 (if uv_int v = 1 then ''N'' else ''T'')\<rparr>)]"

subsection \<open>The driver\<close>

text \<open>The fields of the base class, the clock of its calls, and the platform's own state.\<close>

record 'p usb_drv =
  ub_quirk :: bool                 \<comment> \<open>\<open>_quirk_old_backups_pro\<close>\<close>
  ub_prev_time :: int
  ub_bpcnt :: int
  ub_now :: int
  ub_port :: 'p

definition new_usb_drv :: "int \<Rightarrow> 'p \<Rightarrow> 'p usb_drv" where
  "new_usb_drv now p = \<lparr>ub_quirk = False, ub_prev_time = 0, ub_bpcnt = 0, ub_now = now, ub_port = p\<rparr>"

text \<open>What a platform provides: \<open>pusb_ups_get_capabilities\<close>, \<open>pusb_get_value\<close>, \<open>read_int_from_ups\<close>, \<open>write_int_to_ups\<close>.\<close>

record 'p usb_platform =
  pf_capabilities :: "'p usb_drv sys \<Rightarrow> bool \<times> 'p usb_drv sys"
  pf_get_value :: "nat \<Rightarrow> 'p usb_drv sys \<Rightarrow> usb_value option \<times> 'p usb_drv sys"
  pf_read_int :: "nat \<Rightarrow> 'p usb_drv sys \<Rightarrow> int option \<times> 'p usb_drv sys"
  pf_write_int :: "nat \<Rightarrow> int \<Rightarrow> 'p usb_drv sys \<Rightarrow> bool \<times> 'p usb_drv sys"

definition usb_sleep :: "int \<Rightarrow> 'p usb_drv sys \<Rightarrow> 'p usb_drv sys" where
  "usb_sleep t s = upd_drv (\<lambda>d. d\<lparr>ub_now := ub_now d + t\<rparr>) s"

abbreviation (input) URB_DELAY_MS :: int where "URB_DELAY_MS \<equiv> 20"

definition usb_get_value :: "'p usb_platform \<Rightarrow> nat \<Rightarrow> 'p usb_drv sys \<Rightarrow> usb_value option \<times> 'p usb_drv sys" where
  "usb_get_value P ci s =
     (let prev = ub_prev_time (drv s); diff = tv_diff_ms prev (ub_now (drv s));
          s1 = (if prev div 1000000 \<noteq> 0 \<and> 0 \<le> diff \<and> diff < URB_DELAY_MS
                then usb_sleep ((URB_DELAY_MS - diff) * 1000) s else s)
      in pf_get_value P ci (upd_drv (\<lambda>d. d\<lparr>ub_prev_time := ub_now d\<rparr>) s1))"

text \<open>Readings of a BackUPS Pro that are ASCII digits; the result is \<open>None\<close> if the reading is not.\<close>

definition bup_digits :: "int \<Rightarrow> string" where
  "bup_digits val = map (\<lambda>k. char_of (nat (val div k mod 256))) [65536, 256, 1]"

definition usb_process_value_bup :: "nat \<Rightarrow> usb_value \<Rightarrow> upsinfo \<Rightarrow> upsinfo option" where
  "usb_process_value_bup ci v u =
     (let digits = bup_digits (trunc (uv_dbl v))
      in if ci = CI_RUNTIM then Some (u\<lparr>TimeLeft := uv_dbl v\<rparr>)
         else if \<not> list_all isdigit digits then None
         else if ci = CI_LOAD then Some (u\<lparr>UPSLoad := of_int (atoi digits)\<rparr>)
         else if ci = CI_LTRANS then Some (u\<lparr>lotrans := atoi digits\<rparr>)
         else if ci = CI_HTRANS then Some (u\<lparr>hitrans := atoi digits\<rparr>)
         else if ci = CI_FREQ then Some (u\<lparr>LineFreq := of_int (atoi digits)\<rparr>)
         else None)"

text \<open>\<open>BatteryPresent\<close> is believed when it is reported twice in a row.\<close>

definition battery_present :: "bool \<Rightarrow> 'p usb_drv sys \<Rightarrow> 'p usb_drv sys" where
  "battery_present present s =
     (if present
      then let n = ub_bpcnt (drv s); s1 = upd_drv (\<lambda>d. d\<lparr>ub_bpcnt := n + 1\<rparr>) s
           in if n \<noteq> 0 then upd_ups set_battpresent s1 else s1
      else upd_ups clear_battpresent (upd_drv (\<lambda>d. d\<lparr>ub_bpcnt := 0\<rparr>) s))"

definition usb_process_value :: "nat \<Rightarrow> usb_value \<Rightarrow> 'p usb_drv sys \<Rightarrow> 'p usb_drv sys" where
  "usb_process_value ci v s =
     (case if ub_quirk (drv s) then usb_process_value_bup ci v (ups s) else None of
        Some u \<Rightarrow> upd_ups (\<lambda>_. u) s
      | None \<Rightarrow>
          if ci = CI_BatteryPresent then battery_present (uv_int v \<noteq> 0) s
          else case map_of usb_cases ci of
                 None \<Rightarrow> s
               | Some f \<Rightarrow> upd_ups (f v) s)"

definition usb_update_value :: "'p usb_platform \<Rightarrow> nat \<Rightarrow> 'p usb_drv sys \<Rightarrow> bool \<times> 'p usb_drv sys" where
  "usb_update_value P ci s =
     (case usb_get_value P ci s of
        (None, s1) \<Rightarrow> (False, s1)
      | (Some v, s1) \<Rightarrow> (True, usb_process_value ci v s1))"

text \<open>Whether the report of an event ends the wait for events.\<close>

definition usb_important :: "nat \<Rightarrow> bool" where
  "usb_important ci \<longleftrightarrow>
     ci \<in> {CI_Discharging, CI_ACPresent, CI_BelowRemCapLimit, CI_BATTLEV, CI_RUNTIM, CI_NeedReplacement,
          CI_ShutdownImminent, CI_BatteryPresent, CI_IFailure, CI_Overload, CI_PWVoltageOOR,
          CI_PWFrequencyOOR, CI_OverCharged, CI_OverTemp, CI_CommunicationLost, CI_ChargerVoltageOOR,
          CI_ChargerCurrentOOR, CI_CurrentNotRegulated, CI_VoltageNotRegulated}"

definition usb_report_event :: "nat \<Rightarrow> usb_value \<Rightarrow> 'p usb_drv sys \<Rightarrow> bool \<times> 'p usb_drv sys" where
  "usb_report_event ci v s = (usb_important ci, usb_process_value ci v s)"

text \<open>The readings of a pass, in the order of the table.\<close>

definition poll_list :: "bool \<Rightarrow> nat list" where
  "poll_list vol = List.map_filter (\<lambda>(ci, _, _, _, _, v). if v = vol then ci else None) KNOWN_INFO"

definition update_all :: "'p usb_platform \<Rightarrow> nat list \<Rightarrow> 'p usb_drv sys \<Rightarrow> 'p usb_drv sys" where
  "update_all P todo s = fold (\<lambda>ci s. snd (usb_update_value P ci s)) todo s"

abbreviation (input) MAX_VOLATILE_POLL_RATE :: int where "MAX_VOLATILE_POLL_RATE \<equiv> 5"

definition usb_read_volatile_data :: "'p usb_platform \<Rightarrow> 'p usb_drv sys \<Rightarrow> bool \<times> 'p usb_drv sys" where
  "usb_read_volatile_data P s =
     (let last_poll = poll_time (ups s); (now, s1) = time_now s
      in if is_onbatt (ups s1) \<and> last_poll \<noteq> 0 \<and> now - last_poll < MAX_VOLATILE_POLL_RATE then (True, s1)
         else (True, write_unlock (update_all P (poll_list True)
                (upd_ups (\<lambda>u. status_byte 0 (u\<lparr>poll_time := now\<rparr>)) (write_lock s1)))))"

definition usb_read_static_data :: "'p usb_platform \<Rightarrow> 'p usb_drv sys \<Rightarrow> bool \<times> 'p usb_drv sys" where
  "usb_read_static_data P s = (True, write_unlock (update_all P (poll_list False) (write_lock s)))"

definition set_cap :: "nat \<Rightarrow> bool \<Rightarrow> 'p usb_drv sys \<Rightarrow> 'p usb_drv sys" where
  "set_cap ci b s = upd_ups (\<lambda>u. u\<lparr>UPS_Cap := (UPS_Cap u)(ci := b)\<rparr>) s"

definition check_nompower :: "'p usb_platform \<Rightarrow> 'p usb_drv sys \<Rightarrow> 'p usb_drv sys" where
  "check_nompower P s =
     (if \<not> UPS_Cap (ups s) CI_NOMPOWER then s
      else case usb_get_value P CI_NOMPOWER s of
             (None, s1) \<Rightarrow> set_cap CI_NOMPOWER False s1
           | (Some v, s1) \<Rightarrow> if trunc (uv_dbl v) = 0 then set_cap CI_NOMPOWER False s1 else s1)"

definition check_quirk :: "'p usb_platform \<Rightarrow> 'p usb_drv sys \<Rightarrow> 'p usb_drv sys" where
  "check_quirk P s =
     (let s1 = upd_drv (\<lambda>d. d\<lparr>ub_quirk := False\<rparr>) s
      in if \<not> UPS_Cap (ups s1) CI_UPSMODEL then s1
         else case usb_get_value P CI_UPSMODEL s1 of
                (None, s2) \<Rightarrow> s2
              | (Some v, s2) \<Rightarrow>
                  if uv_str v = ''BackUPS Pro 500 FW:16.3.D USB FW:4''
                  then upd_drv (\<lambda>d. d\<lparr>ub_quirk := True\<rparr>) s2 else s2)"

definition usb_get_capabilities :: "'p usb_platform \<Rightarrow> 'p usb_drv sys \<Rightarrow> bool \<times> 'p usb_drv sys" where
  "usb_get_capabilities P s =
     (let (ok, s1) = pf_capabilities P s
      in if \<not> ok then (False, s1)
         else let s2 = (if UPS_Cap (ups s1) CI_Discharging then set_cap CI_ACPresent False s1 else s1)
              in (True, check_quirk P (check_nompower P s2)))"

text \<open>\<open>SUCCESS\<close> is 0 and \<open>FAILURE\<close> is 1: as a \<open>bool\<close>, the former is \<open>false\<close>.\<close>

definition usb_entry_point :: "'p usb_platform \<Rightarrow> devcmd \<Rightarrow> 'p usb_drv sys \<Rightarrow> bool \<times> 'p usb_drv sys" where
  "usb_entry_point P cmd s =
     (case cmd of
        DEVICE_CMD_CHECK_SELFTEST \<Rightarrow>
          (False,
           let (a, s1) = usb_update_value P CI_WHY_BATT (usb_sleep 40000 s);
               (b, s2) = (if a then (True, s1) else usb_update_value P CI_APCLineFailCause s1)
           in if b \<and> lastxfer (ups s2) = XFER_SELFTEST
              then let (t, s3) = time_now s2 in upd_ups (\<lambda>u. u\<lparr>SelfTest := t\<rparr>) s3
              else s2)
      | DEVICE_CMD_GET_SELFTEST_MSG \<Rightarrow> usb_update_value P CI_ST_STAT (usb_sleep 40000 s)
      | _ \<Rightarrow> (True, s))"

subsection \<open>Turning the UPS off\<close>

abbreviation (input) SHUTDOWN_DELAY :: int where "SHUTDOWN_DELAY \<equiv> 60"
abbreviation (input) STARTUP_DELAY :: int where "STARTUP_DELAY \<equiv> 10"
abbreviation (input) STARTUP_PERCENT :: int where "STARTUP_PERCENT \<equiv> 0"

type_synonym 'p usb_step = "'p usb_drv sys \<Rightarrow> bool \<times> 'p usb_drv sys"

definition has_cap :: "nat \<Rightarrow> 'p usb_drv sys \<Rightarrow> bool" where
  "has_cap ci s \<longleftrightarrow> UPS_Cap (ups s) ci"

definition write_if_cap :: "'p usb_platform \<Rightarrow> nat \<Rightarrow> int \<Rightarrow> 'p usb_step" where
  "write_if_cap P ci val s = (if has_cap ci s then pf_write_int P ci val s else (False, s))"

text \<open>A setting of a BackUPS Pro is walked down by as many writes of 2 as it is above its minimum.\<close>

definition walk_down :: "'p usb_platform \<Rightarrow> nat \<Rightarrow> (int \<times> nat) list \<Rightarrow> 'p usb_drv sys \<Rightarrow> 'p usb_drv sys" where
  "walk_down P ci table s =
     (if \<not> has_cap ci s then s
      else case pf_read_int P ci s of
             (None, s1) \<Rightarrow> s1
           | (Some val, s1) \<Rightarrow>
               (case map_of table val of
                  None \<Rightarrow> s1
                | Some n \<Rightarrow> ((\<lambda>t. snd (pf_write_int P ci 2 t)) ^^ n) s1))"

definition bup_battery_steps :: "(int \<times> nat) list" where
  "bup_battery_steps = [(0x3930, 3), (0x3630, 2), (0x3135, 1), (0x3030, 0)]"

definition bup_delay_steps :: "(int \<times> nat) list" where
  "bup_delay_steps = [(0x363030, 3), (0x333030, 2), (0x313830, 1), (0x3630, 0)]"

text \<open>Two writes, of which the second may fail; then the first is taken back.\<close>

definition write_both :: "'p usb_platform \<Rightarrow> nat \<Rightarrow> int \<Rightarrow> int \<Rightarrow> nat \<Rightarrow> int \<Rightarrow> 'p usb_step" where
  "write_both P ci1 val undo ci2 val2 s =
     (if \<not> (has_cap ci1 s \<and> has_cap ci2 s) then (False, s)
      else let (ok, s1) = pf_write_int P ci1 val s
           in if \<not> ok then (False, s1)
              else let (ok2, s2) = pf_write_int P ci2 val2 s1
                   in if ok2 then (True, s2) else (False, snd (pf_write_int P ci1 undo s2)))"

definition usb_shutdown :: "'p usb_platform \<Rightarrow> 'p usb_step" where
  "usb_shutdown P s = write_if_cap P CI_DelayBeforeShutdown SHUTDOWN_DELAY s"

definition hibernate_methods :: "'p usb_platform \<Rightarrow> 'p usb_step list" where
  "hibernate_methods P =
     [write_if_cap P CI_APCDelayBeforeShutdown SHUTDOWN_DELAY,
      write_both P CI_DWAKE (SHUTDOWN_DELAY + 4) (- 1) CI_DelayBeforeShutdown SHUTDOWN_DELAY,
      write_both P CI_BUPHibernate 1 0 CI_BUPSelfTest 1,
      write_if_cap P CI_DelayBeforeReboot SHUTDOWN_DELAY,
      write_if_cap P CI_APCForceShutdown 1,
      usb_shutdown P]"

fun first_success :: "'p usb_step list \<Rightarrow> 'p usb_step" where
  "first_success [] s = (False, s)"
| "first_success (m # ms) s = (let (ok, s1) = m s in if ok then (True, s1) else first_success ms s1)"

definition prepare_startup :: "'p usb_platform \<Rightarrow> 'p usb_drv sys \<Rightarrow> 'p usb_drv sys" where
  "prepare_startup P s =
     (let s1 = snd (write_if_cap P CI_RETPCT STARTUP_PERCENT s);
          s2 = walk_down P CI_BUPBattCapBeforeStartup bup_battery_steps s1;
          s3 = snd (write_if_cap P CI_APCDelayBeforeStartup STARTUP_DELAY s2)
      in walk_down P CI_BUPDelayBeforeStartup bup_delay_steps s3)"

definition usb_kill_power :: "'p usb_platform \<Rightarrow> 'p usb_step" where
  "usb_kill_power P s =
     (let (ok, s1) = first_success (hibernate_methods P) (prepare_startup P s)
      in (ok, snd (pf_read_int P CI_STATUS s1)))"

subsection \<open>The contract of a platform\<close>

text \<open>
  A platform keeps the contract of the driver interface, and reading a value changes neither what
  is known of the UPS nor the count of reports of a battery.
\<close>

locale usb_platform =
  fixes P :: "'p usb_platform"
  assumes capabilities_quiet: "quiet s (snd (pf_capabilities P s))"
    and get_value_quiet: "quiet s (snd (pf_get_value P ci s))"
    and read_int_quiet: "quiet s (snd (pf_read_int P ci s))"
    and write_int_quiet: "quiet s (snd (pf_write_int P ci val s))"
    and get_value_frame: "ups (snd (pf_get_value P ci s)) = ups s"
      "ub_bpcnt (drv (snd (pf_get_value P ci s))) = ub_bpcnt (drv s)"
      "ub_quirk (drv (snd (pf_get_value P ci s))) = ub_quirk (drv s)"

end
