(* ===== verification/UsbLaws.thy ===== *)
theory UsbLaws
  imports UsbDriver
begin

text \<open>
  What the common part of the USB driver keeps: its methods are quiet, and a pass over the
  readings changes only the status bits that readings are about.
\<close>

unbundle bit_operations_syntax

subsection \<open>The status bits of readings\<close>

text \<open>The low byte of the status word, and \<open>UPS_battpresent\<close>.\<close>

definition usb_bits :: "nat set" where
  "usb_bits = {0, 1, 2, 3, 4, 5, 6, 7, 26}"

lemma low_byte_bit: "bit (0xFF :: 32 word) n \<longleftrightarrow> n < 8"
proof -
  have "bit (0xFF :: 32 word) n = bit (mask 8 :: 32 word) n" by (simp add: mask_eq_exp_minus_1)
  then show ?thesis by (auto simp only: bit_mask_iff) simp
qed

lemma bit_status_byte:
  "bit (Status (status_byte i u)) n \<longleftrightarrow> (if n < 8 then bit (word_of_int i :: 32 word) n else bit (Status u) n)"
proof -
  have "Status (status_byte i u) = (Status u AND NOT 0xFF) OR (word_of_int i AND 0xFF)"
    by (simp add: status_byte_def)
  then show ?thesis
    by (simp only: bit_or_iff bit_and_iff bit_not_iff low_byte_bit) (auto dest: bit_imp_le_length)
qed

lemma same_status_byte: "same_status usb_bits u (status_byte i u)"
  by (auto simp: same_status_def usb_bits_def bit_status_byte)

lemma same_status_flags:
  "same_status usb_bits u (set_online u)" "same_status usb_bits u (clear_online u)"
  "same_status usb_bits u (set_battlow u)" "same_status usb_bits u (set_boost u)"
  "same_status usb_bits u (set_trim u)" "same_status usb_bits u (set_overload u)"
  "same_status usb_bits u (set_replacebatt u)" "same_status usb_bits u (set_battpresent u)"
  "same_status usb_bits u (clear_battpresent u)"
  by (simp_all add: same_status_def usb_bits_def bit_online set_bits clear_bits)

lemma same_status_when_set: "same_status bs u (f u) \<Longrightarrow> same_status bs u (when_set f v u)"
  by (simp add: when_set_def)

lemma same_status_texts:
  "same_status bs u (model_and_firmware str u)" "same_status bs u (serial_number str u)"
  by (auto simp: same_status_def model_and_firmware_def serial_number_def Let_def split: option.split)

text \<open>The assignments of the table, one row at a time.\<close>

lemma usb_cases_same_status:
  assumes "(ci, f) \<in> set usb_cases" shows "same_status usb_bits u (f v u)"
proof -
  have "list_all (\<lambda>(ci, f). \<forall>v u. same_status usb_bits u (f v u)) usb_cases"
    unfolding usb_cases_def
    by (simp add: same_status_byte same_status_flags same_status_when_set same_status_texts same_status_eq)
  then show ?thesis using assms by (auto simp: list_all_iff)
qed


lemma same_status_shutdown: "same_status usb_bits u v \<Longrightarrow> is_shutdown v = is_shutdown u"
  by (simp add: shutdown_bit same_status_def usb_bits_def)

subsection \<open>One reading\<close>

lemma bup_same_status:
  "usb_process_value_bup ci v u = Some w \<Longrightarrow> Status w = Status u"
  by (auto simp: usb_process_value_bup_def Let_def split: if_splits)

lemma battery_present_same: "same_status usb_bits (ups s) (ups (battery_present b s))"
  by (simp add: battery_present_def Let_def same_status_flags)

lemma battery_present_quiet: "quiet s (battery_present b s)"
  unfolding battery_present_def Let_def
  by (auto intro!: then_quiet simp: same_status_shutdown [OF same_status_flags(8)]
      same_status_shutdown [OF same_status_flags(9)])

lemma process_value_same: "same_status usb_bits (ups s) (ups (usb_process_value ci v s))"
  by (auto simp: usb_process_value_def battery_present_same bup_same_status same_status_eq
      split: option.split if_splits dest!: map_of_SomeD intro: usb_cases_same_status)

lemma process_value_quiet: "quiet s (usb_process_value ci v s)"
proof -
  have u: "same_status usb_bits (ups s) w \<Longrightarrow> quiet s (upd_ups (\<lambda>_. w) s)" for w
    by (rule quiet_upd_ups) (rule same_status_shutdown)
  have c: "map_of usb_cases ci = Some f \<Longrightarrow> quiet s (upd_ups (f v) s)" for f
    using usb_cases_same_status [OF map_of_SomeD] by (intro quiet_upd_ups same_status_shutdown)
  show ?thesis
    by (auto simp: usb_process_value_def battery_present_quiet c
        split: option.split if_splits intro!: u same_status_eq bup_same_status)
qed

lemma report_event_quiet: "quiet s (snd (usb_report_event ci v s))"
  by (simp add: usb_report_event_def process_value_quiet)

text \<open>A reading that is not about the status word leaves it alone.\<close>

definition status_readings :: "nat set" where
  "status_readings = {CI_STATUS, CI_ACPresent, CI_Discharging, CI_BelowRemCapLimit, CI_RemTimeLimitExpired,
     CI_ShutdownImminent, CI_Boost, CI_Trim, CI_Overload, CI_NeedReplacement, CI_BatteryPresent}"

lemma other_cases_status:
  assumes "(ci, f) \<in> set usb_cases" and "ci \<notin> status_readings" shows "Status (f v u) = Status u"
proof -
  have "list_all (\<lambda>(ci, f). ci \<in> status_readings \<or> (\<forall>v u. Status (f v u) = Status u)) usb_cases"
    unfolding usb_cases_def status_readings_def
    by (simp add: model_and_firmware_def serial_number_def Let_def split: option.split)
  then show ?thesis using assms by (auto simp: list_all_iff)
qed

lemma process_value_other:
  assumes "ci \<notin> status_readings" shows "Status (ups (usb_process_value ci v s)) = Status (ups s)"
proof -
  have "ci \<noteq> CI_BatteryPresent" using assms by (auto simp: status_readings_def)
  then show ?thesis
    by (auto simp: usb_process_value_def bup_same_status assms
        split: option.split dest!: map_of_SomeD intro: other_cases_status)
qed

subsection \<open>The methods\<close>

lemma quiet_sleep: "quiet s (usb_sleep t s)"
  by (simp add: usb_sleep_def quiet_upd_drv)

lemma set_cap_quiet: "quiet s (set_cap ci b s)"
  unfolding set_cap_def by (rule quiet_upd_ups) simp

lemma first_success_quiet:
  "(\<And>m s. m \<in> set ms \<Longrightarrow> quiet s (snd (m s))) \<Longrightarrow> quiet s (snd (first_success ms s))"
proof (induction ms arbitrary: s)
  case (Cons m ms)
  then show ?case
    by (auto simp: split_beta Let_def intro: quiet_trans)
qed simp

text \<open>The readings of a pass that are about the power: only two of them can turn \<open>UPS_onbatt\<close> on.\<close>

lemma other_cases_onbatt:
  assumes "(ci, f) \<in> set usb_cases" and "ci \<noteq> CI_STATUS" and "ci \<noteq> CI_Discharging"
    and "is_onbatt (f v u)"
  shows "is_onbatt u"
proof -
  have "list_all (\<lambda>(ci, f). ci \<in> {CI_STATUS, CI_Discharging} \<or>
      (\<forall>v u. bit (Status (f v u)) 4 \<longrightarrow> bit (Status u) 4)) usb_cases"
    unfolding usb_cases_def
    by (simp add: model_and_firmware_def serial_number_def Let_def when_set_def bit_online set_bits
        split: option.split)
  then show ?thesis using assms by (auto simp: list_all_iff onbatt.is_f_bit)
qed

lemma battery_present_onbatt: "is_onbatt (ups (battery_present b s)) = is_onbatt (ups s)"
  by (simp add: battery_present_def Let_def onbatt.is_f_bit set_bits clear_bits)

lemma process_value_onbatt:
  assumes "ci \<noteq> CI_STATUS" and "ci \<noteq> CI_Discharging" and "is_onbatt (ups (usb_process_value ci v s))"
  shows "is_onbatt (ups s)"
proof (cases "if ub_quirk (drv s) then usb_process_value_bup ci v (ups s) else None")
  case (Some w)
  then have "Status w = Status (ups s)" by (auto split: if_splits dest: bup_same_status)
  then show ?thesis using assms(3) Some by (simp add: usb_process_value_def onbatt.is_f_bit)
next
  case None
  then show ?thesis
    using assms(3) other_cases_onbatt [OF map_of_SomeD assms(1,2)]
    by (auto simp: usb_process_value_def battery_present_onbatt split: option.splits if_splits)
qed

lemma zero_not_onbatt: "\<not> is_onbatt (status_byte 0 u)"
  by (simp add: onbatt.is_f_bit bit_status_byte)

lemma poll_list_status:
  "poll_list True = takeWhile (\<lambda>ci. ci \<noteq> CI_STATUS) (poll_list True) @ [CI_STATUS, CI_APCLineFailCause]"
  by code_simp

lemma bup_not_status: "ci \<in> status_readings \<Longrightarrow> usb_process_value_bup ci v u = None"
  by (auto simp: usb_process_value_bup_def Let_def status_readings_def)

lemma process_status:
  "ups (usb_process_value CI_STATUS v s) = status_byte (uv_int v) (ups s)"
proof -
  have "map_of usb_cases CI_STATUS = Some (\<lambda>v. status_byte (uv_int v))" by (simp add: usb_cases_def)
  then show ?thesis
    unfolding usb_process_value_def by (simp add: bup_not_status status_readings_def)
qed

text \<open>Where a pass is left out, and where one is when it comes to the status byte.\<close>

definition pass_limited :: "'p usb_drv sys \<Rightarrow> bool" where
  "pass_limited s \<longleftrightarrow> is_onbatt (ups s) \<and> poll_time (ups s) \<noteq> 0 \<and>
     fst (time_now s) - poll_time (ups s) < MAX_VOLATILE_POLL_RATE"

definition before_status :: "'p usb_platform \<Rightarrow> 'p usb_drv sys \<Rightarrow> 'p usb_drv sys" where
  "before_status P s =
     (let (now, s1) = time_now s
      in update_all P (takeWhile (\<lambda>ci. ci \<noteq> CI_STATUS) (poll_list True))
           (upd_ups (\<lambda>u. status_byte 0 (u\<lparr>poll_time := now\<rparr>)) (write_lock s1)))"

context usb_platform
begin

lemma usb_get_value_quiet: "quiet s (snd (usb_get_value P ci s))"
  unfolding usb_get_value_def Let_def
  by (rule quiet_trans [OF _ get_value_quiet]) (auto intro!: then_quiet quiet_sleep)

lemma usb_get_value_frame:
  "ups (snd (usb_get_value P ci s)) = ups s"
  "ub_bpcnt (drv (snd (usb_get_value P ci s))) = ub_bpcnt (drv s)"
  "ub_quirk (drv (snd (usb_get_value P ci s))) = ub_quirk (drv s)"
  by (simp_all add: usb_get_value_def Let_def get_value_frame usb_sleep_def)

lemma update_value_quiet: "quiet s (snd (usb_update_value P ci s))"
  using usb_get_value_quiet [of s ci]
  by (auto simp: usb_update_value_def split: prod.split option.split
      intro: quiet_trans process_value_quiet)

lemma update_value_same: "same_status usb_bits (ups s) (ups (snd (usb_update_value P ci s)))"
  using usb_get_value_frame(1) [of ci s]
  by (auto simp: usb_update_value_def split: prod.split option.split) (metis process_value_same)

lemma update_value_other:
  "ci \<notin> status_readings \<Longrightarrow> Status (ups (snd (usb_update_value P ci s))) = Status (ups s)"
  using usb_get_value_frame(1) [of ci s]
  by (auto simp: usb_update_value_def process_value_other split: prod.split option.split)

lemma update_all_quiet: "quiet s (update_all P todo s)"
  unfolding update_all_def by (rule quiet_fold) (rule update_value_quiet)

lemma update_all_same: "same_status usb_bits (ups s) (ups (update_all P todo s))"
  unfolding update_all_def
  by (induction todo arbitrary: s) (auto intro: same_status_trans update_value_same)

lemma update_all_other:
  "set todo \<inter> status_readings = {} \<Longrightarrow> Status (ups (update_all P todo s)) = Status (ups s)"
  unfolding update_all_def by (induction todo arbitrary: s) (auto simp: update_value_other)


lemma read_volatile_quiet: "quiet s (snd (usb_read_volatile_data P s))"
proof -
  have "quiet t (write_unlock (update_all P todo (upd_ups (\<lambda>u. status_byte 0 (u\<lparr>poll_time := n\<rparr>)) (write_lock t))))"
    for t todo n
    by (intro quiet_locked quiet_trans [OF _ update_all_quiet] quiet_upd_ups)
      (simp add: same_status_shutdown [OF same_status_byte])
  then show ?thesis
    by (auto simp: usb_read_volatile_data_def Let_def split_beta intro: quiet_trans quiet_time_now)
qed

lemma read_static_quiet: "quiet s (snd (usb_read_static_data P s))"
  unfolding usb_read_static_data_def by (auto intro: quiet_locked update_all_quiet)

lemma get_capabilities_quiet: "quiet s (snd (usb_get_capabilities P s))"
proof -
  have n: "quiet s (check_nompower P s)" for s
    using usb_get_value_quiet [of s CI_NOMPOWER]
    by (auto simp: check_nompower_def split: prod.split option.split intro: quiet_trans set_cap_quiet)
  have q: "quiet s (check_quirk P s)" for s
    using usb_get_value_quiet [of "upd_drv (\<lambda>d. d\<lparr>ub_quirk := False\<rparr>) s" CI_UPSMODEL]
    by (auto simp: check_quirk_def Let_def split: prod.split option.split
        intro!: then_quiet(1) intro: quiet_trans [OF quiet_upd_drv])
  have c: "quiet s t \<Longrightarrow> quiet s (check_quirk P (check_nompower P t))" for t
    by (blast intro: quiet_trans n q)
  show ?thesis using capabilities_quiet [of s]
    by (auto simp: usb_get_capabilities_def Let_def split: prod.split
        intro!: c intro: quiet_trans set_cap_quiet)
qed

lemma entry_point_quiet: "quiet s (snd (usb_entry_point P cmd s))"
proof -
  have u: "quiet s t \<Longrightarrow> quiet s (snd (usb_update_value P ci t))" for s t ci
    by (rule quiet_trans [OF _ update_value_quiet])
  obtain a s1 where 1: "usb_update_value P CI_WHY_BATT (usb_sleep 40000 s) = (a, s1)" by force
  have q1: "quiet s s1" using u [OF quiet_sleep, of s CI_WHY_BATT 40000] by (simp add: 1)
  obtain b s2 where 2: "(if a then (True, s1) else usb_update_value P CI_APCLineFailCause s1) = (b, s2)"
    by force
  have q2: "quiet s s2" using q1 u [OF q1, of CI_APCLineFailCause] 2 by (auto split: if_splits)
  obtain t s3 where 3: "time_now s2 = (t, s3)" by force
  have q3: "quiet s s3" using then_quiet(2) [OF q2] by (simp add: 3)
  have g: "quiet s (upd_ups (\<lambda>u. u\<lparr>SelfTest := t\<rparr>) s3)" by (rule then_quiet(6) [OF q3]) simp
  show ?thesis
    by (cases cmd) (auto simp: usb_entry_point_def 1 2 3 Let_def q2 g intro!: u quiet_sleep)
qed

lemma write_if_cap_quiet: "quiet s (snd (write_if_cap P ci val s))"
  by (simp add: write_if_cap_def write_int_quiet)

lemma walk_down_quiet: "quiet s (walk_down P ci table s)"
  using read_int_quiet [of s ci]
  by (auto simp: walk_down_def split: prod.split option.split
      intro!: quiet_trans [OF _ quiet_pow] intro: write_int_quiet)

lemma write_both_quiet: "quiet s (snd (write_both P ci1 val undo ci2 val2 s))"
proof -
  obtain ok s1 where 1: "pf_write_int P ci1 val s = (ok, s1)" by force
  obtain ok2 s2 where 2: "pf_write_int P ci2 val2 s1 = (ok2, s2)" by force
  obtain ok3 s3 where 3: "pf_write_int P ci1 undo s2 = (ok3, s3)" by force
  have q1: "quiet s s1" using write_int_quiet [of s ci1 val] by (simp add: 1)
  have q2: "quiet s s2" using quiet_trans [OF q1] write_int_quiet [of s1 ci2 val2] by (simp add: 2)
  have q3: "quiet s s3" using quiet_trans [OF q2] write_int_quiet [of s2 ci1 undo] by (simp add: 3)
  show ?thesis using q1 q2 q3 by (simp add: write_both_def 1 2 3)
qed

lemma shutdown_quiet: "quiet s (snd (usb_shutdown P s))"
  by (simp add: usb_shutdown_def write_if_cap_quiet)

lemma kill_power_quiet: "quiet s (snd (usb_kill_power P s))"
proof -
  have p: "quiet s (prepare_startup P s)"
    unfolding prepare_startup_def Let_def
    by (intro quiet_trans [OF _ walk_down_quiet] quiet_trans [OF _ write_if_cap_quiet] quiet_refl)
  have f: "quiet t (snd (first_success (hibernate_methods P) t))" for t
    by (rule first_success_quiet)
      (auto simp: hibernate_methods_def write_if_cap_quiet write_both_quiet shutdown_quiet)
  obtain ok s1 where 1: "first_success (hibernate_methods P) (prepare_startup P s) = (ok, s1)" by force
  have "quiet s s1" using quiet_trans [OF p f] by (simp add: 1)
  then show ?thesis
    using quiet_trans [OF _ read_int_quiet] by (simp add: usb_kill_power_def 1)
qed

lemmas methods_quiet = read_volatile_quiet read_static_quiet get_capabilities_quiet
  entry_point_quiet shutdown_quiet kill_power_quiet

text \<open>What a pass leaves of the status word.\<close>

lemma read_volatile_same:
  "same_status usb_bits (ups s) (ups (snd (usb_read_volatile_data P s)))"
proof -
  have "same_status usb_bits (ups s)
      (ups (update_all P todo (upd_ups (\<lambda>u. status_byte 0 (u\<lparr>poll_time := n\<rparr>)) t)))"
    if "ups t = ups s" for todo n t
    using update_all_same [of "upd_ups (\<lambda>u. status_byte 0 (u\<lparr>poll_time := n\<rparr>)) t" todo]
      same_status_byte [of "(ups s)\<lparr>poll_time := n\<rparr>" 0] that
    by (simp add: same_status_def)
  then show ?thesis
    by (auto simp: usb_read_volatile_data_def Let_def split_beta write_lock_def write_unlock_def)
qed

lemma read_volatile_before_status:
  assumes "\<not> pass_limited s"
  shows "snd (usb_read_volatile_data P s) =
     write_unlock (update_all P [CI_APCLineFailCause] (snd (usb_update_value P CI_STATUS (before_status P s))))"
  unfolding usb_read_volatile_data_def before_status_def
  by (subst poll_list_status) (use assms in \<open>auto simp: pass_limited_def Let_def split_beta update_all_def\<close>)

lemma status_byte_wins:
  assumes "usb_get_value P CI_STATUS (before_status P s) = (Some v, t)" and "n < 8"
  shows "bit (Status (ups (snd (usb_read_volatile_data P s)))) n =
    (if pass_limited s then bit (Status (ups s)) n else bit (word_of_int (uv_int v) :: 32 word) n)"
proof (cases "pass_limited s")
  case True
  then have "snd (usb_read_volatile_data P s) = snd (time_now s)"
    by (auto simp: usb_read_volatile_data_def pass_limited_def Let_def split_beta)
  then show ?thesis using True by simp
next
  case False
  have "Status (ups (update_all P [CI_APCLineFailCause] x)) = Status (ups x)" for x
    by (rule update_all_other) (simp add: status_readings_def)
  then show ?thesis using assms False
    by (simp add: read_volatile_before_status [OF False] write_unlock_def usb_update_value_def
        process_status bit_status_byte del: One_nat_def)
qed

text \<open>\<open>I\<close> is what the platform keeps while it has no reading of the status byte, nor of \<open>Discharging\<close>.\<close>

lemma ac_loss_unnoticed:
  assumes I: "\<And>ci t. I t \<Longrightarrow> I (snd (usb_update_value P ci t))"
    and none: "\<And>ci t. I t \<Longrightarrow> ci \<in> {CI_STATUS, CI_Discharging} \<Longrightarrow> fst (usb_get_value P ci t) = None"
    and start: "\<And>n. I (upd_ups (\<lambda>u. status_byte 0 (u\<lparr>poll_time := n\<rparr>)) (write_lock (snd (time_now s))))"
    and off: "\<not> is_onbatt (ups s)"
  shows "\<not> is_onbatt (ups (snd (usb_read_volatile_data P s)))"
proof -
  have one: "\<not> is_onbatt (ups (snd (usb_update_value P ci t)))" if "I t" "\<not> is_onbatt (ups t)" for ci t
  proof (cases "usb_get_value P ci t")
    case (Pair r t1)
    then have u: "ups t1 = ups t" using usb_get_value_frame(1) [of ci t] by simp
    show ?thesis
    proof (cases r)
      case None
      then show ?thesis using that(2) by (simp add: usb_update_value_def Pair u)
    next
      case (Some v)
      then have "ci \<noteq> CI_STATUS" "ci \<noteq> CI_Discharging" using none [OF that(1), of ci] by (auto simp: Pair Some simp del: One_nat_def)
      then have "\<not> is_onbatt (ups (usb_process_value ci v t1))"
        using process_value_onbatt [of ci v t1] that(2) u by auto
      then show ?thesis by (simp add: usb_update_value_def Pair Some)
    qed
  qed
  have all: "\<not> is_onbatt (ups (update_all P todo t))" if "I t" "\<not> is_onbatt (ups t)" for todo t
    using that unfolding update_all_def by (induction todo arbitrary: t) (auto simp: one I)
  show ?thesis
    unfolding usb_read_volatile_data_def
    by (simp add: off Let_def split_beta write_unlock_def all [OF start] zero_not_onbatt)
qed

end

text \<open>The count of reports of a battery.\<close>

lemma battery_reports_true:
  "0 \<le> ub_bpcnt (drv s) \<Longrightarrow>
    let t = fold battery_present (replicate n True) s
    in ub_bpcnt (drv t) = ub_bpcnt (drv s) + int n \<and>
       (is_battpresent (ups t) \<longleftrightarrow> is_battpresent (ups s) \<or> n > 0 \<and> ub_bpcnt (drv s) + int n > 1)"
proof (induction n arbitrary: s)
  case (Suc n)
  then show ?case
    by (cases "ub_bpcnt (drv s) = 0") (auto simp: battery_present_def Let_def)
qed simp

end
