(* ===== verification/HidData.thy ===== *)
theory HidData
  imports HidUps
begin

text \<open>
  The fields of HID reports (\<open>libusbhid/data.c\<close>): a field is a run of bits of a report, read as an
  \<open>int\<close> and written back. Shifts by 32 bits or more, which C leaves undefined and the code
  performs for fields that end in a fifth byte, give zero here; the properties are about
  fields that do not.
\<close>

unbundle bit_operations_syntax

text \<open>A byte of the buffer; what lies behind its end is unknown, and taken for zero.\<close>

definition byte_at :: "byte list \<Rightarrow> nat \<Rightarrow> byte" where
  "byte_at buf i = (if i < length buf then buf ! i else 0)"

text \<open>The bytes a field lies in, as an offset and the last index behind it.\<close>

definition field_offs :: "hid_item \<Rightarrow> nat" where
  "field_offs h = it_pos h div 8"

definition field_end :: "hid_item \<Rightarrow> nat" where
  "field_end h = (it_pos h + it_report_size h) div 8 - field_offs h"

definition gather :: "byte list \<Rightarrow> nat \<Rightarrow> nat \<Rightarrow> 32 word" where
  "gather buf offs n = foldl (\<lambda>d i. d OR push_bit (i * 8) (ucast (byte_at buf (offs + i)))) 0 [0..<n]"

definition hid_get_data :: "byte list \<Rightarrow> hid_item \<Rightarrow> 32 word" where
  "hid_get_data buf h =
     (let hsize = it_report_size h
      in if hsize = 0 then 0
         else let d = signed_drop_bit (it_pos h mod 8) (gather buf (field_offs h) (Suc (field_end h)))
                    AND mask hsize
              in if it_logical_minimum h < 0
                 then signed_drop_bit (32 - hsize) (push_bit (32 - hsize) d)
                 else d)"

definition map_bytes :: "nat \<Rightarrow> nat \<Rightarrow> (nat \<Rightarrow> byte \<Rightarrow> byte) \<Rightarrow> byte list \<Rightarrow> byte list" where
  "map_bytes offs n f buf = fold (\<lambda>i b. b[offs + i := f i (byte_at b (offs + i))]) [0..<n] buf"

text \<open>The mask is kept as the \<open>int\<close> it is, so that shifting it to the right keeps its sign.\<close>

definition hid_set_data :: "byte list \<Rightarrow> hid_item \<Rightarrow> 32 word \<Rightarrow> byte list" where
  "hid_set_data buf h v =
     (let hsize = it_report_size h; k = it_pos h mod 8; offs = field_offs h;
          m = (if hsize \<noteq> 32 then mask hsize else - 1);
          d = push_bit k (v AND m); keep = NOT (push_bit k m)
      in map_bytes offs (Suc (field_end h))
           (\<lambda>i b. (b AND ucast (signed_drop_bit (i * 8) keep)) OR ucast (signed_drop_bit (i * 8) d)) buf)"

subsection \<open>Fields as bits\<close>

definition report_bit :: "byte list \<Rightarrow> nat \<Rightarrow> bool" where
  "report_bit buf n \<longleftrightarrow> bit (byte_at buf (n div 8)) (n mod 8)"

text \<open>A field that ends, with the byte read behind it, within four bytes.\<close>

definition short_field :: "hid_item \<Rightarrow> bool" where
  "short_field h \<longleftrightarrow> 0 < it_report_size h \<and> it_pos h mod 8 + it_report_size h < 32"

lemma bit_byte_bound: "bit (b :: byte) j \<Longrightarrow> j < 8"
  using bit_imp_le_length [of b j] by simp

lemma bit_gather: "bit (gather buf offs n) j \<longleftrightarrow> j < 32 \<and> j < 8 * n \<and> report_bit buf (8 * offs + j)"
proof (induction n)
  case (Suc n)
  have "bit (push_bit (n * 8) (ucast (byte_at buf (offs + n)) :: 32 word)) j \<longleftrightarrow>
      j < 32 \<and> 8 * n \<le> j \<and> j < 8 * Suc n \<and> report_bit buf (8 * offs + j)"
  proof (cases "8 * n \<le> j \<and> j < 8 * Suc n")
    case True
    then have "8 * offs + j = 8 * (offs + n) + (j - 8 * n)" "j - 8 * n < 8" by auto
    then have "(8 * offs + j) div 8 = offs + n" "(8 * offs + j) mod 8 = j - n * 8"
      by (metis add.commute div_mult_self4 div_less zero_neq_numeral add_0_right, metis mod_mult_self4 mod_less mult.commute)
    then show ?thesis using True by (auto simp: report_bit_def bit_push_bit_iff bit_ucast_iff)
  next
    case False
    then show ?thesis by (auto simp: bit_push_bit_iff bit_ucast_iff dest!: bit_byte_bound)
  qed
  then show ?case using Suc by (auto simp: gather_def bit_or_iff)
qed (simp add: gather_def)

lemma field_in_word:
  assumes "short_field h" "j < it_report_size h"
  shows "j + it_pos h mod 8 < 8 * Suc (field_end h)" "8 * field_offs h + (j + it_pos h mod 8) = it_pos h + j"
proof -
  have pos: "it_pos h = 8 * field_offs h + it_pos h mod 8" by (simp add: field_offs_def)
  then show "8 * field_offs h + (j + it_pos h mod 8) = it_pos h + j" by simp
  have "field_offs h \<le> (it_pos h + it_report_size h) div 8" by (simp add: field_offs_def div_le_mono)
  then have "(it_pos h + it_report_size h) div 8 = field_offs h + field_end h" by (simp add: field_end_def)
  moreover have "it_pos h + it_report_size h < 8 * ((it_pos h + it_report_size h) div 8) + 8" by simp
  ultimately have "it_pos h + it_report_size h < 8 * field_offs h + 8 * field_end h + 8" by simp
  then show "j + it_pos h mod 8 < 8 * Suc (field_end h)"
    using pos assms(2) by (simp only: mult_Suc_right)
qed

lemma bit_arith_shift: "k + j < 32 \<Longrightarrow> bit (signed_drop_bit k (w :: 32 word)) j = bit w (k + j)"
  by (auto simp: bit_signed_drop_bit_iff)

lemma bit_field_raw:
  assumes "short_field h" "j < it_report_size h"
  shows "bit (signed_drop_bit (it_pos h mod 8) (gather buf (field_offs h) (Suc (field_end h)))) j =
    report_bit buf (it_pos h + j)"
proof -
  have "it_pos h mod 8 + j < 32" using assms by (simp add: short_field_def)
  then show ?thesis
    using field_in_word(1) [OF assms]
    by (simp add: bit_arith_shift bit_gather field_in_word(2) [OF assms, unfolded add.commute [of j]])
qed

lemma hid_get_bits:
  assumes "short_field h"
  shows "hid_get_data buf h =
    (let d = horner_sum of_bool 2 (map (\<lambda>j. report_bit buf (it_pos h + j)) [0..<it_report_size h])
     in if it_logical_minimum h < 0 then signed_take_bit (it_report_size h - 1) d else d)"
proof -
  have s: "0 < it_report_size h" "it_report_size h < 32" using assms by (auto simp: short_field_def)
  define d :: "32 word" where "d = horner_sum of_bool 2 (map (\<lambda>j. report_bit buf (it_pos h + j)) [0..<it_report_size h])"
  have bit_d: "bit d j \<longleftrightarrow> j < it_report_size h \<and> report_bit buf (it_pos h + j)" for j
    using s(2) by (auto simp: d_def bit_horner_sum_bit_iff)
  have d: "signed_drop_bit (it_pos h mod 8) (gather buf (field_offs h) (Suc (field_end h))) AND mask (it_report_size h) = d"
    using s(2) by (intro bit_word_eqI) (auto simp: bit_and_iff bit_mask_iff bit_d bit_field_raw [OF assms])
  have "bit (signed_drop_bit (32 - it_report_size h) (push_bit (32 - it_report_size h) d)) n =
      bit (signed_take_bit (it_report_size h - 1) d) n" if "n < 32" for n
  proof (cases "it_report_size h \<le> n")
    case True
    then have "min (it_report_size h - 1) n = it_report_size h - 1" by simp
    then show ?thesis using True s that
      by (simp add: bit_signed_drop_bit_iff bit_push_bit_iff bit_signed_take_bit_iff) linarith
  next
    case False
    then have "min (it_report_size h - 1) n = n" using s by simp
    then show ?thesis using False s that
      by (simp add: bit_signed_drop_bit_iff bit_push_bit_iff bit_signed_take_bit_iff) linarith
  qed
  then have "signed_drop_bit (32 - it_report_size h) (push_bit (32 - it_report_size h) d) =
      signed_take_bit (it_report_size h - 1) d"
    by (intro bit_word_eqI) simp
  with d s show ?thesis by (simp add: hid_get_data_def Let_def d_def [symmetric])
qed

lemma byte_at_update: "byte_at (buf[i := b]) x = (if x = i \<and> i < length buf then b else byte_at buf x)"
  by (simp add: byte_at_def nth_list_update)

lemma byte_at_map:
  "byte_at (map_bytes offs n f buf) x =
     (if offs \<le> x \<and> x < offs + n \<and> x < length buf then f (x - offs) (byte_at buf x) else byte_at buf x)"
proof -
  have "(\<forall>x. byte_at (map_bytes offs n f buf) x =
      (if offs \<le> x \<and> x < offs + n \<and> x < length buf then f (x - offs) (byte_at buf x) else byte_at buf x)) \<and>
    length (map_bytes offs n f buf) = length buf"
  proof (induction n)
    case (Suc n)
    then show ?case by (auto simp: map_bytes_def byte_at_update)
  qed (auto simp: map_bytes_def)
  then show ?thesis by blast
qed

lemma report_bit_set:
  assumes "short_field h" "field_offs h + field_end h < length buf"
  shows "report_bit (hid_set_data buf h v) n =
    (if it_pos h \<le> n \<and> n < it_pos h + it_report_size h then bit v (n - it_pos h) else report_bit buf n)"
proof -
  define k where "k = it_pos h mod 8"
  define offs where "offs = field_offs h"
  have pos: "it_pos h = 8 * offs + k" by (simp add: offs_def k_def field_offs_def)
  have size: "0 < it_report_size h" "k + it_report_size h < 32" using assms by (auto simp: short_field_def k_def)
  have fend: "field_end h = (k + it_report_size h) div 8"
    unfolding field_end_def offs_def [symmetric] pos by simp
  define x j where "x = n div 8" and "j = n mod 8"
  have n: "n = 8 * x + j" "j < 8" by (simp_all add: x_def j_def)
  show ?thesis
  proof (cases "offs \<le> x \<and> x \<le> offs + field_end h")
    case True
    define i where "i = x - offs"
    have i: "x = offs + i" "i \<le> field_end h" using True by (auto simp: i_def)
    have "field_end h < 4" using size(2) by (simp add: fend)
    then have "i * 8 + j < 32" using i(2) n(2) by linarith
    moreover have "x < length buf" using assms(2) True by (simp add: offs_def)
    moreover have "it_pos h \<le> n \<and> n < it_pos h + it_report_size h \<longleftrightarrow> k \<le> i * 8 + j \<and> i * 8 + j < k + it_report_size h"
      "n - it_pos h = i * 8 + j - k" using n i by (auto simp: pos)
    ultimately have "byte_at (hid_set_data buf h v) x = (byte_at buf x
          AND ucast (signed_drop_bit (i * 8) (NOT (push_bit k (mask (it_report_size h))) :: 32 word)))
        OR ucast (signed_drop_bit (i * 8) (push_bit k (v AND mask (it_report_size h))))"
      and small: "i * 8 + j < 32"
      and inside: "(it_pos h \<le> n \<and> n < it_pos h + it_report_size h) = (k \<le> i * 8 + j \<and> i * 8 + j < k + it_report_size h)"
        "n - it_pos h = i * 8 + j - k"
      using size(2) i by (simp_all add: hid_set_data_def Let_def offs_def [symmetric] k_def [symmetric] byte_at_map
          i_def [symmetric])
    then have "report_bit (hid_set_data buf h v) n \<longleftrightarrow>
        (report_bit buf n \<and> \<not> (k \<le> i * 8 + j \<and> i * 8 + j - k < it_report_size h)) \<or>
        (k \<le> i * 8 + j \<and> i * 8 + j - k < it_report_size h \<and> bit v (i * 8 + j - k))"
      using size(2) n(2) by (auto simp: report_bit_def x_def [symmetric] j_def [symmetric] bit_or_iff bit_and_iff
          bit_not_iff bit_ucast_iff bit_arith_shift bit_push_bit_iff bit_mask_iff)
    then show ?thesis unfolding inside by auto
  next
    case False
    then have "\<not> (it_pos h \<le> n \<and> n < it_pos h + it_report_size h)"
      unfolding pos fend n(1) using n(2) by (auto simp: not_le div_less_iff_less_mult) 
    then show ?thesis using False
      by (auto simp: report_bit_def x_def [symmetric] j_def [symmetric] hid_set_data_def Let_def
          offs_def [symmetric] byte_at_map)
  qed
qed

text \<open>
  C39: A value written into a field of a report is what is read from it again - its low bits, extended
  by its sign if the field is signed - and no other bit of the report is changed.
\<close>

theorem hid_field_round_trip:
  assumes "short_field h" "field_offs h + field_end h < length buf"
  shows "hid_get_data (hid_set_data buf h v) h =
      (if it_logical_minimum h < 0 then signed_take_bit (it_report_size h - 1) v else take_bit (it_report_size h) v) \<and>
    (\<forall>n. \<not> (it_pos h \<le> n \<and> n < it_pos h + it_report_size h) \<longrightarrow>
       report_bit (hid_set_data buf h v) n = report_bit buf n)"
proof -
  have s: "0 < it_report_size h" "it_report_size h < 32" using assms by (auto simp: short_field_def)
  define d :: "32 word" where
    "d = horner_sum of_bool 2 (map (\<lambda>j. report_bit (hid_set_data buf h v) (it_pos h + j)) [0..<it_report_size h])"
  have d: "d = take_bit (it_report_size h) v"
    using s(2) by (intro bit_word_eqI)
      (auto simp: d_def bit_horner_sum_bit_iff report_bit_set [OF assms] bit_take_bit_iff)
  have "signed_take_bit (it_report_size h - 1) d = signed_take_bit (it_report_size h - 1) v"
    using s unfolding d by (intro bit_word_eqI) (auto simp: bit_signed_take_bit_iff bit_take_bit_iff min_def)
  then have "hid_get_data (hid_set_data buf h v) h = (if it_logical_minimum h < 0
      then signed_take_bit (it_report_size h - 1) v else take_bit (it_report_size h) v)"
    using d by (simp only: hid_get_bits [OF assms(1)] Let_def d_def [symmetric])
  then show ?thesis by (simp add: report_bit_set [OF assms])
qed

definition demo_field :: hid_item where
  "demo_field = \<lparr>it_kind = hid_feature, it_collection = 0, it_usage = 0, it_report_ID = 1, it_pos = 4,
     it_report_size = 10, it_logical_minimum = 0, it_unit = 0, it_unit_exponent = 0\<rparr>"

theorem hid_field_round_trip_witness:
  "hid_get_data (hid_set_data [0xAB, 0xCD] demo_field 1023) demo_field = take_bit 10 1023"
  using hid_field_round_trip [of demo_field "[0xAB, 0xCD]" 1023]
  by (simp add: demo_field_def short_field_def field_offs_def field_end_def)

end
