(* ===== verification/GenericUsb.thy ===== *)
theory GenericUsb
  imports UsbLaws HidData
begin

text \<open>
  The libusb platform of the USB driver (\<open>src/drivers/usb/generic/generic-usb.c\<close>, with the report
  transfers of \<open>HidUps.cpp\<close>). What the device answers to a control transfer is a script, one
  entry per transfer, and so is what comes in on the interrupt endpoint; the sizes of reports
  are what the parser of descriptors found. A buffer of 20 bytes that is longer here is one
  that was overrun.
\<close>

unbundle bit_operations_syntax

datatype usb_transfer =
    GetReport hid_kind int
  | SetReport hid_kind int "byte list"
  | GetString int

datatype hid_event = HidReport "byte list" | HidFails int

record usb_info =
  ui_unit_exponent :: int
  ui_unit :: "32 word"
  ui_data_type :: usb_data_type
  ui_item :: hid_item
  ui_witem :: "hid_item option"
  ui_report_len :: nat
  ui_value :: "32 word"

record generic_usb =
  gu_info :: "nat \<Rightarrow> usb_info option"
  gu_hid :: hid_ups
  gu_bus :: "usb_dev list list"            \<comment> \<open>what the enumerations to come will find\<close>
  gu_linkcheck :: bool
  gu_sizes :: "hid_kind \<Rightarrow> int \<Rightarrow> nat"     \<comment> \<open>\<open>hid_report_size\<close>\<close>
  gu_get :: "nat \<Rightarrow> byte list"             \<comment> \<open>the \<open>n\<close>-th transfer, if it gets a report; empty if it fails\<close>
  gu_set :: "nat \<Rightarrow> bool"
  gu_string :: "nat \<Rightarrow> string option"
  gu_log :: "usb_transfer list"
  gu_events :: "(int \<times> hid_event) list"

type_synonym gu_sys = "generic_usb usb_drv sys"

definition gu :: "gu_sys \<Rightarrow> generic_usb" where
  "gu s = ub_port (drv s)"

definition upd_gu :: "(generic_usb \<Rightarrow> generic_usb) \<Rightarrow> gu_sys \<Rightarrow> gu_sys" where
  "upd_gu f s = upd_drv (\<lambda>d. d\<lparr>ub_port := f (ub_port d)\<rparr>) s"

lemma gu_simps [simp]:
  "gu (upd_gu f s) = f (gu s)" "ups (upd_gu f s) = ups s" "gu (upd_ups g s) = gu s"
  "ub_bpcnt (drv (upd_gu f s)) = ub_bpcnt (drv s)" "ub_quirk (drv (upd_gu f s)) = ub_quirk (drv s)"
  "ub_now (drv (upd_gu f s)) = ub_now (drv s)"
  by (simp_all add: gu_def upd_gu_def)

subsection \<open>Transfers\<close>

definition usb_transfer :: "usb_transfer \<Rightarrow> gu_sys \<Rightarrow> gu_sys" where
  "usb_transfer t s = upd_gu (\<lambda>g. g\<lparr>gu_log := gu_log g @ [t]\<rparr>) s"

definition get_report :: "hid_item \<Rightarrow> nat \<Rightarrow> gu_sys \<Rightarrow> byte list \<times> gu_sys" where
  "get_report it len s =
     (take len (gu_get (gu s) (length (gu_log (gu s)))), usb_transfer (GetReport (it_kind it) (it_report_ID it)) s)"

definition set_report :: "hid_item \<Rightarrow> byte list \<Rightarrow> gu_sys \<Rightarrow> bool \<times> gu_sys" where
  "set_report it rpt s =
     (gu_set (gu s) (length (gu_log (gu s))), usb_transfer (SetReport (it_kind it) (it_report_ID it) rpt) s)"

definition get_string :: "int \<Rightarrow> gu_sys \<Rightarrow> string option \<times> gu_sys" where
  "get_string idx s = (gu_string (gu s) (length (gu_log (gu s))), usb_transfer (GetString idx) s)"

subsection \<open>Capabilities\<close>

definition known_query :: "32 word \<Rightarrow> 32 word \<Rightarrow> 32 word \<Rightarrow> hid_kind \<Rightarrow> hid_query" where
  "known_query usage phys logi k =
     \<lparr>q_usage = sint usage, q_app = -1, q_phys = (if phys = P_ANY then -1 else sint phys),
      q_logical = (if logi = P_ANY then -1 else sint logi), q_kind = HID_KIND k\<rparr>"

text \<open>A feature report is preferred to an input report, and is the one that can be written.\<close>

definition find_known :: "known_info \<Rightarrow> generic_usb \<Rightarrow> usb_info option" where
  "find_known = (\<lambda>(ci, usage, phys, logi, ty, vol) g.
     let input = hid_locate (known_query usage phys logi hid_input) (gu_hid g);
         feature = hid_locate (known_query usage phys logi hid_feature) (gu_hid g)
     in map_option (\<lambda>it.
          \<lparr>ui_unit_exponent = it_unit_exponent it, ui_unit = it_unit it, ui_data_type = ty, ui_item = it,
           ui_witem = feature, ui_report_len = gu_sizes g (it_kind it) (it_report_ID it) + 1, ui_value = 0\<rparr>)
        (case feature of None \<Rightarrow> input | Some it \<Rightarrow> Some it))"

definition probe_known :: "known_info \<Rightarrow> gu_sys \<Rightarrow> gu_sys" where
  "probe_known k s =
     (case fst k of
        None \<Rightarrow> s
      | Some ci \<Rightarrow>
          if gu_info (gu s) ci \<noteq> None then s
          else case find_known k (gu s) of
                 None \<Rightarrow> s
               | Some info \<Rightarrow>
                   upd_gu (\<lambda>g. g\<lparr>gu_info := (gu_info g)(ci := Some info)\<rparr>)
                     (upd_ups (\<lambda>u. u\<lparr>UPS_Cap := (UPS_Cap u)(ci := True),
                        UPS_Cmd := (UPS_Cmd u)(ci := unat (fst (snd k)))\<rparr>) s))"

definition gu_capabilities :: "gu_sys \<Rightarrow> bool \<times> gu_sys" where
  "gu_capabilities s =
     (True, write_unlock (set_cap CI_STATUS True (fold probe_known KNOWN_INFO (write_lock s))))"

subsection \<open>Values\<close>

definition pow_ten :: "int \<Rightarrow> rat" where
  "pow_ten e = (if e < 0 then 1 / 10 ^ nat (- e) else 10 ^ nat e)"

definition scaled :: "int \<Rightarrow> int \<Rightarrow> rat" where
  "scaled v e = (if e = 0 then of_int v else of_int v * pow_ten e)"

definition signed_exponent :: "int \<Rightarrow> int" where
  "signed_exponent e = (if e > 7 then e - 16 else e)"

text \<open>The unit of a reading: its name, and what is added to its exponent.\<close>

definition usb_unit :: "32 word \<Rightarrow> (string \<times> int) option" where
  "usb_unit w =
     (if w = 0x00F0D121 then Some (''Volts'', -7)
      else if w = 0x00100001 then Some (''Amps'', 2)
      else if w = 0xF001 then Some (''Hertz'', 0)
      else if w = 0x1001 then Some (''Seconds'', 0)
      else if w = 0xD121 then Some (''Watts'', -7)
      else if w = 0x010001 then Some (''Degrees K'', 0)
      else if w = 0x0101001 then Some (''AmpSecs'', 0)
      else None)"

definition units_value :: "usb_info \<Rightarrow> int \<Rightarrow> usb_value" where
  "units_value info v =
     (let (name, bias) = (case usb_unit (ui_unit info) of None \<Rightarrow> ([], 0) | Some x \<Rightarrow> x);
          d = scaled v (signed_exponent (ui_unit_exponent info) + bias)
      in new_usb_value\<lparr>uv_type := (if usb_unit (ui_unit info) = None then V_INTEGER else V_DOUBLE),
           uv_unit := name, uv_dbl := d, uv_int := trunc d\<rparr>)"

definition plain_value :: "usb_info \<Rightarrow> int \<Rightarrow> usb_value" where
  "plain_value info v =
     new_usb_value\<lparr>uv_type := V_INTEGER, uv_unit := [], uv_int := v,
       uv_dbl := scaled v (signed_exponent (ui_unit_exponent info))\<rparr>"

text \<open>\<open>data\<close> is the report with its id in front.\<close>

definition populate_uval :: "nat \<Rightarrow> usb_info \<Rightarrow> byte list \<Rightarrow> gu_sys \<Rightarrow> usb_value option \<times> gu_sys" where
  "populate_uval ci info data s =
     (let raw = hid_get_data (tl data) (ui_item info); v = sint raw;
          s1 = upd_gu (\<lambda>g. g\<lparr>gu_info := (gu_info g)(ci := Some (info\<lparr>ui_value := raw\<rparr>))\<rparr>) s
      in case ui_data_type info of
           T_INDEX \<Rightarrow>
             if v = 0 then (None, s1)
             else (case get_string v s1 of
                     (None, s2) \<Rightarrow> (None, s2)
                   | (Some str, s2) \<Rightarrow> (Some (new_usb_value\<lparr>uv_type := V_STRING, uv_str := strlcpy_to 256 str\<rparr>), s2))
         | T_UNITS \<Rightarrow> (Some (units_value info v), s1)
         | _ \<Rightarrow> (Some (plain_value info v), s1))"

definition gu_get_value :: "nat \<Rightarrow> gu_sys \<Rightarrow> usb_value option \<times> gu_sys" where
  "gu_get_value ci s =
     (case gu_info (gu s) ci of
        None \<Rightarrow> (None, s)
      | Some info \<Rightarrow>
          if \<not> UPS_Cap (ups s) ci then (None, s)
          else let (rpt, s1) = get_report (ui_item info) (ui_report_len info) s
               in if rpt = [] then (None, s1)
                  else populate_uval ci (info\<lparr>ui_report_len := length rpt\<rparr>) (poke 0 rpt (replicate 20 0)) s1)"

definition gu_read_int :: "nat \<Rightarrow> gu_sys \<Rightarrow> int option \<times> gu_sys" where
  "gu_read_int ci s = (let (r, s1) = gu_get_value ci s in (map_option uv_int r, s1))"

text \<open>The buffer of a write is not initialised; it is taken for zeros.\<close>

definition gu_write_int :: "nat \<Rightarrow> int \<Rightarrow> gu_sys \<Rightarrow> bool \<times> gu_sys" where
  "gu_write_int ci val s =
     (case gu_info (gu s) ci of
        None \<Rightarrow> (False, s)
      | Some info \<Rightarrow>
          (case ui_witem info of
             None \<Rightarrow> (False, s)
           | Some witem \<Rightarrow>
               if \<not> UPS_Cap (ups s) ci \<or> it_report_ID witem = 0 then (False, s)
               else let (rpt, s1) = get_report (ui_item info) (ui_report_len info) s
                    in if rpt = [] then (False, s1)
                       else let buf = poke 0 rpt (replicate 20 0);
                                buf' = hd buf # hid_set_data (tl buf) witem (word_of_int val);
                                (ok, s2) = set_report witem (take (ui_report_len info) buf') s1
                            in if \<not> ok then (False, s2)
                               else let (rpt2, s3) = get_report (ui_item info) (ui_report_len info) s2
                                    in (rpt2 \<noteq> [], s3)))"

definition generic_platform :: "generic_usb usb_platform" where
  "generic_platform = \<lparr>pf_capabilities = gu_capabilities, pf_get_value = gu_get_value,
     pf_read_int = gu_read_int, pf_write_int = gu_write_int\<rparr>"

subsection \<open>The link\<close>

abbreviation (input) LINK_RETRY_INTERVAL :: int where "LINK_RETRY_INTERVAL \<equiv> 5"

definition gu_hid_open :: "usb_dev list \<Rightarrow> gu_sys \<Rightarrow> bool \<times> gu_sys" where
  "gu_hid_open devs s =
     (let (ok, h) = hid_open devs (device (ups s)) (gu_hid (gu s)) in (ok, upd_gu (\<lambda>g. g\<lparr>gu_hid := h\<rparr>) s))"

definition gu_hid_close :: "gu_sys \<Rightarrow> gu_sys" where
  "gu_hid_close s = upd_gu (\<lambda>g. g\<lparr>gu_hid := hid_close (gu_hid g)\<rparr>) s"

definition gu_reinitialize :: "gu_sys \<Rightarrow> gu_sys" where
  "gu_reinitialize s =
     upd_gu (\<lambda>g. g\<lparr>gu_info := (\<lambda>k. if k \<le> CI_MAXCI then None else gu_info g k)\<rparr>)
       (upd_ups (\<lambda>u. u\<lparr>UPS_Cap := (\<lambda>k. if k \<le> CI_MAXCI then False else UPS_Cap u k)\<rparr>) s)"

text \<open>One attempt to get the UPS back.\<close>

definition link_attempt :: "usb_dev list \<Rightarrow> gu_sys \<Rightarrow> bool \<times> gu_sys" where
  "link_attempt devs s =
     (let (opened, s1) = gu_hid_open devs (gu_reinitialize (gu_hid_close (usb_sleep (LINK_RETRY_INTERVAL * 1000000) s)))
      in if \<not> opened then (False, s1)
         else let (cap, s2) = usb_get_capabilities generic_platform s1
              in if \<not> cap then (False, s2) else usb_read_static_data generic_platform s2)"

text \<open>
  The loop ends when an attempt succeeds; with the last enumeration behind it, it never does, and
  the thread does not come back.
\<close>

fun link_loop :: "usb_dev list list \<Rightarrow> int \<Rightarrow> bool \<Rightarrow> gu_sys \<Rightarrow> gu_sys" where
  "link_loop [] tlog once s = s\<lparr>halted := True\<rparr>"
| "link_loop (devs # rest) tlog once s =
     (let s1 = (if tlog \<le> 0
                then let a = log_cmd CMDCOMMFAILURE s in if once then run_command CMDCOMMFAILURE a else a
                else s);
          (ok, s2) = link_attempt devs s1
      in if ok then upd_gu (\<lambda>g. g\<lparr>gu_bus := rest\<rparr>) s2
         else link_loop rest ((if tlog \<le> 0 then 10 * 60 else tlog) - LINK_RETRY_INTERVAL) (once \<and> tlog > 0) s2)"

definition usb_link_check :: "gu_sys \<Rightarrow> bool \<times> gu_sys" where
  "usb_link_check s =
     (if gu_linkcheck (gu s) then (False, s)
      else let s1 = upd_ups set_commlost (upd_gu (\<lambda>g. g\<lparr>gu_linkcheck := True\<rparr>) s);
               s2 = link_loop (gu_bus (gu s1)) (LINK_RETRY_INTERVAL * 2) True s1
           in (True,
               if halted s2 then s2
               else upd_gu (\<lambda>g. g\<lparr>gu_linkcheck := False\<rparr>) (upd_ups clear_commlost (plain_event CMDCOMMOK s2))))"

subsection \<open>Events\<close>

text \<open>
  The capabilities an interrupt report is about, in turn; the result of \<open>populate_uval\<close> is ignored,
  and the value of the one before is reported again when there is none.
\<close>

fun event_loop :: "nat list \<Rightarrow> byte list \<Rightarrow> usb_value \<Rightarrow> gu_sys \<Rightarrow> bool \<times> usb_value \<times> gu_sys" where
  "event_loop [] rpt uval s = (False, uval, s)"
| "event_loop (ci # todo) rpt uval s =
     (let buf = poke 0 rpt (replicate 20 0)
      in case gu_info (gu s) ci of
           None \<Rightarrow> event_loop todo rpt uval s
         | Some info \<Rightarrow>
             if \<not> UPS_Cap (ups s) ci \<or> it_report_ID (ui_item info) \<noteq> uint (hd buf) then event_loop todo rpt uval s
             else if ui_report_len info \<noteq> length rpt then (False, uval, s)
             else if ui_value info = hid_get_data (tl buf) (ui_item info) then event_loop todo rpt uval s
             else let (r, s1) = populate_uval ci info buf s;
                      uval1 = (case r of None \<Rightarrow> uval | Some v \<Rightarrow> v);
                      (important, s2) = usb_report_event ci uval1 s1;
                      (more, uval2, s3) = event_loop todo rpt uval1 s2
                  in (important \<or> more, uval2, s3))"

fun gu_check_loop :: "int \<Rightarrow> usb_value \<Rightarrow> (int \<times> hid_event) list \<Rightarrow> gu_sys \<Rightarrow> bool \<times> gu_sys" where
  "gu_check_loop quit uval [] s =
     (let timeout = tv_diff_ms (ub_now (drv s)) quit
      in (False, upd_gu (\<lambda>g. g\<lparr>gu_events := []\<rparr>) (if timeout \<le> 0 then s else usb_sleep (timeout * 1000) s)))"
| "gu_check_loop quit uval ((t, e) # es) s =
     (let now = ub_now (drv s); timeout = tv_diff_ms now quit;
          keep = (\<lambda>w. upd_gu (\<lambda>g. g\<lparr>gu_events := w\<rparr>))
      in if timeout \<le> 0 then (False, keep ((t, e) # es) s)
         else if t > now + timeout * 1000 then (False, keep ((t, e) # es) (usb_sleep (timeout * 1000) s))
         else let s1 = usb_sleep (max now t - now) s
              in case e of
                   HidFails rc \<Rightarrow>
                     if rc \<ge> 0 \<or> rc = - ETIMEDOUT then (False, keep es s1)
                     else if rc = - EINTR \<or> rc = - EAGAIN then gu_check_loop quit uval es s1
                     else (False, snd (usb_link_check (keep es s1)))
                 | HidReport bytes \<Rightarrow>
                     let rpt = take 20 bytes
                     in if rpt = [] then (False, keep es s1)
                        else let (stop, uval1, s2) = event_loop [0..<CI_MAXCI] rpt uval (write_lock s1);
                                 s3 = write_unlock s2
                             in if stop then (True, keep es s3) else gu_check_loop quit uval1 es s3)"

definition gu_check_state :: "gu_sys \<Rightarrow> bool \<times> gu_sys" where
  "gu_check_state s =
     gu_check_loop (ub_now (drv s) + wait_time (ups s) * 1000000) new_usb_value (gu_events (gu s)) s"

subsection \<open>The driver\<close>

definition gu_open :: "gu_sys \<Rightarrow> bool \<times> gu_sys" where
  "gu_open s =
     (let (devs, rest) = (case gu_bus (gu s) of [] \<Rightarrow> ([], []) | d # ds \<Rightarrow> (d, ds));
          (ok, s1) = gu_hid_open devs (upd_gu (\<lambda>g. g\<lparr>gu_bus := rest\<rparr>) (write_lock s))
      in (ok, write_unlock (upd_ups (\<lambda>u. clear_slave (u\<lparr>fd := 1\<rparr>)) s1)))"

definition gu_close :: "gu_sys \<Rightarrow> bool \<times> gu_sys" where
  "gu_close s = (True, gu_hid_close s)"

definition new_generic_usb :: "usb_dev list list \<Rightarrow> generic_usb" where
  "new_generic_usb bus = \<lparr>gu_info = (\<lambda>_. None), gu_hid = new_hid_ups, gu_bus = bus, gu_linkcheck = False,
     gu_sizes = (\<lambda>_ _. 0), gu_get = (\<lambda>_. []), gu_set = (\<lambda>_. True), gu_string = (\<lambda>_. None), gu_log = [],
     gu_events = []\<rparr>"

definition generic_usb_driver :: "generic_usb usb_drv driver" where
  "generic_usb_driver = \<lparr>
     drv_open = gu_open, drv_close = gu_close,
     drv_read_static_data = usb_read_static_data generic_platform,
     drv_read_volatile_data = usb_read_volatile_data generic_platform,
     drv_get_capabilities = usb_get_capabilities generic_platform, drv_check_state = gu_check_state,
     drv_setup = default_setup, drv_kill_power = usb_kill_power generic_platform,
     drv_shutdown = usb_shutdown generic_platform, drv_entry_point = usb_entry_point generic_platform\<rparr>"

subsection \<open>The contracts\<close>

lemma quiet_upd_gu: "quiet s (upd_gu f s)"
  by (simp add: upd_gu_def quiet_upd_drv)

lemma then_upd_gu: "quiet s t \<Longrightarrow> quiet s (upd_gu f t)"
  by (rule quiet_trans [OF _ quiet_upd_gu])

lemma transfers_quiet:
  "quiet s (snd (get_report it len s))" "quiet s (snd (set_report it rpt s))" "quiet s (snd (get_string idx s))"
  by (simp_all add: get_report_def set_report_def get_string_def usb_transfer_def quiet_upd_gu)

lemma transfers_frame:
  "ups (snd (get_report it len s)) = ups s" "ups (snd (get_string idx s)) = ups s"
  "ub_bpcnt (drv (snd (get_report it len s))) = ub_bpcnt (drv s)"
  "ub_bpcnt (drv (snd (get_string idx s))) = ub_bpcnt (drv s)"
  "ub_quirk (drv (snd (get_report it len s))) = ub_quirk (drv s)"
  "ub_quirk (drv (snd (get_string idx s))) = ub_quirk (drv s)"
  by (simp_all add: get_report_def get_string_def usb_transfer_def)

lemma probe_known_quiet: "quiet s (probe_known k s)"
proof -
  have "is_shutdown (u\<lparr>UPS_Cap := c, UPS_Cmd := d\<rparr>) = is_shutdown u" for u c d
    by (simp add: shutdown_bit)
  then show ?thesis
    by (auto simp: probe_known_def split: option.split intro!: then_upd_gu quiet_upd_ups)
qed

lemma gu_capabilities_quiet: "quiet s (snd (gu_capabilities s))"
  unfolding gu_capabilities_def
  by (auto intro!: quiet_locked quiet_trans [OF _ set_cap_quiet] quiet_fold probe_known_quiet)

lemma populate_uval_laws:
  "quiet s (snd (populate_uval ci info d s))" "ups (snd (populate_uval ci info d s)) = ups s"
  "ub_bpcnt (drv (snd (populate_uval ci info d s))) = ub_bpcnt (drv s)"
  "ub_quirk (drv (snd (populate_uval ci info d s))) = ub_quirk (drv s)"
  by (cases "ui_data_type info"; auto simp: populate_uval_def get_string_def usb_transfer_def Let_def
      split: option.split intro!: then_upd_gu)+

lemma gu_get_value_laws:
  "quiet s (snd (gu_get_value ci s))" "ups (snd (gu_get_value ci s)) = ups s"
  "ub_bpcnt (drv (snd (gu_get_value ci s))) = ub_bpcnt (drv s)"
  "ub_quirk (drv (snd (gu_get_value ci s))) = ub_quirk (drv s)"
  by (auto simp: gu_get_value_def get_report_def usb_transfer_def populate_uval_laws
      split: option.split intro!: quiet_trans [OF _ populate_uval_laws(1)] then_upd_gu)

lemma gu_read_int_quiet: "quiet s (snd (gu_read_int ci s))"
  using gu_get_value_laws(1) [of s ci] by (simp add: gu_read_int_def split_beta)

lemma gu_write_int_quiet: "quiet s (snd (gu_write_int ci val s))"
  by (auto simp: gu_write_int_def get_report_def set_report_def usb_transfer_def Let_def
      split: option.split intro!: then_upd_gu)

interpretation gu: usb_platform generic_platform
  by unfold_locales
    (simp_all add: generic_platform_def gu_capabilities_quiet gu_get_value_laws gu_read_int_quiet
      gu_write_int_quiet)

lemma gu_hid_quiet:
  "quiet s (snd (gu_hid_open devs s))" "quiet s (gu_hid_close s)" "quiet s (gu_reinitialize s)"
proof -
  show "quiet s (snd (gu_hid_open devs s))" "quiet s (gu_hid_close s)"
    by (auto simp: gu_hid_open_def gu_hid_close_def quiet_upd_gu split: prod.split)
  show "quiet s (gu_reinitialize s)"
    unfolding gu_reinitialize_def by (rule then_upd_gu) (rule quiet_upd_ups, simp)
qed

lemma link_attempt_quiet: "quiet s (snd (link_attempt devs s))"
proof -
  let ?a = "gu_reinitialize (gu_hid_close (usb_sleep 5000000 s))"
  have a: "quiet s ?a" by (intro quiet_trans [OF _ gu_hid_quiet(3)] quiet_trans [OF _ gu_hid_quiet(2)] quiet_sleep)
  obtain opened s1 where 1: "gu_hid_open devs ?a = (opened, s1)" by force
  have q1: "quiet s s1" using quiet_trans [OF a gu_hid_quiet(1)] 1 by (metis snd_conv)
  obtain cap s2 where 2: "usb_get_capabilities generic_platform s1 = (cap, s2)" by force
  have q2: "quiet s s2" using quiet_trans [OF q1 gu.get_capabilities_quiet] 2 by (metis snd_conv)
  show ?thesis
    using q1 q2 quiet_trans [OF q2 gu.read_static_quiet] by (simp add: link_attempt_def 1 2)
qed

lemma link_loop_quiet: "quiet s (link_loop bus tlog once s)"
proof (induction bus tlog once s rule: link_loop.induct)
  case (1 tlog once s)
  then show ?case by (simp add: quiet_def)
next
  case (2 devs rest tlog once s)
  define s1 where "s1 = (if tlog \<le> 0
    then let a = log_cmd CMDCOMMFAILURE s in if once then run_command CMDCOMMFAILURE a else a else s)"
  have q1: "quiet s s1"
    by (auto simp: s1_def Let_def intro!: quiet_log_cmd quiet_trans [OF _ quiet_run_command])
  obtain ok s2 where l: "link_attempt devs s1 = (ok, s2)" by force
  have q2: "quiet s s2" using quiet_trans [OF q1 link_attempt_quiet] l by (metis snd_conv)
  show ?case
    using 2 q2 quiet_trans [OF q2] then_upd_gu [OF q2]
    by (auto simp: l s1_def [symmetric] Let_def)
qed

lemma usb_link_check_quiet: "quiet s (snd (usb_link_check s))"
proof -
  define s1 where "s1 = upd_ups set_commlost (upd_gu (\<lambda>g. g\<lparr>gu_linkcheck := True\<rparr>) s)"
  define s2 where "s2 = link_loop (gu_bus (gu s1)) 10 True s1"
  have q1: "quiet s s1" unfolding s1_def by (intro then_quiet(6) then_upd_gu quiet_refl) simp
  have q2: "quiet s s2" unfolding s2_def by (rule quiet_trans [OF q1 link_loop_quiet])
  have q3: "quiet s (upd_gu (\<lambda>g. g\<lparr>gu_linkcheck := False\<rparr>) (upd_ups clear_commlost (plain_event CMDCOMMOK s2)))"
    by (intro then_upd_gu then_quiet q2) simp_all
  show ?thesis using q2 q3
    by (simp add: usb_link_check_def s1_def [symmetric] s2_def [symmetric] Let_def)
qed

lemma event_loop_quiet: "quiet s (snd (snd (event_loop todo rpt uval s)))"
proof (induction todo rpt uval s rule: event_loop.induct)
  case (2 ci todo rpt uval s)
  show ?case
  proof (cases "gu_info (gu s) ci")
    case None
    then show ?thesis using 2 by (simp add: Let_def)
  next
    case (Some info)
    let ?buf = "poke 0 rpt (replicate 20 0)"
    obtain r s1 where p: "populate_uval ci info ?buf s = (r, s1)" by force
    have q1: "quiet s s1" using populate_uval_laws(1) p by (metis snd_conv)
    define uval1 where "uval1 = (case r of None \<Rightarrow> uval | Some v \<Rightarrow> v)"
    obtain imp s2 where e: "usb_report_event ci uval1 s1 = (imp, s2)" by force
    have q2: "quiet s s2" using quiet_trans [OF q1 report_event_quiet] e by (metis snd_conv)
    have "quiet s (snd (snd (event_loop todo rpt uval1 s2)))"
      if "UPS_Cap (ups s) ci" "it_report_ID (ui_item info) = uint (hd ?buf)"
        "ui_report_len info = length rpt" "ui_value info \<noteq> hid_get_data (tl ?buf) (ui_item info)"
      by (rule quiet_trans [OF q2]) (use 2(4) that p e in \<open>auto simp: Some uval1_def\<close>)
    then show ?thesis
      using 2 q2 by (auto simp: Some p uval1_def [symmetric] e Let_def split: prod.split)
  qed
qed simp

lemma gu_check_loop_quiet: "quiet s (snd (gu_check_loop quit uval es s))"
proof (induction quit uval es s rule: gu_check_loop.induct)
  case (1 quit uval s)
  then show ?case by (auto simp: Let_def intro!: then_upd_gu quiet_sleep)
next
  case (2 quit uval t e es s)
  define s1 where "s1 = usb_sleep (max (ub_now (drv s)) t - ub_now (drv s)) s"
  have q1: "quiet s s1" unfolding s1_def by (rule quiet_sleep)
  obtain stop uval1 s2 where ev: "event_loop [0..<CI_MAXCI] (case e of HidReport b \<Rightarrow> take 20 b | _ \<Rightarrow> []) uval (write_lock s1)
      = (stop, uval1, s2)" by (metis prod_cases3)
  have "quiet (write_lock s1) s2" using event_loop_quiet ev by (metis snd_conv)
  then have q2: "quiet s (write_unlock s2)" by (intro quiet_trans [OF q1] quiet_locked)
  show ?case
  proof (cases "tv_diff_ms (ub_now (drv s)) quit \<le> 0 \<or> t > ub_now (drv s) + tv_diff_ms (ub_now (drv s)) quit * 1000")
    case True
    then show ?thesis by (auto simp: Let_def intro!: then_upd_gu quiet_sleep)
  next
    case False
    then show ?thesis
      using quiet_trans [OF q1] quiet_trans [OF q2] then_upd_gu [OF q1] then_upd_gu [OF q2] 2 ev
        quiet_trans [OF then_upd_gu [OF q1] usb_link_check_quiet]
      by (cases e) (auto simp: Let_def s1_def [symmetric])
  qed
qed

lemma gu_open_quiet: "quiet s (snd (gu_open s))"
proof -
  have "quiet s (write_unlock (upd_ups (\<lambda>u. clear_slave (u\<lparr>fd := 1\<rparr>)) (snd (gu_hid_open devs (upd_gu f (write_lock s))))))"
    for devs f
    by (intro quiet_locked then_quiet(6) quiet_trans [OF _ gu_hid_quiet(1)] then_upd_gu quiet_refl)
      (simp add: shutdown_bit clear_bits)
  then show ?thesis
    by (auto simp: gu_open_def Let_def split: list.split prod.split) (metis snd_conv)+
qed

interpretation generic_usb: ups_driver generic_usb_driver
proof
  fix f :: "generic_usb usb_drv sys \<Rightarrow> bool \<times> generic_usb usb_drv sys" and s
  have c: "quiet s (snd (gu_close s))" "quiet s (snd (gu_check_state s))"
    by (simp_all add: gu_close_def gu_hid_quiet gu_check_state_def gu_check_loop_quiet)
  assume "f \<in> driver_ops generic_usb_driver"
  then show "quiet s (snd (f s))"
    by (auto simp: driver_ops_def generic_usb_driver_def default_setup_def gu_open_quiet
        gu.methods_quiet c)
qed

subsection \<open>What readings there are\<close>

text \<open>Reading a value leaves the set of the readings there are as it is.\<close>

lemma populate_info:
  "gu_info (gu (snd (populate_uval ci info d s))) x = None \<longleftrightarrow> x \<noteq> ci \<and> gu_info (gu s) x = None"
  by (cases "ui_data_type info"; auto simp: populate_uval_def get_string_def usb_transfer_def Let_def
      split: option.split)

lemma gu_get_value_info:
  "gu_info (gu (snd (gu_get_value ci s))) x = None \<longleftrightarrow> gu_info (gu s) x = None"
  by (auto simp: gu_get_value_def get_report_def usb_transfer_def populate_info split: option.split)

lemma usb_get_value_info:
  "gu_info (gu (snd (usb_get_value generic_platform ci s))) x = None \<longleftrightarrow> gu_info (gu s) x = None"
  by (simp add: usb_get_value_def generic_platform_def gu_get_value_info Let_def usb_sleep_def)
    (simp add: gu_def)

lemma process_value_gu: "gu (usb_process_value ci v s) = gu s"
  by (auto simp: usb_process_value_def battery_present_def Let_def gu_def split: option.split)

lemma update_value_info:
  "gu_info (gu (snd (usb_update_value generic_platform ci s))) x = None \<longleftrightarrow> gu_info (gu s) x = None"
  using usb_get_value_info [of ci s x]
  by (auto simp: usb_update_value_def process_value_gu split: prod.split option.split)

lemma no_info_no_value:
  "gu_info (gu s) ci = None \<Longrightarrow> fst (usb_get_value generic_platform ci s) = None"
  by (simp add: usb_get_value_def generic_platform_def gu_get_value_def Let_def usb_sleep_def)
    (simp add: gu_def)

lemma no_info_no_change:
  "gu_info (gu s) ci = None \<Longrightarrow> gu (snd (usb_update_value generic_platform ci s)) = gu s \<and>
    ups (snd (usb_update_value generic_platform ci s)) = ups s"
  by (auto simp: usb_update_value_def usb_get_value_def generic_platform_def gu_get_value_def Let_def
      usb_sleep_def gu_def split: prod.split option.split)

lemma no_info_pass:
  "(\<forall>ci\<in>set todo. gu_info (gu s) ci = None) \<Longrightarrow>
    gu (update_all generic_platform todo s) = gu s \<and> ups (update_all generic_platform todo s) = ups s"
  unfolding update_all_def by (induction todo arbitrary: s) (simp_all add: no_info_no_change)

subsection \<open>Properties\<close>

text \<open>Polling a USB UPS changes no bit of the status word outside its low byte and \<open>UPS_battpresent\<close>:
  neither a shutdown in progress, nor the loss of the connection, nor what a slave was told.\<close>

theorem usb_poll_keeps_state_bits:
  "Status (ups (snd (drv_read_volatile_data generic_usb_driver s))) AND NOT 0x040000FF =
     Status (ups s) AND NOT 0x040000FF"
proof (rule bit_word_eqI)
  fix n assume "n < LENGTH(32)"
  have b: "bit (0x040000FF :: 32 word) n \<longleftrightarrow> n \<in> usb_bits"
  proof -
    have "(0x040000FF :: 32 word) = 0xFF OR push_bit 26 1" by simp
    then show ?thesis
      by (simp only: bit_or_iff low_byte_bit bit_push_bit_iff bit_1_iff) (auto simp: usb_bits_def)
  qed
  have "same_status usb_bits (ups s) (ups (snd (drv_read_volatile_data generic_usb_driver s)))"
    by (simp add: generic_usb_driver_def gu.read_volatile_same)
  then show "bit (Status (ups (snd (drv_read_volatile_data generic_usb_driver s))) AND NOT 0x040000FF) n =
     bit (Status (ups s) AND NOT 0x040000FF) n"
    by (auto simp only: bit_and_iff bit_not_iff b same_status_def)
qed

text \<open>C34: a UPS that has APC's status byte is what that byte says: after a pass in which it was read,
  the low byte of the status word is its value, whatever the other readings have said and whatever state
  the UPS was in. Only a pass on battery within five seconds of the one before is left out, and
  changes nothing of it.\<close>

theorem usb_status_byte_wins:
  assumes "usb_get_value generic_platform CI_STATUS (before_status generic_platform s) = (Some v, t)" and "n < 8"
  shows "bit (Status (ups (snd (usb_read_volatile_data generic_platform s)))) n =
    (if is_onbatt (ups s) \<and> poll_time (ups s) \<noteq> 0 \<and> fst (time_now s) - poll_time (ups s) < 5
     then bit (Status (ups s)) n else bit (word_of_int (uv_int v) :: 32 word) n)"
  using gu.status_byte_wins [OF assms] by (simp only: pass_limited_def)

text \<open>C35: a UPS with neither APC's status byte nor \<open>Discharging\<close> does not go on battery, however often it
  is polled: the reading \<open>ACPresent\<close> can only say that there is power, and its absence is not noticed.\<close>

theorem usb_ac_loss_unnoticed:
  assumes "gu_info (gu s) CI_STATUS = None" and "gu_info (gu s) CI_Discharging = None" and "\<not> is_onbatt (ups s)"
  shows "\<not> is_onbatt (ups (((\<lambda>s. snd (usb_read_volatile_data generic_platform s)) ^^ k) s))"
proof -
  let ?poll = "\<lambda>s. snd (usb_read_volatile_data generic_platform s)"
  have kept: "gu_info (gu (?poll t)) ci = None" if "gu_info (gu t) ci = None" for t ci
  proof -
    have all: "gu_info (gu (update_all generic_platform todo r)) ci = None \<longleftrightarrow> gu_info (gu r) ci = None" for todo r
      unfolding update_all_def by (induction todo arbitrary: r) (simp_all add: update_value_info)
    have "gu (write_unlock r) = gu r" "gu (write_lock r) = gu r" "gu (upd_ups f r) = gu r" "gu (snd (time_now r)) = gu r"
      for r f by (simp_all add: gu_def)
    then show ?thesis using that by (simp add: usb_read_volatile_data_def Let_def split_beta all)
  qed
  have off: "\<not> is_onbatt (ups (?poll t))"
    if "gu_info (gu t) CI_STATUS = None" "gu_info (gu t) CI_Discharging = None" "\<not> is_onbatt (ups t)" for t
  proof (rule gu.ac_loss_unnoticed [where I = "\<lambda>r. \<forall>ci\<in>{CI_STATUS, CI_Discharging}. gu_info (gu r) ci = None"])
    show "\<forall>ci\<in>{CI_STATUS, CI_Discharging}.
        gu_info (gu (upd_ups (\<lambda>u. status_byte 0 (u\<lparr>poll_time := n\<rparr>)) (write_lock (snd (time_now t))))) ci = None" for n
      using that(1,2) by (simp add: gu_def del: One_nat_def)
  qed (auto simp: that(3) update_value_info no_info_no_value)
  have "gu_info (gu ((?poll ^^ k) s)) CI_STATUS = None \<and> gu_info (gu ((?poll ^^ k) s)) CI_Discharging = None \<and>
      \<not> is_onbatt (ups ((?poll ^^ k) s))"
    using assms by (induction k) (simp_all add: kept off del: One_nat_def)
  then show ?thesis by blast
qed

text \<open>A battery is believed to be there when two reports in a row say so, and gone at the first
  report that says it is.\<close>

theorem usb_battery_debounced:
  "is_battpresent (ups (fold (\<lambda>i. usb_process_value CI_BatteryPresent (new_usb_value\<lparr>uv_int := i\<rparr>))
      (0 # replicate n 1) s)) \<longleftrightarrow> n \<ge> 2"
proof -
  have n: "usb_process_value_bup CI_BatteryPresent v u = None" for v and u :: upsinfo
    by (rule bup_not_status) (simp add: status_readings_def)
  have p: "usb_process_value CI_BatteryPresent (new_usb_value\<lparr>uv_int := i\<rparr>) = battery_present (i \<noteq> 0)" for i
    by (rule ext) (simp add: usb_process_value_def n)
  have "fold (\<lambda>i. battery_present (i \<noteq> 0)) (replicate n (1 :: int)) t = fold battery_present (replicate n True) t" for t
    by (induction n arbitrary: t) simp_all
  then show ?thesis
    using battery_reports_true [of "battery_present False s" n]
    by (auto simp: p Let_def battery_present_def)
qed

subsection \<open>Witnesses\<close>

definition demo_status :: usb_info where
  "demo_status = \<lparr>ui_unit_exponent = 0, ui_unit = 0, ui_data_type = T_BITS,
     ui_item = \<lparr>it_kind = hid_feature, it_collection = 0, it_usage = 0xFF860060, it_report_ID = 7, it_pos = 0,
       it_report_size = 8, it_logical_minimum = 0, it_unit = 0, it_unit_exponent = 0\<rparr>,
     ui_witem = None, ui_report_len = 2, ui_value = 0\<rparr>"

text \<open>A UPS whose one reading is the status byte, and which says that it is on battery.\<close>

definition demo_usb :: gu_sys where
  "demo_usb = upd_ups (\<lambda>u. u\<lparr>UPS_Cap := (\<lambda>ci. ci = CI_STATUS)\<rparr>)
     (start_sys (new_usb_drv 0 ((new_generic_usb [])
        \<lparr>gu_info := [CI_STATUS \<mapsto> demo_status], gu_get := (\<lambda>_. [7, 0x10])\<rparr>)))"

lemma demo_usb_simps:
  "\<not> is_onbatt (ups demo_usb)"
  "gu demo_usb = (new_generic_usb [])\<lparr>gu_info := [CI_STATUS \<mapsto> demo_status], gu_get := (\<lambda>_. [7, 0x10])\<rparr>"
  "UPS_Cap (ups demo_usb) = (\<lambda>ci. ci = CI_STATUS)"
  by (simp_all add: demo_usb_def gu_def start_sys_def new_usb_drv_def new_ups_def zero_ups_def
      onbatt.is_f_bit set_battpresent_def UPS_battpresent_def)

lemma demo_before_status:
  "gu (before_status generic_platform demo_usb) = gu demo_usb"
  "UPS_Cap (ups (before_status generic_platform demo_usb)) = UPS_Cap (ups demo_usb)"
proof -
  let ?todo = "takeWhile (\<lambda>ci. ci \<noteq> CI_STATUS) (poll_list True)"
  let ?s = "upd_ups (\<lambda>u. status_byte 0 (u\<lparr>poll_time := fst (time_now demo_usb)\<rparr>)) (write_lock (snd (time_now demo_usb)))"
  have g: "gu ?s = gu demo_usb" by (simp add: gu_def)
  have "\<forall>ci\<in>set ?todo. gu_info (gu ?s) ci = None"
    unfolding g demo_usb_simps using set_takeWhileD [of _ "\<lambda>ci. ci \<noteq> CI_STATUS" "poll_list True"]
    by (auto simp del: One_nat_def)
  from no_info_pass [OF this] have u: "gu (update_all generic_platform ?todo ?s) = gu demo_usb"
    "ups (update_all generic_platform ?todo ?s) = ups ?s" by (simp_all only: g)
  show "gu (before_status generic_platform demo_usb) = gu demo_usb"
    by (simp only: before_status_def split_beta Let_def u)
  show "UPS_Cap (ups (before_status generic_platform demo_usb)) = UPS_Cap (ups demo_usb)"
    by (simp only: before_status_def split_beta Let_def u) (simp add: status_byte_def write_lock_def)
qed

lemma usb_get_value_generic:
  "\<exists>t. usb_get_value generic_platform ci s = gu_get_value ci t \<and> gu t = gu s \<and> ups t = ups s"
  by (auto simp: usb_get_value_def generic_platform_def Let_def usb_sleep_def gu_def intro!: exI)

lemma demo_reading:
  "\<exists>v t. usb_get_value generic_platform CI_STATUS (before_status generic_platform demo_usb) = (Some v, t) \<and> uv_int v = 0x10"
proof -
  have "\<exists>v t. gu_get_value CI_STATUS s = (Some v, t) \<and> uv_int v = 0x10"
    if "gu s = gu demo_usb" "UPS_Cap (ups s) = UPS_Cap (ups demo_usb)" for s
  proof -
    have d: "hid_get_data (tl (poke 0 [7, 16 :: byte] (replicate 20 0))) (ui_item demo_status) = 0x10"
      "take (ui_report_len demo_status) [7, 16 :: byte] = [7, 16]" "ui_data_type demo_status = T_BITS"
      by code_simp+
    show ?thesis
      by (simp add: gu_get_value_def that demo_usb_simps get_report_def usb_transfer_def
          populate_uval_def plain_value_def d)
  qed
  note reading = this
  obtain s where "usb_get_value generic_platform CI_STATUS (before_status generic_platform demo_usb) = gu_get_value CI_STATUS s"
    "gu s = gu (before_status generic_platform demo_usb)" "ups s = ups (before_status generic_platform demo_usb)"
    using usb_get_value_generic by blast
  then show ?thesis using reading [of s] by (simp only: demo_before_status)
qed

theorem usb_status_byte_wins_witness:
  "bit (Status (ups (snd (usb_read_volatile_data generic_platform demo_usb)))) 4"
proof -
  obtain v t where r: "usb_get_value generic_platform CI_STATUS (before_status generic_platform demo_usb) = (Some v, t)"
    and v: "uv_int v = 0x10" using demo_reading by blast
  show ?thesis using usb_status_byte_wins [OF r, of 4] demo_usb_simps(1) by (simp add: v)
qed

theorem usb_ac_loss_unnoticed_witness:
  "\<not> is_onbatt (ups (((\<lambda>s. snd (usb_read_volatile_data generic_platform s)) ^^ 5)
     (upd_gu (\<lambda>g. g\<lparr>gu_info := Map.empty\<rparr>) demo_usb)))"
  by (rule usb_ac_loss_unnoticed) (simp_all add: demo_usb_simps)

end
