(* ===== verification/LinuxUsb.thy ===== *)
theory LinuxUsb
  imports GenericUsb
begin

text \<open>
  The hiddev platform of the USB driver (\<open>src/drivers/usb/linux/linux-usb.c\<close>). The kernel has
  parsed the descriptor: what it says of a device is a \<open>hiddev_node\<close>, one per \<open>open\<close> that
  succeeds, and what it answers to the later calls is a script with one entry per \<open>ioctl\<close>. The
  descriptor \<open>_fd\<close> is the node it stands for, \<open>None\<close> for -1.
\<close>

unbundle bit_operations_syntax

abbreviation (input) HID_REPORT_TYPE_INPUT :: nat where "HID_REPORT_TYPE_INPUT \<equiv> 1"
abbreviation (input) HID_REPORT_TYPE_FEATURE :: nat where "HID_REPORT_TYPE_FEATURE \<equiv> 3"
abbreviation (input) UPS_USAGE :: "32 word" where "UPS_USAGE \<equiv> 0x840004"

text \<open>\<open>struct hiddev_usage_ref\<close> of the kernel.\<close>

record usage_ref =
  ur_type :: nat
  ur_report :: nat
  ur_field :: nat
  ur_usage :: nat
  ur_code :: "32 word"
  ur_value :: int

definition zero_ref :: usage_ref where
  "zero_ref = \<lparr>ur_type = 0, ur_report = 0, ur_field = 0, ur_usage = 0, ur_code = 0, ur_value = 0\<rparr>"

record hiddev_info =
  hi_physical :: "32 word"
  hi_unit_exponent :: int
  hi_unit :: "32 word"
  hi_data_type :: usb_data_type
  hi_ci :: nat
  hi_uref :: usage_ref
  hi_wuref :: usage_ref

text \<open>A field or a usage the kernel does not describe is \<open>None\<close>; a usage is its code and its value.\<close>

record hiddev_field =
  hf_physical :: "32 word"
  hf_logical :: "32 word"
  hf_unit_exponent :: int
  hf_unit :: "32 word"
  hf_usages :: "(32 word \<times> int) option list"

record hiddev_report =
  hr_id :: nat
  hr_fields :: "hiddev_field option list"

record hiddev_node =
  hn_applications :: "int list"            \<comment> \<open>what \<open>HIDIOCAPPLICATION\<close> returns for 0, 1, ...\<close>
  hn_flag_uref :: bool                     \<comment> \<open>\<open>HIDIOCSFLAG\<close> is known\<close>
  hn_init :: bool
  hn_reports :: "nat \<Rightarrow> hiddev_report list"

record usbfs_device =
  uf_path :: string
  uf_opens :: bool
  uf_ids :: "(nat \<times> nat) option"          \<comment> \<open>the ids of a descriptor that was read whole\<close>
  uf_bound :: bool                         \<comment> \<open>\<open>USBDEVFS_GETDRIVER\<close> finds a driver\<close>

datatype hiddev_ioctl =
    HIDIOCGREPORT nat nat
  | HIDIOCGUSAGE usage_ref
  | HIDIOCSUSAGE usage_ref
  | HIDIOCSREPORT nat nat
  | HIDIOCGSTRING int
  | USBDEVFS_CONNECT string

text \<open>An event of the descriptor, and what the reads behind it return. In the compatibility mode a
  read shows the code and the value of the usage only.\<close>

datatype hiddev_read = ReadFails int | ReadShort | ReadUsage usage_ref

datatype hiddev_event = SelectFails int | Readable "hiddev_read list"

record linux_usb =
  lx_dev :: "hiddev_node option"           \<comment> \<open>\<open>_fd\<close>\<close>
  lx_compat24 :: bool
  lx_orig_device :: string
  lx_info :: "nat \<Rightarrow> hiddev_info option"
  lx_linkcheck :: bool
  lx_nodes :: "nat \<Rightarrow> string \<Rightarrow> hiddev_node option"   \<comment> \<open>what the \<open>n\<close>-th \<open>open\<close> finds\<close>
  lx_opens :: nat
  lx_usbfs :: "nat \<Rightarrow> usbfs_device list"
  lx_answer :: "nat \<Rightarrow> int option"
  lx_string :: "nat \<Rightarrow> string option"
  lx_log :: "hiddev_ioctl list"
  lx_events :: "(int \<times> hiddev_event) list"
  lx_attempts :: nat                       \<comment> \<open>the attempts a lost link is followed for\<close>
  lx_strerror :: string

type_synonym lx_sys = "linux_usb usb_drv sys"

definition lx :: "lx_sys \<Rightarrow> linux_usb" where
  "lx s = ub_port (drv s)"

definition upd_lx :: "(linux_usb \<Rightarrow> linux_usb) \<Rightarrow> lx_sys \<Rightarrow> lx_sys" where
  "upd_lx f s = upd_drv (\<lambda>d. d\<lparr>ub_port := f (ub_port d)\<rparr>) s"

lemma lx_simps [simp]:
  "lx (upd_lx f s) = f (lx s)" "ups (upd_lx f s) = ups s" "lx (upd_ups g s) = lx s"
  "ub_bpcnt (drv (upd_lx f s)) = ub_bpcnt (drv s)" "ub_quirk (drv (upd_lx f s)) = ub_quirk (drv s)"
  "ub_now (drv (upd_lx f s)) = ub_now (drv s)" "halted (upd_lx f s) = halted s"
  "lx (usb_sleep t s) = lx s" "ups (usb_sleep t s) = ups s" "lx (write_lock s) = lx s"
  "lx (write_unlock s) = lx s" "ups (write_lock s) = ups s" "ups (write_unlock s) = ups s"
  by (simp_all add: lx_def upd_lx_def usb_sleep_def write_lock_def write_unlock_def upd_drv_def)

definition put_info :: "nat \<Rightarrow> hiddev_info \<Rightarrow> lx_sys \<Rightarrow> lx_sys" where
  "put_info ci info s = upd_lx (\<lambda>l. l\<lparr>lx_info := (lx_info l)(ci := Some info)\<rparr>) s"

text \<open>A call on a closed descriptor fails.\<close>

definition hiddev_call :: "hiddev_ioctl \<Rightarrow> lx_sys \<Rightarrow> int option \<times> lx_sys" where
  "hiddev_call c s =
     (if lx_dev (lx s) = None then (None, s)
      else (lx_answer (lx s) (length (lx_log (lx s))), upd_lx (\<lambda>l. l\<lparr>lx_log := lx_log l @ [c]\<rparr>) s))"

definition hiddev_string :: "int \<Rightarrow> lx_sys \<Rightarrow> string option \<times> lx_sys" where
  "hiddev_string idx s =
     (if lx_dev (lx s) = None then (None, s)
      else (lx_string (lx s) (length (lx_log (lx s))), upd_lx (\<lambda>l. l\<lparr>lx_log := lx_log l @ [HIDIOCGSTRING idx]\<rparr>) s))"

subsection \<open>Opening the device\<close>

text \<open>The masks are those of the code: they differ by four bits.\<close>

definition is_ups_application :: "int \<Rightarrow> bool" where
  "is_ups_application ret \<longleftrightarrow> word_of_int ret AND (0xffff000 :: 32 word) = UPS_USAGE AND 0xffff0000"

definition has_ups_application :: "hiddev_node \<Rightarrow> bool" where
  "has_ups_application n = list_ex is_ups_application (takeWhile (\<lambda>ret. 0 < ret) (hn_applications n))"

definition open_device :: "string \<Rightarrow> lx_sys \<Rightarrow> bool \<times> lx_sys" where
  "open_device dev s =
     (let found = lx_nodes (lx s) (lx_opens (lx s)) dev;
          s1 = upd_lx (\<lambda>l. l\<lparr>lx_opens := Suc (lx_opens l), lx_dev := None\<rparr>) s
      in case found of
           None \<Rightarrow> (False, s1)
         | Some n \<Rightarrow>
             if has_ups_application n
             then (True, upd_lx (\<lambda>l. l\<lparr>lx_dev := Some n, lx_compat24 := (lx_compat24 l \<or> \<not> hn_flag_uref n)\<rparr>) s1)
             else (False, s1))"

definition wants_driver :: "usbfs_device \<Rightarrow> bool" where
  "wants_driver d \<longleftrightarrow> uf_opens d \<and> (case uf_ids d of None \<Rightarrow> False | Some (vid, prid) \<Rightarrow> MatchVidPid vid prid) \<and>
     \<not> uf_bound d"

definition bind_upses :: "lx_sys \<Rightarrow> lx_sys" where
  "bind_upses s =
     fold (\<lambda>d. if wants_driver d then upd_lx (\<lambda>l. l\<lparr>lx_log := lx_log l @ [USBDEVFS_CONNECT (uf_path d)]\<rparr>) else id)
       (lx_usbfs (lx s) (lx_opens (lx s))) s"

fun try_device :: "nat \<Rightarrow> string \<Rightarrow> lx_sys \<Rightarrow> bool \<times> lx_sys" where
  "try_device 0 dev s = (False, s)"
| "try_device (Suc n) dev s =
     (let (ok, s1) = open_device dev s
      in if ok then (True, s1) else try_device n dev (usb_sleep 1000000 s1))"

definition hiddev_names :: "string list" where
  "hiddev_names = concat (map (\<lambda>h. map (\<lambda>k. h @ show_nat k) [0..<16])
     [''/dev/usb/hiddev'', ''/dev/usb/hid/hiddev'', ''/dev/hiddev''])"

fun try_names :: "string list \<Rightarrow> lx_sys \<Rightarrow> bool \<times> lx_sys" where
  "try_names [] s = (False, s)"
| "try_names (dev # devs) s =
     (let (ok, s1) = open_device dev s
      in if ok then (True, upd_ups (\<lambda>u. u\<lparr>device := strlcpy_to 256 dev\<rparr>) s1) else try_names devs s1)"

fun auto_detect :: "nat \<Rightarrow> lx_sys \<Rightarrow> bool \<times> lx_sys" where
  "auto_detect 0 s = (False, upd_ups (\<lambda>u. u\<lparr>device := []\<rparr>) s)"
| "auto_detect (Suc n) s =
     (let (ok, s1) = try_names hiddev_names s
      in if ok then (True, s1) else auto_detect n (usb_sleep 1000000 s1))"

definition open_usb_device :: "lx_sys \<Rightarrow> bool \<times> lx_sys" where
  "open_usb_device s =
     (let s1 = upd_ups (\<lambda>u. u\<lparr>fd := 1\<rparr>) (bind_upses s); dev = device (ups s1)
      in if dev = [] then auto_detect 10 s1
         else if CHR ''['' \<in> set dev \<and> CHR '']'' \<in> set dev
              then auto_detect 10 (upd_lx (\<lambda>l. l\<lparr>lx_orig_device := []\<rparr>) s1)
         else let (ok, s2) = try_device 10 dev s1
              in if ok then (True, s2)
                 else if lx_orig_device (lx s2) \<noteq> [] then (False, s2)
                 else auto_detect 10 s2)"

subsection \<open>Capabilities\<close>

text \<open>The usages of a device in the order of the walk: feature reports first.\<close>

definition field_usages :: "nat \<Rightarrow> nat \<Rightarrow> nat \<Rightarrow> hiddev_field \<Rightarrow> (usage_ref \<times> hiddev_field) list" where
  "field_usages ty rid i f =
     List.map_filter (\<lambda>(j, u). map_option (\<lambda>(code, v).
         (\<lparr>ur_type = ty, ur_report = rid, ur_field = i, ur_usage = j, ur_code = code, ur_value = v\<rparr>, f)) u)
       (enumerate 0 (hf_usages f))"

definition report_usages :: "nat \<Rightarrow> hiddev_report \<Rightarrow> (usage_ref \<times> hiddev_field) list" where
  "report_usages ty r =
     concat (map (\<lambda>(i, fo). case fo of None \<Rightarrow> [] | Some f \<Rightarrow> field_usages ty (hr_id r) i f)
       (enumerate 0 (hr_fields r)))"

definition all_usages :: "hiddev_node \<Rightarrow> (usage_ref \<times> hiddev_field) list" where
  "all_usages n =
     concat (map (\<lambda>ty. concat (map (report_usages ty) (hn_reports n ty)))
       [HID_REPORT_TYPE_FEATURE, HID_REPORT_TYPE_INPUT])"

definition known_usage :: "usage_ref \<Rightarrow> hiddev_field \<Rightarrow> known_info \<Rightarrow> bool" where
  "known_usage u f = (\<lambda>(ci, usage, phys, logi, ty, vol).
     ci \<noteq> None \<and> ur_code u = usage \<and> (phys = P_ANY \<or> phys = hf_physical f) \<and>
     (logi = P_ANY \<or> logi = hf_logical f))"

definition usage_info :: "nat \<Rightarrow> usb_data_type \<Rightarrow> usage_ref \<Rightarrow> hiddev_field \<Rightarrow> hiddev_info" where
  "usage_info ci ty u f = \<lparr>hi_physical = hf_physical f, hi_unit_exponent = hf_unit_exponent f,
     hi_unit = hf_unit f, hi_data_type = ty, hi_ci = ci, hi_uref = u, hi_wuref = zero_ref\<rparr>"

text \<open>The write reference is the first of a feature report with a number that is not 0.\<close>

definition with_wuref :: "usage_ref \<Rightarrow> hiddev_info \<Rightarrow> hiddev_info" where
  "with_wuref u info =
     (if ur_type u = HID_REPORT_TYPE_FEATURE \<and> ur_report (hi_wuref info) = 0 then info\<lparr>hi_wuref := u\<rparr> else info)"

definition probe_usage :: "usage_ref \<times> hiddev_field \<Rightarrow> lx_sys \<Rightarrow> lx_sys" where
  "probe_usage = (\<lambda>(u, f) s.
     case List.find (known_usage u f) KNOWN_INFO of
       Some (Some ci, _, _, _, ty, _) \<Rightarrow>
         (case lx_info (lx s) ci of
            Some info \<Rightarrow> put_info ci (with_wuref u info) s
          | None \<Rightarrow> put_info ci (with_wuref u (usage_info ci ty u f)) (set_cap ci True s))
     | _ \<Rightarrow> s)"

definition lx_capabilities :: "lx_sys \<Rightarrow> bool \<times> lx_sys" where
  "lx_capabilities s =
     (case lx_dev (lx s) of
        Some n \<Rightarrow>
          if hn_init n
          then (True, write_unlock (set_cap CI_STATUS True (fold probe_usage (all_usages n) (write_lock s))))
          else (False, error_abort (''Cannot init USB HID report. ERR='' @ lx_strerror (lx s) @ [NL]) s)
      | None \<Rightarrow> (False, error_abort (''Cannot init USB HID report. ERR='' @ lx_strerror (lx s) @ [NL]) s))"

subsection \<open>Values\<close>

text \<open>\<open>switch (info->unit)\<close>: the name of the unit, the type of the value, and the exponent without its bias.\<close>

definition unit_switch :: "32 word \<Rightarrow> int \<Rightarrow> string \<times> usb_value_type \<times> int" where
  "unit_switch w exponent =
     (if w = 0x00F0D121 then (''Volts'', V_DOUBLE, exponent - 7)
      else if w = 0x00100001 then (''Amps'', V_DOUBLE, exponent + 2)
      else if w = 0xF001 then (''Hertz'', V_DOUBLE, exponent)
      else if w = 0x1001 then (''Seconds'', V_DOUBLE, exponent)
      else if w = 0xD121 then (''Watts'', V_DOUBLE, exponent - 7)
      else if w = 0x010001 then (''Degrees K'', V_DOUBLE, exponent)
      else if w = 0x0101001 then (''AmpSecs'', V_DOUBLE, exponent)
      else ([], V_INTEGER, exponent))"

definition hiddev_value :: "hiddev_info \<Rightarrow> usb_value" where
  "hiddev_value info =
     (let e0 = hi_unit_exponent info; exponent = (if e0 > 7 then e0 - 16 else e0); raw = ur_value (hi_uref info)
      in if hi_data_type info = T_UNITS
         then let (name, ty, e) = unit_switch (hi_unit info) exponent;
                  d = (if e = 0 then of_int raw else of_int raw * pow_ten e)
              in new_usb_value\<lparr>uv_type := ty, uv_unit := name, uv_dbl := d, uv_int := trunc d\<rparr>
         else new_usb_value\<lparr>uv_type := V_INTEGER, uv_unit := [], uv_int := raw,
                uv_dbl := (if exponent = 0 then of_int raw else of_int raw * pow_ten exponent)\<rparr>)"

definition hiddev_populate :: "hiddev_info \<Rightarrow> lx_sys \<Rightarrow> usb_value option \<times> lx_sys" where
  "hiddev_populate info s =
     (if hi_data_type info = T_INDEX
      then if ur_value (hi_uref info) = 0 then (None, s)
           else case hiddev_string (ur_value (hi_uref info)) s of
                  (None, s1) \<Rightarrow> (None, s1)
                | (Some str, s1) \<Rightarrow> (Some (new_usb_value\<lparr>uv_type := V_STRING, uv_str := strlcpy_to 256 str\<rparr>), s1)
      else (Some (hiddev_value info), s))"

definition tracked :: "hiddev_info \<Rightarrow> int \<Rightarrow> hiddev_info" where
  "tracked info v = info\<lparr>hi_uref := (hi_uref info)\<lparr>ur_value := v\<rparr>\<rparr>"

definition fetch_report :: "usage_ref \<Rightarrow> lx_sys \<Rightarrow> int option \<times> lx_sys" where
  "fetch_report u s = hiddev_call (HIDIOCGREPORT (ur_type u) (ur_report u)) s"

definition lx_get_value :: "nat \<Rightarrow> lx_sys \<Rightarrow> usb_value option \<times> lx_sys" where
  "lx_get_value ci s =
     (case if UPS_Cap (ups s) ci then lx_info (lx s) ci else None of
        None \<Rightarrow> (None, s)
      | Some info \<Rightarrow>
          (case fetch_report (hi_uref info) s of
             (None, s1) \<Rightarrow> (None, s1)
           | (Some _, s1) \<Rightarrow>
               (case hiddev_call (HIDIOCGUSAGE (hi_uref info)) s1 of
                  (None, s2) \<Rightarrow> (None, s2)
                | (Some v, s2) \<Rightarrow> hiddev_populate (tracked info v) (put_info ci (tracked info v) s2))))"

definition lx_read_int :: "nat \<Rightarrow> lx_sys \<Rightarrow> int option \<times> lx_sys" where
  "lx_read_int ci s = (let (r, s1) = lx_get_value ci s in (map_option uv_int r, s1))"

text \<open>
  A write: the report is fetched, the old value read into the write reference, the new value put
  there and sent, and the report read back, which flushes the write.
\<close>

definition write_wuref :: "nat \<Rightarrow> hiddev_info \<Rightarrow> int \<Rightarrow> lx_sys \<Rightarrow> bool \<times> lx_sys" where
  "write_wuref ci info val s =
     (let w = (hi_wuref info)\<lparr>ur_value := val\<rparr>;
          (set, s1) = hiddev_call (HIDIOCSUSAGE w) (put_info ci (info\<lparr>hi_wuref := w\<rparr>) s)
      in if set = None then (False, s1)
         else let (sent, s2) = hiddev_call (HIDIOCSREPORT (ur_type w) (ur_report w)) s1
              in (sent \<noteq> None, s2))"

definition read_back :: "nat \<Rightarrow> hiddev_info \<Rightarrow> lx_sys \<Rightarrow> bool \<times> lx_sys" where
  "read_back ci info s =
     (case fetch_report (hi_uref info) s of
        (None, s1) \<Rightarrow> (False, s1)
      | (Some _, s1) \<Rightarrow>
          (case hiddev_call (HIDIOCGUSAGE (hi_uref info)) s1 of
             (None, s2) \<Rightarrow> (False, s2)
           | (Some v, s2) \<Rightarrow> (True, put_info ci (tracked info v) s2)))"

definition lx_write_int :: "nat \<Rightarrow> int \<Rightarrow> lx_sys \<Rightarrow> bool \<times> lx_sys" where
  "lx_write_int ci val s =
     (case if UPS_Cap (ups s) ci then lx_info (lx s) ci else None of
        None \<Rightarrow> (False, s)
      | Some info \<Rightarrow>
          if ur_report (hi_wuref info) = 0 then (False, s)
          else case fetch_report (hi_uref info) s of
                 (None, s1) \<Rightarrow> (False, s1)
               | (Some _, s1) \<Rightarrow>
                   (case hiddev_call (HIDIOCGUSAGE (hi_wuref info)) s1 of
                      (None, s2) \<Rightarrow> (False, s2)
                    | (Some old, s2) \<Rightarrow>
                        let (ok, s3) = write_wuref ci info val s2
                        in if ok then read_back ci (info\<lparr>hi_wuref := (hi_wuref info)\<lparr>ur_value := val\<rparr>\<rparr>) s3
                           else (False, s3)))"

definition hiddev_platform :: "linux_usb usb_platform" where
  "hiddev_platform = \<lparr>pf_capabilities = lx_capabilities, pf_get_value = lx_get_value,
     pf_read_int = lx_read_int, pf_write_int = lx_write_int\<rparr>"

subsection \<open>The link\<close>

definition lx_reinitialize :: "lx_sys \<Rightarrow> lx_sys" where
  "lx_reinitialize s =
     upd_lx (\<lambda>l. l\<lparr>lx_info := (\<lambda>k. if k \<le> CI_MAXCI then None else lx_info l k)\<rparr>)
       (upd_ups (\<lambda>u. u\<lparr>UPS_Cap := (\<lambda>k. if k \<le> CI_MAXCI then False else UPS_Cap u k)\<rparr>) s)"

definition lx_hang_up :: "lx_sys \<Rightarrow> lx_sys" where
  "lx_hang_up s = (if lx_dev (lx s) \<noteq> None then lx_reinitialize (upd_lx (\<lambda>l. l\<lparr>lx_dev := None\<rparr>) s) else s)"

definition lx_attempt :: "lx_sys \<Rightarrow> bool \<times> lx_sys" where
  "lx_attempt s =
     (let (opened, s3) = open_usb_device (lx_hang_up (usb_sleep (LINK_RETRY_INTERVAL * 1000000) s))
      in if \<not> opened then (False, s3)
         else let (cap, s4) = usb_get_capabilities hiddev_platform s3
              in if \<not> cap then (False, s4) else usb_read_static_data hiddev_platform s4)"

text \<open>
  The loop ends when an attempt succeeds, or with the process: a device that is there again but
  cannot be initialised aborts it. A run follows it for \<open>lx_attempts\<close> attempts.
\<close>

fun lx_link_loop :: "nat \<Rightarrow> int \<Rightarrow> bool \<Rightarrow> lx_sys \<Rightarrow> lx_sys" where
  "lx_link_loop 0 tlog once s = s\<lparr>halted := True\<rparr>"
| "lx_link_loop (Suc n) tlog once s =
     (let s1 = (if tlog \<le> 0
                then let a = log_cmd CMDCOMMFAILURE s in if once then run_command CMDCOMMFAILURE a else a
                else s);
          (ok, s2) = lx_attempt s1
      in if ok \<or> halted s2 then upd_lx (\<lambda>l. l\<lparr>lx_attempts := n\<rparr>) s2
         else lx_link_loop n ((if tlog \<le> 0 then 10 * 60 else tlog) - LINK_RETRY_INTERVAL) (once \<and> tlog > 0) s2)"

definition lx_link_check :: "lx_sys \<Rightarrow> bool \<times> lx_sys" where
  "lx_link_check s =
     (if lx_linkcheck (lx s) then (False, s)
      else let s1 = upd_ups set_commlost (upd_lx (\<lambda>l. l\<lparr>lx_linkcheck := True\<rparr>) s);
               s2 = lx_link_loop (lx_attempts (lx s1)) (LINK_RETRY_INTERVAL * 2) True s1
           in (True,
               if halted s2 then s2
               else upd_lx (\<lambda>l. l\<lparr>lx_linkcheck := False\<rparr>) (upd_ups clear_commlost (plain_event CMDCOMMOK s2))))"

subsection \<open>Events\<close>

definition find_info :: "(hiddev_info \<Rightarrow> bool) \<Rightarrow> lx_sys \<Rightarrow> (nat \<times> hiddev_info) option" where
  "find_info p s =
     (case List.find (\<lambda>i. UPS_Cap (ups s) i \<and> (case lx_info (lx s) i of None \<Rightarrow> False | Some info \<Rightarrow> p info)) [0..<CI_MAXCI] of
        None \<Rightarrow> None
      | Some i \<Rightarrow> map_option (Pair i) (lx_info (lx s) i))"

definition find_info_by_uref :: "usage_ref \<Rightarrow> lx_sys \<Rightarrow> (nat \<times> hiddev_info) option" where
  "find_info_by_uref u =
     find_info (\<lambda>info. ur_report (hi_uref info) = ur_report u \<and> ur_field (hi_uref info) = ur_field u \<and>
       ur_usage (hi_uref info) = ur_usage u \<and> ur_code (hi_uref info) = ur_code u)"

definition find_info_by_ucode :: "32 word \<Rightarrow> lx_sys \<Rightarrow> (nat \<times> hiddev_info) option" where
  "find_info_by_ucode code = find_info (\<lambda>info. ur_code (hi_uref info) = code)"

definition find_event_info :: "usage_ref \<Rightarrow> lx_sys \<Rightarrow> (nat \<times> hiddev_info) option" where
  "find_event_info u s =
     (if lx_compat24 (lx s) then find_info_by_ucode (ur_code u) s else find_info_by_uref u s)"

text \<open>One event that is recognised: whether it ends the wait, and the value that was reported, which is
  that of the event before when \<open>populate_uval\<close> has failed.\<close>

definition changed_value :: "nat \<Rightarrow> hiddev_info \<Rightarrow> int \<Rightarrow> usb_value \<Rightarrow> lx_sys \<Rightarrow> bool \<times> usb_value \<times> lx_sys" where
  "changed_value i info v uval s =
     (let s1 = write_lock s
      in if ur_value (hi_uref info) = v then (False, uval, write_unlock s1)
         else let (r, s2) = hiddev_populate (tracked info v) (put_info i (tracked info v) s1);
                  uval1 = (case r of None \<Rightarrow> uval | Some x \<Rightarrow> x);
                  (important, s3) = usb_report_event (hi_ci info) uval1 s2
              in (important, uval1, write_unlock s3))"

definition interrupted_read :: "hiddev_read \<Rightarrow> bool" where
  "interrupted_read r = (case r of ReadFails e \<Rightarrow> e = EAGAIN \<or> e = EINTR | _ \<Rightarrow> False)"

text \<open>\<open>select\<close> takes the time it has waited off \<open>tv\<close>; a read that nothing follows does not return.\<close>

fun lx_check_loop :: "int \<Rightarrow> usb_value \<Rightarrow> (int \<times> hiddev_event) list \<Rightarrow> lx_sys \<Rightarrow> bool \<times> lx_sys" where
  "lx_check_loop tv uval [] s = (False, upd_lx (\<lambda>l. l\<lparr>lx_events := []\<rparr>) (usb_sleep tv s))"
| "lx_check_loop tv uval ((t, e) # es) s =
     (let waited = max 0 (t - ub_now (drv s)); keep = (\<lambda>w. upd_lx (\<lambda>l. l\<lparr>lx_events := w\<rparr>))
      in if tv < waited then (False, keep ((t, e) # es) (usb_sleep tv s))
         else let s1 = usb_sleep waited s
              in case e of
                   SelectFails err \<Rightarrow>
                     if err = EINTR \<or> err = EAGAIN then lx_check_loop (tv - waited) uval es s1
                     else (False, snd (lx_link_check (keep es s1)))
                 | Readable reads \<Rightarrow>
                     (case dropWhile interrupted_read reads of
                        [] \<Rightarrow> (False, s1\<lparr>halted := True\<rparr>)
                      | ReadFails err # _ \<Rightarrow> (False, snd (lx_link_check (keep es s1)))
                      | ReadShort # _ \<Rightarrow> (False, keep es s1)
                      | ReadUsage u # _ \<Rightarrow>
                          (case find_event_info u s1 of
                             None \<Rightarrow> lx_check_loop (tv - waited) uval es s1
                           | Some (i, info) \<Rightarrow>
                               let (stop, uval1, s2) = changed_value i info (ur_value u) uval s1
                               in if stop then (True, keep es s2)
                                  else lx_check_loop (tv - waited) uval1 es s2)))"

text \<open>Without a descriptor, \<open>FD_SET(-1)\<close> ends the process.\<close>

definition lx_check_state :: "lx_sys \<Rightarrow> bool \<times> lx_sys" where
  "lx_check_state s =
     (if lx_dev (lx s) = None then (False, s\<lparr>halted := True\<rparr>)
      else lx_check_loop (wait_time (ups s) * 1000000) new_usb_value (lx_events (lx s)) s)"

subsection \<open>The driver\<close>

definition lx_open :: "lx_sys \<Rightarrow> bool \<times> lx_sys" where
  "lx_open s =
     (let s1 = write_lock s;
          s2 = (if lx_orig_device (lx s1) = []
                then upd_lx (\<lambda>l. l\<lparr>lx_orig_device := strlcpy_to 256 (device (ups s1))\<rparr>) s1 else s1);
          (rc, s3) = open_usb_device s2
      in (rc, write_unlock (upd_ups clear_slave s3)))"

definition lx_close :: "lx_sys \<Rightarrow> bool \<times> lx_sys" where
  "lx_close s = (True, s)"

definition new_linux_usb :: linux_usb where
  "new_linux_usb = \<lparr>lx_dev = None, lx_compat24 = False, lx_orig_device = [], lx_info = (\<lambda>_. None),
     lx_linkcheck = False, lx_nodes = (\<lambda>_ _. None), lx_opens = 0, lx_usbfs = (\<lambda>_. []),
     lx_answer = (\<lambda>_. None), lx_string = (\<lambda>_. None), lx_log = [], lx_events = [], lx_attempts = 0,
     lx_strerror = []\<rparr>"

definition linux_usb_driver :: "linux_usb usb_drv driver" where
  "linux_usb_driver = \<lparr>
     drv_open = lx_open, drv_close = lx_close,
     drv_read_static_data = usb_read_static_data hiddev_platform,
     drv_read_volatile_data = usb_read_volatile_data hiddev_platform,
     drv_get_capabilities = usb_get_capabilities hiddev_platform, drv_check_state = lx_check_state,
     drv_setup = default_setup, drv_kill_power = usb_kill_power hiddev_platform,
     drv_shutdown = usb_shutdown hiddev_platform, drv_entry_point = usb_entry_point hiddev_platform\<rparr>"

subsection \<open>The contracts\<close>

lemma quiet_upd_lx: "quiet s (upd_lx f s)"
  by (simp add: upd_lx_def quiet_upd_drv)

lemma then_upd_lx: "quiet s t \<Longrightarrow> quiet s (upd_lx f t)"
  by (rule quiet_trans [OF _ quiet_upd_lx])

text \<open>What reading leaves alone.\<close>

definition reads :: "lx_sys \<Rightarrow> lx_sys \<Rightarrow> bool" where
  "reads s t \<longleftrightarrow> quiet s t \<and> ups t = ups s \<and> ub_bpcnt (drv t) = ub_bpcnt (drv s) \<and>
     ub_quirk (drv t) = ub_quirk (drv s) \<and> lx_dev (lx t) = lx_dev (lx s)"

lemma reads_refl: "reads s s"
  by (simp add: reads_def quiet_refl)

lemma reads_trans: "reads s t \<Longrightarrow> reads t w \<Longrightarrow> reads s w"
  by (auto simp: reads_def intro: quiet_trans)

lemma reads_upd_lx: "(\<And>l. lx_dev (f l) = lx_dev l) \<Longrightarrow> reads s (upd_lx f s)"
  by (simp add: reads_def quiet_upd_lx)

lemma then_reads_upd_lx: "reads s t \<Longrightarrow> (\<And>l. lx_dev (f l) = lx_dev l) \<Longrightarrow> reads s (upd_lx f t)"
  by (rule reads_trans [OF _ reads_upd_lx])

lemma calls_read:
  "reads s (snd (hiddev_call c s))" "reads s (snd (hiddev_string idx s))" "reads s (put_info ci info s)"
  by (simp_all add: hiddev_call_def hiddev_string_def put_info_def reads_refl reads_upd_lx)

lemma populate_reads: "reads s (snd (hiddev_populate info s))"
proof -
  obtain r t where "hiddev_string (ur_value (hi_uref info)) s = (r, t)" by force
  then show ?thesis
    using calls_read(2) [of s "ur_value (hi_uref info)"]
    by (simp add: hiddev_populate_def reads_refl split: option.split)
qed

lemma lx_get_value_reads: "reads s (snd (lx_get_value ci s))"
proof (cases "if UPS_Cap (ups s) ci then lx_info (lx s) ci else None")
  case (Some info)
  obtain r1 s1 where 1: "fetch_report (hi_uref info) s = (r1, s1)" by force
  obtain r2 s2 where 2: "hiddev_call (HIDIOCGUSAGE (hi_uref info)) s1 = (r2, s2)" by force
  have q1: "reads s s1" using calls_read(1) 1 unfolding fetch_report_def by (metis snd_conv)
  have q2: "reads s s2" using reads_trans [OF q1 calls_read(1)] 2 by (metis snd_conv)
  have "reads s (snd (hiddev_populate i (put_info ci i s2)))" for i
    by (rule reads_trans [OF reads_trans [OF q2 calls_read(3)] populate_reads])
  then show ?thesis using q1 q2 by (simp add: lx_get_value_def Some 1 2 split: option.split)
qed (simp add: lx_get_value_def reads_refl)

lemma lx_read_int_quiet: "quiet s (snd (lx_read_int ci s))"
  using lx_get_value_reads [of s ci] by (simp add: lx_read_int_def reads_def split_beta)

lemma write_steps_quiet:
  "quiet s (snd (write_wuref ci info val s))" "quiet s (snd (read_back ci info s))"
  by (auto simp: write_wuref_def read_back_def fetch_report_def hiddev_call_def put_info_def Let_def
      split: option.split intro!: then_upd_lx)

lemma lx_write_int_quiet: "quiet s (snd (lx_write_int ci val s))"
proof (cases "if UPS_Cap (ups s) ci then lx_info (lx s) ci else None")
  case (Some info)
  obtain r1 s1 where 1: "fetch_report (hi_uref info) s = (r1, s1)" by force
  obtain r2 s2 where 2: "hiddev_call (HIDIOCGUSAGE (hi_wuref info)) s1 = (r2, s2)" by force
  obtain ok s3 where 3: "write_wuref ci info val s2 = (ok, s3)" by force
  have q1: "reads s s1" using calls_read(1) 1 unfolding fetch_report_def by (metis snd_conv)
  have q2: "reads s s2" using reads_trans [OF q1 calls_read(1)] 2 by (metis snd_conv)
  have q3: "quiet s s3" using q2 quiet_trans [OF _ write_steps_quiet(1)] 3 unfolding reads_def by (metis snd_conv)
  show ?thesis
    using q1 [unfolded reads_def] q2 [unfolded reads_def] q3 quiet_trans [OF q3 write_steps_quiet(2)]
    by (simp add: lx_write_int_def Some 1 2 3 split: option.split)
qed (simp add: lx_write_int_def)

lemma probe_usage_laws:
  "quiet s (probe_usage x s)" "lx_dev (lx (probe_usage x s)) = lx_dev (lx s)"
  by (auto simp: probe_usage_def put_info_def set_cap_def split: prod.split option.split intro!: then_upd_lx
      set_cap_quiet [unfolded set_cap_def])

lemma lx_capabilities_quiet: "quiet s (snd (lx_capabilities s))"
  unfolding lx_capabilities_def
  by (auto split: option.split simp: quiet_exit
      intro!: quiet_locked quiet_trans [OF _ set_cap_quiet] quiet_fold probe_usage_laws)

interpretation hiddev: usb_platform hiddev_platform
  by unfold_locales
    (use lx_get_value_reads in \<open>simp_all add: hiddev_platform_def lx_capabilities_quiet lx_read_int_quiet
      lx_write_int_quiet reads_def\<close>)

text \<open>Opening.\<close>

lemma bind_upses_frame: "quiet s (bind_upses s)" "ups (bind_upses s) = ups s"
  "lx_nodes (lx (bind_upses s)) = lx_nodes (lx s)" "lx_opens (lx (bind_upses s)) = lx_opens (lx s)"
  "lx_orig_device (lx (bind_upses s)) = lx_orig_device (lx s)"
proof -
  let ?f = "\<lambda>d. if wants_driver d then upd_lx (\<lambda>l. l\<lparr>lx_log := lx_log l @ [USBDEVFS_CONNECT (uf_path d)]\<rparr>) else id"
  have "quiet s (fold ?f ds s) \<and> ups (fold ?f ds s) = ups s \<and> lx_nodes (lx (fold ?f ds s)) = lx_nodes (lx s) \<and>
    lx_opens (lx (fold ?f ds s)) = lx_opens (lx s) \<and> lx_orig_device (lx (fold ?f ds s)) = lx_orig_device (lx s)" for ds
    by (induction ds rule: rev_induct) (auto simp: quiet_refl then_upd_lx)
  then show "quiet s (bind_upses s)" "ups (bind_upses s) = ups s" "lx_nodes (lx (bind_upses s)) = lx_nodes (lx s)"
    "lx_opens (lx (bind_upses s)) = lx_opens (lx s)" "lx_orig_device (lx (bind_upses s)) = lx_orig_device (lx s)"
    by (simp_all add: bind_upses_def)
qed

lemma open_device_quiet: "quiet s (snd (open_device dev s))"
  by (auto simp: open_device_def Let_def split: option.split intro!: then_upd_lx)

lemma try_device_quiet: "quiet s (snd (try_device n dev s))"
proof (induction n arbitrary: s)
  case (Suc n)
  show ?case
    using open_device_quiet [of s dev] quiet_trans [OF quiet_trans [OF open_device_quiet quiet_sleep] Suc]
    by (auto simp: Let_def split_beta)
qed (simp add: quiet_refl)

lemma quiet_device: "quiet s t \<Longrightarrow> quiet s (upd_ups (\<lambda>u. u\<lparr>device := d\<rparr>) t)"
  by (rule then_quiet(6)) (simp_all add: shutdown_bit)

lemma try_names_quiet: "quiet s (snd (try_names devs s))"
proof (induction devs arbitrary: s)
  case (Cons dev devs)
  show ?case
    using open_device_quiet [of s dev] quiet_trans [OF open_device_quiet Cons]
    by (auto simp: Let_def split_beta quiet_device)
qed (simp add: quiet_refl)

lemma auto_detect_quiet: "quiet s (snd (auto_detect n s))"
proof (induction n arbitrary: s)
  case (Suc n)
  show ?case
    using try_names_quiet [of s hiddev_names] quiet_trans [OF quiet_trans [OF try_names_quiet quiet_sleep] Suc]
    by (auto simp: Let_def split_beta)
qed (simp add: quiet_device quiet_refl)

lemma open_usb_device_quiet: "quiet s (snd (open_usb_device s))"
proof -
  define s1 where "s1 = upd_ups (\<lambda>u. u\<lparr>fd := 1\<rparr>) (bind_upses s)"
  have 1: "quiet s s1" unfolding s1_def by (rule then_quiet(6) [OF bind_upses_frame(1)]) simp
  obtain ok s2 where 2: "try_device 10 (device (ups s1)) s1 = (ok, s2)" by force
  have q2: "quiet s s2" using quiet_trans [OF 1 try_device_quiet] 2 by (metis snd_conv)
  show ?thesis
    using q2 quiet_trans [OF 1 auto_detect_quiet] quiet_trans [OF q2 auto_detect_quiet]
      quiet_trans [OF then_upd_lx [OF 1] auto_detect_quiet]
    by (simp add: open_usb_device_def s1_def [symmetric] 2 Let_def)
qed

lemma lx_reinitialize_quiet: "quiet s (lx_reinitialize s)"
  unfolding lx_reinitialize_def by (rule then_upd_lx) (rule quiet_upd_ups, simp)

lemma lx_attempt_quiet: "quiet s (snd (lx_attempt s))"
proof -
  define s2 where "s2 = lx_hang_up (usb_sleep (LINK_RETRY_INTERVAL * 1000000) s)"
  have q2: "quiet s s2"
    unfolding s2_def lx_hang_up_def by (auto intro!: quiet_trans [OF _ lx_reinitialize_quiet] then_upd_lx quiet_sleep)
  obtain opened s3 where 3: "open_usb_device s2 = (opened, s3)" by force
  have q3: "quiet s s3" using quiet_trans [OF q2 open_usb_device_quiet] 3 by (metis snd_conv)
  obtain cap s4 where 4: "usb_get_capabilities hiddev_platform s3 = (cap, s4)" by force
  have q4: "quiet s s4" using quiet_trans [OF q3 hiddev.get_capabilities_quiet] 4 by (metis snd_conv)
  show ?thesis
    using q3 q4 quiet_trans [OF q4 hiddev.read_static_quiet]
    by (simp add: lx_attempt_def s2_def [symmetric, simplified] 3 4)
qed

lemma lx_link_loop_quiet: "quiet s (lx_link_loop n tlog once s)"
proof (induction n tlog once s rule: lx_link_loop.induct)
  case (1 tlog once s)
  then show ?case by (simp add: quiet_def)
next
  case (2 n tlog once s)
  define s1 where "s1 = (if tlog \<le> 0
    then let a = log_cmd CMDCOMMFAILURE s in if once then run_command CMDCOMMFAILURE a else a else s)"
  have q1: "quiet s s1"
    by (auto simp: s1_def Let_def intro!: quiet_log_cmd quiet_trans [OF _ quiet_run_command])
  obtain ok s2 where l: "lx_attempt s1 = (ok, s2)" by force
  have q2: "quiet s s2" using quiet_trans [OF q1 lx_attempt_quiet] l by (metis snd_conv)
  show ?case
    using 2 q2 quiet_trans [OF q2] then_upd_lx [OF q2]
    by (auto simp: l s1_def [symmetric] Let_def)
qed

lemma lx_link_check_quiet: "quiet s (snd (lx_link_check s))"
proof -
  define s1 where "s1 = upd_ups set_commlost (upd_lx (\<lambda>l. l\<lparr>lx_linkcheck := True\<rparr>) s)"
  define s2 where "s2 = lx_link_loop (lx_attempts (lx s1)) 10 True s1"
  have q1: "quiet s s1" unfolding s1_def by (intro then_quiet(6) then_upd_lx quiet_refl) simp
  have q2: "quiet s s2" unfolding s2_def by (rule quiet_trans [OF q1 lx_link_loop_quiet])
  have q3: "quiet s (upd_lx (\<lambda>l. l\<lparr>lx_linkcheck := False\<rparr>) (upd_ups clear_commlost (plain_event CMDCOMMOK s2)))"
    by (intro then_upd_lx then_quiet q2) simp_all
  show ?thesis using q2 q3
    by (simp add: lx_link_check_def s1_def [symmetric] s2_def [symmetric] Let_def)
qed

lemma changed_value_quiet: "quiet s (snd (snd (changed_value i info v uval s)))"
proof -
  define s1 where "s1 = put_info i (tracked info v) (write_lock s)"
  obtain r s2 where 2: "hiddev_populate (tracked info v) s1 = (r, s2)" by force
  obtain imp s3 where 3: "usb_report_event (hi_ci info) (case r of None \<Rightarrow> uval | Some x \<Rightarrow> x) s2 = (imp, s3)" by force
  have "reads (write_lock s) s2"
    using reads_trans [OF calls_read(3) populate_reads] 2 unfolding s1_def by (metis snd_conv)
  then have "quiet (write_lock s) s3"
    using quiet_trans [OF _ report_event_quiet] 3 unfolding reads_def by (metis snd_conv)
  then show ?thesis
    by (simp add: changed_value_def Let_def s1_def [symmetric] 2 3 quiet_locked quiet_refl)
qed

lemma lx_check_loop_quiet: "quiet s (snd (lx_check_loop tv uval es s))"
proof (induction tv uval es s rule: lx_check_loop.induct)
  case (1 tv uval s)
  then show ?case by (auto intro!: then_upd_lx quiet_sleep)
next
  case (2 tv uval t e es s)
  define s1 where "s1 = usb_sleep (max 0 (t - ub_now (drv s))) s"
  have q1: "quiet s s1" unfolding s1_def by (rule quiet_sleep)
  have h: "quiet s (s1\<lparr>halted := True\<rparr>)" using q1 by (simp add: quiet_def)
  have c: "quiet s (snd (snd (changed_value i info v w s1)))" for i info v w
    by (rule quiet_trans [OF q1 changed_value_quiet])
  show ?case
  proof (cases "tv < max 0 (t - ub_now (drv s))")
    case True
    then show ?thesis by (auto simp: Let_def intro!: then_upd_lx quiet_sleep)
  next
    case False
    note IH = 2 [OF refl refl False s1_def]
    show ?thesis
    proof (cases e)
      case (SelectFails err)
      then show ?thesis
        using False IH(1) quiet_trans [OF q1] quiet_trans [OF then_upd_lx [OF q1] lx_link_check_quiet]
        by (simp add: Let_def s1_def [symmetric])
    next
      case (Readable results)
      show ?thesis
      proof (cases "dropWhile interrupted_read results")
        case Nil
        show ?thesis using False h by (simp add: Let_def s1_def [symmetric] Readable Nil del: dropWhile_eq_Nil_conv)
      next
        case (Cons r rs)
        show ?thesis
        proof (cases r)
          case (ReadUsage u)
          show ?thesis
          proof (cases "find_event_info u s1")
            case None
            then show ?thesis
              using False quiet_trans [OF q1] IH(2) [OF Readable Cons ReadUsage]
              by (simp add: Let_def s1_def [symmetric] Readable Cons ReadUsage)
          next
            case (Some x)
            obtain i info where x: "x = (i, info)" by force
            obtain stop uval1 s2 where ch: "changed_value i info (ur_value u) uval s1 = (stop, uval1, s2)"
              by (metis prod_cases3)
            have q2: "quiet s s2" using c [of i info "ur_value u" uval] by (simp add: ch)
            show ?thesis
              using False quiet_trans [OF q2] then_upd_lx [OF q2] IH(3) [OF Readable Cons ReadUsage Some x [symmetric] ch [symmetric] refl]
              by (auto simp: Let_def s1_def [symmetric] Readable Cons ReadUsage Some x ch)
          qed
        qed (use False q1 quiet_trans [OF then_upd_lx [OF q1] lx_link_check_quiet] then_upd_lx [OF q1] in
            \<open>simp_all add: Let_def s1_def [symmetric] Readable Cons\<close>)
      qed
    qed
  qed
qed

lemma lx_open_quiet: "quiet s (snd (lx_open s))"
proof -
  define s2 where "s2 = (if lx_orig_device (lx (write_lock s)) = []
    then upd_lx (\<lambda>l. l\<lparr>lx_orig_device := strlcpy_to 256 (device (ups (write_lock s)))\<rparr>) (write_lock s) else write_lock s)"
  have "quiet (write_lock s) s2" by (simp add: s2_def quiet_refl quiet_upd_lx)
  then have "quiet (write_lock s) (upd_ups clear_slave (snd (open_usb_device s2)))"
    by (intro then_quiet(6) quiet_trans [OF _ open_usb_device_quiet]) (simp_all add: shutdown_bit clear_bits)
  then show ?thesis
    by (simp add: lx_open_def Let_def split_beta s2_def [symmetric, simplified] quiet_locked)
qed

interpretation linux_usb: ups_driver linux_usb_driver
proof
  fix f :: "linux_usb usb_drv sys \<Rightarrow> bool \<times> linux_usb usb_drv sys" and s
  have c: "quiet s (snd (lx_check_state s))"
    by (simp add: lx_check_state_def lx_check_loop_quiet) (simp add: quiet_def)
  assume "f \<in> driver_ops linux_usb_driver"
  then show "quiet s (snd (f s))"
    by (auto simp: driver_ops_def linux_usb_driver_def default_setup_def lx_open_quiet lx_close_def
        quiet_refl hiddev.methods_quiet c)
qed

end
