(* ===== verification/LinuxUsbLaws.thy ===== *)
theory LinuxUsbLaws
  imports LinuxUsb
begin

text \<open>
  What the hiddev platform of the USB driver does: which usage of a device stands for a reading,
  what a write sends, which device is opened, and that a value means what it means on the libusb
  platform.
\<close>

unbundle bit_operations_syntax

subsection \<open>Capabilities\<close>

definition usage_row :: "usage_ref \<times> hiddev_field \<Rightarrow> known_info option" where
  "usage_row x = List.find (known_usage (fst x) (snd x)) KNOWN_INFO"

definition usage_ci :: "usage_ref \<times> hiddev_field \<Rightarrow> nat option" where
  "usage_ci x = Option.bind (usage_row x) fst"

definition usage_type :: "usage_ref \<times> hiddev_field \<Rightarrow> usb_data_type" where
  "usage_type x = (case usage_row x of Some (_, _, _, _, ty, _) \<Rightarrow> ty | None \<Rightarrow> T_NONE)"

text \<open>The entry of a reading if \<open>x\<close> is the usage for it: it is written where it is read.\<close>

definition usage_entry :: "nat \<Rightarrow> usage_ref \<times> hiddev_field \<Rightarrow> hiddev_info" where
  "usage_entry ci x =
     (usage_info ci (usage_type x) (fst x) (snd x))
       \<lparr>hi_wuref := (if ur_type (fst x) = HID_REPORT_TYPE_FEATURE then fst x else zero_ref)\<rparr>"

lemma find_row_ci: "List.find (known_usage u f) rows = Some row \<Longrightarrow> fst row \<noteq> None"
  by (induction rows) (auto simp: known_usage_def split: if_splits)

lemma find_snoc:
  "List.find p (xs @ [x]) = (case List.find p xs of None \<Rightarrow> if p x then Some x else None | Some y \<Rightarrow> Some y)"
  by (induction xs) simp_all

lemma probe_usage_cases:
  "lx_info (lx (probe_usage x s)) =
     (case usage_ci x of
        None \<Rightarrow> lx_info (lx s)
      | Some ci \<Rightarrow> (lx_info (lx s))(ci \<mapsto> with_wuref (fst x)
          (case lx_info (lx s) ci of None \<Rightarrow> usage_info ci (usage_type x) (fst x) (snd x) | Some info \<Rightarrow> info)))"
proof (cases "usage_row x")
  case None
  then show ?thesis by (simp add: probe_usage_def split_beta usage_row_def usage_ci_def)
next
  case (Some row)
  then have "fst row \<noteq> None" using find_row_ci by (auto simp: usage_row_def)
  then obtain ci where "fst row = Some ci" by auto
  then show ?thesis using Some
    by (cases row) (auto simp: probe_usage_def split_beta usage_row_def usage_ci_def usage_type_def put_info_def
        set_cap_def split: option.split)
qed

text \<open>Feature reports come before input reports in the walk.\<close>

definition features_first :: "(usage_ref \<times> hiddev_field) list \<Rightarrow> bool" where
  "features_first xs \<longleftrightarrow> sorted_wrt (\<lambda>x y. ur_type (fst y) = 3 \<longrightarrow> ur_type (fst x) = 3) xs"

lemma all_usages_type:
  "x \<in> set (report_usages ty r) \<Longrightarrow> ur_type (fst x) = ty \<and> ur_report (fst x) = hr_id r"
  by (auto simp: report_usages_def field_usages_def List.map_filter_def split: option.splits)

lemma features_first_same: "(\<And>x. x \<in> set xs \<Longrightarrow> ur_type (fst x) = ty) \<Longrightarrow> features_first xs"
  by (induction xs) (auto simp: features_first_def)

lemma all_usages_first: "features_first (all_usages n)"
proof -
  define part where "part ty = concat (map (report_usages ty) (hn_reports n ty))" for ty
  have t: "x \<in> set (part ty) \<Longrightarrow> ur_type (fst x) = ty" for x ty
    by (auto simp: part_def dest: all_usages_type)
  have "all_usages n = part 3 @ part 1" by (simp add: all_usages_def part_def)
  then show ?thesis
    using features_first_same [of "part 3" 3] features_first_same [of "part 1" 1] t
    by (auto simp: features_first_def sorted_wrt_append)
qed

lemma probe_all:
  assumes "features_first xs" and "\<And>x. x \<in> set xs \<Longrightarrow> ur_type (fst x) = 3 \<Longrightarrow> ur_report (fst x) \<noteq> 0"
    and "\<And>ci. lx_info (lx s) ci = None"
  shows "lx_info (lx (fold probe_usage xs s)) ci =
    map_option (usage_entry ci) (List.find (\<lambda>x. usage_ci x = Some ci) xs)"
  using assms(1,2)
proof (induction xs arbitrary: ci rule: rev_induct)
  case Nil
  then show ?case by (simp add: assms(3))
next
  case (snoc x xs)
  have IH: "lx_info (lx (fold probe_usage xs s)) ci = map_option (usage_entry ci) (List.find (\<lambda>x. usage_ci x = Some ci) xs)" for ci
    using snoc by (auto simp: features_first_def sorted_wrt_append)
  show ?case
  proof (cases "usage_ci x = Some ci")
    case True
    show ?thesis
    proof (cases "List.find (\<lambda>x. usage_ci x = Some ci) xs")
      case None
      then show ?thesis
        using True IH [of ci]
        by (simp add: probe_usage_cases find_snoc with_wuref_def usage_entry_def usage_info_def zero_ref_def)
    next
      case (Some y)
      then have y: "y \<in> set xs" by (auto simp: find_Some_iff)
      then have "ur_type (fst x) = 3 \<longrightarrow> ur_type (fst y) = 3 \<and> ur_report (fst y) \<noteq> 0"
        using snoc.prems by (auto simp: features_first_def sorted_wrt_append)
      then have "with_wuref (fst x) (usage_entry ci y) = usage_entry ci y"
        by (auto simp: with_wuref_def usage_entry_def)
      then show ?thesis using True Some IH [of ci] by (simp add: probe_usage_cases find_snoc)
    qed
  next
    case False
    then have "lx_info (lx (probe_usage x t)) ci = lx_info (lx t) ci" for t
      by (auto simp: probe_usage_cases split: option.split)
    then show ?thesis
      using False IH [of ci] by (auto simp: find_snoc split: option.split)
  qed
qed

lemma probe_usage_cap:
  "UPS_Cap (ups (probe_usage x s)) ci \<longleftrightarrow>
     UPS_Cap (ups s) ci \<or> (usage_ci x = Some ci \<and> lx_info (lx s) ci = None)"
proof (cases "usage_row x")
  case None
  then show ?thesis by (simp add: probe_usage_def split_beta usage_row_def usage_ci_def)
next
  case (Some row)
  then have "fst row \<noteq> None" using find_row_ci by (auto simp: usage_row_def)
  then obtain c where "fst row = Some c" by auto
  then show ?thesis using Some
    by (cases row) (auto simp: probe_usage_def split_beta usage_row_def usage_ci_def put_info_def
        set_cap_def split: option.split)
qed

lemma probe_all_cap:
  assumes "\<And>ci. lx_info (lx s) ci = None"
  shows "UPS_Cap (ups (fold probe_usage xs s)) ci \<longleftrightarrow> UPS_Cap (ups s) ci \<or> (\<exists>x\<in>set xs. usage_ci x = Some ci)"
proof -
  have "(UPS_Cap (ups (fold probe_usage xs s)) ci \<longleftrightarrow> UPS_Cap (ups s) ci \<or> (\<exists>x\<in>set xs. usage_ci x = Some ci)) \<and>
    (lx_info (lx (fold probe_usage xs s)) ci = None \<longleftrightarrow> (\<forall>x\<in>set xs. usage_ci x \<noteq> Some ci))"
    by (induction xs rule: rev_induct) (auto simp: assms probe_usage_cap probe_usage_cases split: option.split)
  then show ?thesis by simp
qed

subsection \<open>Which device is opened\<close>

definition finds_ups :: "lx_sys \<Rightarrow> nat \<Rightarrow> string \<Rightarrow> bool" where
  "finds_ups s k dev = (case lx_nodes (lx s) (lx_opens (lx s) + k) dev of None \<Rightarrow> False | Some n \<Rightarrow> has_ups_application n)"

lemma open_device_cases:
  "fst (open_device dev s) = finds_ups s 0 dev"
  "lx_dev (lx (snd (open_device dev s))) = (if finds_ups s 0 dev then lx_nodes (lx s) (lx_opens (lx s)) dev else None)"
  "lx_opens (lx (snd (open_device dev s))) = Suc (lx_opens (lx s))"
  "lx_nodes (lx (snd (open_device dev s))) = lx_nodes (lx s)"
  "lx_orig_device (lx (snd (open_device dev s))) = lx_orig_device (lx s)"
  "ups (snd (open_device dev s)) = ups s"
  by (auto simp: open_device_def finds_ups_def Let_def split: option.split)

lemma finds_ups_next:
  "lx_nodes (lx t) = lx_nodes (lx s) \<Longrightarrow> lx_opens (lx t) = Suc (lx_opens (lx s)) \<Longrightarrow> finds_ups t k dev = finds_ups s (Suc k) dev"
  by (simp add: finds_ups_def)

lemma try_device_cases:
  "fst (try_device n dev s) = (\<exists>k<n. finds_ups s k dev)"
  "fst (try_device n dev s) \<Longrightarrow> \<exists>k<n. lx_dev (lx (snd (try_device n dev s))) = lx_nodes (lx s) (lx_opens (lx s) + k) dev \<and> finds_ups s k dev"
  "ups (snd (try_device n dev s)) = ups s"
  "lx_orig_device (lx (snd (try_device n dev s))) = lx_orig_device (lx s)"
proof -
  have "(fst (try_device n dev s) = (\<exists>k<n. finds_ups s k dev)) \<and> ups (snd (try_device n dev s)) = ups s \<and>
    lx_orig_device (lx (snd (try_device n dev s))) = lx_orig_device (lx s) \<and>
    (fst (try_device n dev s) \<longrightarrow> (\<exists>k<n. lx_dev (lx (snd (try_device n dev s))) = lx_nodes (lx s) (lx_opens (lx s) + k) dev \<and> finds_ups s k dev))"
  proof (induction n arbitrary: s)
    case (Suc n)
    obtain ok s1 where o: "open_device dev s = (ok, s1)" by force
    note c = open_device_cases [of dev s, unfolded o, simplified]
    let ?t = "usb_sleep 1000000 s1"
    have f: "finds_ups ?t k dev = finds_ups s (Suc k) dev" for k by (rule finds_ups_next) (simp_all add: c)
    show ?case
    proof (cases ok)
      case True
      then show ?thesis using c by (auto simp: o intro!: exI [of _ 0])
    next
      case False
      note IH = Suc [of ?t, unfolded f]
      have "(\<exists>k<Suc n. finds_ups s k dev) = (\<exists>k<n. finds_ups s (Suc k) dev)"
        using False c by (auto simp: less_Suc_eq_0_disj)
      then show ?thesis using IH False c by (auto simp: o)
    qed
  qed simp
  then show "fst (try_device n dev s) = (\<exists>k<n. finds_ups s k dev)"
    "fst (try_device n dev s) \<Longrightarrow> \<exists>k<n. lx_dev (lx (snd (try_device n dev s))) = lx_nodes (lx s) (lx_opens (lx s) + k) dev \<and> finds_ups s k dev"
    "ups (snd (try_device n dev s)) = ups s"
    "lx_orig_device (lx (snd (try_device n dev s))) = lx_orig_device (lx s)" by blast+
qed

text \<open>Whatever is searched for, success leaves a descriptor.\<close>

lemma finds_some: "finds_ups s k dev \<Longrightarrow> lx_nodes (lx s) (lx_opens (lx s) + k) dev \<noteq> None"
  by (auto simp: finds_ups_def split: option.splits)

lemma try_names_dev: "fst (try_names devs s) \<Longrightarrow> lx_dev (lx (snd (try_names devs s))) \<noteq> None"
proof (induction devs arbitrary: s)
  case (Cons dev devs)
  then show ?case
    using finds_some [of s 0 dev] by (auto simp: Let_def split_beta open_device_cases)
qed simp

lemma auto_detect_dev: "fst (auto_detect n s) \<Longrightarrow> lx_dev (lx (snd (auto_detect n s))) \<noteq> None"
proof (induction n arbitrary: s)
  case (Suc n)
  then show ?case using try_names_dev [of hiddev_names s] by (auto simp: Let_def split_beta simp del: try_names.simps)
qed simp

lemma open_usb_device_dev: "fst (open_usb_device s) \<Longrightarrow> lx_dev (lx (snd (open_usb_device s))) \<noteq> None"
proof -
  define s1 where "s1 = upd_ups (\<lambda>u. u\<lparr>fd := 1\<rparr>) (bind_upses s)"
  assume a: "fst (open_usb_device s)"
  obtain ok s2 where 2: "try_device 10 (device (ups s1)) s1 = (ok, s2)" by force
  have "ok \<Longrightarrow> lx_dev (lx s2) \<noteq> None"
    using try_device_cases(2) [of 10 "device (ups s1)" s1] finds_some [of s1] by (auto simp: 2)
  then show ?thesis using a
    by (auto simp: open_usb_device_def s1_def [symmetric] 2 Let_def auto_detect_dev simp del: not_None_eq split: if_splits)
qed

subsection \<open>The descriptor\<close>

text \<open>What the port of a platform keeps over its own operations, it keeps over those of the base class.\<close>

context usb_platform
begin

lemma port_kept:
  assumes get: "\<And>ci s. K (ub_port (drv s)) \<Longrightarrow> K (ub_port (drv (snd (pf_get_value P ci s))))"
    and s: "K (ub_port (drv s))"
  shows port_get_value: "K (ub_port (drv (snd (usb_get_value P ci s))))"
    and port_update_value: "K (ub_port (drv (snd (usb_update_value P ci s))))"
    and port_read_static: "K (ub_port (drv (snd (usb_read_static_data P s))))"
proof -
  have g: "K (ub_port (drv t)) \<Longrightarrow> K (ub_port (drv (snd (usb_get_value P ci t))))" for ci t
    by (simp add: usb_get_value_def Let_def get usb_sleep_def)
  have p: "ub_port (drv (usb_process_value ci v t)) = ub_port (drv t)" for ci v t
    by (auto simp: usb_process_value_def battery_present_def Let_def split: option.split)
  have u: "K (ub_port (drv t)) \<Longrightarrow> K (ub_port (drv (snd (usb_update_value P ci t))))" for ci t
    using g [of t ci] by (auto simp: usb_update_value_def p split: prod.split option.split)
  have a: "K (ub_port (drv t)) \<Longrightarrow> K (ub_port (drv (update_all P todo t)))" for todo t
    unfolding update_all_def by (induction todo arbitrary: t) (auto simp: u)
  show "K (ub_port (drv (snd (usb_get_value P ci s))))" "K (ub_port (drv (snd (usb_update_value P ci s))))"
    using s by (rule g, rule u)
  show "K (ub_port (drv (snd (usb_read_static_data P s))))"
    using a [of "write_lock s"] s by (simp add: usb_read_static_data_def write_lock_def write_unlock_def)
qed

lemma port_capabilities:
  assumes get: "\<And>ci s. K (ub_port (drv s)) \<Longrightarrow> K (ub_port (drv (snd (pf_get_value P ci s))))"
    and cap: "fst (pf_capabilities P s) \<Longrightarrow> K (ub_port (drv (snd (pf_capabilities P s))))"
    and ok: "fst (usb_get_capabilities P s)"
  shows "K (ub_port (drv (snd (usb_get_capabilities P s))))"
proof -
  have n: "K (ub_port (drv t)) \<Longrightarrow> K (ub_port (drv (check_nompower P t)))" for t
    using port_get_value [where K = K, OF get, of t CI_NOMPOWER]
    by (auto simp: check_nompower_def set_cap_def split: prod.split option.split)
  have q: "K (ub_port (drv t)) \<Longrightarrow> K (ub_port (drv (check_quirk P t)))" for t
    using port_get_value [where K = K, OF get, of "upd_drv (\<lambda>d. d\<lparr>ub_quirk := False\<rparr>) t" CI_UPSMODEL]
    by (auto simp: check_quirk_def Let_def split: prod.split option.split)
  show ?thesis
    using cap ok by (auto simp: usb_get_capabilities_def Let_def split_beta set_cap_def intro!: n q split: if_splits)
qed

end

lemma get_value_dev: "lx_dev (ub_port (drv (snd (pf_get_value hiddev_platform ci s)))) = lx_dev (ub_port (drv s))"
  using lx_get_value_reads [of s ci] by (simp add: hiddev_platform_def reads_def lx_def)

lemma lx_capabilities_dev:
  "fst (lx_capabilities s) \<Longrightarrow> lx_dev (lx (snd (lx_capabilities s))) \<noteq> None"
proof -
  have "lx_dev (lx (fold probe_usage xs t)) = lx_dev (lx t)" for xs t
    by (induction xs arbitrary: t) (simp_all add: probe_usage_laws)
  then show "fst (lx_capabilities s) \<Longrightarrow> lx_dev (lx (snd (lx_capabilities s))) \<noteq> None"
    by (auto simp: lx_capabilities_def set_cap_def split: option.splits if_splits)
qed

lemma lx_attempt_dev: "fst (lx_attempt s) \<Longrightarrow> lx_dev (lx (snd (lx_attempt s))) \<noteq> None"
proof -
  define s2 where "s2 = lx_hang_up (usb_sleep (LINK_RETRY_INTERVAL * 1000000) s)"
  assume a: "fst (lx_attempt s)"
  obtain opened s3 where 3: "open_usb_device s2 = (opened, s3)" by force
  obtain cap s4 where 4: "usb_get_capabilities hiddev_platform s3 = (cap, s4)" by force
  have c: "opened" "cap" and e: "snd (lx_attempt s) = snd (usb_read_static_data hiddev_platform s4)"
    using a by (auto simp: lx_attempt_def s2_def [symmetric, simplified] 3 4 split: if_splits)
  have "lx_dev (ub_port (drv s4)) \<noteq> None"
    using hiddev.port_capabilities [where K = "\<lambda>p. lx_dev p \<noteq> None" and s = s3] lx_capabilities_dev [of s3] c(2)
    by (simp add: get_value_dev 4 hiddev_platform_def [THEN arg_cong [of _ _ pf_capabilities]] lx_def)
  then show ?thesis
    using hiddev.port_read_static [where K = "\<lambda>p. lx_dev p \<noteq> None" and s = s4]
    by (simp add: e get_value_dev lx_def)
qed

definition has_device :: "lx_sys \<Rightarrow> bool" where
  "has_device s \<longleftrightarrow> halted s \<or> lx_dev (lx s) \<noteq> None"

lemma alive_upd [simp]: "(\<And>l. lx_dev (f l) = lx_dev l) \<Longrightarrow> has_device (upd_lx f s) = has_device s" "has_device (usb_sleep t s) = has_device s"
  "has_device (write_lock s) = has_device s" "has_device (write_unlock s) = has_device s" "has_device (s\<lparr>halted := True\<rparr>)"
  by (simp_all add: has_device_def) (simp_all add: usb_sleep_def write_lock_def write_unlock_def)

lemma alive_link_loop: "has_device (lx_link_loop n tlog once s)"
proof (induction n tlog once s rule: lx_link_loop.induct)
  case (2 n tlog once s)
  define s1 where "s1 = (if tlog \<le> 0
    then let a = log_cmd CMDCOMMFAILURE s in if once then run_command CMDCOMMFAILURE a else a else s)"
  obtain ok s2 where l: "lx_attempt s1 = (ok, s2)" by force
  have "ok \<or> halted s2 \<Longrightarrow> has_device s2" using lx_attempt_dev [of s1] by (auto simp: l has_device_def)
  then show ?case using 2 by (auto simp: l s1_def [symmetric] Let_def)
qed simp

lemma event_port: "lx (plain_event ev s) = lx s"
  by (simp add: lx_def)

lemma alive_link_check: "has_device s \<Longrightarrow> has_device (snd (lx_link_check s))"
proof -
  define s1 where "s1 = upd_ups set_commlost (upd_lx (\<lambda>l. l\<lparr>lx_linkcheck := True\<rparr>) s)"
  have a: "has_device (lx_link_loop (lx_attempts (lx s1)) 10 True s1)" by (rule alive_link_loop)
  then show "has_device s \<Longrightarrow> has_device (snd (lx_link_check s))"
    by (auto simp: lx_link_check_def s1_def [symmetric] Let_def has_device_def event_port)
qed

lemma changed_value_dev: "lx_dev (lx (snd (snd (changed_value i info v uval s)))) = lx_dev (lx s)"
proof -
  define s1 where "s1 = put_info i (tracked info v) (write_lock s)"
  obtain r s2 where 2: "hiddev_populate (tracked info v) s1 = (r, s2)" by force
  have "reads s1 s2" using populate_reads 2 by (metis snd_conv)
  then have "lx_dev (lx s2) = lx_dev (lx s)" by (simp add: reads_def s1_def put_info_def)
  moreover have "lx (usb_process_value ci x t) = lx t" for ci x t
    by (auto simp: usb_process_value_def battery_present_def Let_def lx_def split: option.split)
  ultimately show ?thesis
    by (simp add: changed_value_def Let_def s1_def [symmetric] 2 usb_report_event_def)
qed

lemma alive_check_loop: "lx_dev (lx s) \<noteq> None \<Longrightarrow> has_device (snd (lx_check_loop tv uval es s))"
proof (induction tv uval es s rule: lx_check_loop.induct)
  case (1 tv uval s)
  then show ?case by (simp add: has_device_def)
next
  case (2 tv uval t e es s)
  define s1 where "s1 = usb_sleep (max 0 (t - ub_now (drv s))) s"
  have d: "lx_dev (lx s1) \<noteq> None" using 2(4) by (simp add: s1_def)
  then have a: "has_device s1" "has_device (snd (lx_link_check (upd_lx (\<lambda>l. l\<lparr>lx_events := es\<rparr>) s1)))"
    by (auto intro!: alive_link_check) (auto simp: has_device_def)
  show ?case
  proof (cases "tv < max 0 (t - ub_now (drv s))")
    case True
    then show ?thesis using 2(4) by (auto simp: Let_def has_device_def)
  next
    case False
    note IH = 2(1-3) [OF refl refl False s1_def]
    show ?thesis
    proof (cases e)
      case (SelectFails err)
      then show ?thesis using False IH(1) d a by (simp add: Let_def s1_def [symmetric])
    next
      case (Readable results)
      show ?thesis
      proof (cases "dropWhile interrupted_read results")
        case Nil
        show ?thesis using False by (simp add: Let_def s1_def [symmetric] Readable Nil del: dropWhile_eq_Nil_conv)
      next
        case (Cons r rs)
        show ?thesis
        proof (cases r)
          case (ReadUsage u)
          show ?thesis
          proof (cases "find_event_info u s1")
            case None
            then show ?thesis
              using False d IH(2) [OF Readable Cons ReadUsage]
              by (simp add: Let_def s1_def [symmetric] Readable Cons ReadUsage)
          next
            case (Some x)
            obtain i info where x: "x = (i, info)" by force
            obtain stop uval1 s2 where ch: "changed_value i info (ur_value u) uval s1 = (stop, uval1, s2)"
              by (metis prod_cases3)
            have d2: "lx_dev (lx s2) \<noteq> None" using changed_value_dev [of i info "ur_value u" uval s1] d by (simp add: ch)
            then have "has_device (upd_lx (\<lambda>l. l\<lparr>lx_events := es\<rparr>) s2)" by (simp add: has_device_def)
            then show ?thesis
              using False d2 IH(3) [OF Readable Cons ReadUsage Some x [symmetric] ch [symmetric] refl]
              by (auto simp: Let_def s1_def [symmetric] Readable Cons ReadUsage Some x ch)
          qed
        qed (use False a in \<open>simp_all add: Let_def s1_def [symmetric] Readable Cons\<close>)
      qed
    qed
  qed
qed

subsection \<open>Values\<close>

lemma unit_switch_units:
  "unit_switch w e = (case usb_unit w of None \<Rightarrow> ([], V_INTEGER, e) | Some (name, bias) \<Rightarrow> (name, V_DOUBLE, e + bias))"
  by (simp add: unit_switch_def usb_unit_def)

lemma hiddev_value_generic:
  assumes "hi_unit h = ui_unit g" and "hi_unit_exponent h = ui_unit_exponent g" and "hi_data_type h = ui_data_type g"
  shows "hiddev_value h =
    (if ui_data_type g = T_UNITS then units_value g (ur_value (hi_uref h)) else plain_value g (ur_value (hi_uref h)))"
  by (simp add: hiddev_value_def assms Let_def unit_switch_units units_value_def plain_value_def scaled_def
      signed_exponent_def split_beta split: option.split)

subsection \<open>Writing\<close>

lemma call_done:
  assumes "hiddev_call c s = (Some v, t)"
  shows "t = upd_lx (\<lambda>l. l\<lparr>lx_log := lx_log l @ [c]\<rparr>) s"
  using assms by (auto simp: hiddev_call_def split: if_splits)

definition write_calls :: "hiddev_info \<Rightarrow> int \<Rightarrow> hiddev_ioctl list" where
  "write_calls info val =
     (let r = hi_uref info; w = hi_wuref info; fetch = HIDIOCGREPORT (ur_type r) (ur_report r)
      in [fetch, HIDIOCGUSAGE w, HIDIOCSUSAGE (w\<lparr>ur_value := val\<rparr>), HIDIOCSREPORT (ur_type w) (ur_report w),
          fetch, HIDIOCGUSAGE r])"

lemma write_sends:
  assumes w: "lx_write_int ci val s = (True, t)" and i: "lx_info (lx s) ci = Some info"
  shows "lx_log (lx t) = lx_log (lx s) @ write_calls info val"
proof -
  have c: "UPS_Cap (ups s) ci" and n: "ur_report (hi_wuref info) \<noteq> 0"
    using w by (auto simp: lx_write_int_def i split: if_splits)
  obtain v1 s1 where 1: "fetch_report (hi_uref info) s = (Some v1, s1)"
    using w by (auto simp: lx_write_int_def i c n split: prod.splits option.splits)
  obtain v2 s2 where 2: "hiddev_call (HIDIOCGUSAGE (hi_wuref info)) s1 = (Some v2, s2)"
    using w by (auto simp: lx_write_int_def i c n 1 split: prod.splits option.splits)
  let ?w = "(hi_wuref info)\<lparr>ur_value := val\<rparr>"
  obtain s3 where 3: "write_wuref ci info val s2 = (True, s3)"
    and r: "read_back ci (info\<lparr>hi_wuref := ?w\<rparr>) s3 = (True, t)"
    using w by (auto simp: lx_write_int_def i c n 1 2 split: prod.splits if_splits)
  obtain v3 s4 v5 where 4: "hiddev_call (HIDIOCSUSAGE ?w) (put_info ci (info\<lparr>hi_wuref := ?w\<rparr>) s2) = (Some v3, s4)"
    and 5: "hiddev_call (HIDIOCSREPORT (ur_type ?w) (ur_report ?w)) s4 = (Some v5, s3)"
    using 3 by (auto simp: write_wuref_def Let_def split: prod.splits if_splits)
  obtain v6 s6 where 6: "fetch_report (hi_uref info) s3 = (Some v6, s6)"
    using r by (auto simp: read_back_def split: prod.splits option.splits)
  obtain v7 s7 where 7: "hiddev_call (HIDIOCGUSAGE (hi_uref info)) s6 = (Some v7, s7)"
    using r 6 by (auto simp: read_back_def split: prod.splits option.splits)
  have t: "lx_log (lx t) = lx_log (lx s7)" using r by (auto simp: read_back_def 6 7 put_info_def)
  show ?thesis
    using call_done [OF 1 [unfolded fetch_report_def]] call_done [OF 2] call_done [OF 4] call_done [OF 5]
      call_done [OF 6 [unfolded fetch_report_def]] call_done [OF 7]
    by (simp add: t put_info_def write_calls_def Let_def)
qed

subsection \<open>Properties\<close>

text \<open>C36: on a device whose feature reports are numbered, a reading is there exactly when the walk finds a
  usage that the table knows for it; it is read from the first of these usages, feature reports
  before input reports, and it can be written only if that is one of a feature report, and then it
  is written where it is read.\<close>

theorem hiddev_first_usage:
  assumes "lx_dev (lx s) = Some n" and "hn_init n" and "\<And>ci. lx_info (lx s) ci = None"
    and "\<And>r. r \<in> set (hn_reports n HID_REPORT_TYPE_FEATURE) \<Longrightarrow> hr_id r \<noteq> 0"
  shows "lx_info (lx (snd (lx_capabilities s))) ci =
      map_option (usage_entry ci) (List.find (\<lambda>x. usage_ci x = Some ci) (all_usages n)) \<and>
    (UPS_Cap (ups (snd (lx_capabilities s))) ci \<longleftrightarrow>
      UPS_Cap (ups s) ci \<or> ci = CI_STATUS \<or> (\<exists>x\<in>set (all_usages n). usage_ci x = Some ci))"
proof -
  have n: "ur_report (fst x) \<noteq> 0" if "x \<in> set (all_usages n)" "ur_type (fst x) = 3" for x
    using that assms(4) by (auto simp: all_usages_def dest: all_usages_type)
  show ?thesis
    using probe_all [OF all_usages_first, of n "write_lock s" ci] probe_all_cap [of "write_lock s" "all_usages n" ci]
    by (auto simp: lx_capabilities_def assms(1,2,3) set_cap_def n)
qed

text \<open>A write that succeeds fetches the report, sets the value of the write reference alone, sends its
  report and reads the reading back.\<close>

theorem hiddev_write_sends:
  assumes "lx_write_int ci val s = (True, t)" and "lx_info (lx s) ci = Some info"
  shows "lx_log (lx t) = lx_log (lx s) @
    [HIDIOCGREPORT (ur_type (hi_uref info)) (ur_report (hi_uref info)), HIDIOCGUSAGE (hi_wuref info),
     HIDIOCSUSAGE ((hi_wuref info)\<lparr>ur_value := val\<rparr>),
     HIDIOCSREPORT (ur_type (hi_wuref info)) (ur_report (hi_wuref info)),
     HIDIOCGREPORT (ur_type (hi_uref info)) (ur_report (hi_uref info)), HIDIOCGUSAGE (hi_uref info)]"
  using write_sends [OF assms] by (simp add: write_calls_def Let_def)

text \<open>C37: a device that the user has named is the only one that is opened: it is tried ten times, success
  is that one of the tries finds a UPS there, and a failure neither looks elsewhere nor forgets the name.\<close>

theorem hiddev_named_device:
  assumes "lx_orig_device (lx s) \<noteq> []" and "device (ups s) = dev" and "dev \<noteq> []"
    and "\<not> (CHR ''['' \<in> set dev \<and> CHR '']'' \<in> set dev)"
  shows "(fst (open_usb_device s) \<longleftrightarrow> (\<exists>k<10. finds_ups s k dev)) \<and>
    device (ups (snd (open_usb_device s))) = dev \<and>
    (fst (open_usb_device s) \<longrightarrow>
      (\<exists>k<10. lx_dev (lx (snd (open_usb_device s))) = lx_nodes (lx s) (lx_opens (lx s) + k) dev \<and> finds_ups s k dev))"
proof -
  define s1 where "s1 = upd_ups (\<lambda>u. u\<lparr>fd := 1\<rparr>) (bind_upses s)"
  have f: "finds_ups s1 k d = finds_ups s k d" for k d by (simp add: finds_ups_def s1_def bind_upses_frame)
  have s: "device (ups s1) = dev" "lx_orig_device (lx s1) \<noteq> []" "lx_nodes (lx s1) = lx_nodes (lx s)"
    "lx_opens (lx s1) = lx_opens (lx s)"
    using assms(1,2) by (simp_all add: s1_def bind_upses_frame)
  have o: "open_usb_device s = try_device 10 dev s1"
    using assms(3,4) s(2) try_device_cases(4) [of 10 dev s1]
    by (auto simp: open_usb_device_def s1_def [symmetric] s(1) Let_def split: prod.split)
  show ?thesis
    using try_device_cases [of 10 dev s1] unfolding o f by (simp add: s)
qed

text \<open>The wait for events never runs without a descriptor: one that has a device returns only with a
  device, the old one or the one the link came back with, if the process is there at all.\<close>

theorem hiddev_keeps_device:
  assumes "lx_dev (lx s) \<noteq> None"
  shows "halted (snd (lx_check_state s)) \<or> lx_dev (lx (snd (lx_check_state s))) \<noteq> None"
  using alive_check_loop [OF assms] assms by (simp add: lx_check_state_def has_device_def)

text \<open>C38: the two platforms mean the same by a value: for the same unit, exponent, type and raw value, and
  the same answer to a request for a string, the value the driver gets is the same.\<close>

theorem platforms_decode_alike:
  assumes "hi_unit h = ui_unit g" and "hi_unit_exponent h = ui_unit_exponent g" and "hi_data_type h = ui_data_type g"
    and "ur_value (hi_uref h) = sint (hid_get_data (tl data) (ui_item g))"
    and "fst (hiddev_string (ur_value (hi_uref h)) s) = fst (get_string (ur_value (hi_uref h)) t)"
  shows "fst (hiddev_populate h s) = fst (populate_uval ci g data t)"
proof -
  have i: "fst (get_string v (upd_gu f t)) = fst (get_string v t)" if "\<And>g. gu_log (f g) = gu_log g"
    "\<And>g. gu_string (f g) = gu_string g" for v f
    using that by (simp add: get_string_def)
  show ?thesis
  proof (cases "ui_data_type g = T_INDEX")
    case True
    then show ?thesis
      using assms(3-5) i [of "\<lambda>x. x\<lparr>gu_info := (gu_info x)(ci \<mapsto> g\<lparr>ui_value := hid_get_data (tl data) (ui_item g)\<rparr>)\<rparr>"]
      by (auto simp: hiddev_populate_def populate_uval_def Let_def split_beta split: option.split)
  next
    case False
    then show ?thesis
      using assms(3,4) hiddev_value_generic [OF assms(1-3)]
      by (cases "ui_data_type g") (simp_all add: hiddev_populate_def populate_uval_def Let_def)
  qed
qed

text \<open>The mask of \<open>open_device\<close> lacks four bits: a usage of the page of power devices from 0x1000 on is
  not recognised, and other pages are taken for that page.\<close>

lemma application_mask_wrong:
  "\<not> is_ups_application 0x00841000 \<and> is_ups_application 0x10840004"
  unfolding is_ups_application_def by simp

subsection \<open>Witnesses\<close>

definition demo_status_usage :: usage_ref where
  "demo_status_usage = \<lparr>ur_type = 3, ur_report = 7, ur_field = 0, ur_usage = 0, ur_code = 0xFF860060, ur_value = 8\<rparr>"

definition demo_node :: hiddev_node where
  "demo_node = \<lparr>hn_applications = [0x840004], hn_flag_uref = True, hn_init = True,
     hn_reports = (\<lambda>ty. if ty = 3 then
       [\<lparr>hr_id = 7, hr_fields = [Some \<lparr>hf_physical = 0, hf_logical = 0, hf_unit_exponent = 0, hf_unit = 0,
           hf_usages = [Some (0xFF860060, 8)]\<rparr>]\<rparr>]
       else [])\<rparr>"

definition demo_hiddev :: lx_sys where
  "demo_hiddev = upd_ups (\<lambda>u. u\<lparr>device := ''/dev/usb/hiddev3''\<rparr>)
     (start_sys (new_usb_drv 0 (new_linux_usb\<lparr>lx_dev := Some demo_node, lx_orig_device := ''/dev/usb/hiddev3'',
        lx_nodes := (\<lambda>n d. if n = 2 \<and> d = ''/dev/usb/hiddev3'' then Some demo_node else None)\<rparr>)))"

lemma demo_hiddev_simps:
  "lx demo_hiddev = new_linux_usb\<lparr>lx_dev := Some demo_node, lx_orig_device := ''/dev/usb/hiddev3'',
     lx_nodes := (\<lambda>n d. if n = 2 \<and> d = ''/dev/usb/hiddev3'' then Some demo_node else None)\<rparr>"
  "device (ups demo_hiddev) = ''/dev/usb/hiddev3''"
  by (simp_all add: demo_hiddev_def) (simp add: lx_def start_sys_def new_usb_drv_def)

theorem hiddev_first_usage_witness:
  "map_option hi_wuref (lx_info (lx (snd (lx_capabilities demo_hiddev))) CI_STATUS) = Some demo_status_usage"
proof -
  have u: "map_option (\<lambda>x. hi_wuref (usage_entry CI_STATUS x)) (List.find (\<lambda>x. usage_ci x = Some CI_STATUS) (all_usages demo_node))
      = Some demo_status_usage" by code_simp
  have "lx_info (lx (snd (lx_capabilities demo_hiddev))) CI_STATUS =
      map_option (usage_entry CI_STATUS) (List.find (\<lambda>x. usage_ci x = Some CI_STATUS) (all_usages demo_node))"
    by (rule hiddev_first_usage [THEN conjunct1])
      (auto simp: demo_hiddev_simps demo_node_def new_linux_usb_def)
  then show ?thesis using u by (simp add: option.map_comp comp_def)
qed

theorem hiddev_named_device_witness:
  "fst (open_usb_device demo_hiddev) \<and> device (ups (snd (open_usb_device demo_hiddev))) = ''/dev/usb/hiddev3''"
proof -
  have "has_ups_application demo_node" by code_simp
  then have "finds_ups demo_hiddev 2 ''/dev/usb/hiddev3''"
    by (simp add: finds_ups_def demo_hiddev_simps new_linux_usb_def)
  then show ?thesis
    using hiddev_named_device [of demo_hiddev "''/dev/usb/hiddev3''"]
    by (auto simp: demo_hiddev_simps new_linux_usb_def intro!: exI [of _ 2])
qed

theorem hiddev_keeps_device_witness:
  "lx_dev (lx demo_hiddev) \<noteq> None \<and>
   (halted (snd (lx_check_state demo_hiddev)) \<or> lx_dev (lx (snd (lx_check_state demo_hiddev))) \<noteq> None)"
  using hiddev_keeps_device [of demo_hiddev] by (simp add: demo_hiddev_simps)

text \<open>A voltage of 120 volts: 120 with the exponent 7 and the bias of volts.\<close>

definition demo_volts_hid :: usb_info where
  "demo_volts_hid = demo_status\<lparr>ui_unit := 0x00F0D121, ui_unit_exponent := 7, ui_data_type := T_UNITS\<rparr>"

definition demo_volts_hiddev :: hiddev_info where
  "demo_volts_hiddev = \<lparr>hi_physical = P_INPUT, hi_unit_exponent = 7, hi_unit = 0x00F0D121, hi_data_type = T_UNITS,
     hi_ci = CI_VLINE, hi_uref = demo_status_usage\<lparr>ur_value := 120\<rparr>, hi_wuref = zero_ref\<rparr>"

theorem platforms_decode_alike_witness:
  "fst (populate_uval CI_VLINE demo_volts_hid [7, 120] demo_usb) =
     Some \<lparr>uv_type = V_DOUBLE, uv_dbl = 120, uv_int = 120, uv_unit = ''Volts'', uv_str = ''Uninitialized''\<rparr>"
proof -
  have d: "sint (hid_get_data [120 :: byte] (ui_item demo_volts_hid)) = 120" by code_simp
  have v: "fst (hiddev_populate demo_volts_hiddev demo_hiddev) =
      Some \<lparr>uv_type = V_DOUBLE, uv_dbl = 120, uv_int = 120, uv_unit = ''Volts'', uv_str = ''Uninitialized''\<rparr>"
    by (simp add: hiddev_populate_def demo_volts_hiddev_def hiddev_value_def unit_switch_def new_usb_value_def trunc_def)
  have "fst (hiddev_populate demo_volts_hiddev demo_hiddev) = fst (populate_uval CI_VLINE demo_volts_hid [7, 120] demo_usb)"
    by (rule platforms_decode_alike)
      (simp_all add: d demo_volts_hid_def [symmetric],
       simp_all add: demo_volts_hiddev_def demo_volts_hid_def hiddev_string_def get_string_def demo_hiddev_simps
         demo_usb_simps new_linux_usb_def new_generic_usb_def d [unfolded demo_volts_hid_def])
  then show ?thesis using v by simp
qed

end
