(* ===== verification/Asn.thy ===== *)
theory Asn
  imports Prelude
begin

text \<open>
  The ASN.1 objects of the SNMP driver (\<open>src/drivers/snmplite/asn.cpp\<close>): their encoding into a
  buffer of limited size and their decoding. A buffer is the list of the bytes put into it,
  and what is left of its size is threaded through as the sources do; the length octets of an
  object are put without being counted.
\<close>

unbundle bit_operations_syntax

subsection \<open>Objects\<close>

type_synonym ident = "8 word"

definition ASN_INTEGER :: ident where "ASN_INTEGER = (0x02 :: ident)"
definition ASN_OCTETSTRING :: ident where "ASN_OCTETSTRING = (0x04 :: ident)"
definition ASN_NULL :: ident where "ASN_NULL = (0x05 :: ident)"
definition ASN_OBJECTID :: ident where "ASN_OBJECTID = (0x06 :: ident)"
definition ASN_SEQUENCE :: ident where "ASN_SEQUENCE = (0x30 :: ident)"
definition ASN_IPADDRESS :: ident where "ASN_IPADDRESS = (0x40 :: ident)"
definition ASN_COUNTER :: ident where "ASN_COUNTER = (0x41 :: ident)"
definition ASN_GAUGE :: ident where "ASN_GAUGE = (0x42 :: ident)"
definition ASN_TIMETICKS :: ident where "ASN_TIMETICKS = (0x43 :: ident)"
definition GET_REQ_PDU :: ident where "GET_REQ_PDU = (0xA0 :: ident)"
definition GETNEXT_REQ_PDU :: ident where "GETNEXT_REQ_PDU = (0xA1 :: ident)"
definition GET_RSP_PDU :: ident where "GET_RSP_PDU = (0xA2 :: ident)"
definition SET_REQ_PDU :: ident where "SET_REQ_PDU = (0xA3 :: ident)"
definition TRAP_PDU :: ident where "TRAP_PDU = (0xA4 :: ident)"

lemmas asn_idents = ASN_INTEGER_def ASN_OCTETSTRING_def ASN_NULL_def ASN_OBJECTID_def ASN_SEQUENCE_def
  ASN_IPADDRESS_def ASN_COUNTER_def ASN_GAUGE_def ASN_TIMETICKS_def GET_REQ_PDU_def GETNEXT_REQ_PDU_def
  GET_RSP_PDU_def SET_REQ_PDU_def TRAP_PDU_def

text \<open>An integer has its type code, its value and whether it is signed; an object id its \<open>int\<close>s.\<close>

datatype asn =
    AInteger ident "32 word" bool
  | AOctetString "byte list"
  | AObjectId "32 word list"
  | ANull
  | ASequence ident "asn list"

fun asn_type :: "asn \<Rightarrow> ident" where
  "asn_type (AInteger ty _ _) = ty"
| "asn_type (AOctetString _) = ASN_OCTETSTRING"
| "asn_type (AObjectId _) = ASN_OBJECTID"
| "asn_type ANull = ASN_NULL"
| "asn_type (ASequence ty _) = ty"

definition integer_of :: "int \<Rightarrow> asn" where
  "integer_of v = AInteger ASN_INTEGER (word_of_int v) (v < 0)"

subsection \<open>Encoding\<close>

function bits_loop :: "32 word \<Rightarrow> nat \<Rightarrow> nat" where
  "bits_loop num bits = (if num = 0 then bits else bits_loop (drop_bit 1 num) (bits + 1))"
  by pat_completeness auto

termination
  by (relation "measure (\<lambda>(num, _). unat num)") (auto simp: unat_drop_bit_eq drop_bit_eq_div [where 'a = nat] unat_gt_0)

declare bits_loop.simps [simp del]

definition numbits :: "32 word \<Rightarrow> nat" where
  "numbits num = (if num = 0 then 1 else bits_loop num 0)"

definition length_size :: "nat \<Rightarrow> nat" where
  "length_size len = (let bits = numbits (of_nat len) in if bits \<le> 7 then 1 else (bits + 7) div 8 + 1)"

definition length_octets :: "nat \<Rightarrow> byte list" where
  "length_octets len =
     (let n = length_size len
      in if n > 1 then (of_nat (n - 1) OR 0x80) # be_bytes (n - 1) len else be_bytes 1 len)"

type_synonym put = "nat \<Rightarrow> (byte list \<times> nat) option"

definition then_put :: "(byte list \<times> nat) option \<Rightarrow> put \<Rightarrow> (byte list \<times> nat) option" where
  "then_put r f = (case r of None \<Rightarrow> None
     | Some (bs, n) \<Rightarrow> (case f n of None \<Rightarrow> None | Some (cs, m) \<Rightarrow> Some (bs @ cs, m)))"

definition put_type :: "ident \<Rightarrow> put" where
  "put_type ty n = (if n < 1 then None else Some ([ty], n - 1))"

definition put_length :: "nat \<Rightarrow> put" where
  "put_length len n = (if n < length_size len then None else Some (length_octets len, n))"

definition put_data :: "byte list \<Rightarrow> put" where
  "put_data bs n = (if n < length bs then None else Some (bs, n - length bs))"

text \<open>How many octets an integer takes: a leading one that only repeats the sign is left out.\<close>

fun shrink :: "bool \<Rightarrow> nat \<Rightarrow> 32 word \<Rightarrow> nat" where
  "shrink sg datalen tmp =
     (if datalen > 1 \<and> tmp AND 0xff800000 = (if sg then 0xff800000 else 0)
      then shrink sg (datalen - 1) (push_bit 8 tmp)
      else if \<not> sg \<and> datalen = 4 \<and> bit tmp 31 then 5 else datalen)"

declare shrink.simps [simp del]

text \<open>The first two ids are one value; each is put in groups of seven bits, all but the last marked.\<close>

definition oid_vals :: "32 word list \<Rightarrow> 32 word list" where
  "oid_vals v = (v ! 0 * 40 + v ! 1) # drop 2 v"

definition oid_octets :: "32 word \<Rightarrow> byte list" where
  "oid_octets val =
     (let n = (numbits val + 6) div 7
      in map (\<lambda>i. ucast (drop_bit (7 * i) val) OR 0x80) (rev [1..<n]) @ [ucast (val AND 0x7f)])"

fun asn_size :: "asn \<Rightarrow> nat option" and asn_sizes :: "asn list \<Rightarrow> nat option" where
  "asn_size (AInteger ty w sg) = (let n = shrink sg 4 w in Some (1 + length_size n + n))"
| "asn_size (AOctetString bs) = Some (1 + length_size (length bs) + length bs)"
| "asn_size (AObjectId v) =
     (if length v < 2 then None
      else let n = length (concat (map oid_octets (oid_vals v))) in Some (1 + length_size n + n))"
| "asn_size ANull = Some (1 + length_size 0)"
| "asn_size (ASequence ty xs) = map_option (\<lambda>n. 1 + length_size n + n) (asn_sizes xs)"
| "asn_sizes [] = Some 0"
| "asn_sizes (x # xs) =
     (case asn_size x of None \<Rightarrow> None | Some n \<Rightarrow> map_option ((+) n) (asn_sizes xs))"

fun marshal :: "asn \<Rightarrow> put" and marshal_all :: "asn list \<Rightarrow> put" where
  "marshal (AInteger ty w sg) n =
     (let len = shrink sg 4 w
      in then_put (then_put (put_type ty n) (put_length len)) (put_data (be_bytes len (unat w))))"
| "marshal (AOctetString bs) n =
     then_put (then_put (put_type ASN_OCTETSTRING n) (put_length (length bs))) (put_data bs)"
| "marshal (AObjectId v) n =
     (if length v < 2 then None
      else let bs = concat (map oid_octets (oid_vals v))
           in then_put (then_put (put_type ASN_OBJECTID n) (put_length (length bs))) (put_data bs))"
| "marshal ANull n = then_put (put_type ASN_NULL n) (put_length 0)"
| "marshal (ASequence ty xs) n =
     (case asn_sizes xs of
        None \<Rightarrow> None
      | Some len \<Rightarrow> then_put (then_put (put_type ty n) (put_length len)) (marshal_all xs))"
| "marshal_all [] n = Some ([], n)"
| "marshal_all (x # xs) n = then_put (marshal x n) (marshal_all xs)"

subsection \<open>Decoding\<close>

definition get_length :: "byte list \<Rightarrow> (nat \<times> byte list) option" where
  "get_length bs = (case bs of
      [] \<Rightarrow> None
    | b # r \<Rightarrow>
        let n = unat b
        in if n < 128 then Some (n, r)
           else if length r < n - 128 then None
           else Some (unat (foldl (\<lambda>v c. push_bit 8 v OR ucast c) (0 :: 32 word) (take (n - 128) r)), drop (n - 128) r))"

text \<open>The contents of an object, of a length of at least one that there are bytes for, and what follows.\<close>

definition get_data :: "byte list \<Rightarrow> (byte list \<times> byte list) option" where
  "get_data bs = (case get_length bs of
      None \<Rightarrow> None
    | Some (n, r) \<Rightarrow> if n < 1 \<or> length r < n then None else Some (take n r, drop n r))"

definition get_integer :: "ident \<Rightarrow> byte list \<Rightarrow> (asn \<times> byte list) option" where
  "get_integer ty bs = (case get_data bs of
      None \<Rightarrow> None
    | Some (d, r) \<Rightarrow>
        if length d > 4 then None
        else let sg = bit (hd d) 7
             in Some (AInteger ty (foldl (\<lambda>v c. push_bit 8 v OR ucast c) (if sg then - 1 else 0) d) sg, r))"

fun oid_values :: "32 word \<Rightarrow> byte list \<Rightarrow> 32 word list" where
  "oid_values acc [] = []"
| "oid_values acc (b # bs) =
     (let v = push_bit 7 acc OR (ucast b AND 0x7f)
      in if bit b 7 \<and> bs \<noteq> [] then oid_values v bs else v # oid_values 0 bs)"

definition oid_split :: "32 word list \<Rightarrow> 32 word list" where
  "oid_split vals = (case vals of
      [] \<Rightarrow> []
    | v # vs \<Rightarrow> word_of_int (sint v sdiv 40) # word_of_int (sint v smod 40) # vs)"

definition get_object_id :: "byte list \<Rightarrow> (asn \<times> byte list) option" where
  "get_object_id bs = map_option (\<lambda>(d, r). (AObjectId (oid_split (oid_values 0 d)), r)) (get_data bs)"

definition get_null :: "byte list \<Rightarrow> (asn \<times> byte list) option" where
  "get_null bs = (case get_length bs of
      None \<Rightarrow> None
    | Some (n, r) \<Rightarrow> if n = 0 then Some (ANull, r) else None)"

definition integer_types :: "ident list" where
  "integer_types = [ASN_INTEGER, ASN_COUNTER, ASN_GAUGE, ASN_TIMETICKS]"

definition sequence_types :: "ident list" where
  "sequence_types = [ASN_SEQUENCE, GET_REQ_PDU, GETNEXT_REQ_PDU, GET_RSP_PDU, TRAP_PDU]"

text \<open>
  The recursion has fuel, and running out of it is a result of its own: \<open>None\<close> means that the decoder
  has not come to its end, \<open>Some None\<close> that it has refused its input. \<open>demarshal_ends\<close> shows that the fuel of
  \<open>asn_demarshal\<close> is enough.
\<close>

fun demarshal :: "nat \<Rightarrow> byte list \<Rightarrow> (asn \<times> byte list) option option"
  and demarshal_items :: "nat \<Rightarrow> byte list \<Rightarrow> asn list option option" where
  "demarshal 0 bs = None"
| "demarshal (Suc fuel) bs = (case bs of
      [] \<Rightarrow> Some None
    | ty # r \<Rightarrow>
        if ty \<in> set integer_types then Some (get_integer ty r)
        else if ty = ASN_OCTETSTRING \<or> ty = ASN_IPADDRESS
        then Some (map_option (\<lambda>(d, q). (AOctetString d, q)) (get_data r))
        else if ty = ASN_OBJECTID then Some (get_object_id r)
        else if ty = ASN_NULL then Some (get_null r)
        else if ty \<in> set sequence_types
        then (case get_data r of
                None \<Rightarrow> Some None
              | Some (d, q) \<Rightarrow>
                  map_option (map_option (\<lambda>xs. (ASequence ty xs, q))) (demarshal_items fuel d))
        else Some None)"
| "demarshal_items 0 bs = None"
| "demarshal_items (Suc fuel) bs =
     (if bs = [] then Some (Some [])
      else case demarshal fuel bs of
             None \<Rightarrow> None
           | Some None \<Rightarrow> Some None
           | Some (Some (x, r)) \<Rightarrow> map_option (map_option ((#) x)) (demarshal_items fuel r))"

definition asn_demarshal :: "byte list \<Rightarrow> (asn \<times> byte list) option" where
  "asn_demarshal bs = (case demarshal (Suc (length bs)) bs of None \<Rightarrow> None | Some r \<Rightarrow> r)"

subsection \<open>Numbers of bits\<close>

lemma bits_loop_bound:
  "unat num < 2 ^ (bits_loop num bits - bits) \<and> bits \<le> bits_loop num bits \<and>
   (num \<noteq> 0 \<longrightarrow> 2 ^ (bits_loop num bits - bits - 1) \<le> unat num \<and> bits < bits_loop num bits)"
proof (induction num bits rule: bits_loop.induct)
  case (1 num bits)
  show ?case
  proof (cases "num = 0")
    case True
    then show ?thesis by (simp add: bits_loop.simps [of 0])
  next
    case False
    let ?n = "drop_bit 1 num"
    have l: "bits_loop num bits = bits_loop ?n (bits + 1)" using False by (simp add: bits_loop.simps [of num])
    have u: "unat (drop_bit (Suc 0) num) = unat num div 2" by (simp add: unat_drop_bit_eq drop_bit_eq_div [where 'a = nat])
    note IH = 1 [OF False, folded l]
    define k where "k = bits_loop num bits - bits - 1"
    have k: "bits_loop num bits = bits + 1 + k" using IH by (simp add: k_def)
    have lt: "unat num div 2 < 2 ^ k" using IH by (simp add: k u)
    have "2 ^ k \<le> unat num"
    proof (cases "?n = 0")
      case True
      then have "k = 0" using k l by (simp add: bits_loop.simps [of 0])
      moreover have "0 < unat num" using False unat_gt_0 by blast
      ultimately show ?thesis by simp
    next
      case n0: False
      then have "2 ^ (k - 1) \<le> unat num div 2" "0 < k" using IH by (simp_all add: k u)
      then show ?thesis by (cases k) auto
    qed
    then show ?thesis using lt by (simp add: k)
  qed
qed

lemma numbits_pos: "0 < numbits num"
  using bits_loop_bound [of num 0] by (auto simp: numbits_def)

lemma numbits_less: "unat num < 2 ^ numbits num"
  using bits_loop_bound [of num 0] by (auto simp: numbits_def)

lemma numbits_le:
  assumes "unat num < 2 ^ k" and "0 < k" shows "numbits num \<le> k"
proof (cases "num = 0")
  case True
  then show ?thesis using assms by (simp add: numbits_def)
next
  case False
  then have "2 ^ (bits_loop num 0 - 1) \<le> unat num" using bits_loop_bound [of num 0] by auto
  then have "(2 :: nat) ^ (bits_loop num 0 - 1) < 2 ^ k" using assms(1) by linarith
  then have "bits_loop num 0 - 1 < k" by (rule power_less_imp_less_exp [rotated]) simp
  then show ?thesis using False by (simp add: numbits_def)
qed

lemma numbits_32: "numbits num \<le> 32"
  by (rule numbits_le) (use unat_32 [of num] in simp_all)

subsection \<open>Octets\<close>

lemma octet_of: "(of_nat (unat w div 256 ^ d) :: byte) = ucast (drop_bit (8 * d) w)" for w :: "32 word"
proof -
  have "unat w div 256 ^ d = unat (drop_bit (8 * d) w)"
    by (simp add: unat_drop_bit_eq drop_bit_eq_div [where 'a = nat] power_mult)
  then show ?thesis by (simp only: of_nat_unat)
qed

lemma fold_octets:
  "foldl (\<lambda>v c. push_bit 8 v OR ucast c) init (be_bytes d (unat w)) = push_bit (8 * d) init OR take_bit (8 * d) w"
  for w :: "32 word"
proof (induction d arbitrary: init)
  case (Suc d)
  have "push_bit (8 * d) (push_bit 8 init OR ucast (ucast (drop_bit (8 * d) w) :: byte)) OR take_bit (8 * d) w =
      push_bit (8 * Suc d) init OR take_bit (8 * Suc d) w"
    by (rule bit_word_eqI)
      (auto simp: bit_or_iff bit_push_bit_iff bit_take_bit_iff bit_ucast_iff bit_drop_bit_eq ac_simps
        dest: bit_imp_le_length)
  then show ?case by (simp add: be_bytes_Suc octet_of Suc)
qed (simp add: be_bytes_def)

lemma length_size_bounds: "1 \<le> length_size len" "length_size len \<le> 5"
  using numbits_32 [of "of_nat len"] by (auto simp: length_size_def Let_def)

lemma length_length_octets: "length (length_octets len) = length_size len"
  using length_size_bounds(1) [of len] by (simp add: length_octets_def Let_def)

lemma get_length_octets:
  assumes "len < 2 ^ 32" shows "get_length (length_octets len @ r) = Some (len, r)"
proof -
  define w :: "32 word" where "w = of_nat len"
  have w: "unat w = len" using assms by (simp add: w_def unat_of_nat take_bit_nat_eq_self)
  let ?n = "length_size len"
  show ?thesis
  proof (cases "numbits w \<le> 7")
    case True
    then have "?n = 1" by (simp add: length_size_def w_def)
    moreover have "len < 128"
      using numbits_less [of w] power_increasing [OF True, of "2 :: nat"] w by simp
    ultimately show ?thesis
      by (simp add: length_octets_def be_bytes_Suc be_bytes_def get_length_def Let_def unat_of_nat)
  next
    case False
    define k where "k = (numbits w + 7) div 8"
    have n: "?n = k + 1" using False by (simp add: length_size_def w_def k_def)
    have k: "1 \<le> k" "k \<le> 4" using False numbits_32 [of w] by (auto simp: k_def)
    have "numbits w \<le> 8 * k" by (simp add: k_def)
    then have "unat w < 2 ^ (8 * k)"
      by (intro less_le_trans [OF numbits_less] power_increasing) simp_all
    then have t: "take_bit (8 * k) w = w" 
      by (simp add: word_unat_eq_iff unsigned_take_bit_eq take_bit_nat_eq_self)
    have "unat (of_nat k OR 0x80 :: byte) = 128 + k"
    proof -
      have "k = 1 \<or> k = 2 \<or> k = 3 \<or> k = 4" using k by auto
      then show ?thesis by auto
    qed
    moreover have "length_octets len = (of_nat k OR 0x80) # be_bytes k (unat w)"
      using k by (simp add: length_octets_def n w)
    moreover have "foldl (\<lambda>v c. push_bit 8 v OR ucast c) 0 (be_bytes k (unat w)) = w"
      using fold_octets [of 0 k w] t by simp
    ultimately show ?thesis by (simp add: get_length_def Let_def w)
  qed
qed

lemma get_data_octets:
  assumes "ds \<noteq> []" and "length ds < 2 ^ 32"
  shows "get_data (length_octets (length ds) @ ds @ r) = Some (ds, r)"
  using assms by (cases ds) (simp_all add: get_data_def get_length_octets)

subsection \<open>Integers\<close>

lemma top_bits: "bit (0xff800000 :: 32 word) n \<longleftrightarrow> 23 \<le> n \<and> n < 32"
proof -
  have "(0xff800000 :: 32 word) = push_bit 23 (mask 9)" by (simp add: mask_eq_exp_minus_1 push_bit_eq_mult)
  then have "bit (0xff800000 :: 32 word) n = bit (push_bit 23 (mask 9) :: 32 word) n" by (rule arg_cong)
  then show ?thesis by (auto simp: bit_push_bit_iff bit_mask_iff)
qed

lemma top_bits_all:
  "tmp AND 0xff800000 = (if sg then 0xff800000 else 0) \<longleftrightarrow> (\<forall>n. 23 \<le> n \<and> n < 32 \<longrightarrow> bit tmp n = sg)"
  for tmp :: "32 word"
proof -
  have "x = y \<longleftrightarrow> (\<forall>n < 32. bit x n = bit y n)" for x y :: "32 word"
    by (auto intro: bit_word_eqI)
  note eq = this [of "tmp AND 0xff800000"]
  have "bit (0 :: 32 word) n \<longleftrightarrow> False" for n by simp
  then show ?thesis
    by (cases sg; simp only: eq bit_and_iff top_bits if_True if_False; blast)
qed

definition repeats_sign :: "bool \<Rightarrow> nat \<Rightarrow> 32 word \<Rightarrow> bool" where
  "repeats_sign sg k w \<longleftrightarrow> (\<forall>n. 8 * k \<le> n + 1 \<and> n < 32 \<longrightarrow> bit w n = sg)"

lemma shrink_step:
  "1 < k \<Longrightarrow> tmp AND 0xff800000 = (if sg then 0xff800000 else 0) \<Longrightarrow>
    shrink sg k tmp = shrink sg (k - 1) (push_bit 8 tmp)"
  by (subst shrink.simps) simp

lemma shrink_stop:
  "\<not> (1 < k \<and> tmp AND 0xff800000 = (if sg then 0xff800000 else 0)) \<Longrightarrow>
    \<not> (\<not> sg \<and> k = 4 \<and> bit tmp 31) \<Longrightarrow> shrink sg k tmp = k"
  by (subst shrink.simps) (simp only: if_False)

lemma shrink_repeats:
  assumes "1 \<le> k" "k \<le> 4" "repeats_sign sg k w"
  shows "1 \<le> shrink sg k (push_bit (8 * (4 - k)) w) \<and> shrink sg k (push_bit (8 * (4 - k)) w) \<le> 4 \<and>
    repeats_sign sg (shrink sg k (push_bit (8 * (4 - k)) w)) w"
  using assms
proof (induction k)
  case (Suc k)
  let ?t = "push_bit (8 * (4 - Suc k)) w"
  have four: "\<not> (\<not> sg \<and> Suc k = 4 \<and> bit ?t 31)"
  proof
    assume a: "\<not> sg \<and> Suc k = 4 \<and> bit ?t 31"
    then have "bit w 31 = sg" using Suc.prems(3) by (auto simp: repeats_sign_def)
    then show False using a by auto
  qed
  show ?case
  proof (cases "Suc k > 1 \<and> ?t AND 0xff800000 = (if sg then 0xff800000 else 0)")
    case True
    have "8 * (4 - k) = 8 * (4 - Suc k) + 8" using Suc.prems(2) by simp
    then have p: "push_bit 8 ?t = push_bit (8 * (4 - k)) w" by (simp add: add.commute)
    have "bit w n = sg" if "8 * k \<le> n + 1" "n < 32" for n
    proof (cases "8 * Suc k \<le> n + 1")
      case True
      then show ?thesis using Suc.prems(3) that by (auto simp: repeats_sign_def)
    next
      case False
      let ?m = "n + 8 * (4 - Suc k)"
      have m: "23 \<le> ?m" "?m < 32" using False that Suc.prems(2) by arith+
      then have "bit ?t ?m = sg" using True top_bits_all [of ?t sg] by blast
      then show ?thesis using m by (simp add: bit_push_bit_iff)
    qed
    then have "repeats_sign sg k w" by (simp add: repeats_sign_def)
    moreover have "shrink sg (Suc k) ?t = shrink sg k (push_bit (8 * (4 - k)) w)"
      using shrink_step [of "Suc k" ?t sg] True p by simp
    ultimately show ?thesis using Suc.IH Suc.prems True by simp
  next
    case False
    then have "shrink sg (Suc k) ?t = Suc k" using four by (rule shrink_stop)
    then show ?thesis using Suc.prems by simp
  qed
qed simp

lemma shrink_size:
  assumes "sg = bit w 31" shows "1 \<le> shrink sg 4 w" "shrink sg 4 w \<le> 4" "repeats_sign sg (shrink sg 4 w) w"
proof -
  have "bit w n = sg" if "32 \<le> n + 1" "n < 32" for n
  proof -
    have "n = 31" using that by simp
    then show ?thesis using assms by simp
  qed
  then have "repeats_sign sg 4 w" by (simp add: repeats_sign_def)
  then show "1 \<le> shrink sg 4 w" "shrink sg 4 w \<le> 4" "repeats_sign sg (shrink sg 4 w) w"
    using shrink_repeats [of 4 sg w] by simp_all
qed

lemma get_integer_octets:
  assumes "sg = bit w 31"
  shows "get_integer ty (length_octets (shrink sg 4 w) @ be_bytes (shrink sg 4 w) (unat w) @ r) =
    Some (AInteger ty w sg, r)"
proof -
  define d where "d = shrink sg 4 w"
  have d: "1 \<le> d" "d \<le> 4" "repeats_sign sg d w" unfolding d_def by (rule shrink_size [OF assms])+
  obtain e where e: "d = Suc e" using d(1) by (cases d) auto
  have "get_data (length_octets d @ be_bytes d (unat w) @ r) = Some (be_bytes d (unat w), r)"
    using get_data_octets [of "be_bytes d (unat w)" r] d by (auto simp: e be_bytes_Suc)
  moreover have "bit (hd (be_bytes d (unat w))) 7 = sg"
    using d by (simp add: e be_bytes_Suc octet_of bit_ucast_iff bit_drop_bit_eq repeats_sign_def)
  moreover have "push_bit (8 * d) (if sg then - 1 else 0) OR take_bit (8 * d) w = w"
  proof (rule bit_word_eqI)
    fix n assume n: "n < LENGTH(32)"
    have "bit w n = sg" if "\<not> n < 8 * d" using d(3) that n by (simp add: repeats_sign_def)
    then show "bit (push_bit (8 * d) (if sg then - 1 else 0) OR take_bit (8 * d) w) n = bit w n"
      using n by (cases "n < 8 * d")
        (simp_all add: bit_or_iff bit_push_bit_iff bit_take_bit_iff less_imp_diff_less)
  qed
  ultimately show ?thesis using d(2) by (simp add: get_integer_def Let_def fold_octets flip: d_def)
qed

subsection \<open>Object ids\<close>

lemma low_seven: "bit (0x7f :: 'a :: len word) n \<longleftrightarrow> n < 7 \<and> n < LENGTH('a)"
proof -
  have "(0x7f :: 'a word) = mask 7" by (simp add: mask_eq_exp_minus_1)
  then have "bit (0x7f :: 'a word) n = bit (mask 7 :: 'a word) n" by (rule arg_cong)
  then show ?thesis by (simp add: bit_mask_iff conj_commute)
qed

lemma high_bit: "bit (0x80 :: byte) n \<longleftrightarrow> n = 7"
proof -
  have e: "(0x80 :: byte) = 2 ^ 7" by simp
  show ?thesis unfolding e bit_exp_iff by auto
qed

definition oid_octet :: "32 word \<Rightarrow> nat \<Rightarrow> byte" where
  "oid_octet v i = ucast (drop_bit (7 * i) v) OR 0x80"

lemma oid_octet_bits:
  "bit (oid_octet v i) n \<longleftrightarrow> n = 7 \<or> n < 7 \<and> bit v (n + 7 * i)"
  unfolding oid_octet_def
  by (simp only: bit_or_iff high_bit bit_ucast_iff bit_drop_bit_eq)
    (auto simp: add.commute dest: bit_imp_le_length)

lemma last_octet_bits: "bit (ucast (v AND 0x7f) :: byte) n \<longleftrightarrow> n < 7 \<and> bit v n" for v :: "32 word"
  by (simp only: bit_ucast_iff bit_and_iff low_seven) (auto dest: bit_imp_le_length)

lemma seven: "n < 7 \<or> (\<exists>k. n = 7 + k)" for n :: nat
  by presburger

lemma oid_step:
  "push_bit 7 (drop_bit (7 * Suc i) v) OR (ucast (oid_octet v i) AND 0x7f) = drop_bit (7 * i) v"
proof (rule bit_word_eqI)
  fix n assume "n < LENGTH(32)"
  then show "bit (push_bit 7 (drop_bit (7 * Suc i) v) OR (ucast (oid_octet v i) AND 0x7f)) n = bit (drop_bit (7 * i) v) n"
    using seven [of n]
    by (simp only: bit_or_iff bit_and_iff bit_push_bit_iff bit_drop_bit_eq bit_ucast_iff low_seven oid_octet_bits)
      (elim disjE exE; auto simp: ac_simps)
qed

lemma oid_last_step: "push_bit 7 (drop_bit 7 v) OR (ucast (ucast (v AND 0x7f) :: byte) AND 0x7f) = v" for v :: "32 word"
proof (rule bit_word_eqI)
  fix n assume "n < LENGTH(32)"
  then show "bit (push_bit 7 (drop_bit 7 v) OR (ucast (ucast (v AND 0x7f) :: byte) AND 0x7f)) n = bit v n"
    using seven [of n]
    by (simp only: bit_or_iff bit_and_iff bit_push_bit_iff bit_drop_bit_eq bit_ucast_iff low_seven last_octet_bits)
      (elim disjE exE; auto simp: ac_simps)
qed

lemma oid_values_last:
  "\<not> bit b 7 \<Longrightarrow> push_bit 7 acc OR (ucast b AND 0x7f) = v \<Longrightarrow> oid_values acc (b # bs) = v # oid_values 0 bs"
  by (subst oid_values.simps) (simp only: Let_def simp_thms if_False)

lemma oid_values_more:
  "bit b 7 \<Longrightarrow> bs \<noteq> [] \<Longrightarrow> push_bit 7 acc OR (ucast b AND 0x7f) = v \<Longrightarrow> oid_values acc (b # bs) = oid_values v bs"
  by (subst oid_values.simps) (simp only: Let_def simp_thms if_True)

lemma oid_values_octets_from:
  "oid_values (drop_bit (7 * Suc m) v) (map (oid_octet v) (rev [1..<Suc m]) @ ucast (v AND 0x7f) # r) =
    v # oid_values 0 r"
proof (induction m)
  case 0
  have "oid_values (drop_bit 7 v) (ucast (v AND 0x7f) # r) = v # oid_values 0 r"
    by (rule oid_values_last [OF _ oid_last_step]) (simp add: last_octet_bits del: bit_numeral_iff)
  then show ?case by simp
next
  case (Suc m)
  have "map (oid_octet v) (rev [1..<Suc (Suc m)]) = oid_octet v (Suc m) # map (oid_octet v) (rev [1..<Suc m])"
    by simp
  moreover have "bit (oid_octet v (Suc m)) 7" by (simp add: oid_octet_bits)
  ultimately show ?case
    using oid_values_more [OF _ _ oid_step [of "Suc m" v]] Suc by (simp only: append.simps) simp
qed

lemma oid_values_octets: "oid_values 0 (oid_octets v @ r) = v # oid_values 0 r"
proof -
  define n where "n = (numbits v + 6) div 7"
  have n: "0 < n" using numbits_pos [of v] by (simp add: n_def)
  then obtain m where m: "n = Suc m" by (cases n) auto
  have "unat v < 2 ^ (7 * n)"
    by (intro less_le_trans [OF numbits_less] power_increasing) (simp_all add: n_def)
  then have "drop_bit (7 * n) v = 0"
    by (simp add: word_unat_eq_iff unat_drop_bit_eq drop_bit_eq_div [where 'a = nat])
  moreover have "oid_octets v = map (oid_octet v) (rev [1..<n]) @ [ucast (v AND 0x7f)]"
    by (simp add: oid_octets_def n_def oid_octet_def [abs_def] Let_def)
  ultimately show ?thesis using oid_values_octets_from [of m v r] by (simp add: m)
qed

lemma oid_values_all: "oid_values 0 (concat (map oid_octets vs)) = vs"
  by (induction vs) (simp_all add: oid_values_octets)

definition oid_ok :: "32 word list \<Rightarrow> bool" where
  "oid_ok v \<longleftrightarrow> (case v of a # b # _ \<Rightarrow> uint b < 40 \<and> uint a * 40 + uint b < 2 ^ 31 | _ \<Rightarrow> False)"

lemma split_40:
  "0 \<le> x \<Longrightarrow> 0 \<le> y \<Longrightarrow> y < 40 \<Longrightarrow> (x * 40 + y) sdiv 40 = x \<and> (x * 40 + y) smod 40 = y" for x y :: int
  by (auto simp: signed_divide_int_def signed_modulo_int_def sgn_if)

lemma oid_split_vals:
  assumes "oid_ok v" shows "oid_split (oid_vals v) = v"
proof -
  obtain a b vs where v: "v = a # b # vs" "uint b < 40" "uint a * 40 + uint b < 2 ^ 31"
    using assms by (auto simp: oid_ok_def split: list.splits)
  have "uint (a * 40 + b) = (uint a * 40 + uint b) mod 2 ^ 32"
    by (simp add: uint_word_ariths mod_simps)
  then have u: "uint (a * 40 + b) = uint a * 40 + uint b"
    using v by (simp add: mod_pos_pos_trivial)
  have "- (2 ^ 31) \<le> uint a * 40 + uint b" by (rule order_trans [of _ 0]) simp_all
  then have "signed_take_bit 31 (uint a * 40 + uint b) = uint a * 40 + uint b"
    using v(3) by (intro signed_take_bit_int_eq_self)
  then have s: "sint (a * 40 + b) = uint a * 40 + uint b" by (simp add: sint_uint u)
  have "(uint a * 40 + uint b) sdiv 40 = uint a" "(uint a * 40 + uint b) smod 40 = uint b"
    using v(2) by (simp_all add: split_40)
  then show ?thesis by (simp add: v(1) oid_vals_def oid_split_def s)
qed

subsection \<open>The size of an encoding\<close>

lemma then_put_Some:
  "then_put r f = Some (bs, m) \<longleftrightarrow> (\<exists>as n cs. r = Some (as, n) \<and> f n = Some (cs, m) \<and> bs = as @ cs)"
  by (auto simp: then_put_def split: option.splits)

lemma put_Some:
  "put_type ty n = Some (bs, m) \<longleftrightarrow> 1 \<le> n \<and> bs = [ty] \<and> m = n - 1"
  "put_length len n = Some (bs, m) \<longleftrightarrow> length_size len \<le> n \<and> bs = length_octets len \<and> m = n"
  "put_data ds n = Some (bs, m) \<longleftrightarrow> length ds \<le> n \<and> bs = ds \<and> m = n - length ds"
  by (auto simp: put_type_def put_length_def put_data_def)

text \<open>The octets that are put and not counted.\<close>

fun length_octets_of :: "asn \<Rightarrow> nat" and length_octets_all :: "asn list \<Rightarrow> nat" where
  "length_octets_of (AInteger ty w sg) = length_size (shrink sg 4 w)"
| "length_octets_of (AOctetString bs) = length_size (length bs)"
| "length_octets_of (AObjectId v) = length_size (length (concat (map oid_octets (oid_vals v))))"
| "length_octets_of ANull = 1"
| "length_octets_of (ASequence ty xs) = length_size (the (asn_sizes xs)) + length_octets_all xs"
| "length_octets_all [] = 0"
| "length_octets_all (x # xs) = length_octets_of x + length_octets_all xs"

lemma length_size_0: "length_size 0 = 1"
  by (simp add: length_size_def numbits_def)

lemma marshal_size_left:
  "marshal a n = Some (bs, m) \<Longrightarrow> asn_size a = Some (length bs) \<and> length bs + m = n + length_octets_of a"
  "marshal_all xs n = Some (bs, m) \<Longrightarrow> asn_sizes xs = Some (length bs) \<and> length bs + m = n + length_octets_all xs"
proof (induction a n and xs n arbitrary: bs m and bs m rule: marshal_marshal_all.induct)
  case (5 ty xs n)
  then show ?case
    by (fastforce simp: then_put_Some put_Some length_length_octets split: option.splits)
next
  case (7 x xs n)
  then show ?case by (fastforce simp: then_put_Some)
qed (auto simp: then_put_Some put_Some length_length_octets length_size_0 Let_def split: if_splits)

subsection \<open>The round trip\<close>

fun asn_ok :: "asn \<Rightarrow> bool" where
  "asn_ok (AInteger ty w sg) \<longleftrightarrow> ty \<in> set integer_types \<and> sg = bit w 31"
| "asn_ok (AOctetString bs) \<longleftrightarrow> bs \<noteq> []"
| "asn_ok (AObjectId v) \<longleftrightarrow> oid_ok v"
| "asn_ok ANull \<longleftrightarrow> True"
| "asn_ok (ASequence ty xs) \<longleftrightarrow> ty \<in> set sequence_types \<and> xs \<noteq> [] \<and> list_all asn_ok xs"

lemma oid_octets_nonempty: "oid_octets v \<noteq> []"
  by (simp add: oid_octets_def Let_def)

lemma oid_ok_length: "oid_ok v \<Longrightarrow> \<not> length v < 2"
  by (auto simp: oid_ok_def split: list.splits)

lemma marshal_nonempty: "marshal a n = Some (bs, m) \<Longrightarrow> bs \<noteq> []"
  by (cases a) (auto simp: then_put_Some put_Some Let_def split: if_splits option.splits)

lemma type_cases:
  "ASN_OCTETSTRING \<notin> set integer_types" "ASN_OBJECTID \<notin> set integer_types" "ASN_NULL \<notin> set integer_types"
  "ASN_OBJECTID \<noteq> ASN_OCTETSTRING" "ASN_OBJECTID \<noteq> ASN_IPADDRESS" "ASN_NULL \<noteq> ASN_OCTETSTRING"
  "ASN_NULL \<noteq> ASN_IPADDRESS" "ASN_NULL \<noteq> ASN_OBJECTID"
  "ty \<in> set sequence_types \<Longrightarrow> ty \<notin> set integer_types \<and> ty \<noteq> ASN_OCTETSTRING \<and> ty \<noteq> ASN_IPADDRESS \<and>
     ty \<noteq> ASN_OBJECTID \<and> ty \<noteq> ASN_NULL"
  by (auto simp: integer_types_def sequence_types_def asn_idents)

lemma round_trip_fuel:
  "marshal a n = Some (bs, m) \<Longrightarrow> asn_ok a \<Longrightarrow> length bs < 2 ^ 32 \<Longrightarrow> length bs < f \<Longrightarrow>
    demarshal f (bs @ r) = Some (Some (a, r))"
  "marshal_all xs n = Some (bs, m) \<Longrightarrow> list_all asn_ok xs \<Longrightarrow> length bs < 2 ^ 32 \<Longrightarrow> length bs + 1 < f \<Longrightarrow>
    demarshal_items f bs = Some (Some xs)"
proof (induction a n and xs n arbitrary: bs m f r and bs m f rule: marshal_marshal_all.induct)
  case (1 ty w sg n)
  then obtain g where "f = Suc g" by (cases f) auto
  then show ?case using 1 get_integer_octets [of sg w ty r]
    by (auto simp: then_put_Some put_Some Let_def)
next
  case (2 ds n)
  then obtain g where "f = Suc g" by (cases f) auto
  then show ?case using 2 get_data_octets [of ds r]
    by (auto simp: then_put_Some put_Some Let_def type_cases)
next
  case (3 v n)
  let ?d = "concat (map oid_octets (oid_vals v))"
  obtain g where f: "f = Suc g" using 3 by (cases f) auto
  have "oid_split (oid_values 0 ?d) = v"
    using 3(2) by (simp add: oid_values_all oid_split_vals)
  moreover have "?d \<noteq> []" by (simp add: oid_vals_def oid_octets_nonempty)
  moreover have bs: "bs = ASN_OBJECTID # length_octets (length ?d) @ ?d"
    using 3(1) by (auto simp: then_put_Some put_Some Let_def split: if_splits)
  moreover have "length ?d < 2 ^ 32" using 3(3) by (simp add: bs)
  ultimately show ?case
    using get_data_octets [of ?d r] by (simp add: f type_cases get_object_id_def)
next
  case (4 n)
  then obtain g where "f = Suc g" by (cases f) auto
  then show ?case using 4 get_length_octets [of 0 r]
    by (auto simp: then_put_Some put_Some type_cases get_null_def)
next
  case (5 ty xs n)
  obtain g where f: "f = Suc g" using 5 by (cases f) auto
  obtain len cs where l: "asn_sizes xs = Some len" "marshal_all xs (n - 1) = Some (cs, m)"
    and bs: "bs = ty # length_octets len @ cs"
    using 5(2) by (auto simp: then_put_Some put_Some split: option.splits)
  have len: "len = length cs" using marshal_size_left(2) [OF l(2)] l(1) by simp
  obtain x ys where "xs = x # ys" using 5(3) by (cases xs) auto
  then have "cs \<noteq> []" using l(2) marshal_nonempty by (fastforce simp: then_put_Some)
  moreover have "demarshal_items g cs = Some (Some xs)"
    using 5(1) [OF l(1) l(2)] 5(3-5) length_size_bounds(1) [of len]
    by (simp add: f bs length_length_octets)
  ultimately show ?case
    using 5(3,4) get_data_octets [of cs r] type_cases(9) [of ty] by (simp add: f bs len)
next
  case (6 n)
  then show ?case by (cases f) auto
next
  case (7 x xs n)
  obtain g where f: "f = Suc g" using 7 by (cases f) auto
  obtain as k cs where s: "marshal x n = Some (as, k)" "marshal_all xs k = Some (cs, m)" "bs = as @ cs"
    using 7(3) by (auto simp: then_put_Some)
  have "as \<noteq> []" using marshal_nonempty [OF s(1)] .
  moreover have "length cs + 1 < g" using 7(6) \<open>as \<noteq> []\<close> by (cases as) (auto simp: f s(3))
  ultimately show ?case
    using 7(1) [OF s(1)] 7(2) [OF s(2)] 7(4-6) by (auto simp: f s(3))
qed

subsection \<open>The fuel of the decoder\<close>

lemma get_length_shorter: "get_length bs = Some (n, r) \<Longrightarrow> length r < length bs"
  by (auto simp: get_length_def Let_def split: list.splits if_splits)

lemma get_data_shorter: "get_data bs = Some (d, r) \<Longrightarrow> length d + length r < length bs \<and> d \<noteq> []"
  by (auto simp: get_data_def dest!: get_length_shorter split: option.splits if_splits)

lemma demarshal_shorter:
  "demarshal f bs = Some (Some (a, r)) \<Longrightarrow> length r + 1 < length bs"
  by (cases f; cases bs)
    (auto simp: get_integer_def get_object_id_def get_null_def Let_def
      dest: get_length_shorter get_data_shorter split: if_splits option.splits)

lemma demarshal_ends:
  "length bs < f \<Longrightarrow> demarshal f bs \<noteq> None"
  "length bs + 1 < f \<Longrightarrow> demarshal_items f bs \<noteq> None"
proof (induction f bs and f bs rule: demarshal_demarshal_items.induct)
  case (2 f bs)
  have "demarshal_items f d \<noteq> None" if "bs = ty # r" "get_data r = Some (d, q)" "ty \<in> set sequence_types"
    for ty r d q
    using 2(1) [OF that(1)] type_cases(9) [OF that(3)] that get_data_shorter [OF that(2)] 2(2) by auto
  then show ?case by (auto split: list.split option.split)
next
  case (4 f bs)
  show ?case
  proof (cases "bs = []")
    case False
    have "demarshal f bs \<noteq> None" using 4(1) [OF False] 4(3) by simp
    moreover have "demarshal_items f r \<noteq> None" if "demarshal f bs = Some (Some (x, r))" for x r
      by (rule 4(2) [OF False that refl refl]) (use demarshal_shorter [OF that] 4(3) in simp)
    ultimately show ?thesis by (auto split: option.split)
  qed simp
qed auto

lemma demarshal_fuel:
  "length bs < f \<Longrightarrow> length bs < g \<Longrightarrow> demarshal f bs = demarshal g bs"
  "length bs + 1 < f \<Longrightarrow> length bs + 1 < g \<Longrightarrow> demarshal_items f bs = demarshal_items g bs"
proof (induction f bs and f bs arbitrary: g and g rule: demarshal_demarshal_items.induct)
  case (2 f bs)
  obtain h where g: "g = Suc h" using 2(3) by (cases g) simp_all
  have "demarshal_items f d = demarshal_items h d" if "bs = ty # r" "get_data r = Some (d, q)"
    "ty \<in> set sequence_types" for ty r d q
    using 2(1) [OF that(1)] type_cases(9) [OF that(3)] that get_data_shorter [OF that(2)] 2(2,3)
    by (auto simp: g)
  then show ?case by (auto simp: g split: list.split option.split)
next
  case (4 f bs)
  obtain h where g: "g = Suc h" using 4(4) by (cases g) simp_all
  show ?case
  proof (cases "bs = []")
    case False
    have "demarshal f bs = demarshal h bs" using 4(1) [OF False, of h] 4(3,4) by (simp add: g)
    moreover have "demarshal_items f r = demarshal_items h r" if "demarshal f bs = Some (Some (x, r))" for x r
      by (rule 4(2) [OF False that refl refl]) (use demarshal_shorter [OF that] 4(3,4) in \<open>simp_all add: g\<close>)
    ultimately show ?thesis by (auto simp: g split: option.split)
  qed (simp add: g)
qed auto

lemma asn_demarshal_run:
  assumes "length bs < f" shows "demarshal f bs = Some (asn_demarshal bs)"
  using demarshal_ends(1) [of bs "Suc (length bs)"] demarshal_fuel(1) [OF assms, of "Suc (length bs)"]
  by (auto simp: asn_demarshal_def)

subsection \<open>A buffer that is large enough\<close>

lemma marshal_succeeds:
  "asn_size a = Some k \<Longrightarrow> k \<le> n \<Longrightarrow> \<exists>bs m. marshal a n = Some (bs, m)"
  "asn_sizes xs = Some k \<Longrightarrow> k \<le> n \<Longrightarrow> \<exists>bs m. marshal_all xs n = Some (bs, m)"
proof (induction a n and xs n arbitrary: k and k rule: marshal_marshal_all.induct)
  case (5 ty xs n)
  then obtain len where l: "asn_sizes xs = Some len" "k = 1 + length_size len + len" by auto
  then have "\<exists>bs m. marshal_all xs (n - 1) = Some (bs, m)" using 5(1) [OF l(1) l(1)] 5(3) by simp
  then show ?case using l 5(3) by (auto simp: then_put_def put_type_def put_length_def)
next
  case (7 x xs n)
  then obtain j i where s: "asn_size x = Some j" "asn_sizes xs = Some i" "k = j + i"
    by (auto split: option.splits)
  obtain as n' where x: "marshal x n = Some (as, n')" using 7(1) [OF s(1)] 7(4) s(3) by auto
  have "i \<le> n'" using marshal_size_left(1) [OF x] s 7(4) by simp
  then obtain cs m where "marshal_all xs n' = Some (cs, m)" using 7(2) [OF s(2)] by blast
  then show ?case using x by (auto simp: then_put_def)
qed (auto simp: then_put_def put_type_def put_length_def put_data_def Let_def length_size_0 split: if_splits)

lemma asn_ok_size:
  "asn_ok a \<Longrightarrow> \<exists>k. asn_size a = Some k"
  "list_all asn_ok xs \<Longrightarrow> \<exists>k. asn_sizes xs = Some k"
  by (induction a and xs rule: asn_size_asn_sizes.induct) (auto simp: Let_def dest: oid_ok_length)

lemma shrink_unsigned:
  assumes "bit w 31" shows "shrink False 4 w = 5"
proof -
  have "\<not> (\<forall>n. 23 \<le> n \<and> n < 32 \<longrightarrow> bit w n = False)" using assms by (auto intro!: exI [of _ 31])
  then have "w AND 0xff800000 \<noteq> (if False then 0xff800000 else 0)" using top_bits_all [of w False] by blast
  then show ?thesis using assms by (subst shrink.simps) (simp only: simp_thms if_False if_True)
qed

lemma round_trip:
  assumes "asn_ok a" and "the (asn_size a) \<le> n" and "the (asn_size a) < 2 ^ 32"
  shows "\<exists>bs m. marshal a n = Some (bs, m) \<and> asn_size a = Some (length bs) \<and>
    asn_demarshal (bs @ r) = Some (a, r)"
proof -
  obtain k where k: "asn_size a = Some k" using asn_ok_size(1) assms(1) by blast
  then obtain bs m where m: "marshal a n = Some (bs, m)" using marshal_succeeds(1) assms(2) by fastforce
  then have l: "asn_size a = Some (length bs)" using marshal_size_left(1) by blast
  then have "asn_demarshal (bs @ r) = Some (a, r)"
    using round_trip_fuel(1) [OF m assms(1), of "Suc (length (bs @ r))" r] assms(3)
    by (simp add: asn_demarshal_def)
  then show ?thesis using m l by blast
qed

subsection \<open>Properties\<close>

text \<open>C23: an object that the decoder knows is encoded in a buffer that holds it, in as many bytes as
  the pass without a buffer has counted, and is decoded to itself whatever follows it: integers
  with their sign, object ids, sequences in sequences.\<close>

theorem asn_round_trip:
  assumes "asn_ok a" and "the (asn_size a) \<le> n" and "the (asn_size a) < 2 ^ 32"
  shows "\<exists>bs m. marshal a n = Some (bs, m) \<and> asn_size a = Some (length bs) \<and>
    asn_demarshal (bs @ r) = Some (a, r)"
  by (rule round_trip [OF assms])

text \<open>C30: the decoder comes to an end on any input, however its sequences are nested: a result is there,
  an object or a refusal, once the fuel exceeds the number of bytes, it is the same whatever more of
  fuel there is, and a decoded object has taken two bytes at least.\<close>

theorem asn_decoder_ends:
  assumes "length bs < fuel"
  shows "demarshal fuel bs = Some (asn_demarshal bs) \<and>
    (\<forall>a r. asn_demarshal bs = Some (a, r) \<longrightarrow> length r + 2 \<le> length bs)"
  using asn_demarshal_run [OF assms] demarshal_shorter [of fuel bs] by fastforce

text \<open>C29: what an encoding puts into its buffer and what it leaves of the size differ from that size by
  the length octets, which are not counted: the encoding runs over the end of the buffer exactly
  when less is left than there are of them.\<close>

theorem asn_buffer_overrun:
  assumes "marshal a n = Some (bs, m)"
  shows "length bs + m = n + length_octets_of a \<and> (length bs > n \<longleftrightarrow> m < length_octets_of a)"
  using marshal_size_left(1) [OF assms] by auto

text \<open>The decoder refuses what the encoder makes of an empty string and of an unsigned value of
  32 bits; what follows them is not looked at.\<close>

theorem asn_refuses_own_encodings:
  assumes "marshal a n = Some (bs, m)"
    and "a = AOctetString [] \<or> (\<exists>ty w. a = AInteger ty w False \<and> ty \<in> set integer_types \<and> bit w 31)"
  shows "asn_demarshal (bs @ r) = None"
  using assms(2)
proof (elim disjE exE conjE)
  assume "a = AOctetString []"
  then show ?thesis
    using assms(1) get_length_octets [of 0 r]
    by (auto simp: then_put_Some put_Some asn_demarshal_def type_cases get_data_def)
next
  fix ty w assume a: "a = AInteger ty w False" and ty: "ty \<in> set integer_types" and w: "bit w 31"
  have "shrink False 4 w = 5" using w by (rule shrink_unsigned)
  then have "bs = ty # length_octets 5 @ be_bytes 5 (unat w)"
    using assms(1) by (auto simp: a then_put_Some put_Some Let_def)
  moreover have "be_bytes 5 (unat w) \<noteq> []" using length_be_bytes [of 5 "unat w"] by force
  ultimately show ?thesis
    using ty get_data_octets [of "be_bytes 5 (unat w)" r]
    unfolding asn_demarshal_def demarshal.simps by (simp add: get_integer_def)
qed

subsection \<open>Witnesses\<close>

text \<open>\<open>GETNEXT\<close> of the object id 1.3.6.1.4.1.318.\<close>

definition demo_getnext :: asn where
  "demo_getnext = ASequence GETNEXT_REQ_PDU [integer_of 70000, integer_of 0, integer_of (- 1),
     ASequence ASN_SEQUENCE [ASequence ASN_SEQUENCE [AObjectId [1, 3, 6, 1, 4, 1, 318], ANull]]]"

theorem asn_round_trip_witness:
  "\<exists>bs m. marshal demo_getnext 8192 = Some (bs, m) \<and> asn_size demo_getnext = Some (length bs) \<and>
    asn_demarshal (bs @ [1]) = Some (demo_getnext, [1])"
proof (rule asn_round_trip)
  have s: "asn_size demo_getnext = Some 28" by code_simp
  show "asn_ok demo_getnext" by code_simp
  show "the (asn_size demo_getnext) \<le> 8192" "the (asn_size demo_getnext) < 2 ^ 32" by (simp_all add: s)
qed

theorem asn_decoder_ends_witness:
  "\<exists>xs. demarshal 100 [0x30, 4, 5, 0, 5, 0, 7] = Some (Some (ASequence ASN_SEQUENCE xs, [7])) \<and>
    asn_demarshal [0x30, 4, 5, 0, 5, 0, 7] = Some (ASequence ASN_SEQUENCE xs, [7])"
proof -
  have "demarshal 100 [0x30, 4, 5, 0, 5, 0, 7] = Some (Some (ASequence ASN_SEQUENCE [ANull, ANull], [7]))"
    by code_simp
  then show ?thesis using asn_decoder_ends [of "[0x30, 4, 5, 0, 5, 0, 7]" 100] by simp
qed

theorem asn_buffer_overrun_witness: "\<exists>bs m. marshal (AOctetString [65]) 2 = Some (bs, m) \<and> length bs > 2"
proof -
  have m: "marshal (AOctetString [65]) 2 = Some ([4, 1, 65], 0)" by code_simp
  show ?thesis using asn_buffer_overrun [OF m] m by (simp add: length_size_def numbits_def)
qed

theorem asn_refuses_own_encodings_witness:
  "asn_demarshal ([4, 0] @ [2, 1, 7]) = None \<and>
   (\<exists>bs m. marshal (AInteger ASN_GAUGE 0x80000001 False) 20 = Some (bs, m) \<and> asn_demarshal (bs @ []) = None)"
proof
  have "marshal (AOctetString []) 10 = Some ([4, 0], 9)" by code_simp
  then show "asn_demarshal ([4, 0] @ [2, 1, 7]) = None" by (rule asn_refuses_own_encodings) simp
  have b: "bit (0x80000001 :: 32 word) 31" "ASN_GAUGE \<in> set integer_types" by (simp_all add: integer_types_def)
  have "\<exists>bs m. marshal (AInteger ASN_GAUGE 0x80000001 False) 20 = Some (bs, m)"
  proof (rule marshal_succeeds(1))
    show "asn_size (AInteger ASN_GAUGE 0x80000001 False) = Some (6 + length_size 5)"
      by (simp add: shrink_unsigned b)
    show "6 + length_size 5 \<le> 20" using length_size_bounds(2) [of 5] by linarith
  qed
  then show "\<exists>bs m. marshal (AInteger ASN_GAUGE 0x80000001 False) 20 = Some (bs, m) \<and> asn_demarshal (bs @ []) = None"
    using b by (blast intro: asn_refuses_own_encodings)
qed

end
