(* ===== verification/Snmp.thy ===== *)
theory Snmp
  imports Asn DriverKit
begin

text \<open>
  The SNMP engine of the driver (\<open>src/drivers/snmplite/snmp.cpp\<close>): variables and their bindings,
  messages and their encoding, and the exchange of requests and answers with the agent. What
  the two sockets deliver is a script with times, as are the results of opening them and of
  \<open>sendto\<close>. The fields of a \<open>Variable\<close> that nothing has set are zero here.
\<close>

unbundle bit_operations_syntax

subsection \<open>Variables\<close>

record svar =
  va_valid :: bool
  va_type :: ident
  va_i32 :: int
  va_u32 :: int
  va_str :: string

record variable = svar +
  va_seq :: "svar list"

type_synonym oid = "32 word list"

definition new_svar :: svar where
  "new_svar = \<lparr>va_valid = False, va_type = 0, va_i32 = 0, va_u32 = 0, va_str = []\<rparr>"

definition new_variable :: "ident \<Rightarrow> variable" where
  "new_variable ty = \<lparr>va_valid = False, va_type = ty, va_i32 = 0, va_u32 = 0, va_str = [], va_seq = []\<rparr>"

definition variable_of :: "ident \<Rightarrow> int \<Rightarrow> variable" where
  "variable_of ty i = (new_variable ty)\<lparr>va_valid := True, va_i32 := i, va_u32 := i\<rparr>"

definition chars_of :: "byte list \<Rightarrow> string" where
  "chars_of bs = c_str (map (\<lambda>b. char_of (unat b)) bs)"

definition bytes_of :: "string \<Rightarrow> byte list" where
  "bytes_of s = map (\<lambda>c. of_nat (char_code c)) s"

definition vb_extract :: "asn \<Rightarrow> 'a svar_scheme \<Rightarrow> 'a svar_scheme" where
  "vb_extract data out =
     (let out1 = out\<lparr>va_type := asn_type data\<rparr>
      in case data of
           AInteger _ w _ \<Rightarrow> out1\<lparr>va_i32 := sint w, va_u32 := uint w, va_valid := True\<rparr>
         | AOctetString bs \<Rightarrow> out1\<lparr>va_str := chars_of bs, va_valid := True\<rparr>
         | _ \<Rightarrow> out1)"

definition is_child_of :: "oid \<Rightarrow> oid \<Rightarrow> bool" where
  "is_child_of x parent \<longleftrightarrow> length parent < length x \<and> take (length parent) x = parent"

subsection \<open>Bindings and messages\<close>

type_synonym varbind = "oid \<times> asn"

definition new_varbind :: "oid \<Rightarrow> variable option \<Rightarrow> varbind" where
  "new_varbind x data = (x, case data of
      None \<Rightarrow> ANull
    | Some v \<Rightarrow>
        if va_type v = ASN_INTEGER then AInteger (va_type v) (word_of_int (va_i32 v)) (va_i32 v < 0)
        else if va_type v \<in> {ASN_TIMETICKS, ASN_COUNTER, ASN_GAUGE}
        then AInteger (va_type v) (word_of_int (va_u32 v)) False
        else if va_type v = ASN_OCTETSTRING then AOctetString (bytes_of (va_str v))
        else ANull)"

fun varbind_of :: "asn list \<Rightarrow> varbind" where
  "varbind_of [AObjectId x, d] = (x, d)"
| "varbind_of _ = ([], ANull)"

definition vblist_of :: "asn list \<Rightarrow> varbind list" where
  "vblist_of xs = List.map_filter (\<lambda>x. case x of ASequence _ ys \<Rightarrow> Some (varbind_of ys) | _ \<Rightarrow> None) xs"

datatype snmp_msg =
    VbListMsg (sm_type: ident) (sm_community: string) (sm_reqid: int) (sm_errstatus: int)
      (sm_errindex: int) (sm_vblist: "varbind list")
  | TrapMsg (sm_type: ident) (sm_community: string) (sm_enterprise: oid) (sm_generic: int)
      (sm_specific: int) (sm_timestamp: int) (sm_vblist: "varbind list")

definition vblist_message :: "ident \<Rightarrow> string \<Rightarrow> asn list \<Rightarrow> snmp_msg option" where
  "vblist_message ty comm xs = (case xs of
      [AInteger _ r _, AInteger _ e _, AInteger _ i _, ASequence _ vs] \<Rightarrow>
        Some (VbListMsg ty comm (sint r) (sint e) (sint i) (vblist_of vs))
    | _ \<Rightarrow> None)"

definition trap_message :: "ident \<Rightarrow> string \<Rightarrow> asn list \<Rightarrow> snmp_msg option" where
  "trap_message ty comm xs = (case xs of
      [AObjectId x, AOctetString _, AInteger _ g _, AInteger _ sp _, AInteger _ t _, ASequence _ vs] \<Rightarrow>
        Some (TrapMsg ty comm x (sint g) (sint sp) (uint t) (vblist_of vs))
    | _ \<Rightarrow> None)"

definition message_of :: "asn \<Rightarrow> snmp_msg option" where
  "message_of obj = (case obj of
      ASequence _ [AInteger _ ver _, AOctetString c, pdu] \<Rightarrow>
        if sint ver \<noteq> 0 then None
        else (case pdu of
                ASequence ty xs \<Rightarrow>
                  if ty = GET_REQ_PDU \<or> ty = GETNEXT_REQ_PDU \<or> ty = GET_RSP_PDU
                  then vblist_message ty (chars_of c) xs
                  else if ty = TRAP_PDU then trap_message ty (chars_of c) xs
                  else None
              | _ \<Rightarrow> None)
    | _ \<Rightarrow> None)"

definition message_demarshal :: "byte list \<Rightarrow> snmp_msg option" where
  "message_demarshal bs = (case asn_demarshal bs of None \<Rightarrow> None | Some (obj, _) \<Rightarrow> message_of obj)"

definition varbind_asn :: "varbind \<Rightarrow> asn" where
  "varbind_asn = (\<lambda>(x, d). ASequence ASN_SEQUENCE [AObjectId x, d])"

definition request_asn :: "ident \<Rightarrow> string \<Rightarrow> int \<Rightarrow> varbind list \<Rightarrow> asn" where
  "request_asn ty comm reqid vbs =
     ASequence ASN_SEQUENCE [integer_of 0, AOctetString (bytes_of comm),
       ASequence ty [integer_of reqid, integer_of 0, integer_of 0, ASequence ASN_SEQUENCE (map varbind_asn vbs)]]"

subsection \<open>The engine\<close>

datatype datagram =
    Datagram bool "byte list"     \<comment> \<open>whether it comes from our agent, and its contents\<close>
  | SelectFails int
  | RecvFails int

record snmp_engine =
  se_socket :: bool
  se_trapsock :: bool
  se_reqid :: int
  se_community :: string
  se_now :: int                      \<comment> \<open>microseconds\<close>
  se_in :: "(int \<times> datagram) list"
  se_trapin :: "(int \<times> datagram) list"
  se_sent :: "byte list list"
  se_opens :: "bool list"            \<comment> \<open>the results of looking up the host and opening the socket\<close>
  se_trapopens :: "bool list"
  se_sends :: "nat \<Rightarrow> bool"
  se_crashed :: bool                 \<comment> \<open>a null pointer was followed\<close>

definition new_engine :: "int \<Rightarrow> snmp_engine" where
  "new_engine now = \<lparr>se_socket = False, se_trapsock = False, se_reqid = 0, se_community = [], se_now = now,
     se_in = [], se_trapin = [], se_sent = [], se_opens = [], se_trapopens = [], se_sends = (\<lambda>_. True),
     se_crashed = False\<rparr>"

definition engine_close :: "snmp_engine \<Rightarrow> snmp_engine" where
  "engine_close e = e\<lparr>se_socket := False, se_trapsock := False\<rparr>"

text \<open>The next result of a script of results; one that has run out only fails.\<close>

definition next_result :: "bool list \<Rightarrow> bool \<times> bool list" where
  "next_result rs = (case rs of [] \<Rightarrow> (False, []) | r # q \<Rightarrow> (r, q))"

definition engine_open :: "string \<Rightarrow> snmp_engine \<Rightarrow> bool \<times> snmp_engine" where
  "engine_open comm e =
     (let (ok, rs) = next_result (se_opens e)
      in (ok, (engine_close e)\<lparr>se_community := comm, se_reqid := se_now e mod 1000000, se_opens := rs, se_socket := ok\<rparr>))"

definition enable_traps :: "snmp_engine \<Rightarrow> bool \<times> snmp_engine" where
  "enable_traps e = (let (ok, rs) = next_result (se_trapopens e) in (ok, e\<lparr>se_trapopens := rs, se_trapsock := ok\<rparr>))"

definition issue :: "asn \<Rightarrow> snmp_engine \<Rightarrow> bool \<times> snmp_engine" where
  "issue msg e =
     (case marshal msg 8192 of
        None \<Rightarrow> (False, e)
      | Some (bs, _) \<Rightarrow>
          (se_socket e \<and> se_sends e (length (se_sent e)), e\<lparr>se_sent := se_sent e @ [bs]\<rparr>))"

text \<open>
  The wait for a message until \<open>exit\<close>, over what is still to come on a socket; its result is the
  message, the time and what is left of the script.
\<close>

fun rspwait_loop ::
  "int \<Rightarrow> (snmp_msg \<Rightarrow> bool) \<Rightarrow> (int \<times> datagram) list \<Rightarrow> int \<Rightarrow> snmp_msg option \<times> int \<times> (int \<times> datagram) list" where
  "rspwait_loop exit wanted [] now = (None, max now exit, [])"
| "rspwait_loop exit wanted ((t, d) # w) now =
     (if now \<ge> exit then (None, now, (t, d) # w)
      else if t > exit then (None, exit, (t, d) # w)
      else let now1 = max now t
           in case d of
                SelectFails errno \<Rightarrow>
                  if errno = EAGAIN \<or> errno = EINTR then rspwait_loop exit wanted w now1 else (None, now1, w)
              | RecvFails errno \<Rightarrow>
                  if errno = EAGAIN \<or> errno = EINTR then rspwait_loop exit wanted w now1 else (None, now1, w)
              | Datagram ours bs \<Rightarrow>
                  if \<not> ours then rspwait_loop exit wanted w now1
                  else case message_demarshal (take 8192 bs) of
                         None \<Rightarrow> rspwait_loop exit wanted w now1
                       | Some m \<Rightarrow> if wanted m then (Some m, now1, w) else rspwait_loop exit wanted w now1)"

definition wanted_response :: "int \<Rightarrow> snmp_msg \<Rightarrow> bool" where
  "wanted_response reqid m \<longleftrightarrow> sm_type m = GET_RSP_PDU \<and> sm_reqid m = reqid - 1"

definition rspwait :: "int \<Rightarrow> snmp_engine \<Rightarrow> snmp_msg option \<times> snmp_engine" where
  "rspwait msec e =
     (let (r, now, w) = rspwait_loop (se_now e + msec * 1000) (wanted_response (se_reqid e)) (se_in e) (se_now e)
      in (r, e\<lparr>se_now := now, se_in := w\<rparr>))"

definition trap_wait :: "int \<Rightarrow> snmp_engine \<Rightarrow> snmp_msg option \<times> snmp_engine" where
  "trap_wait msec e =
     (if \<not> se_trapsock e then (None, e)
      else let (r, now, w) = rspwait_loop (se_now e + msec * 1000) (\<lambda>m. sm_type m = TRAP_PDU) (se_trapin e) (se_now e)
           in (r, e\<lparr>se_now := now, se_trapin := w\<rparr>))"

definition perform :: "asn \<Rightarrow> snmp_engine \<Rightarrow> snmp_msg option \<times> snmp_engine" where
  "perform req e =
     (let (ok, e1) = issue req e
      in if \<not> ok then (None, e1)
         else let (r, e2) = rspwait 2000 e1
              in case r of
                   None \<Rightarrow> (None, e2)
                 | Some m \<Rightarrow> (if sm_errstatus m \<noteq> 0 then None else Some m, e2))"

text \<open>A new request: its id is counted up as it is built.\<close>

definition new_request :: "ident \<Rightarrow> varbind list \<Rightarrow> snmp_engine \<Rightarrow> asn \<times> snmp_engine" where
  "new_request ty vbs e = (request_asn ty (se_community e) (se_reqid e) vbs, e\<lparr>se_reqid := se_reqid e + 1\<rparr>)"

definition snmp_set :: "oid \<Rightarrow> variable \<Rightarrow> snmp_engine \<Rightarrow> bool \<times> snmp_engine" where
  "snmp_set x data e =
     (let (req, e1) = new_request SET_REQ_PDU [new_varbind x (Some data)] e;
          (ok, e2) = issue req e1
      in if \<not> ok then (False, e2)
         else let (r, e3) = rspwait 1000 e2
              in (case r of None \<Rightarrow> False | Some m \<Rightarrow> sm_errstatus m = 0, e3))"

subsection \<open>Fetching variables\<close>

type_synonym oidvar = "oid \<times> variable"

text \<open>A value goes to the first variable that its object id belongs to.\<close>

fun store_value :: "varbind \<Rightarrow> oidvar list \<Rightarrow> oidvar list" where
  "store_value vb [] = []"
| "store_value (x, d) ((y, v) # vs) =
     (if is_child_of x y then (y, vb_extract d v) # vs else (y, v) # store_value (x, d) vs)"

definition is_scalar :: "oidvar \<Rightarrow> bool" where
  "is_scalar ov \<longleftrightarrow> va_type (snd ov) \<noteq> ASN_SEQUENCE"

definition get_scalars :: "oidvar list \<Rightarrow> snmp_engine \<Rightarrow> oidvar list option \<times> snmp_engine" where
  "get_scalars oids e =
     (let asked = map (\<lambda>ov. new_varbind (fst ov) None) (filter is_scalar oids);
          vs = map (\<lambda>(y, v). (y, v\<lparr>va_valid := False\<rparr>)) oids;
          (req, e1) = new_request GETNEXT_REQ_PDU asked e
      in if asked = [] then (Some vs, e1)
         else case perform req e1 of
                (None, e2) \<Rightarrow> (None, e2)
              | (Some m, e2) \<Rightarrow>
                  if length (sm_vblist m) \<noteq> length asked then (None, e2)
                  else (Some (fold store_value (sm_vblist m) vs), e2))"

text \<open>
  The values of a sequence, one request after the other. A request takes at least one datagram
  or is the last, so that the number of those still to come is fuel enough.
\<close>

fun walk :: "nat \<Rightarrow> oid \<Rightarrow> oid \<Rightarrow> variable \<Rightarrow> snmp_engine \<Rightarrow> variable \<times> snmp_engine" where
  "walk 0 base x v e = (v, e)"
| "walk (Suc fuel) base x v e =
     (let (req, e1) = new_request GETNEXT_REQ_PDU [new_varbind x None] e
      in case perform req e1 of
           (None, e2) \<Rightarrow> (v, e2)
         | (Some m, e2) \<Rightarrow>
             (case sm_vblist m of
                [] \<Rightarrow> (v, e2\<lparr>se_crashed := True\<rparr>)
              | (y, d) # _ \<Rightarrow>
                  if \<not> is_child_of y base then (v, e2)
                  else walk fuel base y (v\<lparr>va_seq := va_seq v @ [vb_extract d new_svar], va_valid := True\<rparr>) e2))"

fun get_sequences :: "oidvar list \<Rightarrow> snmp_engine \<Rightarrow> oidvar list \<times> snmp_engine" where
  "get_sequences [] e = ([], e)"
| "get_sequences ((y, v) # vs) e =
     (let (v1, e1) = (if is_scalar (y, v) then (v, e) else walk (Suc (length (se_in e))) y y v e);
          (vs1, e2) = get_sequences vs e1
      in ((y, v1) # vs1, e2))"

definition snmp_get_all :: "oidvar list \<Rightarrow> snmp_engine \<Rightarrow> oidvar list option \<times> snmp_engine" where
  "snmp_get_all oids e =
     (case get_scalars oids e of
        (None, e1) \<Rightarrow> (None, e1)
      | (Some vs, e1) \<Rightarrow> let (vs1, e2) = get_sequences vs e1 in (Some vs1, e2))"

definition snmp_get :: "oid \<Rightarrow> variable \<Rightarrow> snmp_engine \<Rightarrow> variable option \<times> snmp_engine" where
  "snmp_get x data e =
     (case snmp_get_all [(x, data)] e of
        (Some ((_, v) # _), e1) \<Rightarrow> (Some v, e1)
      | (_, e1) \<Rightarrow> (None, e1))"

end
