(* ===== verification/SnmpMibs.thy ===== *)
theory SnmpMibs
  imports Snmp
begin

text \<open>
  The three MIBs of the SNMP driver (\<open>apc-mib.cpp\<close>, \<open>rfc1628-mib.cpp\<close>, \<open>mge-mib.cpp\<close>, with the object
  ids of their headers): which object each capability is read from, what its value assigns in
  \<open>UPSINFO\<close>, and what is set to turn the UPS off.
\<close>

type_synonym mib_entry = "nat \<times> oid \<times> ident \<times> bool"   \<comment> \<open>capability, object, type, dynamic?\<close>

definition apc_root :: oid where "apc_root = [1, 3, 6, 1, 4, 1, 318, 1, 1]"
definition rfc_root :: oid where "rfc_root = [1, 3, 6, 1, 2, 1, 33, 1]"
definition mge_root :: oid where "mge_root = [1, 3, 6, 1, 4, 1, 705, 1]"

subsection \<open>The tables\<close>

definition APC_MIB :: "mib_entry list" where
  "APC_MIB =
     [(CI_UPSMODEL, apc_root @ [1, 1, 1, 1], ASN_OCTETSTRING, False),
      (CI_SERNO, apc_root @ [1, 1, 2, 3], ASN_OCTETSTRING, False),
      (CI_IDEN, apc_root @ [1, 1, 1, 2], ASN_OCTETSTRING, False),
      (CI_REVNO, apc_root @ [1, 1, 2, 1], ASN_OCTETSTRING, False),
      (CI_MANDAT, apc_root @ [1, 1, 2, 2], ASN_OCTETSTRING, False),
      (CI_BATTDAT, apc_root @ [1, 2, 1, 3], ASN_OCTETSTRING, False),
      (CI_NOMBATTV, apc_root @ [1, 2, 2, 7], ASN_INTEGER, False),
      (CI_NOMOUTV, apc_root @ [1, 5, 2, 1], ASN_INTEGER, False),
      (CI_LTRANS, apc_root @ [1, 5, 2, 3], ASN_INTEGER, False),
      (CI_HTRANS, apc_root @ [1, 5, 2, 2], ASN_INTEGER, False),
      (CI_DWAKE, apc_root @ [1, 5, 2, 9], ASN_TIMETICKS, False),
      (CI_AlarmTimer, apc_root @ [1, 5, 2, 5], ASN_TIMETICKS, False),
      (CI_DALARM, apc_root @ [1, 5, 2, 4], ASN_INTEGER, False),
      (CI_DLBATT, apc_root @ [1, 5, 2, 8], ASN_TIMETICKS, False),
      (CI_DSHUTD, apc_root @ [1, 5, 2, 10], ASN_TIMETICKS, False),
      (CI_RETPCT, apc_root @ [1, 5, 2, 6], ASN_INTEGER, False),
      (CI_SENS, apc_root @ [1, 5, 2, 7], ASN_INTEGER, False),
      (CI_EXTBATTS, apc_root @ [1, 2, 2, 5], ASN_INTEGER, False),
      (CI_STESTI, apc_root @ [1, 7, 2, 1], ASN_INTEGER, False),
      (CI_VLINE, apc_root @ [1, 3, 2, 1], ASN_GAUGE, True),
      (CI_VOUT, apc_root @ [1, 4, 2, 1], ASN_GAUGE, True),
      (CI_VBATT, apc_root @ [1, 2, 2, 8], ASN_INTEGER, True),
      (CI_FREQ, apc_root @ [1, 3, 2, 4], ASN_GAUGE, True),
      (CI_LOAD, apc_root @ [1, 4, 2, 3], ASN_GAUGE, True),
      (CI_ITEMP, apc_root @ [1, 2, 2, 2], ASN_GAUGE, True),
      (CI_ATEMP, apc_root @ [2, 1, 1], ASN_GAUGE, True),
      (CI_HUMID, apc_root @ [2, 1, 2], ASN_GAUGE, True),
      (CI_ST_STAT, apc_root @ [1, 7, 2, 3], ASN_INTEGER, True),
      (CI_BATTLEV, apc_root @ [1, 2, 2, 1], ASN_GAUGE, True),
      (CI_RUNTIM, apc_root @ [1, 2, 2, 3], ASN_TIMETICKS, True),
      (CI_WHY_BATT, apc_root @ [1, 3, 2, 5], ASN_INTEGER, True),
      (CI_BADBATTS, apc_root @ [1, 2, 2, 6], ASN_INTEGER, True),
      (CI_VMIN, apc_root @ [1, 3, 2, 3], ASN_GAUGE, True),
      (CI_VMAX, apc_root @ [1, 3, 2, 2], ASN_GAUGE, True),
      (CI_STATUS, apc_root @ [1, 4, 1, 1], ASN_INTEGER, True),
      (CI_NeedReplacement, apc_root @ [1, 2, 2, 4], ASN_INTEGER, True),
      (CI_LowBattery, apc_root @ [1, 2, 1, 1], ASN_INTEGER, True),
      (CI_Calibration, apc_root @ [1, 7, 2, 6], ASN_INTEGER, True),
      (CI_Overload, apc_root @ [1, 11, 1, 1], ASN_OCTETSTRING, True)]"

definition RFC_MIB :: "mib_entry list" where
  "RFC_MIB =
     [(CI_UPSMODEL, rfc_root @ [1, 2], ASN_OCTETSTRING, False),
      (CI_IDEN, rfc_root @ [1, 5], ASN_OCTETSTRING, False),
      (CI_REVNO, rfc_root @ [1, 3], ASN_OCTETSTRING, False),
      (CI_NOMOUTV, rfc_root @ [9, 3], ASN_INTEGER, False),
      (CI_NOMINV, rfc_root @ [9, 1], ASN_INTEGER, False),
      (CI_NOMPOWER, rfc_root @ [9, 6], ASN_INTEGER, False),
      (CI_LTRANS, rfc_root @ [9, 9], ASN_INTEGER, False),
      (CI_HTRANS, rfc_root @ [9, 10], ASN_INTEGER, False),
      (CI_DALARM, rfc_root @ [9, 8], ASN_INTEGER, False),
      (CI_DLBATT, rfc_root @ [9, 7], ASN_INTEGER, False),
      (CI_VLINE, rfc_root @ [3, 3, 1, 3], ASN_SEQUENCE, True),
      (CI_VOUT, rfc_root @ [4, 4, 1, 2], ASN_SEQUENCE, True),
      (CI_VBATT, rfc_root @ [2, 5], ASN_INTEGER, True),
      (CI_FREQ, rfc_root @ [3, 3, 1, 2], ASN_SEQUENCE, True),
      (CI_LOAD, rfc_root @ [4, 4, 1, 5], ASN_SEQUENCE, True),
      (CI_ITEMP, rfc_root @ [2, 7], ASN_INTEGER, True),
      (CI_ST_STAT, rfc_root @ [7, 3], ASN_INTEGER, True),
      (CI_BATTLEV, rfc_root @ [2, 4], ASN_INTEGER, True),
      (CI_RUNTIM, rfc_root @ [2, 3], ASN_INTEGER, True),
      (CI_STATUS, rfc_root @ [4, 1], ASN_INTEGER, True),
      (CI_LowBattery, rfc_root @ [2, 1], ASN_INTEGER, True)]"

definition MGE_MIB :: "mib_entry list" where
  "MGE_MIB =
     [(CI_UPSMODEL, mge_root @ [1, 1], ASN_OCTETSTRING, False),
      (CI_STATUS, mge_root @ [7, 3], ASN_INTEGER, True),
      (CI_WHY_BATT, mge_root @ [6, 4], ASN_INTEGER, True),
      (CI_ST_STAT, mge_root @ [10, 3], ASN_INTEGER, True),
      (CI_VLINE, mge_root @ [6, 2, 1, 2], ASN_SEQUENCE, True),
      (CI_VMAX, mge_root @ [6, 2, 1, 5], ASN_SEQUENCE, True),
      (CI_VMIN, mge_root @ [6, 2, 1, 4], ASN_SEQUENCE, True),
      (CI_VOUT, mge_root @ [7, 2, 1, 2], ASN_SEQUENCE, True),
      (CI_BATTLEV, mge_root @ [5, 2], ASN_INTEGER, True),
      (CI_VBATT, mge_root @ [5, 5], ASN_INTEGER, True),
      (CI_LOAD, mge_root @ [7, 2, 1, 4], ASN_SEQUENCE, True),
      (CI_FREQ, mge_root @ [6, 2, 1, 3], ASN_SEQUENCE, True),
      (CI_RUNTIM, mge_root @ [5, 1], ASN_INTEGER, True),
      (CI_ITEMP, mge_root @ [5, 7], ASN_INTEGER, True),
      (CI_DWAKE, mge_root @ [4, 23, 1, 8], ASN_INTEGER, False),
      (CI_DSHUTD, mge_root @ [4, 11], ASN_INTEGER, False),
      (CI_LTRANS, mge_root @ [4, 13], ASN_INTEGER, False),
      (CI_HTRANS, mge_root @ [4, 14], ASN_INTEGER, False),
      (CI_RETPCT, mge_root @ [4, 5], ASN_INTEGER, False),
      (CI_AlarmTimer, mge_root @ [4, 20], ASN_INTEGER, False),
      (CI_DALARM, mge_root @ [4, 19], ASN_INTEGER, False),
      (CI_DLBATT, mge_root @ [4, 7], ASN_INTEGER, False),
      (CI_STESTI, mge_root @ [10, 1], ASN_INTEGER, False),
      (CI_SERNO, mge_root @ [1, 7], ASN_OCTETSTRING, False),
      (CI_NOMBATTV, mge_root @ [4, 2], ASN_INTEGER, False),
      (CI_HUMID, mge_root @ [8, 2], ASN_INTEGER, True),
      (CI_REVNO, mge_root @ [1, 4], ASN_OCTETSTRING, False),
      (CI_ATEMP, mge_root @ [8, 1], ASN_INTEGER, True),
      (CI_NOMOUTV, mge_root @ [4, 15], ASN_INTEGER, False),
      (CI_Boost, mge_root @ [7, 8], ASN_INTEGER, True),
      (CI_Trim, mge_root @ [7, 12], ASN_INTEGER, True),
      (CI_Overload, mge_root @ [7, 10], ASN_INTEGER, True),
      (CI_NeedReplacement, mge_root @ [5, 11], ASN_INTEGER, True),
      (CI_LowBattery, mge_root @ [5, 14], ASN_INTEGER, True)]"

subsection \<open>What a value assigns\<close>

text \<open>
  The static timer of the alarm, and \<open>UPSINFO\<close>; the result is \<open>None\<close> where the daemon aborts. A
  value stored into an \<open>int\<close> is converted.
\<close>

type_synonym mib_state = "int \<times> upsinfo"
type_synonym mib_case = "variable \<Rightarrow> mib_state \<Rightarrow> mib_state option"

definition assign :: "(variable \<Rightarrow> upsinfo \<Rightarrow> upsinfo) \<Rightarrow> mib_case" where
  "assign f v st = Some (fst st, f v (snd st))"

definition to_int :: "int \<Rightarrow> int" where
  "to_int u = sint (word_of_int u :: 32 word)"

text \<open>Sequences are never empty here.\<close>

definition first_u32 :: "variable \<Rightarrow> int" where
  "first_u32 v = (case va_seq v of [] \<Rightarrow> 0 | x # _ \<Rightarrow> va_u32 x)"

definition average_u32 :: "variable \<Rightarrow> rat" where
  "average_u32 v = fold (\<lambda>x a. a + of_int (va_u32 x)) (va_seq v) 0 / of_nat (length (va_seq v))"

definition one_of :: "(int \<times> 'a) list \<Rightarrow> 'a \<Rightarrow> int \<Rightarrow> 'a" where
  "one_of table other i = (case map_of table i of None \<Rightarrow> other | Some x \<Rightarrow> x)"

definition flag_if :: "bool \<Rightarrow> (upsinfo \<Rightarrow> upsinfo) \<Rightarrow> (upsinfo \<Rightarrow> upsinfo) \<Rightarrow> upsinfo \<Rightarrow> upsinfo" where
  "flag_if b set_f clear_f u = (if b then set_f u else clear_f u)"

definition clear_power :: "upsinfo \<Rightarrow> upsinfo" where
  "clear_power u = clear_trim (clear_boost (clear_onbatt (clear_online u)))"

text \<open>APC's own MIB.\<close>

definition apc_status :: "int \<Rightarrow> upsinfo \<Rightarrow> upsinfo" where
  "apc_status i u =
     one_of [(2, set_online), (3, set_onbatt), (4, \<lambda>u. set_boost (set_online u)), (12, \<lambda>u. set_trim (set_online u))]
       (\<lambda>u. u) i (clear_power u)"

definition apc_beeps :: mib_case where
  "apc_beeps v st = (case st of (alarm, u) \<Rightarrow>
     Some (alarm, u\<lparr>beepstate := strlcpy_to 8
       (if va_u32 v = 1 then (if UPS_Cap u CI_AlarmTimer \<and> alarm < 30 then ''0'' else ''T'')
        else if va_u32 v = 2 then ''L'' else if va_u32 v = 3 then ''N'' else ''T'')\<rparr>))"

text \<open>\<open>data.str[8]\<close>: the index operator of the string class aborts behind the end.\<close>

definition apc_overload :: mib_case where
  "apc_overload v st =
     (if length (va_str v) \<le> 8 then None
      else Some (fst st, flag_if (va_str v ! 8 = CHR ''1'') set_overload clear_overload (snd st)))"

definition apc_cases :: "(nat \<times> mib_case) list" where
  "apc_cases =
     [(CI_VLINE, assign (\<lambda>v u. u\<lparr>LineVoltage := of_int (va_u32 v)\<rparr>)),
      (CI_VOUT, assign (\<lambda>v u. u\<lparr>OutputVoltage := of_int (va_u32 v)\<rparr>)),
      (CI_VBATT, assign (\<lambda>v u. u\<lparr>BattVoltage := of_int (va_u32 v)\<rparr>)),
      (CI_FREQ, assign (\<lambda>v u. u\<lparr>LineFreq := of_int (va_u32 v)\<rparr>)),
      (CI_LOAD, assign (\<lambda>v u. u\<lparr>UPSLoad := of_int (va_u32 v)\<rparr>)),
      (CI_ITEMP, assign (\<lambda>v u. if va_u32 v \<le> 200 then u\<lparr>UPSTemp := of_int (va_u32 v)\<rparr> else u)),
      (CI_ATEMP, assign (\<lambda>v u. u\<lparr>ambtemp := of_int (va_u32 v)\<rparr>)),
      (CI_HUMID, assign (\<lambda>v u. u\<lparr>humidity := of_int (va_u32 v)\<rparr>)),
      (CI_NOMBATTV, assign (\<lambda>v u. u\<lparr>nombattv := of_int (va_u32 v)\<rparr>)),
      (CI_NOMOUTV, assign (\<lambda>v u. u\<lparr>NomOutputVoltage := to_int (va_u32 v)\<rparr>)),
      (CI_NOMINV, assign (\<lambda>v u. u\<lparr>NomInputVoltage := to_int (va_u32 v)\<rparr>)),
      (CI_NOMPOWER, assign (\<lambda>v u. u\<lparr>NomPower := to_int (va_u32 v)\<rparr>)),
      (CI_LTRANS, assign (\<lambda>v u. u\<lparr>lotrans := to_int (va_u32 v)\<rparr>)),
      (CI_HTRANS, assign (\<lambda>v u. u\<lparr>hitrans := to_int (va_u32 v)\<rparr>)),
      (CI_DWAKE, assign (\<lambda>v u. u\<lparr>dwake := to_int (va_u32 v)\<rparr>)),
      (CI_ST_STAT, assign (\<lambda>v u. u\<lparr>testresult :=
         one_of [(1, TEST_PASSED), (2, TEST_FAILED), (3, TEST_FAILED), (4, TEST_INPROGRESS)] TEST_UNKNOWN (va_u32 v)\<rparr>)),
      (CI_AlarmTimer, \<lambda>v st. Some (va_u32 v, snd st)),
      (CI_DALARM, apc_beeps),
      (CI_UPSMODEL, assign (\<lambda>v u. u\<lparr>upsmodel := strlcpy_to 256 (va_str v)\<rparr>)),
      (CI_SERNO, assign (\<lambda>v u. u\<lparr>serial := strlcpy_to 32 (va_str v)\<rparr>)),
      (CI_MANDAT, assign (\<lambda>v u. u\<lparr>birth := strlcpy_to 20 (va_str v)\<rparr>)),
      (CI_BATTLEV, assign (\<lambda>v u. u\<lparr>BattChg := of_int (va_u32 v)\<rparr>)),
      (CI_RUNTIM, assign (\<lambda>v u. u\<lparr>TimeLeft := of_int (va_u32 v div 100 div 60)\<rparr>)),
      (CI_BATTDAT, assign (\<lambda>v u. u\<lparr>battdat := strlcpy_to 20 (va_str v)\<rparr>)),
      (CI_IDEN, assign (\<lambda>v u. u\<lparr>upsname := strlcpy_to 100 (va_str v)\<rparr>)),
      (CI_STATUS, assign (\<lambda>v. apc_status (va_u32 v))),
      (CI_NeedReplacement, assign (\<lambda>v. flag_if (va_u32 v = 2) set_replacebatt clear_replacebatt)),
      (CI_LowBattery, assign (\<lambda>v. flag_if (va_u32 v = 3) set_battlow clear_battlow)),
      (CI_Calibration, assign (\<lambda>v. flag_if (va_u32 v = 3) set_calibration clear_calibration)),
      (CI_Overload, apc_overload),
      (CI_DSHUTD, assign (\<lambda>v u. u\<lparr>dshutd := va_u32 v div 100\<rparr>)),
      (CI_RETPCT, assign (\<lambda>v u. u\<lparr>rtnpct := to_int (va_u32 v)\<rparr>)),
      (CI_WHY_BATT, assign (\<lambda>v u. u\<lparr>lastxfer :=
         one_of [(1, XFER_NONE), (2, XFER_OVERVOLT), (3, XFER_UNDERVOLT), (4, XFER_UNDERVOLT), (5, XFER_NOTCHSPIKE),
           (6, XFER_NOTCHSPIKE), (7, XFER_NOTCHSPIKE), (8, XFER_NOTCHSPIKE), (9, XFER_SELFTEST), (10, XFER_RIPPLE)]
           XFER_UNKNOWN (va_u32 v)\<rparr>)),
      (CI_SENS, assign (\<lambda>v u. u\<lparr>sensitivity := strlcpy_to 8
         (one_of [(1, ''Auto''), (2, ''Low''), (3, ''Medium''), (4, ''High'')] ''Unknown'' (va_u32 v))\<rparr>)),
      (CI_REVNO, assign (\<lambda>v u. u\<lparr>firmrev := strlcpy_to 20 (va_str v)\<rparr>)),
      (CI_EXTBATTS, assign (\<lambda>v u. u\<lparr>extbatts := to_int (va_u32 v)\<rparr>)),
      (CI_BADBATTS, assign (\<lambda>v u. u\<lparr>badbatts := to_int (va_u32 v)\<rparr>)),
      (CI_DLBATT, assign (\<lambda>v u. u\<lparr>dlowbatt := va_u32 v div 100 div 60\<rparr>)),
      (CI_STESTI, assign (\<lambda>v u. u\<lparr>selftest := strlcpy_to 9
         (one_of [(2, ''336''), (3, ''168''), (4, ''ON'')] ''OFF'' (va_u32 v))\<rparr>)),
      (CI_VMIN, assign (\<lambda>v u. u\<lparr>LineMin := of_int (va_u32 v)\<rparr>)),
      (CI_VMAX, assign (\<lambda>v u. u\<lparr>LineMax := of_int (va_u32 v)\<rparr>))]"

text \<open>The MIB of RFC 1628.\<close>

definition rfc_status :: "int \<Rightarrow> upsinfo \<Rightarrow> upsinfo" where
  "rfc_status i u =
     one_of [(3, set_online), (5, set_onbatt), (6, \<lambda>u. set_boost (set_online u)), (7, \<lambda>u. set_trim (set_online u))]
       (\<lambda>u. u) i (clear_power u)"

definition rfc_cases :: "(nat \<times> mib_case) list" where
  "rfc_cases =
     [(CI_VLINE, assign (\<lambda>v u. u\<lparr>LineVoltage := of_int (first_u32 v)\<rparr>)),
      (CI_VOUT, assign (\<lambda>v u. u\<lparr>OutputVoltage := of_int (first_u32 v)\<rparr>)),
      (CI_VBATT, assign (\<lambda>v u. u\<lparr>BattVoltage := of_int (va_u32 v) / 10\<rparr>)),
      (CI_FREQ, assign (\<lambda>v u. u\<lparr>LineFreq := of_int (first_u32 v) / 10\<rparr>)),
      (CI_LOAD, assign (\<lambda>v u. u\<lparr>UPSLoad := average_u32 v\<rparr>)),
      (CI_ITEMP, assign (\<lambda>v u. u\<lparr>UPSTemp := of_int (va_u32 v)\<rparr>)),
      (CI_NOMOUTV, assign (\<lambda>v u. u\<lparr>NomOutputVoltage := to_int (va_u32 v)\<rparr>)),
      (CI_NOMINV, assign (\<lambda>v u. u\<lparr>NomInputVoltage := to_int (va_u32 v)\<rparr>)),
      (CI_NOMPOWER, assign (\<lambda>v u. u\<lparr>NomPower := to_int (va_u32 v)\<rparr>)),
      (CI_LTRANS, assign (\<lambda>v u. u\<lparr>lotrans := to_int (va_u32 v)\<rparr>)),
      (CI_HTRANS, assign (\<lambda>v u. u\<lparr>hitrans := to_int (va_u32 v)\<rparr>)),
      (CI_ST_STAT, assign (\<lambda>v u. u\<lparr>testresult :=
         one_of [(1, TEST_PASSED), (2, TEST_WARNING), (3, TEST_FAILED), (5, TEST_INPROGRESS), (4, TEST_NONE),
           (6, TEST_NONE)] TEST_UNKNOWN (va_u32 v)\<rparr>)),
      (CI_DALARM, assign (\<lambda>v u. u\<lparr>beepstate := strlcpy_to 8 (if va_u32 v = 1 then ''N'' else ''T'')\<rparr>)),
      (CI_UPSMODEL, assign (\<lambda>v u. u\<lparr>upsmodel := strlcpy_to 256 (va_str v)\<rparr>)),
      (CI_BATTLEV, assign (\<lambda>v u. u\<lparr>BattChg := of_int (va_u32 v)\<rparr>)),
      (CI_RUNTIM, assign (\<lambda>v u. u\<lparr>TimeLeft := of_int (va_u32 v)\<rparr>)),
      (CI_IDEN, assign (\<lambda>v u. u\<lparr>upsname := strlcpy_to 100 (va_str v)\<rparr>)),
      (CI_STATUS, assign (\<lambda>v. rfc_status (va_u32 v))),
      (CI_LowBattery, assign (\<lambda>v. flag_if (va_u32 v = 3 \<or> va_u32 v = 4) set_battlow clear_battlow)),
      (CI_REVNO, assign (\<lambda>v u. u\<lparr>firmrev := strlcpy_to 20 (va_str v)\<rparr>)),
      (CI_DLBATT, assign (\<lambda>v u. u\<lparr>dlowbatt := to_int (va_u32 v)\<rparr>))]"

text \<open>The MIB of MGE.\<close>

definition mge_status :: "int \<Rightarrow> upsinfo \<Rightarrow> upsinfo" where
  "mge_status i u = (if i = 1 then clear_online (set_onbatt u) else clear_onbatt (set_online u))"

definition if_any :: "(variable \<Rightarrow> upsinfo \<Rightarrow> upsinfo) \<Rightarrow> mib_case" where
  "if_any f = assign (\<lambda>v u. if va_seq v = [] then u else f v u)"

definition mge_cases :: "(nat \<times> mib_case) list" where
  "mge_cases =
     [(CI_UPSMODEL, assign (\<lambda>v u. u\<lparr>upsmodel := strlcpy_to 256 (va_str v)\<rparr>)),
      (CI_STATUS, assign (\<lambda>v. mge_status (va_u32 v))),
      (CI_WHY_BATT, assign (\<lambda>v u. u\<lparr>lastxfer :=
         one_of [(1, XFER_NONE), (2, XFER_NOTCHSPIKE), (3, XFER_FREQ)] XFER_UNKNOWN (va_u32 v)\<rparr>)),
      (CI_ST_STAT, assign (\<lambda>v u. u\<lparr>testresult :=
         one_of [(1, TEST_PASSED), (2, TEST_FAILED)] TEST_UNKNOWN (va_u32 v)\<rparr>)),
      (CI_VLINE, if_any (\<lambda>v u. u\<lparr>LineVoltage := of_int (first_u32 v) / 10\<rparr>)),
      (CI_VMAX, if_any (\<lambda>v u. u\<lparr>LineMax := of_int (fold (\<lambda>x m. max m (va_u32 x)) (va_seq v) 0) / 10\<rparr>)),
      (CI_VMIN, if_any (\<lambda>v u. u\<lparr>LineMin := of_int (fold (\<lambda>x m. min m (va_u32 x)) (va_seq v) (first_u32 v)) / 10\<rparr>)),
      (CI_VOUT, if_any (\<lambda>v u. u\<lparr>OutputVoltage := of_int (first_u32 v) / 10\<rparr>)),
      (CI_BATTLEV, assign (\<lambda>v u. u\<lparr>BattChg := of_int (va_u32 v)\<rparr>)),
      (CI_VBATT, assign (\<lambda>v u. u\<lparr>BattVoltage := of_int (va_u32 v) / 10\<rparr>)),
      (CI_LOAD, if_any (\<lambda>v u. u\<lparr>UPSLoad := average_u32 v\<rparr>)),
      (CI_FREQ, if_any (\<lambda>v u. u\<lparr>LineFreq := of_int (first_u32 v) / 10\<rparr>)),
      (CI_RUNTIM, assign (\<lambda>v u. u\<lparr>TimeLeft := of_int (va_u32 v) / 60\<rparr>)),
      (CI_ITEMP, assign (\<lambda>v u. u\<lparr>UPSTemp := of_int (va_u32 v)\<rparr>)),
      (CI_DWAKE, assign (\<lambda>v u. u\<lparr>dwake := to_int (va_u32 v)\<rparr>)),
      (CI_DSHUTD, assign (\<lambda>v u. u\<lparr>dshutd := to_int (va_u32 v)\<rparr>)),
      (CI_LTRANS, assign (\<lambda>v u. u\<lparr>lotrans := to_int (va_u32 v)\<rparr>)),
      (CI_HTRANS, assign (\<lambda>v u. u\<lparr>hitrans := to_int (va_u32 v)\<rparr>)),
      (CI_RETPCT, assign (\<lambda>v u. u\<lparr>rtnpct := to_int (va_u32 v)\<rparr>)),
      (CI_DALARM, \<lambda>v st. Some (fst st, (snd st)\<lparr>beepstate := strlcpy_to 8
         (if va_u32 v = 1 then (if fst st \<noteq> 0 then ''Timed'' else ''NoDelay'') else ''NoAlarm'')\<rparr>)),
      (CI_DLBATT, assign (\<lambda>v u. u\<lparr>dlowbatt := to_int (va_u32 v)\<rparr>)),
      (CI_IDEN, assign (\<lambda>v u. u\<lparr>upsname := strlcpy_to 100 (va_str v)\<rparr>)),
      (CI_STESTI, assign (\<lambda>v u. u\<lparr>selftest := strlcpy_to 9
         (one_of [(2, ''weekly''), (3, ''monthly''), (4, ''atTurnOn''), (6, ''daily'')] ''OFF'' (va_u32 v))\<rparr>)),
      (CI_SERNO, assign (\<lambda>v u. u\<lparr>serial := strlcpy_to 32 (va_str v)\<rparr>)),
      (CI_NOMBATTV, assign (\<lambda>v u. u\<lparr>nombattv := of_int (va_u32 v) / 10\<rparr>)),
      (CI_HUMID, assign (\<lambda>v u. u\<lparr>humidity := of_int (va_u32 v)\<rparr>)),
      (CI_REVNO, assign (\<lambda>v u. u\<lparr>firmrev := strlcpy_to 20 (va_str v)\<rparr>)),
      (CI_ATEMP, assign (\<lambda>v u. u\<lparr>ambtemp := of_int (va_u32 v)\<rparr>)),
      (CI_NOMOUTV, assign (\<lambda>v u. u\<lparr>NomOutputVoltage := va_u32 v div 10\<rparr>)),
      (CI_Boost, assign (\<lambda>v. flag_if (va_u32 v = 1) set_boost clear_boost)),
      (CI_Trim, assign (\<lambda>v. flag_if (va_u32 v = 1) set_trim clear_trim)),
      (CI_Overload, assign (\<lambda>v. flag_if (va_u32 v = 1) set_overload clear_overload)),
      (CI_NeedReplacement, assign (\<lambda>v. flag_if (va_u32 v = 1) set_replacebatt clear_replacebatt)),
      (CI_LowBattery, assign (\<lambda>v. flag_if (va_u32 v = 1) set_battlow clear_battlow)),
      (CI_AlarmTimer, \<lambda>v st. Some (to_int (va_u32 v), snd st))]"

subsection \<open>Turning the UPS off\<close>

fun set_all :: "(oid \<times> int) list \<Rightarrow> snmp_engine \<Rightarrow> snmp_engine" where
  "set_all [] e = e"
| "set_all ((x, i) # xs) e = set_all xs (snd (snmp_set x (variable_of ASN_INTEGER i) e))"

definition apc_killpower :: "snmp_engine \<Rightarrow> bool \<times> snmp_engine" where
  "apc_killpower = snmp_set (apc_root @ [1, 6, 1, 1]) (variable_of ASN_INTEGER 2)"

definition apc_shutdown :: "snmp_engine \<Rightarrow> bool \<times> snmp_engine" where
  "apc_shutdown = snmp_set (apc_root @ [1, 6, 2, 1]) (variable_of ASN_INTEGER 2)"

text \<open>Both return 0, which is \<open>false\<close>.\<close>

definition rfc_killpower :: "snmp_engine \<Rightarrow> bool \<times> snmp_engine" where
  "rfc_killpower e = (False, set_all [(rfc_root @ [8, 1], 1), (rfc_root @ [8, 5], 1), (rfc_root @ [8, 2], 60)] e)"

definition rfc_shutdown :: "snmp_engine \<Rightarrow> bool \<times> snmp_engine" where
  "rfc_shutdown e = (False, set_all [(rfc_root @ [8, 1], 2), (rfc_root @ [8, 5], 2), (rfc_root @ [8, 2], 60)] e)"

subsection \<open>Strategies\<close>

datatype mib = APC | RFC | MGE

definition mib_strategies :: "mib list" where
  "mib_strategies = [APC, RFC, MGE]"

fun mib_name :: "mib \<Rightarrow> string" where
  "mib_name APC = ''APC''"
| "mib_name RFC = ''RFC''"
| "mib_name MGE = ''MGE''"

fun mib_table :: "mib \<Rightarrow> mib_entry list" where
  "mib_table APC = APC_MIB"
| "mib_table RFC = RFC_MIB"
| "mib_table MGE = MGE_MIB"

fun mib_cases :: "mib \<Rightarrow> (nat \<times> mib_case) list" where
  "mib_cases APC = apc_cases"
| "mib_cases RFC = rfc_cases"
| "mib_cases MGE = mge_cases"

definition update_ci_func :: "mib \<Rightarrow> nat \<Rightarrow> mib_case" where
  "update_ci_func m ci v st = (case map_of (mib_cases m) ci of None \<Rightarrow> Some st | Some f \<Rightarrow> f v st)"

fun killpower_func :: "mib \<Rightarrow> (snmp_engine \<Rightarrow> bool \<times> snmp_engine) option" where
  "killpower_func APC = Some apc_killpower"
| "killpower_func RFC = Some rfc_killpower"
| "killpower_func MGE = None"

fun shutdown_func :: "mib \<Rightarrow> (snmp_engine \<Rightarrow> bool \<times> snmp_engine) option" where
  "shutdown_func APC = Some apc_shutdown"
| "shutdown_func RFC = Some rfc_shutdown"
| "shutdown_func MGE = None"

end
