(* ===== verification/SnmpDriver.thy ===== *)
theory SnmpDriver
  imports SnmpMibs
begin

text \<open>
  The SNMP driver (\<open>src/drivers/snmplite/snmplite.cpp\<close>) as an instance of the driver interface: the
  \<open>DEVICE\<close> line, the probes of the community and of the MIB, the polls, and the loss of the
  connection. The methods run on the engine in the driver's data; an engine that has crashed,
  \<open>exit\<close> and \<open>abort\<close> end the process.
\<close>

record snmp_drv =
  sd_engine :: snmp_engine
  sd_community :: string
  sd_error_count :: int
  sd_commlost_time :: int
  sd_strategy :: "mib option"
  sd_traps :: bool
  sd_alarm :: "mib \<Rightarrow> int"          \<comment> \<open>the static \<open>alarmtimer\<close> of each MIB\<close>

definition new_snmp :: "int \<Rightarrow> snmp_drv" where
  "new_snmp now = \<lparr>sd_engine = new_engine now, sd_community = [], sd_error_count = 0, sd_commlost_time = 0,
     sd_strategy = None, sd_traps = False, sd_alarm = (\<lambda>_. 0)\<rparr>"

type_synonym snmp_sys = "snmp_drv sys"

definition on_engine :: "(snmp_engine \<Rightarrow> 'a \<times> snmp_engine) \<Rightarrow> snmp_sys \<Rightarrow> 'a \<times> snmp_sys" where
  "on_engine f s =
     (let (r, e) = f (sd_engine (drv s))
      in (r, (upd_drv (\<lambda>d. d\<lparr>sd_engine := e\<rparr>) s)\<lparr>halted := halted s \<or> se_crashed e\<rparr>))"

definition engine_step :: "(snmp_engine \<Rightarrow> snmp_engine) \<Rightarrow> snmp_sys \<Rightarrow> snmp_sys" where
  "engine_step f s = upd_drv (\<lambda>d. d\<lparr>sd_engine := f (sd_engine d)\<rparr>) s"

definition exit_process :: "'d sys \<Rightarrow> 'd sys" where
  "exit_process s = s\<lparr>halted := True\<rparr>"

subsection \<open>The DEVICE line\<close>

text \<open>\<open>address[:port[:vendor[:community]]]\<close>; \<open>None\<close> for a bad port, an \<open>unsigned short\<close>.\<close>

definition starts_colon :: "string \<Rightarrow> bool" where
  "starts_colon r \<longleftrightarrow> r \<noteq> [] \<and> hd r = CHR '':''"

definition snmp_device :: "string \<Rightarrow> (int \<times> string option \<times> string option) option" where
  "snmp_device dev =
     (case split_at (CHR '':'') (strlcpy_to 256 dev) of
        None \<Rightarrow> Some (161, None, None)
      | Some (_, r) \<Rightarrow>
          let port = (if starts_colon r then 161 else atoi r mod 65536)
          in if port = 0 then None
             else case split_at (CHR '':'') r of
                    None \<Rightarrow> Some (port, None, None)
                  | Some (_, q) \<Rightarrow>
                      (case split_at (CHR '':'') q of
                         None \<Rightarrow> Some (port, Some q, None)
                       | Some (v, c) \<Rightarrow>
                           Some (port, if starts_colon q then None else Some v, if c = [] then None else Some c)))"

text \<open>The vendor without \<open>NOTRAP\<close> and the underscore before it, and whether traps are caught.\<close>

definition snmp_vendor :: "string \<Rightarrow> string option \<times> bool" where
  "snmp_vendor v =
     (case strstr v ''NOTRAP'' of
        None \<Rightarrow> (Some v, True)
      | Some t \<Rightarrow>
          let before = take (length v - length t) v;
              name = (if before \<noteq> [] \<and> last before = CHR ''_'' then butlast before else before)
          in (if name = [] then None else Some name, False))"

subsection \<open>Open\<close>

fun probe_community :: "string list \<Rightarrow> snmp_engine \<Rightarrow> string option \<times> snmp_engine" where
  "probe_community [] e = (None, e)"
| "probe_community (c # cs) e =
     (let (r, e1) = snmp_get [1, 3, 6, 1, 2, 1, 1, 1] (new_variable ASN_OCTETSTRING) (e\<lparr>se_community := c\<rparr>)
      in case r of
           Some v \<Rightarrow> if va_valid v then (Some c, e1) else probe_community cs e1
         | None \<Rightarrow> probe_community cs e1)"

fun probe_mib :: "(mib \<times> mib_entry) list \<Rightarrow> snmp_engine \<Rightarrow> mib option \<times> snmp_engine" where
  "probe_mib [] e = (None, e)"
| "probe_mib ((m, ci, x, ty, dyn) # es) e =
     (if ci \<noteq> CI_STATUS then probe_mib es e
      else let (r, e1) = snmp_get x (new_variable ty) e
           in case r of
                Some v \<Rightarrow> if va_valid v then (Some m, e1) else probe_mib es e1
              | None \<Rightarrow> probe_mib es e1)"

definition all_mibs :: "(mib \<times> mib_entry) list" where
  "all_mibs = concat (map (\<lambda>m. map (Pair m) (mib_table m)) mib_strategies)"

definition snmp_exit :: "string \<Rightarrow> 'd sys \<Rightarrow> bool \<times> 'd sys" where
  "snmp_exit msg s = (False, exit_process (log_event LOG_ERR msg s))"

definition choose_community :: "string option \<Rightarrow> snmp_engine \<Rightarrow> string option \<times> snmp_engine" where
  "choose_community comm e = (case comm of Some c \<Rightarrow> (Some c, e) | None \<Rightarrow> probe_community [''private'', ''public''] e)"

definition choose_mib :: "string option \<Rightarrow> mib option \<Rightarrow> snmp_engine \<Rightarrow> mib option \<times> snmp_engine" where
  "choose_mib vendor old e =
     (case vendor of
        Some v \<Rightarrow> (case filter (\<lambda>m. strcaseeq (mib_name m) v) mib_strategies of [] \<Rightarrow> old | m # _ \<Rightarrow> Some m, e)
      | None \<Rightarrow> probe_mib all_mibs e)"

definition start_traps :: "bool \<Rightarrow> snmp_sys \<Rightarrow> snmp_sys" where
  "start_traps wanted s =
     (if \<not> wanted then upd_drv (\<lambda>d. d\<lparr>sd_traps := False\<rparr>) s
      else let (ok, s1) = on_engine enable_traps s
           in upd_drv (\<lambda>d. d\<lparr>sd_traps := ok\<rparr>)
                (if ok then s1 else log_event LOG_WARNING ''snmplite Failed to enable traps'' s1))"

definition snmp_open :: "snmp_sys \<Rightarrow> bool \<times> snmp_sys" where
  "snmp_open s =
     (if device (ups s) = [] then snmp_exit ''snmplite Missing hostname'' s
      else case snmp_device (device (ups s)) of
             None \<Rightarrow> snmp_exit ''snmplite Bad port number'' s
           | Some (port, vendor, comm) \<Rightarrow>
               let (vendor1, traps) = (case vendor of None \<Rightarrow> (None, True) | Some v \<Rightarrow> snmp_vendor v);
                   (ok, s1) = on_engine (engine_open ''dummy'') s
               in if \<not> ok then snmp_exit ''snmplite Unable to initialize SNMP'' s1
                  else let (c, s2) = on_engine (choose_community comm) (start_traps traps s1)
                       in case c of
                            None \<Rightarrow> snmp_exit ''snmplite Unable to detect community'' s2
                          | Some c \<Rightarrow>
                              let s3 = upd_drv (\<lambda>d. d\<lparr>sd_community := c,
                                         sd_engine := (sd_engine d)\<lparr>se_community := c\<rparr>\<rparr>) s2;
                                  (m, s4) = on_engine (choose_mib vendor1 (sd_strategy (drv s3))) s3;
                                  s5 = upd_drv (\<lambda>d. d\<lparr>sd_strategy := m\<rparr>) s4
                              in if m = None then snmp_exit ''snmplite Invalid vendor or unsupported MIB'' s5
                                 else (True, s5))"

definition snmp_close :: "snmp_sys \<Rightarrow> bool \<times> snmp_sys" where
  "snmp_close s = (True, write_unlock (engine_step engine_close (write_lock s)))"

subsection \<open>Capabilities and readings\<close>

definition check_ci :: "nat \<Rightarrow> variable \<Rightarrow> bool" where
  "check_ci ci v =
     (if ci = CI_NOMBATTV then 0 < va_i32 v \<and> va_i32 v \<le> 120
      else if ci = CI_BADBATTS then - 1 < va_i32 v
      else if ci \<in> {CI_LTRANS, CI_HTRANS, CI_NOMOUTV, CI_NOMINV, CI_NOMPOWER} then 0 < va_i32 v
      else True)"

definition strategy_table :: "snmp_sys \<Rightarrow> mib_entry list" where
  "strategy_table s = (case sd_strategy (drv s) of None \<Rightarrow> [] | Some m \<Rightarrow> mib_table m)"

definition probe_entry :: "mib_entry \<Rightarrow> snmp_sys \<Rightarrow> snmp_sys" where
  "probe_entry = (\<lambda>(ci, x, ty, dyn) s.
     let (r, s1) = on_engine (snmp_get x (new_variable ty)) s;
         have = (case r of None \<Rightarrow> False | Some v \<Rightarrow> va_valid v \<and> check_ci ci v)
     in if halted s1 then s1 else upd_ups (\<lambda>u. u\<lparr>UPS_Cap := (UPS_Cap u)(ci := have)\<rparr>) s1)"

definition snmp_get_capabilities :: "snmp_sys \<Rightarrow> bool \<times> snmp_sys" where
  "snmp_get_capabilities s =
     (let s1 = run (map probe_entry (strategy_table s)) (write_lock s)
      in if halted s1 then (False, s1)
         else (UPS_Cap (ups s1) CI_STATUS, write_unlock s1))"

definition entry_wanted :: "bool \<Rightarrow> mib_entry \<Rightarrow> snmp_sys \<Rightarrow> bool" where
  "entry_wanted dynamic = (\<lambda>(ci, x, ty, dyn) s. UPS_Cap (ups s) ci \<and> dyn = dynamic)"

definition update_one :: "mib \<Rightarrow> nat \<Rightarrow> variable \<Rightarrow> snmp_sys \<Rightarrow> snmp_sys" where
  "update_one m ci v s =
     (case update_ci_func m ci v (sd_alarm (drv s) m, ups s) of
        None \<Rightarrow> exit_process s
      | Some (alarm, u) \<Rightarrow> upd_ups (\<lambda>_. u) (upd_drv (\<lambda>d. d\<lparr>sd_alarm := (sd_alarm d)(m := alarm)\<rparr>) s))"

text \<open>The list of answers is left at an answer that cannot be used, and so are those behind it.\<close>

fun correlate :: "mib \<Rightarrow> bool \<Rightarrow> mib_entry list \<Rightarrow> oidvar list \<Rightarrow> snmp_sys \<Rightarrow> snmp_sys" where
  "correlate m dynamic [] ovs s = s"
| "correlate m dynamic (e # es) ovs s =
     (if halted s then s
      else case ovs of
             [] \<Rightarrow> s
           | (_, v) # rest \<Rightarrow>
               if entry_wanted dynamic e s \<and> va_valid v \<and> (va_type v \<noteq> ASN_SEQUENCE \<or> va_seq v \<noteq> [])
               then correlate m dynamic es rest (update_one m (fst e) v s)
               else correlate m dynamic es ovs s)"

definition update_cis :: "bool \<Rightarrow> snmp_sys \<Rightarrow> bool \<times> snmp_sys" where
  "update_cis dynamic s =
     (case sd_strategy (drv s) of
        None \<Rightarrow> (False, s)
      | Some m \<Rightarrow>
          let wanted = filter (\<lambda>e. entry_wanted dynamic e s) (mib_table m);
              (r, s1) = on_engine (snmp_get_all (map (\<lambda>(ci, x, ty, dyn). (x, new_variable ty)) wanted)) s
          in case r of
               None \<Rightarrow> (False, s1)
             | Some ovs \<Rightarrow> (\<not> halted s1, correlate m dynamic (mib_table m) ovs s1))"

subsection \<open>The methods\<close>

definition poll_ok :: "int \<Rightarrow> snmp_sys \<Rightarrow> snmp_sys" where
  "poll_ok now s =
     (let s1 = upd_ups (\<lambda>u. u\<lparr>poll_time := now\<rparr>) (upd_drv (\<lambda>d. d\<lparr>sd_error_count := 0\<rparr>) s)
      in if is_commlost (ups s1) then plain_event CMDCOMMOK (upd_ups clear_commlost s1) else s1)"

definition reopen :: "snmp_sys \<Rightarrow> snmp_sys" where
  "reopen s =
     (let s1 = snd (on_engine (engine_open (sd_community (drv s))) s)
      in if sd_traps (drv s1) then snd (on_engine enable_traps s1) else s1)"

definition poll_bad :: "int \<Rightarrow> snmp_sys \<Rightarrow> snmp_sys" where
  "poll_bad now s =
     (let s1 = reopen s
      in if is_commlost (ups s1)
         then (if now - sd_commlost_time (drv s1) \<ge> 10 * 60
               then log_cmd CMDCOMMFAILURE (upd_drv (\<lambda>d. d\<lparr>sd_commlost_time := now\<rparr>) s1)
               else s1)
         else let s2 = upd_drv (\<lambda>d. d\<lparr>sd_error_count := sd_error_count d + 1\<rparr>) s1
              in if sd_error_count (drv s2) \<ge> 3
                 then plain_event CMDCOMMFAILURE (upd_ups set_commlost (upd_drv (\<lambda>d. d\<lparr>sd_commlost_time := now\<rparr>) s2))
                 else s2)"

definition snmp_read_volatile_data :: "snmp_sys \<Rightarrow> bool \<times> snmp_sys" where
  "snmp_read_volatile_data s =
     (let (ret, s1) = update_cis True (write_lock s)
      in if halted s1 then (False, s1)
         else let (now, s2) = time_now s1 in (ret, write_unlock (if ret then poll_ok now s2 else poll_bad now s2)))"

definition snmp_read_static_data :: "snmp_sys \<Rightarrow> bool \<times> snmp_sys" where
  "snmp_read_static_data s =
     (let (ret, s1) = update_cis False (write_lock s) in if halted s1 then (False, s1) else (ret, write_unlock s1))"

definition snmp_check_state :: "snmp_sys \<Rightarrow> bool \<times> snmp_sys" where
  "snmp_check_state s =
     (if sd_traps (drv s) then (True, snd (on_engine (trap_wait (wait_time (ups s) * 1000)) s))
      else (True, engine_step (\<lambda>e. e\<lparr>se_now := se_now e + wait_time (ups s) * 1000000\<rparr>) s))"

definition snmp_power :: "(mib \<Rightarrow> (snmp_engine \<Rightarrow> bool \<times> snmp_engine) option) \<Rightarrow> snmp_sys \<Rightarrow> bool \<times> snmp_sys" where
  "snmp_power func s =
     (case Option.bind (sd_strategy (drv s)) func of None \<Rightarrow> (False, s) | Some f \<Rightarrow> on_engine f s)"

definition snmp_kill_power :: "snmp_sys \<Rightarrow> bool \<times> snmp_sys" where
  "snmp_kill_power = snmp_power killpower_func"

definition snmp_shutdown :: "snmp_sys \<Rightarrow> bool \<times> snmp_sys" where
  "snmp_shutdown = snmp_power shutdown_func"

text \<open>\<open>SUCCESS\<close> is 0 and \<open>FAILURE\<close> is 1: as a \<open>bool\<close>, the former is \<open>false\<close>.\<close>

definition snmp_entry_point :: "devcmd \<Rightarrow> snmp_sys \<Rightarrow> bool \<times> snmp_sys" where
  "snmp_entry_point cmd s =
     (case cmd of
        DEVICE_CMD_CHECK_SELFTEST \<Rightarrow>
          if \<not> UPS_Cap (ups s) CI_WHY_BATT then (False, s)
          else let (ok, s1) = update_cis True s
               in (False,
                   if ok \<and> \<not> halted s1 \<and> lastxfer (ups s1) = XFER_SELFTEST
                   then let (t, s2) = time_now s1 in upd_ups (\<lambda>u. u\<lparr>SelfTest := t\<rparr>) s2
                   else s1)
      | _ \<Rightarrow> (True, s))"

definition snmp_driver :: "snmp_drv driver" where
  "snmp_driver = \<lparr>
     drv_open = snmp_open, drv_close = snmp_close, drv_read_static_data = snmp_read_static_data,
     drv_read_volatile_data = snmp_read_volatile_data, drv_get_capabilities = snmp_get_capabilities,
     drv_check_state = snmp_check_state, drv_setup = default_setup, drv_kill_power = snmp_kill_power,
     drv_shutdown = snmp_shutdown, drv_entry_point = snmp_entry_point\<rparr>"

end
