(* ===== verification/SnmpLaws.thy ===== *)
theory SnmpLaws
  imports SnmpDriver
begin

text \<open>
  What the SNMP driver keeps: the contract of a MIB, which is what the driver relies on when it
  applies values, the contract of the driver interface, and the properties of the driver.
\<close>

unbundle bit_operations_syntax

subsection \<open>The contract of a MIB\<close>

text \<open>Applying a value changes no capability and no status bit outside the low byte.\<close>

definition mib_bits :: "nat set" where
  "mib_bits = {0, 1, 2, 3, 4, 5, 6, 7}"

definition kept_by :: "mib_state \<Rightarrow> mib_state \<Rightarrow> bool" where
  "kept_by st st' \<longleftrightarrow> same_status mib_bits (snd st) (snd st') \<and> UPS_Cap (snd st') = UPS_Cap (snd st)"

locale mib_contract =
  fixes cases :: "(nat \<times> mib_case) list"
  assumes case_kept: "(ci, f) \<in> set cases \<Longrightarrow> f v st = Some st' \<Longrightarrow> kept_by st st'"
begin

lemma value_kept: "map_of cases ci = Some f \<Longrightarrow> f v st = Some st' \<Longrightarrow> kept_by st st'"
  by (rule case_kept [OF map_of_SomeD])

end

lemma same_mib_flags:
  "same_status mib_bits u (set_online u)" "same_status mib_bits u (clear_online u)"
  "same_status mib_bits u (set_onbatt u)" "same_status mib_bits u (clear_onbatt u)"
  "same_status mib_bits u (set_boost u)" "same_status mib_bits u (clear_boost u)"
  "same_status mib_bits u (set_trim u)" "same_status mib_bits u (clear_trim u)"
  "same_status mib_bits u (set_overload u)" "same_status mib_bits u (clear_overload u)"
  "same_status mib_bits u (set_battlow u)" "same_status mib_bits u (clear_battlow u)"
  "same_status mib_bits u (set_replacebatt u)" "same_status mib_bits u (clear_replacebatt u)"
  "same_status mib_bits u (set_calibration u)" "same_status mib_bits u (clear_calibration u)"
  by (simp_all add: same_status_def mib_bits_def bit_online set_bits clear_bits)

lemma same_caps [simp]:
  "UPS_Cap (set_online u) = UPS_Cap u" "UPS_Cap (clear_online u) = UPS_Cap u"
  "UPS_Cap (set_onbatt u) = UPS_Cap u" "UPS_Cap (clear_onbatt u) = UPS_Cap u"
  "UPS_Cap (set_boost u) = UPS_Cap u" "UPS_Cap (clear_boost u) = UPS_Cap u"
  "UPS_Cap (set_trim u) = UPS_Cap u" "UPS_Cap (clear_trim u) = UPS_Cap u"
  "UPS_Cap (set_overload u) = UPS_Cap u" "UPS_Cap (clear_overload u) = UPS_Cap u"
  "UPS_Cap (set_battlow u) = UPS_Cap u" "UPS_Cap (clear_battlow u) = UPS_Cap u"
  "UPS_Cap (set_replacebatt u) = UPS_Cap u" "UPS_Cap (clear_replacebatt u) = UPS_Cap u"
  "UPS_Cap (set_calibration u) = UPS_Cap u" "UPS_Cap (clear_calibration u) = UPS_Cap u"
  by (simp_all add: flag_ops)

definition keeps :: "(upsinfo \<Rightarrow> upsinfo) \<Rightarrow> bool" where
  "keeps f \<longleftrightarrow> (\<forall>u. same_status mib_bits u (f u) \<and> UPS_Cap (f u) = UPS_Cap u)"

lemma keeps_comp: "keeps f \<Longrightarrow> keeps g \<Longrightarrow> keeps (\<lambda>u. f (g u))"
  by (auto simp: keeps_def intro: same_status_trans)

lemma keeps_flags:
  "keeps (\<lambda>u. u)" "keeps set_online" "keeps clear_online" "keeps set_onbatt" "keeps clear_onbatt"
  "keeps set_boost" "keeps clear_boost" "keeps set_trim" "keeps clear_trim" "keeps set_overload"
  "keeps clear_overload" "keeps set_battlow" "keeps clear_battlow" "keeps set_replacebatt"
  "keeps clear_replacebatt" "keeps set_calibration" "keeps clear_calibration"
  by (simp_all add: keeps_def same_mib_flags)

lemma keeps_plain: "(\<And>u. Status (f u) = Status u) \<Longrightarrow> (\<And>u. UPS_Cap (f u) = UPS_Cap u) \<Longrightarrow> keeps f"
  by (simp add: keeps_def same_status_eq)

lemma keeps_flag_if: "keeps f \<Longrightarrow> keeps g \<Longrightarrow> keeps (flag_if b f g)"
  by (auto simp: keeps_def flag_if_def)

lemma keeps_one_of: "(\<And>k f. (k, f) \<in> set table \<Longrightarrow> keeps f) \<Longrightarrow> keeps d \<Longrightarrow> keeps (one_of table d i)"
  by (auto simp: one_of_def split: option.split dest: map_of_SomeD)

lemma keeps_status: "keeps (apc_status i)" "keeps (rfc_status i)" "keeps (mge_status i)"
proof -
  have c: "keeps clear_power" unfolding clear_power_def [abs_def]
    by (rule keeps_comp [OF keeps_flags(9) keeps_comp [OF keeps_flags(7) keeps_comp [OF keeps_flags(5,3)]]])
  have b: "keeps (\<lambda>u. set_boost (set_online u))" "keeps (\<lambda>u. set_trim (set_online u))"
    by (rule keeps_comp [OF keeps_flags(6,2)], rule keeps_comp [OF keeps_flags(8,2)])
  show "keeps (apc_status i)" "keeps (rfc_status i)"
    unfolding apc_status_def [abs_def] rfc_status_def [abs_def]
    by (rule keeps_comp [OF keeps_one_of c]; auto simp: keeps_flags b)+
  show "keeps (mge_status i)"
    unfolding mge_status_def [abs_def] by (cases "i = 1") (simp_all add: keeps_comp keeps_flags)
qed

definition case_ok :: "mib_case \<Rightarrow> bool" where
  "case_ok f \<longleftrightarrow> (\<forall>v st st'. f v st = Some st' \<longrightarrow> kept_by st st')"

lemma case_ok_assign: "(\<And>v. keeps (f v)) \<Longrightarrow> case_ok (assign f)"
  by (auto simp: case_ok_def assign_def kept_by_def keeps_def)

lemma case_ok_if_any: "(\<And>v. keeps (f v)) \<Longrightarrow> case_ok (if_any f)"
  unfolding if_any_def by (rule case_ok_assign) (auto simp: keeps_def)

lemma case_ok_apc: "case_ok apc_beeps" "case_ok apc_overload"
  using keeps_flag_if [OF keeps_flags(10,11)]
  by (auto simp: case_ok_def apc_beeps_def apc_overload_def kept_by_def keeps_def same_status_eq
      split: if_splits prod.splits)

lemma case_ok_alarm: "case_ok (\<lambda>v st. Some (g v, snd st))"
  by (auto simp: case_ok_def kept_by_def)

lemma contract_if: "list_all (\<lambda>(ci, f). case_ok f) cases \<Longrightarrow> mib_contract cases"
proof
  fix ci f v st st'
  assume "list_all (\<lambda>(ci, f). case_ok f) cases" "(ci, f) \<in> set cases" "f v st = Some st'"
  then have "case_ok f" by (auto simp: list_all_iff)
  then show "kept_by st st'" using \<open>f v st = Some st'\<close> by (auto simp only: case_ok_def)
qed

interpretation apc: mib_contract apc_cases
proof (rule contract_if)
  show "list_all (\<lambda>(ci, f). case_ok f) apc_cases"
    unfolding apc_cases_def list.pred_inject prod.case
    by (intro conjI case_ok_assign case_ok_apc case_ok_alarm keeps_flag_if keeps_flags keeps_status TrueI)
      (auto intro!: keeps_plain simp: keeps_def same_status_eq)
qed

interpretation rfc: mib_contract rfc_cases
proof (rule contract_if)
  show "list_all (\<lambda>(ci, f). case_ok f) rfc_cases"
    unfolding rfc_cases_def list.pred_inject prod.case
    by (intro conjI case_ok_assign keeps_flag_if keeps_flags keeps_status TrueI)
      (auto intro!: keeps_plain)
qed

lemma case_ok_mge_beeps:
  "case_ok (\<lambda>v st. Some (fst st, (snd st)\<lparr>beepstate := g v st\<rparr>))"
  by (auto simp: case_ok_def kept_by_def same_status_eq)

interpretation mge: mib_contract mge_cases
proof (rule contract_if)
  show "list_all (\<lambda>(ci, f). case_ok f) mge_cases"
    unfolding mge_cases_def list.pred_inject prod.case
    by (intro conjI case_ok_assign case_ok_if_any case_ok_alarm case_ok_mge_beeps keeps_flag_if keeps_flags
        keeps_status TrueI)
      (auto intro!: keeps_plain)
qed

lemma kept_refl: "kept_by st st"
  by (simp add: kept_by_def)

lemma update_ci_func_kept: "update_ci_func m ci v st = Some st' \<Longrightarrow> kept_by st st'"
  by (cases m)
    (auto simp: update_ci_func_def kept_refl split: option.splits
      intro: apc.value_kept rfc.value_kept mge.value_kept)

subsection \<open>The contract of the driver interface\<close>

lemma quiet_on_engine: "quiet s (snd (on_engine f s))"
  by (simp add: on_engine_def quiet_def upd_drv_def shutdown_count_def split: prod.split)

lemma quiet_engine_step: "quiet s (engine_step f s)"
  by (simp add: engine_step_def quiet_upd_drv)

lemma quiet_exit_process: "quiet s (exit_process s)"
  by (simp add: exit_process_def quiet_def shutdown_count_def)

lemma then_engine:
  "quiet s t \<Longrightarrow> quiet s (snd (on_engine f t))"
  "quiet s t \<Longrightarrow> quiet s (engine_step g t)"
  "quiet s t \<Longrightarrow> quiet s (exit_process t)"
  by (blast intro: quiet_trans quiet_on_engine quiet_engine_step quiet_exit_process)+

lemma on_engine_fst: "on_engine f s = (r, t) \<Longrightarrow> quiet s t"
  using quiet_on_engine [of s f] by simp

lemma kept_shutdown: "kept_by st st' \<Longrightarrow> is_shutdown (snd st') = is_shutdown (snd st)"
  by (simp add: kept_by_def same_status_def mib_bits_def shutdown_bit)

lemma update_one_quiet: "quiet s (update_one m ci v s)"
  using kept_shutdown [OF update_ci_func_kept, of m ci v "(sd_alarm (drv s) m, ups s)"]
  by (auto simp: update_one_def quiet_exit_process split: option.split prod.split
      intro!: then_quiet(6) quiet_upd_drv)

definition usable :: "oidvar \<Rightarrow> bool" where
  "usable ov \<longleftrightarrow> va_valid (snd ov) \<and> (va_type (snd ov) \<noteq> ASN_SEQUENCE \<or> va_seq (snd ov) \<noteq> [])"

lemma correlate_Cons:
  "correlate m dynamic (e # es) (ov # rest) s =
     (if halted s then s
      else if entry_wanted dynamic e s \<and> usable ov
      then correlate m dynamic es rest (update_one m (fst e) (snd ov) s)
      else correlate m dynamic es (ov # rest) s)"
  by (cases ov) (auto simp: usable_def)

lemma correlate_Nil: "correlate m dynamic table [] s = s"
  by (cases table) simp_all

lemma correlate_quiet: "quiet s (correlate m dynamic table ovs s)"
proof (induction table arbitrary: ovs s)
  case (Cons e es)
  then show ?case
    using quiet_trans [OF update_one_quiet Cons.IH]
    by (cases ovs) (auto simp: correlate_Cons correlate_Nil simp del: correlate.simps(2))
qed simp

lemma update_cis_quiet: "quiet s (snd (update_cis dynamic s))"
  unfolding update_cis_def Let_def
  by (auto split: option.split prod.split dest!: on_engine_fst intro: quiet_trans correlate_quiet)

lemma probe_entry_quiet: "quiet s (probe_entry e s)"
  unfolding probe_entry_def Let_def
  by (auto split: prod.split dest!: on_engine_fst intro: then_quiet(6))

lemma snmp_get_capabilities_quiet: "quiet s (snd (snmp_get_capabilities s))"
proof -
  have "quiet (write_lock s) (run (map probe_entry (strategy_table s)) (write_lock s))"
    by (rule quiet_run) (auto simp: probe_entry_quiet)
  then show ?thesis
    by (auto simp: snmp_get_capabilities_def Let_def quiet_locked)
      (simp add: quiet_def write_lock_def shutdown_count_def)
qed

text \<open>What a method that took the lock has done when the process ends before it gives it back.\<close>

lemma quiet_halted: "quiet (write_lock s) t \<Longrightarrow> halted t \<Longrightarrow> quiet s t"
  by (simp add: quiet_def write_lock_def shutdown_count_def)

lemma poll_quiet: "quiet s (poll_ok now s)" "quiet s (poll_bad now s)"
proof -
  have r: "quiet s (reopen s)"
    unfolding reopen_def Let_def by (auto intro!: then_engine)
  show "quiet s (poll_ok now s)"
    unfolding poll_ok_def Let_def by (auto intro!: then_quiet)
  show "quiet s (poll_bad now s)"
    unfolding poll_bad_def Let_def by (auto intro!: then_quiet r)
qed

lemma snmp_read_volatile_quiet: "quiet s (snd (snmp_read_volatile_data s))"
proof -
  obtain ret s1 where 1: "update_cis True (write_lock s) = (ret, s1)" by force
  have q: "quiet (write_lock s) s1" using update_cis_quiet [of "write_lock s" True] by (simp add: 1)
  obtain now s2 where 2: "time_now s1 = (now, s2)" by force
  have q2: "quiet (write_lock s) s2" using then_quiet(2) [OF q] by (simp add: 2)
  show ?thesis
    using quiet_halted [OF q] quiet_trans [OF q2 poll_quiet(1)] quiet_trans [OF q2 poll_quiet(2)]
    by (auto simp: snmp_read_volatile_data_def 1 2 intro!: quiet_locked)
qed

lemma snmp_read_static_quiet: "quiet s (snd (snmp_read_static_data s))"
proof -
  obtain ret s1 where 1: "update_cis False (write_lock s) = (ret, s1)" by force
  have "quiet (write_lock s) s1" using update_cis_quiet [of "write_lock s" False] by (simp add: 1)
  then show ?thesis using quiet_halted [of s s1] by (simp add: snmp_read_static_data_def 1 quiet_locked)
qed

lemma check_state_quiet: "quiet s (snd (snmp_check_state s))"
  by (simp add: snmp_check_state_def quiet_on_engine quiet_engine_step)

lemma power_quiet: "quiet s (snd (snmp_power func s))"
  by (auto simp: snmp_power_def quiet_on_engine split: option.split)

lemma snmp_entry_point_quiet: "quiet s (snd (snmp_entry_point cmd s))"
proof -
  obtain ok s1 where 1: "update_cis True s = (ok, s1)" by force
  have q: "quiet s s1" using update_cis_quiet [of s True] by (simp add: 1)
  obtain t s2 where 2: "time_now s1 = (t, s2)" by force
  have "quiet s s2" using then_quiet(2) [OF q] by (simp add: 2)
  then show ?thesis using q
    by (cases cmd) (auto simp: snmp_entry_point_def 1 2 intro!: then_quiet(6))
qed

lemma start_traps_quiet: "quiet s (start_traps wanted s)"
  unfolding start_traps_def Let_def
  by (auto split: prod.split dest!: on_engine_fst intro!: then_quiet)

lemma open_quiet: "quiet s (snd (snmp_open s))"
proof -
  have e: "quiet s t \<Longrightarrow> quiet s (snd (snmp_exit msg t))" for t msg
    by (simp add: snmp_exit_def then_engine(3) then_quiet(3))
  have o: "on_engine f t = (r, t') \<Longrightarrow> quiet s t \<Longrightarrow> quiet s t'"
    for f :: "snmp_engine \<Rightarrow> 'a \<times> snmp_engine" and t r t'
    using then_engine(1) [of s t f] by simp
  show ?thesis
    by (auto simp: snmp_open_def Let_def intro!: e then_quiet(1) quiet_refl split: option.split prod.split
        dest!: o intro: o quiet_trans start_traps_quiet)
qed

lemma close_quiet: "quiet s (snd (snmp_close s))"
  by (simp add: snmp_close_def quiet_locked quiet_engine_step)

interpretation snmp: ups_driver snmp_driver
proof
  fix f :: "snmp_drv sys \<Rightarrow> bool \<times> snmp_drv sys" and s
  assume "f \<in> driver_ops snmp_driver"
  then show "quiet s (snd (f s))"
    by (auto simp: driver_ops_def snmp_driver_def default_setup_def open_quiet close_quiet
        snmp_read_static_quiet snmp_read_volatile_quiet snmp_get_capabilities_quiet check_state_quiet snmp_entry_point_quiet
        power_quiet snmp_kill_power_def snmp_shutdown_def)
qed

subsection \<open>Answers\<close>

lemma rspwait_loop_cases:
  obtains (past) "exit \<le> now" "rspwait_loop exit wanted ((t, d) # w) now = (None, now, (t, d) # w)"
  | (late) "now < exit" "rspwait_loop exit wanted ((t, d) # w) now = (None, exit, (t, d) # w)"
  | (fails) "now < exit" "t \<le> exit" "rspwait_loop exit wanted ((t, d) # w) now = (None, max now t, w)"
  | (again) "now < exit" "t \<le> exit"
      "rspwait_loop exit wanted ((t, d) # w) now = rspwait_loop exit wanted w (max now t)"
  | (got) m bs where "now < exit" "t \<le> exit" "d = Datagram True bs" "message_demarshal (take 8192 bs) = Some m"
      "wanted m" "rspwait_loop exit wanted ((t, d) # w) now = (Some m, max now t, w)"
proof (cases "exit \<le> now")
  case True
  then show ?thesis by (intro past) simp_all
next
  case now: False
  show ?thesis
  proof (cases "exit < t")
    case True
    then show ?thesis using now by (intro late) simp_all
  next
    case t: False
    show ?thesis
    proof (cases d)
      case (Datagram ours bs)
      then show ?thesis using now t again got
        by (cases ours; cases "message_demarshal (take 8192 bs)"; cases "wanted (the (message_demarshal (take 8192 bs)))")
          (simp_all add: Let_def)
    next
      case (SelectFails n)
      then show ?thesis using now t again fails by (cases "n = EAGAIN \<or> n = EINTR") (simp_all add: Let_def)
    next
      case (RecvFails n)
      then show ?thesis using now t again fails by (cases "n = EAGAIN \<or> n = EINTR") (simp_all add: Let_def)
    qed
  qed
qed

lemma rspwait_loop_laws:
  "rspwait_loop exit wanted w now = (r, now', w') \<Longrightarrow>
    now \<le> now' \<and> now' \<le> max now exit \<and> length w' \<le> length w \<and>
    (\<forall>m. r = Some m \<longrightarrow> length w' < length w \<and> wanted m \<and>
      (\<exists>t bs. (t, Datagram True bs) \<in> set w \<and> t \<le> exit \<and> message_demarshal (take 8192 bs) = Some m))"
proof (induction w arbitrary: now)
  case (Cons td w)
  obtain t d where td: "td = (t, d)" by force
  show ?case
  proof (cases rule: rspwait_loop_cases [of exit now wanted t d w])
    case again
    then have "rspwait_loop exit wanted w (max now t) = (r, now', w')" using Cons.prems by (simp only: td)
    from Cons.IH [OF this] again(1,2) show ?thesis by (fastforce simp: td)
  next
    case (got m bs)
    then show ?thesis using Cons.prems by (auto simp: td simp del: rspwait_loop.simps)
  qed (use Cons.prems in \<open>auto simp: td simp del: rspwait_loop.simps\<close>)
qed auto

lemma rspwait_loop_shorter:
  "rspwait_loop exit wanted w now = (r, now', w') \<Longrightarrow> length w' \<le> length w \<and> (r \<noteq> None \<longrightarrow> length w' < length w)"
  using rspwait_loop_laws [of exit wanted w now r now' w'] by auto

text \<open>The fuel of a walk: an answer takes a datagram, so that the number of those to come is enough.\<close>

lemma perform_shorter:
  "perform req e = (r, e') \<Longrightarrow> length (se_in e') \<le> length (se_in e) \<and> (r \<noteq> None \<longrightarrow> length (se_in e') < length (se_in e))"
proof -
  assume p: "perform req e = (r, e')"
  obtain ok e1 where 1: "issue req e = (ok, e1)" by force
  have i: "se_in e1 = se_in e" using 1 by (auto simp: issue_def split: option.splits)
  obtain r2 e2 where 2: "rspwait 2000 e1 = (r2, e2)" by force
  have "length (se_in e2) \<le> length (se_in e1) \<and> (r2 \<noteq> None \<longrightarrow> length (se_in e2) < length (se_in e1))"
    using 2 rspwait_loop_shorter by (fastforce simp: rspwait_def split: prod.splits)
  then show ?thesis using p i by (auto simp: perform_def 1 2 split: if_splits option.splits)
qed

lemma walk_fuel:
  "length (se_in e) < f \<Longrightarrow> length (se_in e) < g \<Longrightarrow> walk f base x v e = walk g base x v e"
proof (induction f arbitrary: g x v e)
  case (Suc f)
  then obtain h where g: "g = Suc h" by (cases g) auto
  obtain req e1 where n: "new_request GETNEXT_REQ_PDU [new_varbind x None] e = (req, e1)" by force
  have i: "se_in e1 = se_in e" using n by (auto simp: new_request_def)
  show ?case
  proof (cases "perform req e1")
    case (Pair r e2)
    show ?thesis
    proof (cases r)
      case None
      then show ?thesis by (simp add: g n Pair)
    next
      case (Some m)
      then have "length (se_in e2) < f" "length (se_in e2) < h"
        using perform_shorter [OF Pair] Suc.prems by (simp_all add: i g)
      then show ?thesis using Suc.IH [of e2 h] by (auto simp: g n Pair Some split: list.split)
    qed
  qed
qed simp

subsection \<open>The values that are applied\<close>

definition apply_values :: "mib \<Rightarrow> (mib_entry \<times> oidvar) list \<Rightarrow> snmp_sys \<Rightarrow> snmp_sys" where
  "apply_values m xs s = run (map (\<lambda>(e, ov). update_one m (fst e) (snd ov)) xs) s"

lemma update_one_wanted: "entry_wanted dynamic e (update_one m ci v s) = entry_wanted dynamic e s"
  using update_ci_func_kept [of m ci v "(sd_alarm (drv s) m, ups s)"]
  by (cases e) (auto simp: update_one_def entry_wanted_def exit_process_def kept_by_def
      split: option.split)

lemma correlate_prefix:
  "correlate m dynamic table ovs s =
    apply_values m (zip (filter (\<lambda>e. entry_wanted dynamic e s) table) (takeWhile usable ovs)) s"
proof (induction table arbitrary: ovs s)
  case (Cons e es)
  show ?case
  proof (cases ovs)
    case Nil
    then show ?thesis by (simp add: apply_values_def)
  next
    case (Cons ov rest)
    have stuck: "correlate m dynamic es (ov # rest) s = s" if "\<not> usable ov"
      using Cons.IH [of "ov # rest" s] that by (simp add: apply_values_def)
    have h: "apply_values m xs s = s" if "halted s" for xs
      using that by (cases xs) (simp_all add: apply_values_def)
    have step: "apply_values m ((e, ov) # xs) s = apply_values m xs (update_one m (fst e) (snd ov) s)"
      if "\<not> halted s" for xs
      using that by (simp add: apply_values_def)
    show ?thesis
      using Cons.IH [of rest "update_one m (fst e) (snd ov) s"] Cons.IH [of "ov # rest" s]
      by (auto simp: Cons correlate_Cons stuck h step update_one_wanted apply_values_def [of m "[]"]
          simp del: correlate.simps(2))
  qed
qed (simp add: apply_values_def)


text \<open>A status code leaves one power state at most.\<close>

lemma power_state_bits:
  "bit (Status (clear_power u)) 3 = False" "bit (Status (clear_power u)) 4 = False"
  by (simp_all add: clear_power_def bit_online set_bits clear_bits)

subsection \<open>Properties\<close>

text \<open>C27: what is taken for the answer to a request is a response that came from our agent, whole and
  within the time, and carries the id of the request that was made last; the wait takes no longer.\<close>

theorem snmp_answer_is_ours:
  assumes "rspwait msec e = (Some m, e')"
  shows "sm_type m = GET_RSP_PDU \<and> sm_reqid m = se_reqid e - 1 \<and>
    (\<exists>t bs. (t, Datagram True bs) \<in> set (se_in e) \<and> t \<le> se_now e + msec * 1000 \<and>
      message_demarshal (take 8192 bs) = Some m) \<and>
    se_now e' \<le> max (se_now e) (se_now e + msec * 1000) \<and> length (se_in e') < length (se_in e)"
proof -
  obtain r now w where l: "rspwait_loop (se_now e + msec * 1000) (wanted_response (se_reqid e)) (se_in e) (se_now e) = (r, now, w)"
    by (cases "rspwait_loop (se_now e + msec * 1000) (wanted_response (se_reqid e)) (se_in e) (se_now e)") auto
  then have "r = Some m" "e' = e\<lparr>se_now := now, se_in := w\<rparr>" using assms by (auto simp: rspwait_def)
  then show ?thesis using rspwait_loop_laws [OF l] by (auto simp: wanted_response_def)
qed

text \<open>C28: a poll that was answered applies the values up to the first one that cannot be used, each to
  the variable it was asked for, and reports success: the values behind it are dropped at every poll
  that has such a hole, the UPS keeping the state it had.\<close>

theorem snmp_updates_prefix:
  assumes "sd_strategy (drv s) = Some m"
    and "wanted = filter (\<lambda>e. entry_wanted dynamic e s) (mib_table m)"
    and "on_engine (snmp_get_all (map (\<lambda>(ci, x, ty, dyn). (x, new_variable ty)) wanted)) s = (Some ovs, s1)"
    and "\<not> halted s1"
  shows "update_cis dynamic s = (True, apply_values m (zip wanted (takeWhile usable ovs)) s1)"
proof -
  have "ups s1 = ups s" using assms(3) by (auto simp: on_engine_def upd_drv_def Let_def split: prod.splits)
  then have "entry_wanted dynamic e s1 = entry_wanted dynamic e s" for e
    by (cases e) (simp add: entry_wanted_def)
  then show ?thesis
    using assms by (simp add: update_cis_def correlate_prefix)
qed

text \<open>Whatever value an agent reports for the status of the UPS, the driver does not come to hold it
  both on line and on battery.\<close>

theorem snmp_one_power_state:
  "map_of (mib_cases m) CI_STATUS = Some f \<Longrightarrow> f v st = Some (alarm, u) \<Longrightarrow> \<not> (is_online u \<and> is_onbatt u)"
  by (cases m)
    (auto simp: apc_cases_def rfc_cases_def mge_cases_def assign_def apc_status_def rfc_status_def mge_status_def
      one_of_def is_online_bit is_bits set_bits clear_bits power_state_bits bit_online split: if_splits)

subsection \<open>Witnesses\<close>

text \<open>A response of an agent with nothing for the charge of the battery and \<open>onBattery\<close> for the state.\<close>

definition demo_response :: "byte list" where
  "demo_response =
    [48, 60, 2, 1, 0, 4, 1, 120, 162, 52, 2, 1, 0, 2, 1, 0, 2, 1, 0, 48, 41, 48, 18, 6, 14, 43, 6,
     1, 4, 1, 130, 62, 1, 1, 1, 2, 2, 1, 0, 5, 0, 48, 19, 6, 14, 43, 6, 1, 4, 1, 130, 62, 1, 1, 1,
     4, 1, 1, 0, 2, 1, 3]"

definition demo_oids :: "oidvar list" where
  "demo_oids = [(apc_root @ [1, 2, 2, 1], new_variable ASN_GAUGE), (apc_root @ [1, 4, 1, 1], new_variable ASN_INTEGER)]"

definition demo_engine :: snmp_engine where
  "demo_engine = (new_engine 0)\<lparr>se_socket := True, se_community := ''x'', se_in := [(1000, Datagram True demo_response)]\<rparr>"

definition demo_snmp :: snmp_sys where
  "demo_snmp = upd_ups (\<lambda>u. u\<lparr>UPS_Cap := (\<lambda>ci. ci = CI_STATUS \<or> ci = CI_BATTLEV)\<rparr>)
     (start_sys ((new_snmp 0)\<lparr>sd_strategy := Some APC, sd_engine := demo_engine\<rparr>))"

definition demo_message :: snmp_msg where
  "demo_message = VbListMsg GET_RSP_PDU ''x'' 0 0 0
     [(apc_root @ [1, 2, 2, 1, 0], ANull), (apc_root @ [1, 4, 1, 1, 0], AInteger ASN_INTEGER 3 False)]"

lemma demo_response_message: "message_demarshal (take 8192 demo_response) = Some demo_message"
proof -
  have "take 8192 demo_response = demo_response" by (simp add: demo_response_def)
  then show ?thesis by (simp only:) code_simp
qed

lemma demo_wait:
  "rspwait_loop 2000000 (wanted_response 1) [(1000, Datagram True demo_response)] 0 = (Some demo_message, 1000, [])"
  by (simp add: demo_response_message wanted_response_def demo_message_def)

theorem snmp_answer_is_ours_witness:
  "\<exists>e'. rspwait 2000 (demo_engine\<lparr>se_reqid := 1\<rparr>) = (Some demo_message, e') \<and> se_now e' \<le> 2000000"
proof -
  obtain e' where e: "rspwait 2000 (demo_engine\<lparr>se_reqid := 1\<rparr>) = (Some demo_message, e')"
    by (simp add: rspwait_def demo_engine_def new_engine_def demo_wait del: rspwait_loop.simps)
  from snmp_answer_is_ours [OF e] have "se_now e' \<le> 2000000" by (simp add: demo_engine_def new_engine_def)
  then show ?thesis using e by blast
qed

lemma demo_issue:
  "issue (request_asn GETNEXT_REQ_PDU ''x'' 0 (map (\<lambda>ov. new_varbind (fst ov) None) demo_oids)) e =
    (se_socket e \<and> se_sends e (length (se_sent e)),
     e\<lparr>se_sent := se_sent e @ [the (map_option fst (marshal (request_asn GETNEXT_REQ_PDU ''x'' 0
        (map (\<lambda>ov. new_varbind (fst ov) None) demo_oids)) 8192))]\<rparr>)"
proof -
  let ?a = "request_asn GETNEXT_REQ_PDU ''x'' 0 (map (\<lambda>ov. new_varbind (fst ov) None) demo_oids)"
  have "asn_ok ?a" "asn_size ?a = Some 59" by code_simp+
  then have "marshal ?a 8192 \<noteq> None" using round_trip [of ?a 8192 "[]"] by auto
  then show ?thesis by (auto simp: issue_def)
qed

lemma demo_scalars:
  "filter is_scalar demo_oids = demo_oids" "demo_oids \<noteq> []" "length demo_oids = 2"
  "fold store_value (sm_vblist demo_message) (map (\<lambda>(y, v). (y, v\<lparr>va_valid := False\<rparr>)) demo_oids) =
    [(apc_root @ [1, 2, 2, 1], (new_variable 5)), (apc_root @ [1, 4, 1, 1], variable_of ASN_INTEGER 3)]"
  by code_simp+

lemma demo_get_all:
  "\<exists>e. snmp_get_all demo_oids demo_engine =
    (Some [(apc_root @ [1, 2, 2, 1], (new_variable 5)), (apc_root @ [1, 4, 1, 1], variable_of ASN_INTEGER 3)], e) \<and>
    \<not> se_crashed e"
proof -
  have m: "sm_errstatus demo_message = 0" "length (sm_vblist demo_message) = 2"
    by (simp_all add: demo_message_def)
  have g: "get_sequences [(apc_root @ [1, 2, 2, 1], new_variable 5), (apc_root @ [1, 4, 1, 1], variable_of ASN_INTEGER 3)] e
      = ([(apc_root @ [1, 2, 2, 1], new_variable 5), (apc_root @ [1, 4, 1, 1], variable_of ASN_INTEGER 3)], e)" for e
    by (simp add: is_scalar_def new_variable_def variable_of_def asn_idents del: walk.simps)
  show ?thesis
    by (simp add: snmp_get_all_def get_scalars_def demo_scalars new_request_def perform_def demo_issue rspwait_def
        demo_engine_def new_engine_def demo_wait m Let_def g del: rspwait_loop.simps get_sequences.simps)
qed

lemma demo_snmp_simps:
  "sd_strategy (drv demo_snmp) = Some APC" "sd_engine (drv demo_snmp) = demo_engine" "\<not> halted demo_snmp"
  "filter (\<lambda>e. entry_wanted True e demo_snmp) APC_MIB =
    [(CI_BATTLEV, apc_root @ [1, 2, 2, 1], ASN_GAUGE, True), (CI_STATUS, apc_root @ [1, 4, 1, 1], ASN_INTEGER, True)]"
  by (simp_all add: demo_snmp_def start_sys_def upd_ups_def entry_wanted_def APC_MIB_def)

text \<open>The UPS has gone to battery, which the driver is told and does not take in.\<close>

theorem snmp_updates_prefix_witness:
  "\<exists>s1. update_cis True demo_snmp = (True, s1) \<and> ups s1 = ups demo_snmp"
proof -
  let ?asked = "map (\<lambda>(ci, x, ty, dyn). (x, new_variable ty)) (filter (\<lambda>e. entry_wanted True e demo_snmp) (mib_table APC))"
  have oids: "?asked = demo_oids" by (simp add: demo_snmp_simps demo_oids_def)
  obtain e where e: "snmp_get_all demo_oids demo_engine =
      (Some [(apc_root @ [1, 2, 2, 1], (new_variable 5)), (apc_root @ [1, 4, 1, 1], variable_of ASN_INTEGER 3)], e)"
    "\<not> se_crashed e"
    using demo_get_all by blast
  obtain s1 where s1: "on_engine (snmp_get_all ?asked) demo_snmp =
      (Some [(apc_root @ [1, 2, 2, 1], (new_variable 5)), (apc_root @ [1, 4, 1, 1], variable_of ASN_INTEGER 3)], s1)"
    "\<not> halted s1" "ups s1 = ups demo_snmp"
    unfolding oids by (simp add: on_engine_def demo_snmp_simps e upd_drv_def)
  show ?thesis
    using snmp_updates_prefix [OF demo_snmp_simps(1) refl s1(1,2)] s1(3)
    by (simp add: usable_def new_variable_def apply_values_def)
qed

theorem snmp_one_power_state_witness:
  "\<exists>u. apc_status 3 (ups demo_snmp) = u \<and> \<not> (is_online u \<and> is_onbatt u)"
proof -
  have "map_of (mib_cases APC) CI_STATUS = Some (assign (\<lambda>v. apc_status (va_u32 v)))"
    by (simp add: apc_cases_def)
  from snmp_one_power_state [OF this, of "variable_of ASN_INTEGER 3" "(0, ups demo_snmp)" 0 "apc_status 3 (ups demo_snmp)"]
  show ?thesis by (simp add: assign_def variable_of_def)
qed

end
