(* ===== verification/SmartLine.thy ===== *)
theory SmartLine
  imports DriverKit
begin

text \<open>
  The serial protocol of the smart driver (\<open>src/drivers/apcsmart/smart.c\<close>, first half): a command is
  a character, its answer a line, and between and inside the lines the UPS sends single characters
  that report a change of its state. What the port delivers is a script with times in
  milliseconds; the file descriptor is \<open>UPSINFO\<close>'s.
\<close>

subsection \<open>The port\<close>

datatype port_event =
    PortByte char
  | PortSelectFails int       \<comment> \<open>\<open>select\<close> fails with this \<open>errno\<close>\<close>
  | PortReadFails int         \<comment> \<open>\<open>read\<close> fails, after \<open>select\<close> has announced something\<close>
  | PortHangup                \<comment> \<open>\<open>read\<close> returns 0\<close>

type_synonym port_script = "(int \<times> port_event) list"

record smart_line =
  sm_now :: int
  sm_in :: port_script
  sm_sent :: string
  sm_opens :: "bool list"          \<comment> \<open>the results of \<open>open\<close>\<close>
  sm_answer :: string              \<comment> \<open>the static buffer \<open>answer\<close>, zero behind its end\<close>
  sm_junk :: "nat \<Rightarrow> string"       \<comment> \<open>what a fresh local buffer holds\<close>
  sm_rounds :: nat                 \<comment> \<open>for how many rounds a broken link is watched\<close>

definition new_smart_line :: "port_script \<Rightarrow> smart_line" where
  "new_smart_line w = \<lparr>sm_now = 0, sm_in = w, sm_sent = [], sm_opens = [], sm_answer = [],
     sm_junk = (\<lambda>_. []), sm_rounds = 0\<rparr>"

type_synonym smart_sys = "smart_line sys"

abbreviation EBADF :: int where "EBADF \<equiv> 9"

definition send_char :: "char \<Rightarrow> smart_sys \<Rightarrow> smart_sys" where
  "send_char c s = upd_drv (\<lambda>d. if fd (ups s) = - 1 then d else d\<lparr>sm_sent := sm_sent d @ [c]\<rparr>) s"

definition sleep_secs :: "int \<Rightarrow> smart_sys \<Rightarrow> smart_sys" where
  "sleep_secs n s = upd_drv (\<lambda>d. d\<lparr>sm_now := sm_now d + n * 1000\<rparr>) s"

text \<open>\<open>tcflush(fd, TCIOFLUSH)\<close>: the bytes that have arrived are dropped.\<close>

definition flush_script :: "int \<Rightarrow> port_script \<Rightarrow> port_script" where
  "flush_script now w =
     filter (\<lambda>(t, e). case e of PortByte _ \<Rightarrow> False | _ \<Rightarrow> True) (takeWhile (\<lambda>(t, e). t \<le> now) w) @
     dropWhile (\<lambda>(t, e). t \<le> now) w"

definition port_flush :: "smart_sys \<Rightarrow> smart_sys" where
  "port_flush s =
     upd_drv (\<lambda>d. if fd (ups s) = - 1 then d else d\<lparr>sm_in := flush_script (sm_now d) (sm_in d)\<rparr>) s"

text \<open>The \<open>read\<close> of one character, which returns 0 when nothing comes for \<open>TIMER_READ\<close> seconds.\<close>

fun port_read :: "port_script \<Rightarrow> int \<Rightarrow> char option \<times> int \<times> port_script" where
  "port_read [] now = (None, now + 10000, [])"
| "port_read ((t, e) # w) now =
     (if t > now + 10000 then (None, now + 10000, (t, e) # w)
      else case e of
             PortByte c \<Rightarrow> (Some c, max now t, w)
           | PortReadFails errno \<Rightarrow>
               if errno = EAGAIN \<or> errno = EINTR then port_read w (max now t) else (None, max now t, w)
           | PortSelectFails _ \<Rightarrow> port_read w now
           | PortHangup \<Rightarrow> (None, max now t, w))"

datatype port_result = GotChar char | GotNothing | SelectError int

fun port_next :: "int \<Rightarrow> port_script \<Rightarrow> int \<Rightarrow> port_result \<times> int \<times> port_script" where
  "port_next wait [] now = (GotNothing, now + wait, [])"
| "port_next wait ((t, e) # w) now =
     (if t > now + wait then (GotNothing, now + wait, (t, e) # w)
      else case e of
             PortSelectFails errno \<Rightarrow>
               if errno = EINTR \<or> errno = EAGAIN then port_next wait w (max now t)
               else if errno = EBADF then (GotNothing, max now t, w)
               else (SelectError errno, max now t, w)
           | _ \<Rightarrow>
               (case port_read ((t, e) # w) (max now t) of
                  (Some c, now1, w1) \<Rightarrow> (GotChar c, now1, w1)
                | (None, now1, w1) \<Rightarrow> (GotNothing, now1, w1)))"

lemma port_read_shorter: "port_read w now = (Some c, now1, w1) \<Longrightarrow> length w1 < length w"
  by (induction w now rule: port_read.induct) (auto split: if_splits port_event.splits)

lemma port_next_shorter: "port_next wait w now = (GotChar c, now1, w1) \<Longrightarrow> length w1 < length w"
  by (induction wait w now rule: port_next.induct)
    (auto split: if_splits port_event.splits prod.splits option.splits dest: port_read_shorter
      simp del: port_read.simps)

subsection \<open>Lines\<close>

text \<open>The characters that report a change, and what each does to the state.\<close>

definition notification :: "char \<Rightarrow> (upsinfo \<Rightarrow> upsinfo) option" where
  "notification c =
     (if c = CHR ''!'' then Some clear_online
      else if c = CHR ''#'' then Some set_replacebatt
      else if c = CHR ''$'' then Some set_online
      else if c = CHR ''%'' then Some set_battlow
      else if c = CHR ''+'' then Some clear_battlow
      else None)"

text \<open>The characters that are skipped.\<close>

definition ignored :: "char \<Rightarrow> bool" where
  "ignored c \<longleftrightarrow> c \<in> {CHR ''|'', CHR '':'', CR}"

datatype line_result = LineDone | LineFailed | LineAborted int

text \<open>
  The loop of \<open>getline\<close>, with a buffer of \<open>len\<close> bytes or, without one, until the state has changed.
  (Then the lock is held while the state is changed and released at once.)
\<close>

function getline_loop ::
  "nat option \<Rightarrow> int \<Rightarrow> string \<Rightarrow> port_script \<Rightarrow> int \<Rightarrow> upsinfo \<Rightarrow>
     line_result \<times> string \<times> port_script \<times> int \<times> upsinfo" where
  "getline_loop len wait acc w now u =
     (case port_next wait w now of
        (GotNothing, now1, w1) \<Rightarrow> (LineFailed, acc, w1, now1, u)
      | (SelectError errno, now1, w1) \<Rightarrow> (LineAborted errno, acc, w1, now1, u)
      | (GotChar c, now1, w1) \<Rightarrow>
          (case notification c of
             Some f \<Rightarrow>
               if len = None then (LineDone, acc, w1, now1, f u) else getline_loop len wait acc w1 now1 (f u)
           | None \<Rightarrow>
               if ignored c then getline_loop len wait acc w1 now1 u
               else case len of
                      None \<Rightarrow> getline_loop len wait acc w1 now1 u
                    | Some n \<Rightarrow>
                        if c = NL then (LineDone, acc, w1, now1, u)
                        else if length acc + 1 < n then getline_loop len wait (acc @ [c]) w1 now1 u
                        else (LineDone, acc, w1, now1, u)))"
  by pat_completeness auto
termination
  by (relation "measure (\<lambda>(len, wait, acc, w, now, u). length w)") (auto dest: port_next_shorter [OF sym])

declare getline_loop.simps [simp del]

text \<open>
  What the loop leaves in the buffer: a line that has ended gets its NUL, one that has not does
  not, so that what was in the buffer before stays behind it.
\<close>

definition fill_buffer :: "bool \<Rightarrow> string \<Rightarrow> string \<Rightarrow> string" where
  "fill_buffer ended acc buf =
     (if ended then acc @ NUL # drop (Suc (length acc)) buf else acc @ drop (length acc) buf)"

definition getline :: "nat option \<Rightarrow> string \<Rightarrow> smart_sys \<Rightarrow> bool \<times> string \<times> smart_sys" where
  "getline len buf s =
     (let wait = (case len of None \<Rightarrow> wait_time (ups s) * 1000 | Some _ \<Rightarrow> 1000)
      in if fd (ups s) = - 1 then (False, buf, upd_drv (\<lambda>d. d\<lparr>sm_now := sm_now d + wait\<rparr>) s)
         else case getline_loop len wait [] (sm_in (drv s)) (sm_now (drv s)) (ups s) of
                (r, acc, w, now, u) \<Rightarrow>
                  let s1 = upd_ups (\<lambda>_. u) (upd_drv (\<lambda>d. d\<lparr>sm_in := w, sm_now := now\<rparr>) s);
                      buf1 = fill_buffer (r = LineDone) acc buf
                  in case r of
                       LineDone \<Rightarrow> (True, buf1, s1)
                     | LineFailed \<Rightarrow> (False, buf1, s1)
                     | LineAborted errno \<Rightarrow> (False, buf1, error_abort ''Select error on UPS FD. '' s1))"

text \<open>A line into a fresh local buffer of \<open>n\<close> bytes.\<close>

definition fresh_buffer :: "nat \<Rightarrow> smart_sys \<Rightarrow> string" where
  "fresh_buffer n s = take n (sm_junk (drv s) (length (sm_sent (drv s))))"

end
