(* ===== verification/Smart.thy ===== *)
theory Smart
  imports SmartLine
begin

text \<open>
  The driver of smart UPSes (\<open>src/drivers/apcsmart\<close>: \<open>smart.c\<close>, \<open>smartsetup.c\<close>, \<open>smartsetup2.c\<close>,
  \<open>smartoper.c\<close>) as an instance of the driver interface: polling with its check of the link, the
  capabilities, the readings, and the commands that turn the UPS off.
\<close>

unbundle bit_operations_syntax

subsection \<open>Open and close (smartsetup.c)\<close>

definition smart_open :: "smart_sys \<Rightarrow> bool \<times> smart_sys" where
  "smart_open s =
     (case sm_opens (drv s) of
        True # rs \<Rightarrow> (True, port_flush (upd_ups (\<lambda>u. u\<lparr>fd := 3\<rparr>) (upd_drv (\<lambda>d. d\<lparr>sm_opens := rs\<rparr>) s)))
      | rs \<Rightarrow> (False, upd_ups (\<lambda>u. u\<lparr>fd := - 1\<rparr>) (upd_drv (\<lambda>d. d\<lparr>sm_opens := tl rs\<rparr>) s)))"

definition smart_close :: "smart_sys \<Rightarrow> bool \<times> smart_sys" where
  "smart_close s = (True, upd_ups (\<lambda>u. u\<lparr>fd := - 1\<rparr>) (port_flush s))"

subsection \<open>Polling (smart.c)\<close>

definition the_answer :: "smart_sys \<Rightarrow> string" where
  "the_answer s = c_str (sm_answer (drv s))"

definition clear_answer :: "smart_sys \<Rightarrow> smart_sys" where
  "clear_answer = upd_drv (\<lambda>d. d\<lparr>sm_answer := NUL # drop 1 (sm_answer d)\<rparr>)"

definition poll_once :: "char \<Rightarrow> smart_sys \<Rightarrow> bool \<times> smart_sys" where
  "poll_once cmd s =
     (let s1 = send_char cmd s; (ok, buf, s2) = getline (Some 2000) (sm_answer (drv s1)) s1
      in (ok, upd_drv (\<lambda>d. d\<lparr>sm_answer := buf\<rparr>) s2))"

text \<open>
  The attempts at an answer; \<open>check\<close> is the check of the link between them, which does nothing
  while the link is being checked (\<open>_linkcheck\<close>).
\<close>

fun poll_retry :: "(smart_sys \<Rightarrow> smart_sys) \<Rightarrow> nat \<Rightarrow> char \<Rightarrow> smart_sys \<Rightarrow> smart_sys" where
  "poll_retry check retry cmd s =
     (let (ok, s1) = poll_once cmd s
      in if halted s1 \<or> the_answer s1 \<noteq> [] \<or> ok then s1
         else let s2 = check s1
              in if halted s2 then s2
                 else case retry of
                        0 \<Rightarrow> clear_answer s2
                      | Suc r \<Rightarrow> poll_retry check r cmd (clear_answer s2))"

declare poll_retry.simps [simp del]

definition poll_with :: "(smart_sys \<Rightarrow> smart_sys) \<Rightarrow> char \<Rightarrow> smart_sys \<Rightarrow> smart_sys" where
  "poll_with check cmd s =
     (let s1 = clear_answer s
      in if fd (ups s1) = - 1 then s1 else poll_retry check (if cmd = CHR ''Y'' then 0 else 2) cmd s1)"

definition poll_link :: "smart_sys \<Rightarrow> smart_sys" where
  "poll_link = poll_with (\<lambda>s. s) CHR ''Y''"

text \<open>
  The loop that waits for the link to come back: the loss is declared after 20 seconds, and logged
  again every ten minutes. A link that is still down after the rounds it is watched for is not
  followed any further.
\<close>

definition declare_lost :: "int \<Rightarrow> int \<Rightarrow> smart_sys \<Rightarrow> int \<times> smart_sys" where
  "declare_lost start prev s =
     (let now = sm_now (drv s)
      in if now - start \<ge> 20 * 1000
         then let (prev1, s1) = (if is_commlost (ups s) then (prev, s)
                                 else (now, plain_event CMDCOMMFAILURE (upd_ups set_commlost s)))
              in if now - prev1 \<ge> 10 * 60 * 1000 then (now, log_cmd CMDCOMMFAILURE s1) else (prev1, s1)
         else (prev, s))"

definition link_round :: "smart_sys \<Rightarrow> smart_sys" where
  "link_round s =
     (let s1 = (if is_commlost (ups s) then snd (smart_close s) else s);
          s2 = sleep_secs 1 s1;
          s3 = (if is_commlost (ups s2) then snd (smart_open s2) else s2)
      in port_flush s3)"

fun link_loop :: "nat \<Rightarrow> int \<Rightarrow> int \<Rightarrow> smart_sys \<Rightarrow> smart_sys" where
  "link_loop 0 start prev s = s\<lparr>halted := True\<rparr>"
| "link_loop (Suc rounds) start prev s =
     (let s1 = poll_link s
      in if halted s1 \<or> the_answer s1 = ''SM'' then s1
         else let (prev1, s2) = declare_lost start prev s1 in link_loop rounds start prev1 (link_round s2))"

definition link_back :: "smart_sys \<Rightarrow> smart_sys" where
  "link_back s = (if is_commlost (ups s) then plain_event CMDCOMMOK (upd_ups clear_commlost s) else s)"

definition UPSlinkCheck :: "smart_sys \<Rightarrow> smart_sys" where
  "UPSlinkCheck s =
     (let s1 = poll_link (port_flush s)
      in if halted s1 then s1
         else if the_answer s1 = ''SM'' then upd_ups clear_commlost s1
         else let s2 = write_unlock s1; start = sm_now (drv s2);
                  s3 = link_loop (sm_rounds (drv s2)) start start (port_flush s2)
              in if halted s3 then s3 else link_back (write_lock s3))"

definition smart_poll :: "char \<Rightarrow> smart_sys \<Rightarrow> string \<times> smart_sys" where
  "smart_poll cmd s = (let s1 = poll_with UPSlinkCheck cmd s in (the_answer s1, s1))"

definition ups_cmd :: "nat \<Rightarrow> smart_sys \<Rightarrow> char" where
  "ups_cmd ci s = char_of (UPS_Cmd (ups s) ci)"

definition poll_ci :: "nat \<Rightarrow> smart_sys \<Rightarrow> string \<times> smart_sys" where
  "poll_ci ci s = smart_poll (ups_cmd ci s) s"

subsection \<open>Setup (smartsetup.c)\<close>

fun setup_loop :: "nat \<Rightarrow> smart_sys \<Rightarrow> bool \<times> smart_sys" where
  "setup_loop 0 s =
     (False, error_abort (''PANIC! Cannot communicate with UPS via serial port.'' @ [NL] @
       ''Please make sure the port specified on the DEVICE directive is correct,'' @ [NL] @
       ''and that your cable specification on the UPSCABLE directive is correct.'' @ [NL]) s)"
| "setup_loop (Suc n) s =
     (let s1 = send_char CHR ''Y'' s;
          (ok, buf, s2) = getline (Some 10) (NUL # drop 1 (fresh_buffer 10 s1)) s1
      in if halted s2 then (False, s2)
         else if c_str buf = ''SM'' then (True, s2) else setup_loop n (sleep_secs 1 s2))"

definition smart_setup :: "smart_sys \<Rightarrow> bool \<times> smart_sys" where
  "smart_setup s =
     (if fd (ups s) = - 1 then (True, s)
      else setup_loop 5 (port_flush (sleep_secs 1 (send_char CHR ''Y'' s))))"

subsection \<open>Capabilities (smartsetup2.c)\<close>

definition old_models :: "(char \<times> string) list" where
  "old_models =
     [(CHR ''0'', ''APC Matrix-UPS 3000''), (CHR ''2'', ''APC Smart-UPS 250''), (CHR ''3'', ''APC Smart-UPS 370ci''),
      (CHR ''4'', ''APC Smart-UPS 400''), (CHR ''5'', ''APC Matrix-UPS 5000''), (CHR ''6'', ''APC Smart-UPS 600''),
      (CHR ''7'', ''APC Smart-UPS 900''), (CHR ''8'', ''APC Smart-UPS 1250''), (CHR ''9'', ''APC Smart-UPS 2000''),
      (CHR ''A'', ''APC Smart-UPS 1400''), (CHR ''B'', ''APC Smart-UPS 1000''), (CHR ''C'', ''APC Smart-UPS 650''),
      (CHR ''D'', ''APC Smart-UPS 420''), (CHR ''E'', ''APC Smart-UPS 280''), (CHR ''F'', ''APC Smart-UPS 450''),
      (CHR ''G'', ''APC Smart-UPS 700''), (CHR ''H'', ''APC Smart-UPS 700 XL''), (CHR ''I'', ''APC Smart-UPS 1000''),
      (CHR ''J'', ''APC Smart-UPS 1000 XL''), (CHR ''K'', ''APC Smart-UPS 1400''), (CHR ''L'', ''APC Smart-UPS 1400 XL''),
      (CHR ''M'', ''APC Smart-UPS 2200''), (CHR ''N'', ''APC Smart-UPS 2200 XL''), (CHR ''O'', ''APC Smart-UPS 5000''),
      (CHR ''P'', ''APC Smart-UPS 3000'')]"

definition get_model_from_oldfwrev :: "string \<Rightarrow> string" where
  "get_model_from_oldfwrev a =
     (case a of [] \<Rightarrow> ''Unknown''
      | c # _ \<Rightarrow> (case map_of old_models c of None \<Rightarrow> ''Unknown'' | Some m \<Rightarrow> m))"

definition supported :: "string \<Rightarrow> bool" where
  "supported a \<longleftrightarrow> a \<noteq> [] \<and> a \<noteq> ''NA''"

text \<open>
  The commands in the answer to \<open>a\<close>: what follows its first dot, which is where the second of the
  two loops that look for a dot begins, and ends.
\<close>

definition command_list :: "string \<Rightarrow> string option" where
  "command_list caps =
     (if \<not> supported caps then None
      else let p = dropWhile (\<lambda>c. c \<noteq> CHR ''.'') (dropWhile (\<lambda>c. c \<noteq> CHR ''.'') caps)
           in if p = [] then None else Some p)"

definition in_commands :: "nat \<Rightarrow> string option \<Rightarrow> bool" where
  "in_commands cmd cmds \<longleftrightarrow> (case cmds of None \<Rightarrow> True | Some l \<Rightarrow> char_of cmd \<in> set l \<or> char_of cmd = NUL)"

definition set_cap :: "nat \<Rightarrow> bool \<Rightarrow> smart_sys \<Rightarrow> smart_sys" where
  "set_cap ci b = upd_ups (\<lambda>u. u\<lparr>UPS_Cap := (UPS_Cap u)(ci := b)\<rparr>)"

definition probe_ci :: "string option \<Rightarrow> nat \<Rightarrow> smart_sys \<Rightarrow> smart_sys" where
  "probe_ci cmds ci s =
     (if UPS_Cmd (ups s) ci = 0 \<or> \<not> in_commands (UPS_Cmd (ups s) ci) cmds then s
      else let (a, s1) = poll_ci ci s
           in if halted s1 then s1 else if supported (take 999 a) then set_cap ci True s1 else s1)"

text \<open>The command \<open>V\<close> of older firmware stands in for the model and the revision.\<close>

definition probe_old :: "string option \<Rightarrow> nat \<Rightarrow> smart_sys \<Rightarrow> smart_sys" where
  "probe_old cmds ci s =
     (if UPS_Cap (ups s) ci \<or> \<not> in_commands 86 cmds then s
      else let (a, s1) = smart_poll CHR ''V'' s
           in if halted s1 then s1
              else if supported (take 999 a)
              then upd_ups (\<lambda>u. u\<lparr>UPS_Cmd := (UPS_Cmd u)(ci := 86)\<rparr>) (set_cap ci True s1)
              else s1)"

definition smart_get_capabilities :: "smart_sys \<Rightarrow> bool \<times> smart_sys" where
  "smart_get_capabilities s =
     (let (a, s1) = poll_ci CI_UPS_CAPS (write_lock s); caps = take 999 a; cmds = command_list caps
      in if halted s1 then (False, s1)
         else let s2 = (if supported caps then set_cap CI_UPS_CAPS (cmds \<noteq> None) s1 else s1);
                  s3 = run (map (probe_ci cmds) [0..<Suc CI_MAX_CAPS] @
                            [probe_old cmds CI_UPSMODEL, probe_old cmds CI_REVNO]) s2
              in if halted s3 then (False, s3) else (True, write_unlock s3))"

subsection \<open>Readings (smart.c)\<close>

definition decode_testresult :: "string \<Rightarrow> SelfTestResult" where
  "decode_testresult a =
     (case take 2 a of
        x # y # _ \<Rightarrow>
          if x = CHR ''O'' \<and> y = CHR ''K'' then TEST_PASSED
          else if x = CHR ''B'' \<and> y = CHR ''T'' then TEST_FAILCAP
          else if x = CHR ''N'' \<and> y = CHR ''G'' then TEST_FAILLOAD
          else TEST_NONE
      | _ \<Rightarrow> TEST_NONE)"

definition decode_lastxfer :: "string \<Rightarrow> LastXferCause" where
  "decode_lastxfer a =
     (case a of
        [] \<Rightarrow> XFER_UNKNOWN
      | c # _ \<Rightarrow>
          (case map_of [(CHR ''N'', XFER_NA), (CHR ''R'', XFER_RIPPLE), (CHR ''H'', XFER_OVERVOLT),
             (CHR ''L'', XFER_UNDERVOLT), (CHR ''T'', XFER_NOTCHSPIKE), (CHR ''O'', XFER_NONE),
             (CHR ''K'', XFER_FORCED), (CHR ''S'', XFER_SELFTEST)] c of
             None \<Rightarrow> XFER_UNKNOWN | Some x \<Rightarrow> x))"

text \<open>The status is read again, five times at most, while the UPS answers \<open>SM\<close>.\<close>

fun status_loop :: "nat \<Rightarrow> smart_sys \<Rightarrow> string \<times> smart_sys" where
  "status_loop retries s =
     (let (a, s1) = poll_ci CI_STATUS s; status = strlcpy_to 10 a
      in if halted s1 then (status, s1)
         else case retries of
                0 \<Rightarrow> (status, s1)
              | Suc r \<Rightarrow> if take 2 status = ''SM'' then status_loop r s1 else (status, s1))"

declare status_loop.simps [simp del]

definition set_status_byte :: "string \<Rightarrow> upsinfo \<Rightarrow> upsinfo" where
  "set_status_byte status u =
     u\<lparr>Status := (Status u AND NOT 0xFF) OR (of_nat (strtoul 16 status) AND 0xFF)\<rparr>"

definition read_status :: "smart_sys \<Rightarrow> smart_sys" where
  "read_status s =
     (if \<not> UPS_Cap (ups s) CI_STATUS then s
      else let (status, s1) = status_loop 5 s in if halted s1 then s1 else upd_ups (set_status_byte status) s1)"

type_synonym smart_reading = "nat \<times> (string \<Rightarrow> upsinfo \<Rightarrow> upsinfo)"

definition read_ci :: "smart_reading \<Rightarrow> smart_sys \<Rightarrow> smart_sys" where
  "read_ci = (\<lambda>(ci, f) s.
     if \<not> UPS_Cap (ups s) ci then s
     else let (a, s1) = poll_ci ci s in if halted s1 then s1 else upd_ups (f a) s1)"

definition hex_answer :: "string \<Rightarrow> nat" where
  "hex_answer a = strtoul 16 a mod 2 ^ 32"

definition volatile_readings :: "smart_reading list" where
  "volatile_readings =
     [(CI_LQUAL, \<lambda>a u. u\<lparr>linequal := strlcpy_to 8 a\<rparr>),
      (CI_WHY_BATT, \<lambda>a u. u\<lparr>lastxfer := decode_lastxfer a\<rparr>),
      (CI_ST_STAT, \<lambda>a u. u\<lparr>testresult := decode_testresult a\<rparr>),
      (CI_VLINE, \<lambda>a u. u\<lparr>LineVoltage := atof a\<rparr>),
      (CI_VMAX, \<lambda>a u. u\<lparr>LineMax := atof a\<rparr>),
      (CI_VMIN, \<lambda>a u. u\<lparr>LineMin := atof a\<rparr>),
      (CI_VOUT, \<lambda>a u. u\<lparr>OutputVoltage := atof a\<rparr>),
      (CI_BATTLEV, \<lambda>a u. u\<lparr>BattChg := atof a\<rparr>),
      (CI_VBATT, \<lambda>a u. u\<lparr>BattVoltage := atof a\<rparr>),
      (CI_LOAD, \<lambda>a u. u\<lparr>UPSLoad := atof a\<rparr>),
      (CI_FREQ, \<lambda>a u. u\<lparr>LineFreq := atof a\<rparr>),
      (CI_RUNTIM, \<lambda>a u. u\<lparr>TimeLeft := atof a\<rparr>),
      (CI_ITEMP, \<lambda>a u. u\<lparr>UPSTemp := atof a\<rparr>),
      (CI_DIPSW, \<lambda>a u. u\<lparr>dipsw := hex_answer a\<rparr>),
      (CI_REG1, \<lambda>a u. u\<lparr>reg1 := hex_answer a\<rparr>),
      (CI_REG2, \<lambda>a u. (if bit (hex_answer a) 5 then clear_battpresent else set_battpresent) (u\<lparr>reg2 := hex_answer a\<rparr>)),
      (CI_REG3, \<lambda>a u. u\<lparr>reg3 := hex_answer a\<rparr>),
      (CI_HUMID, \<lambda>a u. u\<lparr>humidity := atof a\<rparr>),
      (CI_ATEMP, \<lambda>a u. u\<lparr>ambtemp := atof a\<rparr>),
      (CI_ST_TIME, \<lambda>a u. u\<lparr>LastSTTime := atof a\<rparr>)]"

text \<open>\<open>SUCCESS\<close> is 0, which is \<open>false\<close>.\<close>

definition poll_y :: "smart_sys \<Rightarrow> smart_sys" where
  "poll_y s = snd (smart_poll CHR ''Y'' s)"

definition stamp_poll :: "smart_sys \<Rightarrow> smart_sys" where
  "stamp_poll s = (let (now, s1) = time_now s in upd_ups (\<lambda>u. u\<lparr>poll_time := now\<rparr>) s1)"

definition smart_read_volatile_data :: "smart_sys \<Rightarrow> bool \<times> smart_sys" where
  "smart_read_volatile_data s =
     (False, run ([UPSlinkCheck, stamp_poll, read_status] @ map read_ci volatile_readings @
                  [poll_y, poll_y, write_unlock]) (write_lock s))"

definition read_upsname :: "smart_sys \<Rightarrow> smart_sys" where
  "read_upsname s =
     (if upsname (ups s) \<noteq> [] then s else read_ci (CI_IDEN, \<lambda>a u. u\<lparr>upsname := strlcpy_to 100 a\<rparr>) s)"

definition read_upsmodel :: "smart_sys \<Rightarrow> smart_sys" where
  "read_upsmodel s =
     read_ci (CI_UPSMODEL, \<lambda>a u. u\<lparr>upsmodel := strlcpy_to 256
       (if UPS_Cmd u CI_UPSMODEL = 86 then get_model_from_oldfwrev a else a)\<rparr>) s"

definition static_readings :: "smart_reading list" where
  "static_readings =
     [(CI_SENS, \<lambda>a u. u\<lparr>sensitivity := strlcpy_to 8 a\<rparr>),
      (CI_DWAKE, \<lambda>a u. u\<lparr>dwake := trunc (atof a)\<rparr>),
      (CI_DSHUTD, \<lambda>a u. u\<lparr>dshutd := trunc (atof a)\<rparr>),
      (CI_LTRANS, \<lambda>a u. u\<lparr>lotrans := trunc (atof a)\<rparr>),
      (CI_HTRANS, \<lambda>a u. u\<lparr>hitrans := trunc (atof a)\<rparr>),
      (CI_RETPCT, \<lambda>a u. u\<lparr>rtnpct := trunc (atof a)\<rparr>),
      (CI_DALARM, \<lambda>a u. u\<lparr>beepstate := strlcpy_to 8 a\<rparr>),
      (CI_DLBATT, \<lambda>a u. u\<lparr>dlowbatt := trunc (atof a)\<rparr>)]"

definition static_readings2 :: "smart_reading list" where
  "static_readings2 =
     [(CI_STESTI, \<lambda>a u. u\<lparr>selftest := strlcpy_to 9 a\<rparr>),
      (CI_MANDAT, \<lambda>a u. u\<lparr>birth := strlcpy_to 20 a\<rparr>),
      (CI_SERNO, \<lambda>a u. u\<lparr>serial := strlcpy_to 32 a\<rparr>),
      (CI_BATTDAT, \<lambda>a u. u\<lparr>battdat := strlcpy_to 20 a\<rparr>),
      (CI_NOMOUTV, \<lambda>a u. u\<lparr>NomOutputVoltage := trunc (atof a)\<rparr>),
      (CI_NOMBATTV, \<lambda>a u. u\<lparr>nombattv := atof a\<rparr>),
      (CI_REVNO, \<lambda>a u. u\<lparr>firmrev := strlcpy_to 20 a\<rparr>),
      (CI_EXTBATTS, \<lambda>a u. u\<lparr>extbatts := trunc (atof a)\<rparr>),
      (CI_BADBATTS, \<lambda>a u. u\<lparr>badbatts := trunc (atof a)\<rparr>)]"

definition smart_read_static_data :: "smart_sys \<Rightarrow> bool \<times> smart_sys" where
  "smart_read_static_data s =
     (False, run (map read_ci static_readings @ [read_upsname] @ map read_ci static_readings2 @
                  [read_upsmodel, read_ci (CI_EPROM, \<lambda>a u. u\<lparr>eprom := strlcpy_to 500 a\<rparr>)]) s)"

subsection \<open>Commands (smartoper.c, smart.c)\<close>

definition acked :: "string \<Rightarrow> bool" where
  "acked response \<longleftrightarrow> c_str response = ''OK'' \<or> c_str response = ''*''"

text \<open>A line into a local buffer of 32 bytes; what is left of the process is not looked at after an \<open>exit\<close>.\<close>

definition get_response :: "string \<Rightarrow> smart_sys \<Rightarrow> string \<times> smart_sys" where
  "get_response buf s = (let (ok, buf1, s1) = getline (Some 32) buf s in (buf1, s1))"

definition get_shutdown_delay :: "smart_sys \<Rightarrow> int \<times> smart_sys" where
  "get_shutdown_delay s =
     (let s1 = send_char (ups_cmd CI_DSHUTD s) s; (buf, s2) = get_response (fresh_buffer 32 s1) s1
      in (trunc (atof (c_str buf)), s2))"

definition warn_shutdown :: "int \<Rightarrow> smart_sys \<Rightarrow> smart_sys" where
  "warn_shutdown delay s =
     log_event LOG_WARNING (''Please power off your UPS before rebooting your computer ...'' @ [NL])
       (log_event LOG_WARNING
          (if delay > 0 then ''UPS will power off after '' @ show_int delay @ '' seconds ...'' @ [NL]
           else ''UPS will power off after the configured delay  ...'' @ [NL]) s)"

definition shutdown_with_delay :: "int \<Rightarrow> smart_sys \<Rightarrow> bool \<times> smart_sys" where
  "shutdown_with_delay delay s =
     (let s1 = send_char CHR ''K'' (sleep_secs 2 (send_char CHR ''K'' s));
          (buf, s2) = get_response (fresh_buffer 32 s1) s1
      in if halted s2 then (False, s2)
         else if acked buf then (True, warn_shutdown delay s2)
         else (False, log_event LOG_WARNING (''Failed to issue shutdown command!'' @ [NL]) s2))"

definition smart_shutdown :: "smart_sys \<Rightarrow> bool \<times> smart_sys" where
  "smart_shutdown s =
     (let (delay, s1) = get_shutdown_delay s in if halted s1 then (False, s1) else shutdown_with_delay delay s1)"

text \<open>Characters with a pause behind each.\<close>

definition send_slowly :: "int \<Rightarrow> string \<Rightarrow> smart_sys \<Rightarrow> smart_sys" where
  "send_slowly pause cs s = fold (\<lambda>c t. sleep_secs pause (send_char c t)) cs s"

text \<open>
  The attempts of \<open>kill_power\<close>: a soft shutdown, which works on battery only, the command
  \<open>@00\<close>, which some UPSes want to have one more zero, and then the one after which
  the UPS stays off.
\<close>

fun kill_attempts :: "(int \<times> string) list \<Rightarrow> int \<Rightarrow> string \<Rightarrow> smart_sys \<Rightarrow> bool \<times> smart_sys" where
  "kill_attempts [] delay buf s = shutdown_with_delay delay s"
| "kill_attempts ((pause, cs) # rest) delay buf s =
     (let (buf1, s1) = get_response buf (send_slowly pause cs s)
      in if halted s1 then (False, s1)
         else if acked buf1 then (True, warn_shutdown delay s1)
         else kill_attempts rest delay buf1 s1)"

definition smart_kill_power :: "smart_sys \<Rightarrow> bool \<times> smart_sys" where
  "smart_kill_power s =
     (let (delay, s1) = get_shutdown_delay s
      in if halted s1 then (False, s1)
         else kill_attempts [(5, ''S''), (2, ''@00''), (2, ''0'')] delay [] s1)"

definition smart_check_state :: "smart_sys \<Rightarrow> bool \<times> smart_sys" where
  "smart_check_state s = (let (ok, buf, s1) = getline None [] s in (ok, s1))"

text \<open>The reason of a transfer is asked for five times at most, while it is not available.\<close>

fun selftest_loop :: "nat \<Rightarrow> smart_sys \<Rightarrow> smart_sys" where
  "selftest_loop 0 s = s"
| "selftest_loop (Suc retries) s =
     (if lastxfer (ups s) \<noteq> XFER_NA then s
      else let (a, s1) = poll_ci CI_WHY_BATT s; s2 = upd_ups (\<lambda>u. u\<lparr>lastxfer := decode_lastxfer a\<rparr>) s1
           in if halted s1 then s1
              else if decode_lastxfer a = XFER_NA
              then selftest_loop retries (if retries > 0 then sleep_secs 2 s2 else s2)
              else if decode_lastxfer a = XFER_SELFTEST
              then let (now, s3) = time_now s2 in selftest_loop retries (upd_ups (\<lambda>u. u\<lparr>SelfTest := now\<rparr>) s3)
              else selftest_loop retries s2)"

definition smart_entry_point :: "devcmd \<Rightarrow> smart_sys \<Rightarrow> bool \<times> smart_sys" where
  "smart_entry_point cmd s =
     (case cmd of
        DEVICE_CMD_SET_DUMB_MODE \<Rightarrow>
          let s1 = send_char CHR ''R'' s
          in (False, snd (snd (getline (Some 20) (NUL # drop 1 (fresh_buffer 20 s1)) s1)))
      | DEVICE_CMD_GET_SELFTEST_MSG \<Rightarrow>
          (False, read_ci (CI_ST_STAT, \<lambda>a u. u\<lparr>testresult := decode_testresult a\<rparr>) s)
      | DEVICE_CMD_CHECK_SELFTEST \<Rightarrow>
          (False, if UPS_Cap (ups s) CI_WHY_BATT
                  then selftest_loop 5 (upd_ups (\<lambda>u. u\<lparr>lastxfer := XFER_NA\<rparr>) s) else s)
      | _ \<Rightarrow> (True, s))"

definition smart_driver :: "smart_line driver" where
  "smart_driver = \<lparr>
     drv_open = smart_open, drv_close = smart_close, drv_read_static_data = smart_read_static_data,
     drv_read_volatile_data = smart_read_volatile_data, drv_get_capabilities = smart_get_capabilities,
     drv_check_state = smart_check_state, drv_setup = smart_setup, drv_kill_power = smart_kill_power,
     drv_shutdown = smart_shutdown, drv_entry_point = smart_entry_point\<rparr>"

end
