(* ===== verification/SmartEeprom.thy ===== *)
theory SmartEeprom
  imports Smart
begin

text \<open>
  Changing the settings a smart UPS keeps (\<open>src/drivers/apcsmart/smarteeprom.c\<close>): names and dates are
  written, other settings are cycled through their values until the wanted one shows. What is
  printed for the user is left out.
\<close>

definition ask :: "nat \<Rightarrow> char \<Rightarrow> string \<Rightarrow> smart_sys \<Rightarrow> bool \<times> string \<times> smart_sys" where
  "ask len cmd buf s = getline (Some len) buf (send_char cmd s)"

definition cycle_cmd :: "smart_sys \<Rightarrow> char" where
  "cycle_cmd = ups_cmd CI_CYCLE_EPROM"

text \<open>\<open>*response = 0\<close>\<close>

definition emptied :: "string \<Rightarrow> string" where
  "emptied buf = NUL # drop 1 buf"

text \<open>One step to the next value; it ends with the value the UPS shows then, read twice.\<close>

datatype cycle_result = CycleError | Cycled string

definition cycle_step :: "char \<Rightarrow> string \<times> string \<Rightarrow> smart_sys \<Rightarrow> cycle_result \<times> (string \<times> string) \<times> smart_sys" where
  "cycle_step cmd bufs s =
     (let (response, response1) = bufs;
          (ok, response1, s1) = ask 32 cmd response1 s;
          (ok, response, s2) = ask 32 (cycle_cmd s1) (emptied response) s1
      in if c_str response \<noteq> ''OK'' then (CycleError, (response, response1), sleep_secs 10 s2)
         else let (ok, response1, s3) = ask 32 cmd response1 s2;
                  (ok, response, s4) = ask 32 cmd response s3
              in if \<not> ok \<or> c_str response1 \<noteq> c_str response
                 then let (ok, response, s5) = getline (Some 32) response s4
                      in (CycleError, (response, response1), s5)
                 else (Cycled (c_str response), (response, response1), s4))"

fun cycle_loop ::
  "nat \<Rightarrow> nat \<Rightarrow> char \<Rightarrow> string \<Rightarrow> string \<Rightarrow> string \<times> string \<Rightarrow> smart_sys \<Rightarrow> bool \<times> smart_sys" where
  "cycle_loop 0 i cmd setting oldvalue bufs s = (False, snd (snd (getline (Some 32) (fst bufs) s)))"
| "cycle_loop (Suc n) i cmd setting oldvalue bufs s =
     (let (r, bufs1, s1) = cycle_step cmd bufs s
      in if halted s1 then (False, s1)
         else case r of
                CycleError \<Rightarrow> (False, s1)
              | Cycled v \<Rightarrow>
                  if setting = v then (True, sleep_secs 10 s1)
                  else if oldvalue = v \<and> i > 0 then (False, snd (snd (getline (Some 32) (fst bufs1) s1)))
                  else cycle_loop n (Suc i) cmd setting oldvalue bufs1 (sleep_secs 5 s1))"

definition change_ups_eeprom_item :: "char \<Rightarrow> string \<Rightarrow> smart_sys \<Rightarrow> bool \<times> smart_sys" where
  "change_ups_eeprom_item cmd setting s =
     (let (ok, oldbuf, s1) = ask 32 cmd (fresh_buffer 32 s) s; oldvalue = c_str oldbuf
      in if \<not> ok then (False, s1)
         else if oldvalue = setting then (True, s1)
         else let (ok, response, s2) = ask 32 cmd (emptied (fresh_buffer 32 s1)) s1
              in if halted s2 \<or> oldvalue \<noteq> c_str response then (False, s2)
                 else cycle_loop 10 0 cmd setting oldvalue (response, fresh_buffer 32 s2) s2)"

subsection \<open>Names and dates\<close>

text \<open>Eight characters of a name, padded with blanks; \<open>None\<close> for an empty one.\<close>

definition name_field :: "string \<Rightarrow> string option" where
  "name_field newname = (if newname = [] then None else Some (take 8 (newname @ replicate 8 CHR '' '')))"

definition date_field :: "string \<Rightarrow> string option" where
  "date_field newdate = (if length newdate \<noteq> 8 then None else Some newdate)"

definition write_field :: "nat \<Rightarrow> string \<Rightarrow> smart_sys \<Rightarrow> smart_sys" where
  "write_field ci field s =
     (let (ok, response, s1) = ask 32 (ups_cmd ci s) (fresh_buffer 32 s) s;
          s2 = send_slowly 1 field (sleep_secs 1 (send_char (cycle_cmd s1) s1))
      in if halted s1 then s1 else snd (snd (getline (Some 32) (emptied response) s2)))"

definition change_ups_field ::
  "nat \<Rightarrow> (string \<Rightarrow> upsinfo \<Rightarrow> upsinfo) \<Rightarrow> string option \<Rightarrow> smart_sys \<Rightarrow> smart_sys" where
  "change_ups_field ci put field s =
     (case field of
        None \<Rightarrow> s
      | Some cs \<Rightarrow>
          run [write_field ci cs, upd_ups (put []), \<lambda>t. snd (poll_ci ci t),
               \<lambda>t. let (a, t1) = poll_ci ci t in if halted t1 then t1 else upd_ups (put a) t1] s)"

definition change_ups_name :: "string \<Rightarrow> smart_sys \<Rightarrow> smart_sys" where
  "change_ups_name newname =
     change_ups_field CI_IDEN (\<lambda>a u. u\<lparr>upsname := strlcpy_to 100 a\<rparr>) (name_field newname)"

definition change_ups_battery_date :: "string \<Rightarrow> smart_sys \<Rightarrow> smart_sys" where
  "change_ups_battery_date newdate =
     change_ups_field CI_BATTDAT (\<lambda>a u. u\<lparr>battdat := strlcpy_to 20 a\<rparr>) (date_field newdate)"

subsection \<open>Settings\<close>

text \<open>\<open>%0wd\<close> of an \<open>int\<close>, with the sign inside the width.\<close>

definition show_int_pad :: "nat \<Rightarrow> int \<Rightarrow> string" where
  "show_int_pad w i = (if i < 0 then CHR ''-'' # show_pad (w - 1) (nat (- i)) else show_pad w (nat i))"

text \<open>The interval of self tests; \<open>ON\<close> is padded to three characters.\<close>

definition interval_setting :: "string \<Rightarrow> string" where
  "interval_setting x = (if length (take 3 x) = 2 then take 3 x @ '' '' else take 3 x)"

datatype setting_format = FirstChar | Padded nat | Interval

fun format_setting :: "setting_format \<Rightarrow> string \<Rightarrow> string" where
  "format_setting FirstChar x = take 1 x"
| "format_setting (Padded w) x = take 19 (show_int_pad w (atoi x))"
| "format_setting Interval x = interval_setting x"

definition setting_formats :: "(nat \<times> setting_format) list" where
  "setting_formats =
     [(CI_SENS, FirstChar), (CI_DALARM, FirstChar), (CI_DLBATT, Padded 2), (CI_DWAKE, Padded 3),
      (CI_DSHUTD, Padded 3), (CI_LTRANS, Padded 3), (CI_HTRANS, Padded 3), (CI_RETPCT, Padded 2),
      (CI_STESTI, Interval), (CI_NOMOUTV, Padded 3)]"

text \<open>
  The settings of the configuration file, in the order they are changed in; a string \<open>-1\<close>
  and a number -1 stand for a setting that was not given.
\<close>

definition configured :: "(nat \<times> (upsinfo \<Rightarrow> string)) list" where
  "configured =
     [(CI_SENS, sensitivity), (CI_DWAKE, \<lambda>u. show_int (dwake u)), (CI_DSHUTD, \<lambda>u. show_int (dshutd u)),
      (CI_LTRANS, \<lambda>u. show_int (lotrans u)), (CI_HTRANS, \<lambda>u. show_int (hitrans u)),
      (CI_RETPCT, \<lambda>u. show_int (rtnpct u)), (CI_DALARM, beepstate), (CI_DLBATT, \<lambda>u. show_int (dlowbatt u)),
      (CI_STESTI, selftest), (CI_NOMOUTV, \<lambda>u. show_int (NomOutputVoltage u))]"

definition change_item :: "nat \<Rightarrow> string \<Rightarrow> smart_sys \<Rightarrow> smart_sys" where
  "change_item ci x s =
     (case map_of setting_formats ci of
        None \<Rightarrow> s
      | Some f \<Rightarrow> snd (change_ups_eeprom_item (ups_cmd ci s) (format_setting f x) s))"

definition change_configured :: "nat \<times> (upsinfo \<Rightarrow> string) \<Rightarrow> smart_sys \<Rightarrow> smart_sys" where
  "change_configured = (\<lambda>(ci, get) s.
     if UPS_Cap (ups s) ci \<and> get (ups s) \<noteq> ''-1'' then change_item ci (get (ups s)) s else s)"

definition change_extended :: "smart_sys \<Rightarrow> smart_sys" where
  "change_extended s = run ([\<lambda>t. snd (smart_get_capabilities t)] @ map change_configured configured) s"

text \<open>\<open>None\<close> as the command is the old style, which takes the settings of the configuration file.\<close>

definition program_eeprom :: "nat option \<Rightarrow> string \<Rightarrow> smart_sys \<Rightarrow> bool \<times> smart_sys" where
  "program_eeprom command data s =
     (let s1 = run [\<lambda>t. snd (smart_setup t), \<lambda>t. snd (smart_get_capabilities t)] s
      in if halted s1 then (False, s1)
         else case command of
                None \<Rightarrow>
                  (True, run [change_extended, \<lambda>t. snd (smart_read_volatile_data t),
                              \<lambda>t. snd (smart_read_static_data t)] s1)
              | Some ci \<Rightarrow>
                  if ci = CI_BATTDAT \<and> UPS_Cap (ups s1) ci then (True, change_ups_battery_date data s1)
                  else if ci = CI_IDEN \<and> UPS_Cap (ups s1) ci then (True, change_ups_name data s1)
                  else if map_of setting_formats ci \<noteq> None \<and> UPS_Cap (ups s1) ci then (True, change_item ci data s1)
                  else (False, s1))"

end
