(* ===== verification/SmartLaws.thy ===== *)
theory SmartLaws
  imports SmartEeprom
begin

text \<open>
  What the smart driver keeps, and the properties of its protocol: the contract of the driver
  interface, the answers that are read between changes of state, and the check of the link.
\<close>

subsection \<open>The contract of the interface\<close>

lemma notification_shutdown: "notification c = Some f \<Longrightarrow> is_shutdown (f u) = is_shutdown u"
  by (auto simp: notification_def shutdown_bit bit_online set_bits clear_bits split: if_splits)

text \<open>What every report of a change keeps is kept by a line.\<close>

lemma getline_loop_inv:
  "getline_loop len wait acc w now u = (r, acc1, w1, now1, u1) \<Longrightarrow> P u \<Longrightarrow>
    (\<And>c f v. notification c = Some f \<Longrightarrow> P v \<Longrightarrow> P (f v)) \<Longrightarrow> P u1"
proof (induction len wait acc w now u rule: getline_loop.induct)
  case (1 len wait acc w now u)
  note step = 1(5) [unfolded getline_loop.simps [of len wait acc w now u]]
  show ?case
  proof (cases "port_next wait w now")
    case (fields res now2 w2)
    show ?thesis
    proof (cases res)
      case (GotChar c)
      then show ?thesis
        using step 1(1-4,6,7) by (cases "ignored c")
          (auto simp: fields split: option.splits if_splits)
    qed (use step fields 1(6) in auto)
  qed
qed

lemma getline_loop_shutdown:
  "getline_loop len wait acc w now u = (r, acc1, w1, now1, u1) \<Longrightarrow> is_shutdown u1 = is_shutdown u"
  by (erule getline_loop_inv [where P = "\<lambda>v. is_shutdown v = is_shutdown u"]) (auto dest: notification_shutdown)

lemma getline_quiet: "quiet s (snd (snd (getline len buf s)))"
proof (cases "getline_loop len (case len of None \<Rightarrow> wait_time (ups s) * 1000 | Some _ \<Rightarrow> 1000) []
    (sm_in (drv s)) (sm_now (drv s)) (ups s)")
  case (fields r acc w now u)
  have u: "is_shutdown u = is_shutdown (ups s)" by (rule getline_loop_shutdown [OF fields])
  have "quiet s (upd_ups (\<lambda>_. u) (upd_drv (\<lambda>d. d\<lparr>sm_in := w, sm_now := now\<rparr>) s))"
    by (simp add: quiet_def u)
  then show ?thesis
    using fields quiet_exit(1) [of "upd_ups (\<lambda>_. u) (upd_drv (\<lambda>d. d\<lparr>sm_in := w, sm_now := now\<rparr>) s)"]
    by (auto simp: getline_def Let_def quiet_upd_drv split: line_result.split intro: quiet_trans)
qed


lemma quiet_drv [simp]: "quiet s (upd_drv f t) = quiet s t"
  by (simp add: quiet_def)

lemma quiet_small:
  "quiet s (send_char c s)" "quiet s (sleep_secs n s)" "quiet s (port_flush s)" "quiet s (clear_answer s)"
  "quiet s (snd (smart_open s))" "quiet s (snd (smart_close s))"
  by (auto simp: send_char_def sleep_secs_def port_flush_def clear_answer_def smart_open_def smart_close_def
      split: list.split bool.split intro!: then_quiet)

lemma poll_once_quiet: "quiet s (snd (poll_once cmd s))"
  using getline_quiet [of "send_char cmd s"] quiet_small(1) [of s cmd]
  by (auto simp: poll_once_def Let_def split: prod.split intro: quiet_trans) (metis quiet_trans snd_conv)

lemma poll_retry_quiet: "(\<And>t. quiet t (check t)) \<Longrightarrow> quiet s (poll_retry check retry cmd s)"
proof (induction check retry cmd s rule: poll_retry.induct)
  case (1 check retry cmd s)
  obtain ok s1 where p: "poll_once cmd s = (ok, s1)" by force
  then have q: "quiet s s1" using poll_once_quiet [of s cmd] by simp
  moreover have "quiet s1 (check s1)" by (rule 1)
  ultimately have c: "quiet s (check s1)" "quiet s (clear_answer (check s1))"
    using quiet_small(4) by (blast intro: quiet_trans)+
  show ?case
    using 1 q c by (subst poll_retry.simps) (auto simp: p Let_def split: nat.split intro: quiet_trans)
qed

lemma poll_with_quiet: "(\<And>t. quiet t (check t)) \<Longrightarrow> quiet s (poll_with check cmd s)"
  using quiet_small(4) [of s] poll_retry_quiet [of check "clear_answer s"]
  by (auto simp: poll_with_def Let_def intro: quiet_trans)

lemma poll_link_quiet: "quiet s (poll_link s)"
  unfolding poll_link_def by (rule poll_with_quiet) simp

lemma declare_lost_quiet: "quiet s (snd (declare_lost start prev s))"
  by (auto simp: declare_lost_def Let_def split: prod.split intro!: then_quiet)

lemma link_round_quiet: "quiet s (link_round s)"
proof -
  have "quiet t (if is_commlost (ups t) then snd (smart_close t) else t)"
    "quiet t (if is_commlost (ups t) then snd (smart_open t) else t)" for t
    by (simp_all add: quiet_small)
  then show ?thesis unfolding link_round_def Let_def using quiet_small(2,3) by (blast intro: quiet_trans)
qed

lemma smart_link_loop_quiet: "quiet s (link_loop n start prev s)"
proof (induction n arbitrary: start prev s)
  case (Suc n)
  have "quiet s (link_loop n start p (link_round t))" if "declare_lost start prev (poll_link s) = (p, t)" for p t
  proof -
    have "quiet (poll_link s) t" using declare_lost_quiet [of "poll_link s" start prev] that by simp
    then show ?thesis using poll_link_quiet link_round_quiet Suc by (blast intro: quiet_trans)
  qed
  then show ?case using poll_link_quiet [of s] by (auto simp: Let_def split: prod.split)
qed (simp add: quiet_def)

lemma link_back_quiet: "quiet s (link_back s)"
  by (auto simp: link_back_def intro!: then_quiet)

lemma UPSlinkCheck_quiet: "quiet s (UPSlinkCheck s)"
proof -
  let ?t = "poll_link (port_flush s)"
  let ?r = "link_loop (sm_rounds (drv (write_unlock ?t))) (sm_now (drv (write_unlock ?t)))
    (sm_now (drv (write_unlock ?t))) (port_flush (write_unlock ?t))"
  have t: "quiet s ?t" using quiet_small(3) poll_link_quiet by (blast intro: quiet_trans)
  have r: "quiet (write_unlock ?t) ?r" using quiet_small(3) smart_link_loop_quiet by (blast intro: quiet_trans)
  have "quiet ?t (write_lock ?r)" by (rule quiet_unlocked [OF r])
  then have "quiet s (link_back (write_lock ?r))" using t link_back_quiet by (blast intro: quiet_trans)
  moreover have "quiet s ?r" if "halted ?r"
    using t r that by (simp add: quiet_def write_unlock_def shutdown_count_def)
  moreover have "quiet s (upd_ups clear_commlost ?t)" using t by (intro then_quiet) simp_all
  ultimately show ?thesis using t by (simp add: UPSlinkCheck_def Let_def)
qed

lemma smart_poll_quiet: "quiet s (snd (smart_poll cmd s))" "quiet s (snd (poll_ci ci s))" "quiet s (poll_y s)"
  by (simp_all add: smart_poll_def poll_ci_def poll_y_def Let_def poll_with_quiet UPSlinkCheck_quiet)


lemma setup_loop_quiet: "quiet s (snd (setup_loop n s))"
proof (induction n arbitrary: s)
  case 0
  then show ?case by (simp add: quiet_exit)
next
  case (Suc n)
  obtain ok buf s2 where g: "getline (Some 10) (NUL # drop 1 (fresh_buffer 10 (send_char CHR ''Y'' s))) (send_char CHR ''Y'' s) = (ok, buf, s2)"
    by (metis prod_cases3)
  then have 2: "quiet s s2"
    using getline_quiet [of "send_char CHR ''Y'' s"] quiet_small(1) by (metis quiet_trans snd_conv)
  then have "quiet s (snd (setup_loop n (sleep_secs 1 s2)))"
    using Suc quiet_small(2) by (blast intro: quiet_trans)
  then show ?case using 2 by (simp add: Let_def g del: One_nat_def)
qed

lemma smart_setup_quiet: "quiet s (snd (smart_setup s))"
proof -
  have "quiet s (port_flush (sleep_secs 1 (send_char CHR ''Y'' s)))"
    using quiet_small(1-3) by (blast intro: quiet_trans)
  then show ?thesis using setup_loop_quiet by (auto simp: smart_setup_def simp del: setup_loop.simps intro: quiet_trans)
qed

lemma same_upd: "Status (f (ups s)) = Status (ups s) \<Longrightarrow> quiet t s \<Longrightarrow> quiet t (upd_ups f s)"
  by (rule quiet_upd_same_Status)

lemma probe_quiet: "quiet s (set_cap ci b s)" "quiet s (probe_ci cmds ci s)" "quiet s (probe_old cmds ci s)"
proof -
  show cap: "quiet s (set_cap ci b s)" for s b by (simp add: set_cap_def same_upd)
  have "quiet s (set_cap ci b (snd (poll_ci ci s)))"
    using smart_poll_quiet(2) cap by (blast intro: quiet_trans)
  then show "quiet s (probe_ci cmds ci s)"
    using smart_poll_quiet(2) [of s ci] cap
    by (auto simp: probe_ci_def Let_def split: prod.split intro: quiet_trans)
  have "quiet s (set_cap ci b (snd (smart_poll c s)))" for b c
    using smart_poll_quiet(1) cap by (blast intro: quiet_trans)
  then show "quiet s (probe_old cmds ci s)"
    using smart_poll_quiet(1) [of s "CHR ''V''"]
    by (auto simp: probe_old_def Let_def split: prod.split intro!: same_upd) (metis snd_conv)+
qed

lemma smart_capabilities_quiet: "quiet s (snd (smart_get_capabilities s))"
proof -
  obtain a s1 where p: "poll_ci CI_UPS_CAPS (write_lock s) = (a, s1)" by force
  let ?fs = "map (probe_ci (command_list (take 999 a))) [0..<Suc CI_MAX_CAPS] @
    [probe_old (command_list (take 999 a)) CI_UPSMODEL, probe_old (command_list (take 999 a)) CI_REVNO]"
  have 1: "quiet (write_lock s) s1" using smart_poll_quiet(2) [of "write_lock s" CI_UPS_CAPS] by (simp add: p)
  have "quiet t (run ?fs t)" for t
    by (rule quiet_run) (auto intro: probe_quiet)
  then have "quiet (write_lock s) (run ?fs t)" if "quiet s1 t" for t
    using 1 that by (blast intro: quiet_trans)
  then have r: "quiet (write_lock s) (run ?fs (if b then set_cap CI_UPS_CAPS c s1 else s1))" for b c
    using probe_quiet(1) by simp
  have h: "quiet s t" if "quiet (write_lock s) t" "halted t" for t
    using that by (simp add: quiet_def write_lock_def shutdown_count_def)
  show ?thesis
    using 1 r [of "supported (take 999 a)" "command_list (take 999 a) \<noteq> None"]
    by (auto simp: smart_get_capabilities_def p Let_def simp del: upt_Suc intro: h quiet_locked)
qed

lemma status_loop_quiet: "quiet s (snd (status_loop n s))"
proof (induction n arbitrary: s)
  case 0
  then show ?case using smart_poll_quiet(2) [of s CI_STATUS]
    by (subst status_loop.simps) (auto simp: Let_def split: prod.split)
next
  case (Suc n)
  then show ?case using smart_poll_quiet(2) [of s CI_STATUS]
    by (subst status_loop.simps) (auto simp: Let_def split: prod.split intro: quiet_trans)
qed

lemma set_status_byte_shutdown: "is_shutdown (set_status_byte a u) = is_shutdown u"
proof -
  have "\<not> bit (0xFF :: 32 word) 9" "bit (NOT 0xFF :: 32 word) 9" by simp_all
  moreover have "Status (set_status_byte a u) = (Status u AND NOT 0xFF) OR (of_nat (strtoul 16 a) AND 0xFF)"
    by (simp add: set_status_byte_def)
  ultimately show ?thesis by (simp only: shutdown_bit bit_or_iff bit_and_iff) blast
qed

lemma read_status_quiet: "quiet s (read_status s)"
  using status_loop_quiet [of s 5]
  by (auto simp: read_status_def Let_def set_status_byte_shutdown split: prod.split intro!: then_quiet)

lemma read_ci_quiet: "(\<And>a u. is_shutdown (f a u) = is_shutdown u) \<Longrightarrow> quiet s (read_ci (ci, f) s)"
  using smart_poll_quiet(2) [of s ci]
  by (auto simp: read_ci_def Let_def split: prod.split intro!: then_quiet)

lemma readings_shutdown:
  "(ci, f) \<in> set volatile_readings \<union> set static_readings \<union> set static_readings2 \<Longrightarrow> is_shutdown (f a u) = is_shutdown u"
  by (auto simp: volatile_readings_def static_readings_def static_readings2_def shutdown_bit set_bits clear_bits
      split: if_splits)

lemma readings_quiet:
  "r \<in> set volatile_readings \<union> set static_readings \<union> set static_readings2 \<Longrightarrow> quiet s (read_ci r s)"
  by (cases r) (metis read_ci_quiet readings_shutdown)

lemma stamp_poll_quiet: "quiet s (stamp_poll s)"
  using quiet_time_now [of s]
  by (auto simp: stamp_poll_def Let_def split: prod.split intro!: same_upd)

lemma locked_run_quiet:
  assumes "\<And>f t. f \<in> set fs \<Longrightarrow> quiet t (f t)"
  shows "quiet s (run (fs @ [write_unlock]) (write_lock s))"
proof -
  have q: "quiet (write_lock s) (run fs (write_lock s))" by (rule quiet_run) (rule assms)
  have "quiet s t" if "quiet (write_lock s) t" "halted t" for t
    using that by (simp add: quiet_def write_lock_def shutdown_count_def)
  then show ?thesis using q quiet_locked [OF q] by (simp add: run_append Let_def)
qed

lemma smart_read_volatile_quiet: "quiet s (snd (smart_read_volatile_data s))"
  using locked_run_quiet [of "[UPSlinkCheck, stamp_poll, read_status] @ map read_ci volatile_readings @ [poll_y, poll_y]" s]
  by (auto simp: smart_read_volatile_data_def intro!: UPSlinkCheck_quiet stamp_poll_quiet read_status_quiet
      readings_quiet smart_poll_quiet simp del: run.simps)

lemma smart_read_static_quiet: "quiet s (snd (smart_read_static_data s))"
proof -
  have "quiet s (read_upsname s)" "quiet s (read_upsmodel s)"
    "quiet s (read_ci (CI_EPROM, \<lambda>a u. u\<lparr>eprom := strlcpy_to 500 a\<rparr>) s)" for s :: smart_sys
    by (auto simp: read_upsname_def read_upsmodel_def intro!: read_ci_quiet) (simp_all add: shutdown_bit)
  then show ?thesis
    unfolding smart_read_static_data_def snd_conv
    by (intro quiet_run) (auto intro: readings_quiet)
qed

subsection \<open>Commands\<close>

lemma getline_quiet_eq: "getline len buf s = (ok, buf1, t) \<Longrightarrow> quiet s t"
  using getline_quiet [of s len buf] by simp

lemma get_response_quiet: "quiet s (snd (get_response buf s))"
  using getline_quiet [of s "Some 32" buf] by (auto simp: get_response_def split: prod.split)

lemma send_slowly_quiet: "quiet s (send_slowly pause cs s)"
  unfolding send_slowly_def using quiet_small(1,2) by (intro quiet_fold) (blast intro: quiet_trans)

lemma warn_shutdown_quiet: "quiet s (warn_shutdown delay s)"
  unfolding warn_shutdown_def by (intro then_quiet) simp

lemma get_shutdown_delay_quiet: "quiet s (snd (get_shutdown_delay s))"
  using get_response_quiet [of "send_char (ups_cmd CI_DSHUTD s) s"] quiet_small(1)
  by (auto simp: get_shutdown_delay_def Let_def split: prod.split) (metis quiet_trans snd_conv)

lemma shutdown_with_delay_quiet: "quiet s (snd (shutdown_with_delay delay s))"
proof -
  let ?t = "send_char CHR ''K'' (sleep_secs 2 (send_char CHR ''K'' s))"
  obtain buf s2 where r: "get_response (fresh_buffer 32 ?t) ?t = (buf, s2)" by force
  have "quiet s ?t" using quiet_small(1,2) by (blast intro: quiet_trans)
  then have "quiet s s2" using get_response_quiet [of ?t "fresh_buffer 32 ?t"] by (auto simp: r intro: quiet_trans)
  then show ?thesis
    using warn_shutdown_quiet [of s2 delay]
    by (auto simp: shutdown_with_delay_def Let_def r intro: quiet_trans then_quiet)
qed

lemma kill_attempts_quiet: "quiet s (snd (kill_attempts ps delay buf s))"
proof (induction ps delay buf s rule: kill_attempts.induct)
  case (2 pause cs rest delay buf s)
  obtain buf1 s1 where r: "get_response buf (send_slowly pause cs s) = (buf1, s1)" by force
  have 1: "quiet s s1"
    using send_slowly_quiet [of s pause cs] get_response_quiet [of "send_slowly pause cs s" buf]
    by (auto simp: r intro: quiet_trans)
  have "quiet s1 (snd (kill_attempts rest delay buf1 s1))" if "\<not> halted s1" "\<not> acked buf1"
    using 2 [OF r [symmetric]] that by blast
  then show ?case using 1 warn_shutdown_quiet [of s1 delay] by (auto simp: r intro: quiet_trans)
qed (simp add: shutdown_with_delay_quiet)

lemma smart_power_quiet: "quiet s (snd (smart_kill_power s))" "quiet s (snd (smart_shutdown s))"
  using get_shutdown_delay_quiet [of s]
  by (auto simp: smart_kill_power_def smart_shutdown_def split: prod.split
      intro: quiet_trans [OF _ kill_attempts_quiet] quiet_trans [OF _ shutdown_with_delay_quiet]
      simp del: kill_attempts.simps)

lemma smart_check_state_quiet: "quiet s (snd (smart_check_state s))"
  using getline_quiet [of s None "[]"] by (auto simp: smart_check_state_def split: prod.split)

lemma selftest_loop_quiet: "quiet s (selftest_loop n s)"
proof (induction n arbitrary: s)
  case (Suc n)
  obtain a s1 where p: "poll_ci CI_WHY_BATT s = (a, s1)" by force
  let ?t = "upd_ups (\<lambda>u. u\<lparr>lastxfer := decode_lastxfer a\<rparr>) s1"
  have 1: "quiet s s1" using smart_poll_quiet(2) [of s CI_WHY_BATT] by (simp add: p)
  then have t: "quiet s ?t" by (simp add: same_upd)
  have "quiet s (sleep_secs 2 ?t)" using t quiet_small(2) by (blast intro: quiet_trans)
  moreover have "quiet s (upd_ups (\<lambda>u. u\<lparr>SelfTest := now\<rparr>) t')" if "time_now ?t = (now, t')" for now t'
    using then_quiet(2) [OF t] that by (auto intro!: same_upd)
  ultimately show ?case
    using 1 t Suc by (auto simp: p Let_def split: prod.split intro: quiet_trans)
qed simp

lemma smart_entry_point_quiet: "quiet s (snd (smart_entry_point cmd s))"
proof -
  have "quiet s (snd (snd (getline len buf (send_char c s))))" for len buf c
    using quiet_small(1) getline_quiet by (blast intro: quiet_trans)
  moreover have "quiet s (read_ci (CI_ST_STAT, \<lambda>a u. u\<lparr>testresult := decode_testresult a\<rparr>) s)"
    by (rule read_ci_quiet) (simp add: shutdown_bit)
  moreover have "quiet s (selftest_loop 5 (upd_ups (\<lambda>u. u\<lparr>lastxfer := XFER_NA\<rparr>) s))"
    by (rule quiet_trans [OF _ selftest_loop_quiet]) (simp add: same_upd)
  ultimately show ?thesis by (simp add: smart_entry_point_def Let_def split: devcmd.split)
qed

interpretation smart: ups_driver smart_driver
proof
  fix f :: "smart_sys \<Rightarrow> bool \<times> smart_sys" and s
  assume "f \<in> driver_ops smart_driver"
  then show "quiet s (snd (f s))"
    by (auto simp: driver_ops_def smart_driver_def quiet_small smart_read_static_quiet smart_read_volatile_quiet
        smart_capabilities_quiet smart_check_state_quiet smart_setup_quiet smart_power_quiet smart_entry_point_quiet)
qed

end
