(* ===== verification/SmartProps.thy ===== *)
theory SmartProps
  imports SmartLaws
begin

text \<open>The properties of the smart driver.\<close>

subsection \<open>Answers\<close>

definition plain_char :: "char \<Rightarrow> bool" where
  "plain_char c \<longleftrightarrow> notification c = None \<and> \<not> ignored c \<and> c \<noteq> NL"

definition notify :: "char \<Rightarrow> upsinfo \<Rightarrow> upsinfo" where
  "notify c u = (case notification c of None \<Rightarrow> u | Some f \<Rightarrow> f u)"

definition bytes_at :: "(int \<times> char) list \<Rightarrow> port_script" where
  "bytes_at cs = map (\<lambda>(t, c). (t, PortByte c)) cs"

text \<open>Each byte comes within \<open>wait\<close> of the one before.\<close>

fun timely :: "int \<Rightarrow> int \<Rightarrow> (int \<times> char) list \<Rightarrow> bool" where
  "timely wait now [] \<longleftrightarrow> True"
| "timely wait now ((t, c) # cs) \<longleftrightarrow> t \<le> now + wait \<and> timely wait (max now t) cs"

definition time_after :: "int \<Rightarrow> (int \<times> char) list \<Rightarrow> int" where
  "time_after now cs = fold (\<lambda>(t, c) n. max n t) cs now"

lemma port_next_byte:
  "t \<le> now + wait \<Longrightarrow> port_next wait ((t, PortByte c) # w) now = (GotChar c, max now t, w)"
  by (simp add: max_def)

lemma getline_bytes:
  assumes "timely wait now cs" "NL \<notin> snd ` set cs" "length acc + length (filter plain_char (map snd cs)) < n"
  shows "getline_loop (Some n) wait acc (bytes_at cs @ w) now u =
    getline_loop (Some n) wait (acc @ filter plain_char (map snd cs)) w (time_after now cs)
      (fold notify (map snd cs) u)"
  using assms
proof (induction cs arbitrary: now acc u)
  case Nil
  then show ?case by (simp add: bytes_at_def time_after_def)
next
  case (Cons tc cs)
  obtain t c where tc: "tc = (t, c)" by force
  have step: "port_next wait (bytes_at ((t, c) # cs) @ w) now = (GotChar c, max now t, bytes_at cs @ w)"
    using Cons.prems by (simp add: tc bytes_at_def max_def)
  have later: "time_after (max now t) cs = time_after now (tc # cs)"
    by (simp add: time_after_def tc)
  let ?next = "\<lambda>acc1 u1. getline_loop (Some n) wait acc1 (bytes_at cs @ w) (max now t) u1"
  have "getline_loop (Some n) wait acc (bytes_at (tc # cs) @ w) now u =
      ?next (if plain_char c then acc @ [c] else acc) (notify c u)"
    using Cons.prems
    by (subst getline_loop.simps) (auto simp: step plain_char_def notify_def tc split: option.split)
  also have "\<dots> = getline_loop (Some n) wait ((if plain_char c then acc @ [c] else acc) @ filter plain_char (map snd cs))
      w (time_after (max now t) cs) (fold notify (map snd cs) (notify c u))"
    by (rule Cons.IH) (use Cons.prems in \<open>auto simp: tc\<close>)
  finally show ?case unfolding later by (simp add: tc)
qed

lemma getline_line:
  assumes "timely 1000 now (cs @ [(t, NL)])" "NL \<notin> snd ` set cs" "length (filter plain_char (map snd cs)) < n"
  shows "getline_loop (Some n) 1000 [] (bytes_at cs @ (t, PortByte NL) # w) now u =
    (LineDone, filter plain_char (map snd cs), w, time_after now (cs @ [(t, NL)]), fold notify (map snd cs) u)"
proof -
  have split: "timely 1000 now cs \<and> t \<le> time_after now cs + 1000"
    using assms(1) by (induction cs arbitrary: now) (auto simp: time_after_def)
  then have "port_next 1000 ((t, PortByte NL) # w) (time_after now cs) = (GotChar NL, max (time_after now cs) t, w)"
    by (simp add: max_def)
  then show ?thesis
    using getline_bytes [of 1000 now cs "[]" n] split assms
    by (subst getline_bytes) (auto simp: getline_loop.simps notification_def ignored_def time_after_def)
qed

lemma c_str_filter: "NUL \<notin> set cs \<Longrightarrow> c_str (filter P cs @ NUL # r) = filter P cs"
  by (induction cs) (auto simp: c_str_def)

lemma poll_line:
  assumes "fd (ups s) \<noteq> - 1"
    and "sm_in (drv s) = bytes_at cs @ (t, PortByte NL) # w"
    and "timely 1000 (sm_now (drv s)) (cs @ [(t, NL)])"
    and "NL \<notin> snd ` set cs" "NUL \<notin> set (map snd cs)" "length cs < 2000"
  shows "the_answer (poll_with check cmd s) = filter plain_char (map snd cs) \<and>
    ups (poll_with check cmd s) = fold notify (map snd cs) (ups s) \<and> sm_in (drv (poll_with check cmd s)) = w \<and>
    sm_sent (drv (poll_with check cmd s)) = sm_sent (drv s) @ [cmd] \<and>
    sm_now (drv (poll_with check cmd s)) = time_after (sm_now (drv s)) (cs @ [(t, NL)]) \<and>
    halted (poll_with check cmd s) = halted s"
proof -
  let ?a = "filter plain_char (map snd cs)"
  have "length ?a < 2000" using assms(6) le_less_trans [OF length_filter_le] by simp
  note line = getline_line [OF assms(3,4) this]
  have "c_str (?a @ NUL # r) = ?a" for r using assms(5) by (rule c_str_filter)
  then show ?thesis
    using line [of w "ups s"] assms(1,2)
    by (simp add: poll_with_def poll_retry.simps poll_once_def getline_def send_char_def
        clear_answer_def Let_def fill_buffer_def the_answer_def)
qed

text \<open>C25: a line that comes in time is read whole, whatever reports of a change come between its
  characters: the answer is the line without them, and the state of the UPS is changed by each of
  them in their order.\<close>

theorem smart_answer_read:
  assumes "fd (ups s) \<noteq> - 1"
    and "sm_in (drv s) = bytes_at cs @ (t, PortByte NL) # w"
    and "timely 1000 (sm_now (drv s)) (cs @ [(t, NL)])"
    and "NL \<notin> snd ` set cs" "NUL \<notin> set (map snd cs)" "length cs < 2000"
  shows "\<exists>s'. smart_poll cmd s = (filter plain_char (map snd cs), s') \<and>
    ups s' = fold notify (map snd cs) (ups s) \<and> sm_in (drv s') = w \<and> sm_sent (drv s') = sm_sent (drv s) @ [cmd]"
  using poll_line [OF assms, of UPSlinkCheck cmd] by (auto simp: smart_poll_def Let_def)

text \<open>C26: an answer that breaks off is not asked for again, and it is not the answer: behind the
  characters that came stand those that an earlier answer left in the buffer.\<close>

theorem smart_stale_answer:
  assumes "fd (ups s) \<noteq> - 1"
    and "sm_in (drv s) = bytes_at cs"
    and "timely 1000 (sm_now (drv s)) cs"
    and "NL \<notin> snd ` set cs" "NUL \<notin> set (map snd cs)" "length cs < 2000" "filter plain_char (map snd cs) \<noteq> []"
  shows "\<exists>s'. smart_poll cmd s =
    (filter plain_char (map snd cs) @ c_str (drop (length (filter plain_char (map snd cs))) (sm_answer (drv s))), s') \<and>
    sm_sent (drv s') = sm_sent (drv s) @ [cmd]"
proof -
  let ?a = "filter plain_char (map snd cs)"
  have "length ?a < 2000" using assms(6) le_less_trans [OF length_filter_le] by simp
  then have line: "getline_loop (Some 2000) 1000 [] (bytes_at cs @ []) (sm_now (drv s)) (ups s) =
      (LineFailed, ?a, [], time_after (sm_now (drv s)) cs + 1000, fold notify (map snd cs) (ups s))"
    using assms by (subst getline_bytes) (auto simp: getline_loop.simps)
  obtain x xs where a: "?a = x # xs" using assms(7) by (cases ?a) auto
  have n: "NUL \<notin> set ?a" using assms(5) by (metis filter_is_subset subsetD)
  have "c_str (?a @ r) = ?a @ c_str r" for r
    unfolding c_str_def by (rule takeWhile_append2) (use n in metis)
  moreover have "drop (length ?a) (NUL # drop 1 b) = drop (length ?a) b" for b :: string
    by (cases b) (simp_all add: a)
  ultimately show ?thesis
    using line assms(1,2) a
    by (simp add: smart_poll_def poll_with_def poll_retry.simps poll_once_def getline_def send_char_def
        clear_answer_def Let_def fill_buffer_def the_answer_def del: append_Cons)
qed

subsection \<open>What a line leaves alone\<close>

lemma notification_frame:
  "notification c = Some f \<Longrightarrow> fd (f u) = fd u \<and> UPS_Cmd (f u) = UPS_Cmd u \<and> is_commlost (f u) = is_commlost u"
proof -
  assume n: "notification c = Some f"
  have "fd (f u) = fd u \<and> UPS_Cmd (f u) = UPS_Cmd u"
    using n by (auto simp: notification_def flag_ops split: if_splits)
  moreover have "is_commlost (f u) = is_commlost u"
    using n by (auto simp: notification_def commlost.is_f_bit set_bits clear_bits bit_online split: if_splits)
  ultimately show ?thesis by simp
qed

lemma getline_frame:
  assumes "getline len buf s = (ok, buf1, t)"
  shows "fd (ups t) = fd (ups s)" "UPS_Cmd (ups t) = UPS_Cmd (ups s)" "is_commlost (ups t) = is_commlost (ups s)"
    "sm_sent (drv t) = sm_sent (drv s)"
proof -
  have "fd (ups t) = fd (ups s) \<and> UPS_Cmd (ups t) = UPS_Cmd (ups s) \<and> is_commlost (ups t) = is_commlost (ups s) \<and>
      sm_sent (drv t) = sm_sent (drv s)"
  proof (cases "getline_loop len (case len of None \<Rightarrow> wait_time (ups s) * 1000 | Some _ \<Rightarrow> 1000) []
      (sm_in (drv s)) (sm_now (drv s)) (ups s)")
    case (fields r acc w now u)
    have "fd u = fd (ups s) \<and> UPS_Cmd u = UPS_Cmd (ups s) \<and> is_commlost u = is_commlost (ups s)"
      by (rule getline_loop_inv [OF fields, where P = "\<lambda>v. fd v = fd (ups s) \<and> UPS_Cmd v = UPS_Cmd (ups s) \<and>
            is_commlost v = is_commlost (ups s)"])
        (simp_all add: notification_frame)
    then show ?thesis
      using assms fields
      by (auto simp: getline_def Let_def error_abort_def emit_def split: if_splits line_result.splits)
  qed
  then show "fd (ups t) = fd (ups s)" "UPS_Cmd (ups t) = UPS_Cmd (ups s)"
    "is_commlost (ups t) = is_commlost (ups s)" "sm_sent (drv t) = sm_sent (drv s)"
    by auto
qed

lemma small_frame [simp]:
  "ups (send_char c s) = ups s" "ups (sleep_secs n s) = ups s" "ups (port_flush s) = ups s" "ups (clear_answer s) = ups s"
  "halted (send_char c s) = halted s" "halted (sleep_secs n s) = halted s" "halted (clear_answer s) = halted s"
  "halted (port_flush s) = halted s"
  by (simp_all add: send_char_def sleep_secs_def port_flush_def clear_answer_def)

lemma small_sent [simp]:
  "fd (ups s) \<noteq> - 1 \<Longrightarrow> sm_sent (drv (send_char c s)) = sm_sent (drv s) @ [c]"
  "sm_sent (drv (sleep_secs n s)) = sm_sent (drv s)"
  by (simp_all add: send_char_def sleep_secs_def)

subsection \<open>The link\<close>

definition connected :: "smart_sys \<Rightarrow> bool" where
  "connected s \<longleftrightarrow> halted s \<or> \<not> is_commlost (ups s)"

lemma commlost_cleared [simp]: "\<not> is_commlost (clear_commlost u)"
  by (simp add: commlost.is_f_bit clear_bits)

lemma link_check_connects: "connected (UPSlinkCheck s)"
  by (auto simp: connected_def UPSlinkCheck_def link_back_def Let_def)

lemma halted_kept: "quiet s t \<Longrightarrow> halted s \<Longrightarrow> halted t"
  by (simp add: quiet_def)

lemma poll_retry_connected: "connected s \<Longrightarrow> connected (poll_retry UPSlinkCheck retry cmd s)"
proof (induction retry arbitrary: s)
  have once: "connected t" if "poll_once cmd s = (ok, t)" "connected s" for s ok t
  proof -
    obtain ok1 buf s2 where g: "getline (Some 2000) (sm_answer (drv (send_char cmd s))) (send_char cmd s) = (ok1, buf, s2)"
      by (metis prod_cases3)
    then have t: "t = upd_drv (\<lambda>d. d\<lparr>sm_answer := buf\<rparr>) s2" using that(1) by (simp add: poll_once_def Let_def)
    show ?thesis
      using that(2) getline_frame(3) [OF g] getline_quiet_eq [OF g]
      by (auto simp: connected_def t dest: halted_kept)
  qed
  {
    case 0
    then show ?case
      using once link_check_connects by (subst poll_retry.simps) (auto simp: Let_def connected_def split: prod.split)
  next
    case (Suc n)
    have "connected (clear_answer (UPSlinkCheck t))" for t
      using link_check_connects [of t] by (simp add: connected_def)
    then show ?case
      using Suc once link_check_connects
      by (subst poll_retry.simps) (auto simp: Let_def split: prod.split)
  }
qed

lemma smart_poll_connected: "connected s \<Longrightarrow> connected (snd (smart_poll cmd s))" "connected s \<Longrightarrow> connected (snd (poll_ci ci s))"
  using poll_retry_connected [of "clear_answer s"]
  by (auto simp: smart_poll_def poll_ci_def poll_with_def Let_def connected_def)

lemma status_loop_connected: "connected s \<Longrightarrow> connected (snd (status_loop n s))"
proof (induction n arbitrary: s)
  case 0
  then show ?case using smart_poll_connected(2) [of s CI_STATUS]
    by (subst status_loop.simps) (auto simp: Let_def split: prod.split)
next
  case (Suc n)
  then show ?case using smart_poll_connected(2) [of s CI_STATUS]
    by (subst status_loop.simps) (auto simp: Let_def split: prod.split)
qed

lemma set_status_byte_commlost: "is_commlost (set_status_byte a u) = is_commlost u"
proof -
  have "\<not> bit (0xFF :: 32 word) 8" "bit (NOT 0xFF :: 32 word) 8" by simp_all
  moreover have "Status (set_status_byte a u) = (Status u AND NOT 0xFF) OR (of_nat (strtoul 16 a) AND 0xFF)"
    by (simp add: set_status_byte_def)
  ultimately show ?thesis by (simp only: commlost.is_f_bit bit_or_iff bit_and_iff) blast
qed

lemma read_status_connected: "connected s \<Longrightarrow> connected (read_status s)"
  using status_loop_connected [of s 5]
  by (auto simp: read_status_def connected_def Let_def set_status_byte_commlost split: prod.split)

lemma readings_commlost: "(ci, f) \<in> set volatile_readings \<Longrightarrow> is_commlost (f a u) = is_commlost u"
  by (auto simp: volatile_readings_def commlost.is_f_bit set_bits clear_bits split: if_splits)

lemma read_ci_connected: "r \<in> set volatile_readings \<Longrightarrow> connected s \<Longrightarrow> connected (read_ci r s)"
  using smart_poll_connected(2) [of s "fst r"] readings_commlost [of "fst r" "snd r"]
  by (auto simp: read_ci_def connected_def Let_def split: prod.split)

lemma link_loop_SM:
  "\<not> halted (link_loop n start prev s) \<Longrightarrow> the_answer (link_loop n start prev s) = ''SM''"
  by (induction n arbitrary: start prev s) (auto simp: Let_def split: prod.splits if_splits)

lemma link_check_SM: "\<not> halted (UPSlinkCheck s) \<Longrightarrow> the_answer (UPSlinkCheck s) = ''SM''"
proof -
  have "the_answer (link_back (write_lock t)) = the_answer t" "the_answer (upd_ups f t) = the_answer t" for t f
    by (simp_all add: the_answer_def link_back_def)
  then show "\<not> halted (UPSlinkCheck s) \<Longrightarrow> the_answer (UPSlinkCheck s) = ''SM''"
    using link_loop_SM by (auto simp: UPSlinkCheck_def Let_def split: if_splits)
qed

subsection \<open>A link that stays down\<close>

text \<open>Nothing comes any more, and nothing but the loss of the connection has changed.\<close>

definition deaf :: "smart_sys \<Rightarrow> smart_sys \<Rightarrow> bool" where
  "deaf s t \<longleftrightarrow> sm_in (drv t) = [] \<and> \<not> halted t \<and> poll_time (ups t) = poll_time (ups s) \<and>
     same_status {8} (ups s) (ups t)"

lemma poll_deaf:
  assumes "sm_in (drv s) = []"
  shows "the_answer (poll_link s) = []" "ups (poll_link s) = ups s" "sm_in (drv (poll_link s)) = []"
    "halted (poll_link s) = halted s" "sm_now (drv s) \<le> sm_now (drv (poll_link s))"
    "sm_rounds (drv (poll_link s)) = sm_rounds (drv s)"
  using assms
  by (simp_all add: poll_link_def poll_with_def poll_retry.simps poll_once_def getline_def getline_loop.simps
      send_char_def clear_answer_def the_answer_def Let_def fill_buffer_def c_str_def)

lemma commlost_bit: "n \<noteq> 8 \<Longrightarrow> bit (Status (set_commlost u)) n = bit (Status u) n"
  by (simp add: set_bits)

lemma event_status [simp]:
  "Status (ups (log_cmd ev s)) = Status (ups s)" "poll_time (ups (log_cmd ev s)) = poll_time (ups s)"
  "halted (log_cmd ev s) = halted s"
  "Status (ups (plain_event ev s)) = Status (ups s)" "poll_time (ups (plain_event ev s)) = poll_time (ups s)"
  "halted (plain_event ev s) = halted s"
  by (simp_all add: plain_event_def log_cmd_def run_command_def execute_command_def reap_counted_def Let_def)

lemma event_commlost [simp]: "is_commlost (ups (log_cmd ev s)) = is_commlost (ups s)"
  by (simp add: commlost.is_f_bit)

lemma declare_deaf:
  assumes "deaf r s" "declare_lost start prev s = (p, t)"
  shows "deaf r t" "sm_now (drv t) = sm_now (drv s)"
    "is_commlost (ups t) \<longleftrightarrow> is_commlost (ups s) \<or> 20000 \<le> sm_now (drv s) - start"
proof -
  have set: "is_commlost (set_commlost u)" for u by (simp add: commlost.is_f_bit set_bits)
  have pt: "poll_time (set_commlost u) = poll_time u" for u by (simp add: flag_ops)
  show "deaf r t" "sm_now (drv t) = sm_now (drv s)"
    "is_commlost (ups t) \<longleftrightarrow> is_commlost (ups s) \<or> 20000 \<le> sm_now (drv s) - start"
    using assms
    by (auto simp: declare_lost_def deaf_def same_status_def Let_def commlost_bit set pt split: if_splits prod.splits)
qed

lemma round_deaf:
  assumes "deaf r s"
  shows "deaf r (link_round s)" "sm_now (drv (link_round s)) = sm_now (drv s) + 1000"
    "is_commlost (ups (link_round s)) = is_commlost (ups s)"
  using assms
  by (auto simp: link_round_def deaf_def same_status_def Let_def smart_close_def smart_open_def port_flush_def
      sleep_secs_def flush_script_def commlost.is_f_bit split: list.split bool.split)

lemma link_loop_deaf:
  "deaf r s \<Longrightarrow> halted (link_loop n start prev s) \<and>
    sm_now (drv s) + 1000 * int n \<le> sm_now (drv (link_loop n start prev s)) \<and>
    deaf r ((link_loop n start prev s)\<lparr>halted := False\<rparr>) \<and>
    (is_commlost (ups s) \<or> 0 < n \<and> start + 20000 \<le> sm_now (drv s) + 1000 * (int n - 1) \<longrightarrow>
      is_commlost (ups (link_loop n start prev s)))"
proof (induction n arbitrary: prev s)
  case 0
  then show ?case by (simp add: deaf_def)
next
  case (Suc n)
  let ?p = "poll_link s"
  have 1: "sm_in (drv s) = []" "\<not> halted s" using Suc.prems by (simp_all add: deaf_def)
  note poll = poll_deaf [OF 1(1)]
  have p: "deaf r ?p" using Suc.prems poll by (simp add: deaf_def)
  obtain prev1 t where d: "declare_lost start prev ?p = (prev1, t)" by force
  note t = declare_deaf [OF p d]
  note IH = Suc.IH [OF round_deaf(1) [OF t(1)], of prev1]
  have "link_loop (Suc n) start prev s = link_loop n start prev1 (link_round t)"
    using poll 1(2) d by (simp add: Let_def)
  then show ?case
    using IH poll(5) t round_deaf(2,3) [OF t(1)] poll(2) by auto
qed

lemma flush_deaf:
  "sm_in (drv s) = [] \<Longrightarrow> sm_in (drv (port_flush s)) = []" "sm_now (drv (port_flush s)) = sm_now (drv s)"
  "sm_rounds (drv (port_flush s)) = sm_rounds (drv s)"
  by (simp_all add: port_flush_def flush_script_def)

lemma link_check_deaf:
  fixes s defines "n \<equiv> sm_rounds (drv s)"
  assumes "sm_in (drv s) = []" "\<not> halted s"
  shows "halted (UPSlinkCheck s) \<and> sm_now (drv s) + 1000 * int n \<le> sm_now (drv (UPSlinkCheck s)) \<and>
    deaf s ((UPSlinkCheck s)\<lparr>halted := False\<rparr>) \<and> (21 \<le> n \<longrightarrow> is_commlost (ups (UPSlinkCheck s)))"
proof -
  let ?f = "port_flush s" let ?p = "poll_link ?f" let ?w = "port_flush (write_unlock ?p)"
  have f: "sm_in (drv ?f) = []" "\<not> halted ?f" "sm_now (drv ?f) = sm_now (drv s)" "ups ?f = ups s" "sm_rounds (drv ?f) = n"
    using assms by (simp_all add: flush_deaf n_def)
  note poll = poll_deaf [OF f(1)]
  have w: "deaf s ?w" "sm_now (drv ?w) = sm_now (drv ?p)"
    using poll f by (simp_all add: deaf_def flush_deaf write_unlock_def)
  have "sm_now (drv (write_unlock ?p)) = sm_now (drv ?w)" "sm_rounds (drv (write_unlock ?p)) = n" 
    using poll f w(2) by simp_all
  then have "UPSlinkCheck s = link_loop n (sm_now (drv ?w)) (sm_now (drv ?w)) ?w"
    using poll f link_loop_deaf [OF w(1)] by (simp add: UPSlinkCheck_def Let_def)
  then show ?thesis
    using link_loop_deaf [OF w(1), of n "sm_now (drv ?w)" "sm_now (drv ?w)"] poll(5) f(3) w(2) by auto
qed

definition watched :: "nat \<Rightarrow> smart_sys \<Rightarrow> smart_sys" where
  "watched n = upd_drv (\<lambda>d. d\<lparr>sm_rounds := n\<rparr>)"

text \<open>C24: while the link to the UPS is down the driver does not come back from a poll, and the core decides
  nothing, whatever state the UPS was in. A poll that comes back has heard \<open>SM\<close> in its check of
  the link, and has the connection up. If nothing comes from the UPS, the poll has not come back
  after any number of rounds, of a second at least each: the connection is declared lost, from the
  twenty-first round on, and nothing else has changed in the status, the time of the last
  poll neither.\<close>

theorem smart_poll_waits_for_link:
  assumes "snd (smart_read_volatile_data (watched n s)) = t"
  shows "(\<not> halted t \<longrightarrow> the_answer (UPSlinkCheck (write_lock (watched n s))) = ''SM'' \<and> \<not> is_commlost (ups t)) \<and>
    (sm_in (drv s) = [] \<and> \<not> halted s \<longrightarrow>
      halted t \<and> sm_now (drv s) + 1000 * int n \<le> sm_now (drv t) \<and> (21 \<le> n \<longrightarrow> is_commlost (ups t)) \<and>
      same_status {8} (ups s) (ups t) \<and> poll_time (ups t) = poll_time (ups s))"
proof -
  let ?s = "write_lock (watched n s)"
  let ?fs = "[stamp_poll, read_status] @ map read_ci volatile_readings @ [poll_y, poll_y, write_unlock]"
  have t: "t = run (UPSlinkCheck # ?fs) ?s" using assms by (simp add: smart_read_volatile_data_def)
  have up: "the_answer (UPSlinkCheck ?s) = ''SM'' \<and> \<not> is_commlost (ups t)" if "\<not> halted t"
  proof -
    have "connected (run ?fs r)" if "connected r" for r
    proof (rule run_invariant [where P = connected, OF _ that])
      fix f :: "smart_sys \<Rightarrow> smart_sys" and r assume "f \<in> set ?fs" "connected r"
      then show "connected (f r)"
        using smart_poll_connected(1) [of r "CHR ''Y''"] read_status_connected read_ci_connected
        by (auto simp: poll_y_def stamp_poll_def connected_def write_unlock_def time_now_def Let_def commlost.is_f_bit)
    qed
    then have "connected (run ?fs (UPSlinkCheck ?s))" using link_check_connects by blast
    moreover have "t = run ?fs (UPSlinkCheck ?s)" using that unfolding t by (cases "halted ?s") simp_all
    moreover have "\<not> halted (UPSlinkCheck ?s)" using calculation(2) that by auto
    ultimately show ?thesis using link_check_SM [of ?s] that by (simp add: connected_def)
  qed
  have down: "halted t \<and> sm_now (drv s) + 1000 * int n \<le> sm_now (drv t) \<and> (21 \<le> n \<longrightarrow> is_commlost (ups t)) \<and>
      same_status {8} (ups s) (ups t) \<and> poll_time (ups t) = poll_time (ups s)"
    if "sm_in (drv s) = []" "\<not> halted s"
  proof -
    have "\<not> halted ?s" "sm_in (drv ?s) = []" "sm_rounds (drv ?s) = n" "sm_now (drv ?s) = sm_now (drv s)" "ups ?s = ups s"
      using that by (simp_all add: write_lock_def watched_def)
    moreover from this have "t = UPSlinkCheck ?s" using link_check_deaf [of ?s] unfolding t by simp
    ultimately show ?thesis using link_check_deaf [of ?s] by (simp add: deaf_def)
  qed
  show ?thesis using up down by blast
qed

subsection \<open>Turning the UPS off\<close>

lemma get_response_frame:
  "get_response buf s = (buf1, t) \<Longrightarrow>
    fd (ups t) = fd (ups s) \<and> UPS_Cmd (ups t) = UPS_Cmd (ups s) \<and> sm_sent (drv t) = sm_sent (drv s)"
  using getline_frame by (auto simp: get_response_def split: prod.splits)

lemma send_slowly_frame:
  "fd (ups s) \<noteq> - 1 \<Longrightarrow> sm_sent (drv (send_slowly pause cs s)) = sm_sent (drv s) @ cs"
  "ups (send_slowly pause cs s) = ups s"
  by (induction cs arbitrary: s) (simp_all add: send_slowly_def)

lemma warn_shutdown_frame [simp]: "drv (warn_shutdown delay s) = drv s"
  by (simp add: warn_shutdown_def)

lemma shutdown_with_delay_sent:
  assumes "fd (ups s) \<noteq> - 1" "shutdown_with_delay delay s = (r, t)"
  shows "sm_sent (drv t) = sm_sent (drv s) @ ''KK''"
proof -
  let ?s = "send_char CHR ''K'' (sleep_secs 2 (send_char CHR ''K'' s))"
  obtain buf s2 where g: "get_response (fresh_buffer 32 ?s) ?s = (buf, s2)" by force
  show ?thesis
    using assms get_response_frame [OF g] by (auto simp: shutdown_with_delay_def Let_def g split: if_splits)
qed

text \<open>The attempts are made in their order, up to the first that is acknowledged.\<close>

lemma kill_attempts_sent:
  "fd (ups s) \<noteq> - 1 \<Longrightarrow> kill_attempts ps delay buf s = (r, t) \<Longrightarrow>
    (r \<and> (\<exists>k\<in>{1..length ps}. sm_sent (drv t) = sm_sent (drv s) @ concat (map snd (take k ps)))) \<or>
    sm_sent (drv t) = sm_sent (drv s) @ concat (map snd ps) @ ''KK'' \<or> halted t"
proof (induction ps delay buf s rule: kill_attempts.induct)
  case (1 delay buf s)
  then show ?case using shutdown_with_delay_sent [of s delay r t] by simp
next
  case (2 pause cs rest delay buf s)
  obtain buf1 s1 where g: "get_response buf (send_slowly pause cs s) = (buf1, s1)" by force
  have f: "fd (ups s1) = fd (ups s)" "sm_sent (drv s1) = sm_sent (drv s) @ cs"
    using get_response_frame [OF g] send_slowly_frame 2(2) by simp_all
  consider "halted s1" | "\<not> halted s1" "acked buf1" | "\<not> halted s1" "\<not> acked buf1" by blast
  then show ?case
  proof cases
    case 1
    then show ?thesis using 2(3) by (simp add: g)
  next
    case 2
    then have "sm_sent (drv t) = sm_sent (drv s) @ concat (map snd (take 1 ((pause, cs) # rest)))" "r"
      using \<open>kill_attempts _ _ _ _ = _\<close> f by (auto simp: g)
    then show ?thesis by (intro disjI1 conjI bexI [of _ 1]) simp_all
  next
    case 3
    then have "kill_attempts rest delay buf1 s1 = (r, t)" using \<open>kill_attempts _ _ _ _ = _\<close> by (simp add: g)
    from "2.IH" [OF g [symmetric] refl 3 _ this] 2(2) f
    consider k where "r" "k \<in> {1..length rest}" "sm_sent (drv t) = sm_sent (drv s1) @ concat (map snd (take k rest))"
      | "sm_sent (drv t) = sm_sent (drv s1) @ concat (map snd rest) @ ''KK''" | "halted t"
      by auto
    then show ?thesis
    proof cases
      case (1 k)
      then show ?thesis by (intro disjI1 conjI bexI [of _ "Suc k"]) (simp_all add: f)
    qed (simp_all add: f)
  qed
qed

text \<open>\<open>kill_power\<close> asks for the delay and then goes through its commands in their order, the one
  after which the UPS stays off being the last; it stops at the first that is acknowledged, and
  when it fails it has tried all.\<close>

theorem smart_kill_sequence:
  assumes "fd (ups s) \<noteq> - 1" "smart_kill_power s = (r, t)" "\<not> halted t"
  shows "\<exists>cs. sm_sent (drv t) = sm_sent (drv s) @ ups_cmd CI_DSHUTD s # cs \<and>
    cs \<in> {''S'', ''S@00'', ''S@000'', ''S@000KK''} \<and> (cs \<noteq> ''S@000KK'' \<longrightarrow> r)"
proof -
  let ?c = "send_char (ups_cmd CI_DSHUTD s) s"
  obtain buf s1 where g: "get_response (fresh_buffer 32 ?c) ?c = (buf, s1)" by force
  have f: "fd (ups s1) = fd (ups s)" "sm_sent (drv s1) = sm_sent (drv s) @ [ups_cmd CI_DSHUTD s]"
    using get_response_frame [OF g] assms(1) by simp_all
  have "\<not> halted s1" "kill_attempts [(5, ''S''), (2, ''@00''), (2, ''0'')] (trunc (atof (c_str buf))) [] s1 = (r, t)"
    using assms(2,3) by (auto simp: smart_kill_power_def get_shutdown_delay_def Let_def g split: if_splits
        simp del: kill_attempts.simps)
  from kill_attempts_sent [OF _ this(2)] f assms(1,3)
  have "r \<and> (\<exists>k\<in>{1..Suc (Suc (Suc 0))}. sm_sent (drv t) = sm_sent (drv s1) @
        concat (map snd (take k [(5 :: int, ''S''), (2, ''@00''), (2, ''0'')]))) \<or>
      sm_sent (drv t) = sm_sent (drv s1) @ ''S@000KK''"
    by simp
  then consider k where "r" "k \<in> {1..Suc (Suc (Suc 0))}"
      "sm_sent (drv t) = sm_sent (drv s1) @ concat (map snd (take k [(5 :: int, ''S''), (2, ''@00''), (2, ''0'')]))"
    | "sm_sent (drv t) = sm_sent (drv s1) @ ''S@000KK''"
    by blast
  then show ?thesis
  proof cases
    case (1 k)
    then have "k = 1 \<or> k = 2 \<or> k = 3" by auto
    then show ?thesis using 1 f by auto
  qed (use f in auto)
qed

subsection \<open>Settings\<close>

lemma ask_frame:
  assumes "ask n cmd buf s = (ok, buf1, t)" "fd (ups s) \<noteq> - 1"
  shows "fd (ups t) = fd (ups s)" "UPS_Cmd (ups t) = UPS_Cmd (ups s)" "sm_sent (drv t) = sm_sent (drv s) @ [cmd]"
  using getline_frame [of "Some n" buf "send_char cmd s" ok buf1 t] assms by (simp_all add: ask_def)

lemma cycle_cmd_eq: "UPS_Cmd (ups t) = UPS_Cmd (ups s) \<Longrightarrow> cycle_cmd t = cycle_cmd s"
  by (simp add: cycle_cmd_def ups_cmd_def)

definition cycles :: "char \<Rightarrow> string \<Rightarrow> nat" where
  "cycles c cs = length (filter (\<lambda>x. x = c) cs)"

lemma cycles_append [simp]: "cycles c (xs @ ys) = cycles c xs + cycles c ys"
  by (simp add: cycles_def)

definition cycled :: "nat \<Rightarrow> smart_sys \<Rightarrow> smart_sys \<Rightarrow> bool" where
  "cycled n s t \<longleftrightarrow> fd (ups t) = fd (ups s) \<and> UPS_Cmd (ups t) = UPS_Cmd (ups s) \<and>
     cycles (cycle_cmd s) (sm_sent (drv t)) \<le> cycles (cycle_cmd s) (sm_sent (drv s)) + n"

lemma cycled_trans: "cycled m s t \<Longrightarrow> cycled n t r \<Longrightarrow> cycled (m + n) s r"
  using cycle_cmd_eq [of t s] by (auto simp: cycled_def)

lemma cycled_getline: "getline len buf s = (ok, buf1, t) \<Longrightarrow> cycled 0 s t"
  using getline_frame by (simp add: cycled_def)

lemma cycled_frame: "cycled n s t \<Longrightarrow> fd (ups t) = fd (ups s) \<and> cycle_cmd t = cycle_cmd s"
  using cycle_cmd_eq [of t s] by (simp add: cycled_def)

lemma cycled_sleep: "cycled n s t \<Longrightarrow> cycled n s (sleep_secs k t)"
  by (simp add: cycled_def)

lemma cycled_ask:
  "fd (ups s) \<noteq> - 1 \<Longrightarrow> ask n cmd buf s = (ok, buf1, t) \<Longrightarrow> cycled (if cmd = cycle_cmd s then 1 else 0) s t"
  using ask_frame [of n cmd buf s ok buf1 t] by (auto simp: cycled_def cycles_def)


lemma cycle_step_cycled:
  assumes "fd (ups s) \<noteq> - 1" "cmd \<noteq> cycle_cmd s" "cycle_step cmd bufs s = (r, bufs1, t)"
  shows "cycled 1 s t"
proof -
  obtain response response1 where b: "bufs = (response, response1)" by force
  obtain ok1 b1 s1 where 1: "ask 32 cmd response1 s = (ok1, b1, s1)" by (metis prod_cases3)
  obtain ok2 b2 s2 where 2: "ask 32 (cycle_cmd s1) (emptied response) s1 = (ok2, b2, s2)" by (metis prod_cases3)
  obtain ok3 b3 s3 where 3: "ask 32 cmd b1 s2 = (ok3, b3, s3)" by (metis prod_cases3)
  obtain ok4 b4 s4 where 4: "ask 32 cmd b2 s3 = (ok4, b4, s4)" by (metis prod_cases3)
  obtain ok5 b5 s5 where 5: "getline (Some 32) b4 s4 = (ok5, b5, s5)" by (metis prod_cases3)
  have c1: "cycled 0 s s1" using cycled_ask [OF assms(1) 1] assms(2) by simp
  then have k1: "fd (ups s1) \<noteq> - 1" "cycle_cmd s1 = cycle_cmd s"
    using assms(1) cycled_frame [OF c1] by simp_all
  have c2: "cycled 1 s s2" using cycled_trans [OF c1 cycled_ask [OF k1(1) 2]] by simp
  then have k2: "fd (ups s2) \<noteq> - 1" "cycle_cmd s2 = cycle_cmd s"
    using assms(1) cycled_frame [OF c2] by simp_all
  have c3: "cycled 1 s s3" using cycled_trans [OF c2 cycled_ask [OF k2(1) 3]] k2(2) assms(2) by simp
  then have k3: "fd (ups s3) \<noteq> - 1" "cycle_cmd s3 = cycle_cmd s"
    using assms(1) cycled_frame [OF c3] by simp_all
  have c4: "cycled 1 s s4" using cycled_trans [OF c3 cycled_ask [OF k3(1) 4]] k3(2) assms(2) by simp
  have c5: "cycled 1 s s5" using cycled_trans [OF c4 cycled_getline [OF 5]] by simp
  have "t = sleep_secs 10 s2 \<or> t = s5 \<or> t = s4"
    using assms(3) unfolding cycle_step_def b Let_def split_conv 1 2 3 4 5 prod.case by (simp split: if_split_asm)
  then show ?thesis using c2 c4 c5 cycled_sleep by blast
qed

lemma cycle_loop_cycled:
  assumes "fd (ups s) \<noteq> - 1" "cmd \<noteq> cycle_cmd s" "cycle_loop n i cmd setting old bufs s = (r, t)"
  shows "cycled n s t"
  using assms
proof (induction n arbitrary: i bufs s)
  case 0
  then show ?case
    using cycled_getline [of "Some 32" "fst bufs" s] by (metis cycle_loop.simps(1) prod.collapse snd_conv)
next
  case (Suc n)
  obtain c bufs1 s1 where st: "cycle_step cmd bufs s = (c, bufs1, s1)" by (metis prod_cases3)
  have 1: "cycled 1 s s1" by (rule cycle_step_cycled [OF Suc.prems(1,2) st])
  then have k: "fd (ups s1) \<noteq> - 1" "cycle_cmd s1 = cycle_cmd s"
    using Suc.prems(1) cycled_frame [OF 1] by simp_all
  obtain ok b s2 where g: "getline (Some 32) (fst bufs1) s1 = (ok, b, s2)" by (metis prod_cases3)
  have 2: "cycled 1 s s2" using cycled_trans [OF 1 cycled_getline [OF g]] by simp
  have 3: "cycled (Suc n) s t" if "cycle_loop n (Suc i) cmd setting old bufs1 (sleep_secs 5 s1) = (r, t)"
  proof -
    have "cycle_cmd (sleep_secs 5 s1) = cycle_cmd s" using k(2) by (simp add: cycle_cmd_def ups_cmd_def)
    then have "cycled n (sleep_secs 5 s1) t" using Suc.IH [OF _ _ that] k(1) Suc.prems(2) by simp
    then show ?thesis using cycled_trans [OF cycled_sleep [OF 1]] by force
  qed
  have mono: "cycled (Suc n) s t" if "cycled 1 s t" for t using that by (simp add: cycled_def)
  have "t = s1 \<or> t = s2 \<or> t = sleep_secs 10 s1 \<or> cycle_loop n (Suc i) cmd setting old bufs1 (sleep_secs 5 s1) = (r, t)"
    using Suc.prems(3) unfolding cycle_loop.simps Let_def st g prod.case snd_conv
    by (simp split: if_split_asm cycle_result.split_asm)
  then show ?case using mono [OF 1] mono [OF 2] mono [OF cycled_sleep [OF 1]] 3 by blast
qed

text \<open>Changing a setting steps the EEPROM of the UPS ten times at most.\<close>

theorem smart_eeprom_cycles_bounded:
  assumes "fd (ups s) \<noteq> - 1" "cmd \<noteq> cycle_cmd s" "change_ups_eeprom_item cmd setting s = (r, t)"
  shows "cycles (cycle_cmd s) (sm_sent (drv t)) \<le> cycles (cycle_cmd s) (sm_sent (drv s)) + 10"
proof -
  obtain ok1 b1 s1 where 1: "ask 32 cmd (fresh_buffer 32 s) s = (ok1, b1, s1)" by (metis prod_cases3)
  obtain ok2 b2 s2 where 2: "ask 32 cmd (emptied (fresh_buffer 32 s1)) s1 = (ok2, b2, s2)" by (metis prod_cases3)
  have c1: "cycled 0 s s1" using cycled_ask [OF assms(1) 1] assms(2) by simp
  then have k1: "fd (ups s1) \<noteq> - 1" "cycle_cmd s1 = cycle_cmd s"
    using assms(1) cycled_frame [OF c1] by simp_all
  have c2: "cycled 0 s s2" using cycled_trans [OF c1 cycled_ask [OF k1(1) 2]] k1(2) assms(2) by simp
  then have k2: "fd (ups s2) \<noteq> - 1" "cmd \<noteq> cycle_cmd s2"
    using assms(1,2) cycled_frame [OF c2] by simp_all
  have c3: "cycled 10 s t" if "cycle_loop 10 0 cmd setting (c_str b1) (b2, fresh_buffer 32 s2) s2 = (r, t)"
    using cycled_trans [OF c2 cycle_loop_cycled [OF k2 that]] by simp
  have "t = s1 \<or> t = s2 \<or> cycle_loop 10 0 cmd setting (c_str b1) (b2, fresh_buffer 32 s2) s2 = (r, t)"
    using assms(3) unfolding change_ups_eeprom_item_def 1 2 Let_def prod.case by (simp split: if_split_asm)
  moreover have "cycled 0 s t \<Longrightarrow> cycled 10 s t" by (simp add: cycled_def)
  ultimately have "cycled 10 s t" using c1 c2 c3 by blast
  then show ?thesis by (simp add: cycled_def)
qed

subsection \<open>Witnesses\<close>

definition spoken :: "int \<Rightarrow> string \<Rightarrow> (int \<times> char) list" where
  "spoken t cs = map (Pair t) cs"

definition demo_smart :: "port_script \<Rightarrow> string \<Rightarrow> smart_sys" where
  "demo_smart w buf =
     upd_ups (\<lambda>u. u\<lparr>fd := 3, UPS_Cmd := (\<lambda>ci. if ci = CI_CYCLE_EPROM then 45 else 112)\<rparr>)
       (start_sys ((new_smart_line w)\<lparr>sm_answer := buf\<rparr>))"

lemma char_45: "char_of (45 :: nat) = CHR ''-''" "char_of (112 :: nat) = CHR ''p''"
  by code_simp+

lemma demo_smart_simps [simp]:
  "fd (ups (demo_smart w buf)) = 3" "sm_in (drv (demo_smart w buf)) = w" "sm_now (drv (demo_smart w buf)) = 0"
  "sm_answer (drv (demo_smart w buf)) = buf" "sm_sent (drv (demo_smart w buf)) = []"
  "cycle_cmd (demo_smart w buf) = CHR ''-''"
  by (simp_all add: demo_smart_def start_sys_def new_smart_line_def cycle_cmd_def ups_cmd_def char_45)

text \<open>The UPS goes to battery in the middle of an answer.\<close>

theorem smart_answer_read_witness:
  "\<exists>s'. smart_poll CHR ''f'' (demo_smart (bytes_at (spoken 100 ''2!7'' @ [(200, CR)]) @ [(200, PortByte NL)]) []) = (''27'', s') \<and>
    is_onbatt (ups s')"
proof -
  let ?cs = "spoken 100 ''2!7'' @ [(200, CR)]"
  have "\<exists>s'. smart_poll CHR ''f'' (demo_smart (bytes_at ?cs @ [(200, PortByte NL)]) []) =
      (filter plain_char (map snd ?cs), s') \<and>
      ups s' = fold notify (map snd ?cs) (ups (demo_smart (bytes_at ?cs @ [(200, PortByte NL)]) [])) \<and>
      sm_in (drv s') = [] \<and> sm_sent (drv s') = sm_sent (drv (demo_smart (bytes_at ?cs @ [(200, PortByte NL)]) [])) @ [CHR ''f'']"
    by (rule smart_answer_read) (auto simp: spoken_def)
  moreover have "filter plain_char (map snd ?cs) = ''27''"
    by (simp add: spoken_def plain_char_def notification_def ignored_def)
  moreover have "is_onbatt (fold notify (map snd ?cs) u)" for u
    by (simp add: spoken_def notify_def notification_def is_bits bit_online)
  ultimately show ?thesis by auto
qed

text \<open>\<open>1\<close> is all that comes of the answer after \<open>27.5\<close>.\<close>

theorem smart_stale_answer_witness:
  "\<exists>s'. smart_poll CHR ''L'' (demo_smart (bytes_at [(100, CHR ''1'')]) ''27.5'') = (''17.5'', s')"
  using smart_stale_answer [of "demo_smart (bytes_at [(100, CHR ''1'')]) ''27.5''" "[(100, CHR ''1'')]" "CHR ''L''"]
  by (auto simp: plain_char_def notification_def ignored_def c_str_def)

abbreviation SM_line :: "(int \<times> char) list" where "SM_line \<equiv> spoken 100 ''SM''"

lemma SM_line:
  "filter plain_char (map snd SM_line) = ''SM''" "fold notify (map snd SM_line) u = u"
  "time_after now (SM_line @ [(100, NL)]) = max now 100" "NL \<notin> snd ` set SM_line" "NUL \<notin> set (map snd SM_line)"
  "length SM_line < 2000" "0 \<le> now \<Longrightarrow> timely 1000 now (SM_line @ [(100, NL)])"
  by (simp_all add: spoken_def plain_char_def notification_def ignored_def notify_def time_after_def)

lemma poll_SM:
  assumes "fd (ups s) \<noteq> - 1" "sm_in (drv s) = bytes_at SM_line @ (100, PortByte NL) # w" "0 \<le> sm_now (drv s)"
  shows "the_answer (poll_with check cmd s) = ''SM''" "ups (poll_with check cmd s) = ups s"
    "sm_in (drv (poll_with check cmd s)) = w" "sm_now (drv (poll_with check cmd s)) = max (sm_now (drv s)) 100"
    "halted (poll_with check cmd s) = halted s"
  using poll_line [OF assms(1,2) SM_line(7) [OF assms(3)] SM_line(4,5,6), of check cmd]
  unfolding SM_line(1,2,3) by blast+

lemma skip_readings:
  "(\<And>r. r \<in> set rs \<Longrightarrow> \<not> UPS_Cap (ups t) (fst r)) \<Longrightarrow> run (map read_ci rs @ fs) t = run fs t"
proof (induction rs)
  case (Cons r rs)
  have "read_ci r t = t" using Cons.prems [of r] by (simp add: read_ci_def split_beta)
  then show ?case using Cons by simp
qed simp

definition SM_script :: "nat \<Rightarrow> port_script" where
  "SM_script n = concat (replicate n (bytes_at SM_line @ [(100, PortByte NL)]))"

lemma SM_script_Suc: "SM_script (Suc n) = bytes_at SM_line @ (100, PortByte NL) # SM_script n"
  by (simp add: SM_script_def)

text \<open>A UPS without readings that says \<open>SM\<close> three times.\<close>

theorem smart_poll_waits_for_link_witness:
  "\<exists>t. snd (smart_read_volatile_data (watched 0 (demo_smart (SM_script 3) []))) = t \<and>
    \<not> halted t \<and> \<not> is_commlost (ups t) \<and>
   (\<exists>u. snd (smart_read_volatile_data (watched 25 (demo_smart [] []))) = u \<and>
    halted u \<and> 25000 \<le> sm_now (drv u) \<and> is_commlost (ups u))"
proof -
  let ?d = "port_flush (write_lock (demo_smart (SM_script 3) []))"
  have 3: "SM_script 3 = bytes_at SM_line @ (100, PortByte NL) # SM_script 2"
    "SM_script 2 = bytes_at SM_line @ (100, PortByte NL) # SM_script 1"
    "SM_script 1 = bytes_at SM_line @ (100, PortByte NL) # SM_script 0"
    unfolding numeral_3_eq_3 numeral_2_eq_2 One_nat_def by (rule SM_script_Suc)+
  have "flush_script 0 (SM_script 3) = SM_script 3"
    by (simp add: 3(1) flush_script_def bytes_at_def spoken_def)
  then have d: "fd (ups ?d) \<noteq> - 1" "sm_in (drv ?d) = SM_script 3" "sm_now (drv ?d) = 0" "\<not> halted ?d"
      "UPS_Cap (ups ?d) = (\<lambda>_. False)"
    by (simp_all add: port_flush_def write_lock_def demo_smart_def start_sys_def new_smart_line_def
        new_ups_def zero_ups_def set_battpresent_def)
  define s1 where "s1 = UPSlinkCheck (write_lock (demo_smart (SM_script 3) []))"
  note p1 = poll_SM [OF d(1), unfolded d(2,3), OF 3(1), of "\<lambda>s. s" "CHR ''Y''", folded poll_link_def]
  have s1: "s1 = upd_ups clear_commlost (poll_link ?d)"
    using p1 d(4) by (simp add: s1_def UPSlinkCheck_def Let_def)
  have cc: "UPS_Cap (clear_commlost u) = UPS_Cap u" "fd (clear_commlost u) = fd u" for u
    by (simp_all add: flag_ops)
  define s2 where "s2 = stamp_poll s1"
  have s2: "\<not> halted s1" "\<not> halted s2" "fd (ups s2) \<noteq> - 1" "sm_in (drv s2) = SM_script 2" "0 \<le> sm_now (drv s2)"
    "UPS_Cap (ups s2) = (\<lambda>_. False)"
    using p1 d by (simp_all add: s1 s2_def stamp_poll_def time_now_def cc)
  have y: "poll_y s = poll_with UPSlinkCheck CHR ''Y'' s" for s
    by (simp add: poll_y_def smart_poll_def Let_def)
  note p2 = poll_SM [OF s2(3,4) [unfolded 3(2)] s2(5), of UPSlinkCheck "CHR ''Y''", folded y]
  have "0 \<le> sm_now (drv (poll_y s2))" using p2(4) by simp
  note p3 = poll_SM [OF _ p2(3) [unfolded 3(3)] this, of UPSlinkCheck "CHR ''Y''", folded y]
  have h: "\<not> halted (poll_y s2)" "\<not> halted (poll_y (poll_y s2))"
    using p2 p3 s2 by simp_all
  have "\<not> halted (write_lock (demo_smart (SM_script 3) []))" using d(4) by simp
  then have "run ([UPSlinkCheck, stamp_poll, read_status] @ map read_ci volatile_readings @ [poll_y, poll_y, write_unlock])
      (write_lock (demo_smart (SM_script 3) [])) =
    run (map read_ci volatile_readings @ [poll_y, poll_y, write_unlock]) s2"
    using s2 by (simp add: s1_def [symmetric] s2_def [symmetric] read_status_def)
  also have "\<dots> = run [poll_y, poll_y, write_unlock] s2" by (rule skip_readings) (simp add: s2)
  finally have "\<not> halted (snd (smart_read_volatile_data (demo_smart (SM_script 3) [])))"
    using s2 h by (simp add: smart_read_volatile_data_def write_unlock_def)
  moreover have "watched 0 (demo_smart (SM_script 3) []) = demo_smart (SM_script 3) []"
    by (simp add: watched_def demo_smart_def start_sys_def new_smart_line_def upd_drv_def upd_ups_def)
  moreover have "\<not> halted (demo_smart [] [])" by (simp add: demo_smart_def start_sys_def)
  ultimately show ?thesis
    using smart_poll_waits_for_link [of 0 "demo_smart (SM_script 3) []", OF refl]
      smart_poll_waits_for_link [of 25 "demo_smart [] []", OF refl] by simp
qed

definition silent :: "smart_sys \<Rightarrow> bool" where
  "silent s \<longleftrightarrow> sm_in (drv s) = [] \<and> fd (ups s) \<noteq> - 1 \<and> \<not> halted s"

lemma silent_response: "silent s \<Longrightarrow> silent (snd (get_response buf s))"
  by (simp add: silent_def get_response_def getline_def getline_loop.simps Let_def)

lemma silent_small [simp]:
  "silent (send_char c s) = silent s" "silent (sleep_secs n s) = silent s" "silent (warn_shutdown d s) = silent s"
  "silent (log_event l m s) = silent s"
  by (simp_all add: silent_def send_char_def sleep_secs_def warn_shutdown_def)

lemma silent_slowly: "silent s \<Longrightarrow> silent (send_slowly pause cs s)"
  by (induction cs arbitrary: s) (simp_all add: send_slowly_def)

lemma silent_attempts: "silent s \<Longrightarrow> silent (snd (kill_attempts ps delay buf s))"
proof (induction ps delay buf s rule: kill_attempts.induct)
  case (1 delay buf s)
  let ?s = "send_char CHR ''K'' (sleep_secs 2 (send_char CHR ''K'' s))"
  show ?case
    using silent_response [of ?s "fresh_buffer 32 ?s"] 1
    by (auto simp: shutdown_with_delay_def Let_def split: prod.split)
next
  case (2 pause cs rest delay buf s)
  obtain buf1 s1 where g: "get_response buf (send_slowly pause cs s) = (buf1, s1)" by force
  then have "silent s1" using silent_response [OF silent_slowly [OF 2(2)], of buf pause cs] by simp
  then show ?case using 2(1) [OF g [symmetric]] by (auto simp: g)
qed

text \<open>A UPS that says nothing.\<close>

theorem smart_kill_sequence_witness:
  "\<exists>r t. smart_kill_power (demo_smart [] []) = (r, t) \<and>
    (\<exists>cs\<in>{''S'', ''S@00'', ''S@000'', ''S@000KK''}. sm_sent (drv t) = CHR ''p'' # cs)"
proof -
  obtain r t where k: "smart_kill_power (demo_smart [] []) = (r, t)" by force
  have "silent (demo_smart [] [])"
    by (simp add: silent_def demo_smart_def start_sys_def new_smart_line_def)
  then have "silent (snd (get_shutdown_delay (demo_smart [] [])))"
    using silent_response by (auto simp: get_shutdown_delay_def Let_def split: prod.split) (metis silent_small(1) snd_conv)
  then have "silent (snd (smart_kill_power (demo_smart [] [])))"
    using silent_attempts by (auto simp: smart_kill_power_def split: prod.split simp del: kill_attempts.simps)
  then have "\<not> halted t" by (simp add: k silent_def)
  have d: "fd (ups (demo_smart [] [])) \<noteq> - 1" "sm_sent (drv (demo_smart [] [])) = []"
    "ups_cmd CI_DSHUTD (demo_smart [] []) = CHR ''p''"
    by (simp_all add: ups_cmd_def demo_smart_def start_sys_def new_smart_line_def char_45)
  from smart_kill_sequence [OF d(1) k \<open>\<not> halted t\<close>] show ?thesis unfolding d(2,3) using k by auto
qed

definition demo_eeprom :: smart_sys where
  "demo_eeprom = demo_smart (bytes_at (concat (map (spoken 500) [[CHR ''H'', NL], [CHR ''H'', NL], [CHR ''H'', NL],
     [CHR ''O'', CHR ''K'', NL], [CHR ''M'', NL], [CHR ''M'', NL]]))) []"

theorem smart_eeprom_cycles_bounded_witness:
  "\<exists>r t. change_ups_eeprom_item CHR ''s'' ''M'' demo_eeprom = (r, t) \<and> cycles CHR ''-'' (sm_sent (drv t)) \<le> 10"
proof -
  obtain r t where c: "change_ups_eeprom_item CHR ''s'' ''M'' demo_eeprom = (r, t)" by force
  have d: "fd (ups demo_eeprom) \<noteq> - 1" "CHR ''s'' \<noteq> cycle_cmd demo_eeprom" "cycle_cmd demo_eeprom = CHR ''-''"
    "cycles CHR ''-'' (sm_sent (drv demo_eeprom)) = 0"
    by (simp_all add: demo_eeprom_def cycles_def)
  have "cycles CHR ''-'' (sm_sent (drv t)) \<le> 10"
    using smart_eeprom_cycles_bounded [OF d(1,2) c] unfolding d(3,4) by simp
  then show ?thesis using c by blast
qed

end
