(* ===== verification/ConfigLaws.thy ===== *)
theory ConfigLaws
  imports Config
begin

text \<open>
  What the configuration file does: each directive, written with a value of its kind, sets its
  field to that value; a file that is accepted leaves settings that agree with each other; and what
  happens to a missing value, to a long line, and to the limits of a ShareUPS master.
\<close>

subsection \<open>Characters and numerals\<close>

lemma isspace_code: "isspace c \<longleftrightarrow> char_code c \<in> {32, 9, 10, 11, 12, 13}"
proof -
  have eq: "c = d \<longleftrightarrow> char_code c = char_code d" for d
    by (simp add: char_code_def)
  show ?thesis unfolding isspace_def
    by (subst eq, subst eq, subst eq, subst eq, subst eq, subst eq) (auto simp: char_code_def)
qed

lemma char_code_less [simp]: "char_code c < 256"
  by (simp add: char_code_def)

lemma isspace_case [simp]: "isspace (toupper c) = isspace c" "isspace (tolower c) = isspace c"
  using char_code_less [of c] by (auto simp: isspace_code toupper_def tolower_def)

lemma digit_val_space: "isspace c \<Longrightarrow> digit_val 10 c = None"
  by (auto simp: isspace_def digit_val_def char_code_def)

lemma hash_char: "\<not> isspace (CHR ''#'')" "toupper (CHR ''#'') = CHR ''#''"
  by (simp_all add: isspace_def toupper_def char_code_def)

lemma show_nat_digits: "\<exists>ds. show_nat n = map (\<lambda>d. char_of (48 + d)) ds \<and> ds \<noteq> [] \<and> (\<forall>d\<in>set ds. d < 10) \<and>
    foldl (\<lambda>a d. a * 10 + d) 0 ds = n"
proof (induction n rule: show_nat.induct)
  case (1 n)
  show ?case
  proof (cases "n < 10")
    case True
    then show ?thesis by (subst show_nat.simps) (auto intro: exI [of _ "[n]"])
  next
    case False
    with 1 obtain ds where "show_nat (n div 10) = map (\<lambda>d. char_of (48 + d)) ds" "\<forall>d\<in>set ds. d < 10"
      "foldl (\<lambda>a d. a * 10 + d) 0 ds = n div 10" by blast
    with False show ?thesis
      by (subst show_nat.simps) (auto intro!: exI [of _ "ds @ [n mod 10]"])
  qed
qed

lemma digit_val_digit: "d < 10 \<Longrightarrow> digit_val 10 (char_of (48 + d)) = Some d"
  by (simp add: digit_val_def)

lemma read_digits_digits:
  "\<forall>d\<in>set ds. d < 10 \<Longrightarrow> read_digits 10 acc (map (\<lambda>d. char_of (48 + d)) ds @ r) =
     read_digits 10 (foldl (\<lambda>a d. a * 10 + d) acc ds) r"
  by (induction ds arbitrary: acc) (simp_all add: digit_val_digit)

lemma read_show_nat:
  assumes "r = [] \<or> isspace (hd r)"
  shows "fst (read_digits 10 0 (show_nat n @ r)) = n"
proof -
  obtain ds :: "nat list" where ds: "show_nat n = map (\<lambda>d. char_of (48 + d)) ds" "\<forall>d\<in>set ds. d < 10"
    "foldl (\<lambda>a d. a * 10 + d) 0 ds = n" using show_nat_digits [of n] by (elim exE conjE) (rule that)
  have "read_digits 10 n r = (n, r)"
    using assms by (cases r) (auto simp: digit_val_space)
  then show ?thesis unfolding ds(1) read_digits_digits [OF ds(2)] ds(3) by (simp only: fst_conv)
qed

lemma show_nat_hd: "show_nat n \<noteq> [] \<and> isdigit (hd (show_nat n))"
proof -
  obtain ds :: "nat list" where ds: "show_nat n = map (\<lambda>d. char_of (48 + d)) ds" "ds \<noteq> []" "\<forall>d\<in>set ds. d < 10"
    using show_nat_digits [of n] by (elim exE conjE) (rule that)
  from ds(2,3) have "hd ds < 10" by (cases ds) auto
  moreover from this have "isdigit (char_of (48 + hd ds))" by (simp add: isdigit_def del: add.commute)
  ultimately show ?thesis unfolding ds(1) using ds(2) by (cases ds) simp_all
qed

lemma isdigit_sign: "isdigit c \<Longrightarrow> c \<noteq> CHR ''-'' \<and> c \<noteq> CHR ''+'' \<and> \<not> isspace c"
  by (auto simp: isdigit_def isspace_code) (simp_all add: char_code_def)

lemma read_sign_digits: "isdigit (hd s) \<Longrightarrow> s \<noteq> [] \<Longrightarrow> read_sign s = (False, s)"
  by (cases s) (auto dest: isdigit_sign)

lemma sscanf_show_int:
  assumes "r = [] \<or> isspace (hd r)"
  shows "sscanf_d (show_int i @ r) = ScanOk i"
proof (cases "i < 0")
  case True
  then show ?thesis
    using show_nat_hd [of "nat (- i)"] read_show_nat [OF assms, of "nat (- i)"]
    by (auto simp: sscanf_d_def show_int_def Let_def isspace_def)
next
  case False
  let ?n = "show_nat (nat i) @ r"
  have "isdigit (hd ?n)" "?n \<noteq> []" using show_nat_hd [of "nat i"] by auto
  moreover from this have "dropWhile isspace ?n = ?n" by (cases ?n) (auto dest: isdigit_sign)
  ultimately show ?thesis
    using False read_show_nat [OF assms, of "nat i"]
    by (simp add: sscanf_d_def show_int_def Let_def read_sign_digits)
qed

lemma scanned_int_id: "- (2 ^ 31) \<le> i \<Longrightarrow> i < 2 ^ 31 \<Longrightarrow> scanned_int i = i"
  by (simp add: scanned_int_def int32_small)

lemma sscanf_word:
  assumes "w \<noteq> []" "\<forall>c\<in>set w. \<not> isspace c" "r = [] \<or> isspace (hd r)"
  shows "scanned_word x (w @ r) = w"
proof -
  have "dropWhile isspace (w @ r) = w @ r" using assms(1,2) by (cases w) auto
  moreover have "takeWhile (\<lambda>c. \<not> isspace c) (w @ r) = w"
    using assms(2,3) by (cases r) (auto simp: takeWhile_append2)
  ultimately show ?thesis using assms(1) by (simp add: scanned_word_def sscanf_s_def)
qed


subsection \<open>The table\<close>

lemma config_keys: "map fst config_table = [''UPSNAME'', ''UPSCABLE'', ''UPSTYPE'', ''DEVICE'', ''POLLTIME'',
   ''LOCKFILE'', ''SCRIPTDIR'', ''PWRFAILDIR'', ''NOLOGINDIR'', ''ANNOY'', ''ANNOYDELAY'', ''ONBATTERYDELAY'',
   ''TIMEOUT'', ''NOLOGON'', ''BATTERYLEVEL'', ''MINUTES'', ''KILLDELAY'', ''NETSERVER'', ''NISIP'', ''NISPORT'',
   ''EVENTSFILE'', ''EVENTSFILEMAX'', ''FACILITY'', ''STATFILE'', ''LOGSTATS'', ''STATTIME'', ''DATATIME'',
   ''SELFTEST'', ''HITRANSFER'', ''LOTRANSFER'', ''LOWBATT'', ''WAKEUP'', ''RETURNCHARGE'', ''OUTPUTVOLTS'',
   ''SLEEP'', ''BEEPSTATE'', ''BATTDATE'', ''SENSITIVITY'', ''UPSCLASS'', ''UPSMODE'', ''NETTIME'', ''CONTROL'',
   ''NETACCESS'', ''MASTER'', ''USERMAGIC'', ''SLAVE'', ''NETPORT'', ''NETSTATUS'', ''SERVERPORT'']"
  by (simp only: config_table_def list.map fst_conv)

lemma config_keys_distinct: "distinct (map fst config_table)"
  unfolding config_keys by simp

lemma config_key_chars:
  assumes "(k, h) \<in> set config_table" shows "k \<noteq> [] \<and> (\<forall>c\<in>set k. \<not> isspace c \<and> c \<noteq> CHR ''#'')"
proof -
  have "list_all (\<lambda>k. k \<noteq> [] \<and> list_all (\<lambda>c. \<not> isspace c \<and> c \<noteq> CHR ''#'') k) (map fst config_table)"
    unfolding config_keys by (simp add: isspace_def)
  with assms show ?thesis by (force simp: list_all_iff)
qed

text \<open>A table of values: names without spaces, told apart by their letters, and short.\<close>

definition good_values :: "value_table \<Rightarrow> bool" where
  "good_values vs \<longleftrightarrow> distinct (map (map tolower \<circ> gi_name) (items vs)) \<and>
     list_all (\<lambda>g. gi_name g \<noteq> [] \<and> list_all (\<lambda>c. \<not> isspace c) (gi_name g) \<and>
       length (gi_name g) < 256 \<and> length (gi_long_name g) < 256) (items vs)"

lemma tables_good:
  "good_values onoroff" "good_values cables" "good_values upsclasses" "good_values logins"
  "good_values modes" "good_values types"
  by (simp_all add: good_values_def onoroff_def cables_def upsclasses_def logins_def modes_def types_def
      geninfo_of_def isspace_def tolower_def char_code_def)

definition handler_good :: "handler \<Rightarrow> bool" where
  "handler_good h = (case h of Match_range vs f \<Rightarrow> good_values vs | Match_index vs f \<Rightarrow> good_values vs
     | Match_str sz f \<Rightarrow> 0 < sz | _ \<Rightarrow> True)"

lemma table_good: "(k, h) \<in> set config_table \<Longrightarrow> handler_good h"
proof -
  have "list_all (\<lambda>(k, h). handler_good h) config_table"
    by (simp add: config_table_def handler_good_def tables_good)
  then show "(k, h) \<in> set config_table \<Longrightarrow> handler_good h" by (auto simp: list_all_iff)
qed

lemma find_case:
  assumes "distinct (map (map tolower \<circ> f) xs)" "v \<in> set xs" "strcaseeq w (f v)"
  shows "find (\<lambda>g. strcaseeq w (f g)) xs = Some v" "find (\<lambda>g. strcaseeq (f g) w) xs = Some v"
  using assms by (induction xs) (auto simp: strcaseeq_def image_iff)

subsection \<open>A directive sets its field\<close>

text \<open>\<open>txt\<close> writes a value for a directive with this handler, and \<open>g\<close> is what it is to do.\<close>

definition value_text :: "handler \<Rightarrow> string \<Rightarrow> (upsinfo \<Rightarrow> upsinfo) \<Rightarrow> bool" where
  "value_text h txt g = (case h of
      Match_int f \<Rightarrow> (\<exists>i. - (2 ^ 31) \<le> i \<and> i < 2 ^ 31 \<and> txt = show_int i \<and> g = f i)
    | Match_str sz f \<Rightarrow> (txt = [] \<or> \<not> isspace (hd txt) \<and> \<not> isspace (last txt)) \<and> CHR ''#'' \<notin> set txt \<and>
        length txt < sz \<and> length txt < 256 \<and> g = f txt
    | Match_range vs f \<Rightarrow> (\<exists>v\<in>set (items vs). strcaseeq txt (gi_name v) \<and> g = f v)
    | Match_index vs f \<Rightarrow> (\<exists>v\<in>set (items vs). strcaseeq txt (gi_name v) \<and> g = f (gi_type v))
    | Match_facility \<Rightarrow> (\<exists>p\<in>set facnames. strcaseeq txt (fst p) \<and> g = (\<lambda>u. u\<lparr>sysfac := snd p\<rparr>))
    | Obsolete fatal msg \<Rightarrow> False)"

text \<open>What may follow the value: spaces, and behind them a comment.\<close>

definition line_end :: "string \<Rightarrow> bool" where
  "line_end tail \<longleftrightarrow> (\<exists>sp rest. tail = sp @ rest \<and> list_all isspace sp \<and>
     (rest = [] \<or> sp \<noteq> [] \<and> hd rest = CHR ''#''))"

lemma line_end_space: "line_end tail \<Longrightarrow> tail = [] \<or> isspace (hd tail)"
proof -
  assume "line_end tail"
  then obtain sp rest where "tail = sp @ rest" "list_all isspace sp" "rest = [] \<or> sp \<noteq> []"
    by (auto simp: line_end_def)
  then show ?thesis by (cases sp) auto
qed

lemma dropWhile_all: "list_all P xs \<Longrightarrow> dropWhile P (xs @ ys) = dropWhile P ys"
  by (induction xs) auto

lemma key_value_line:
  assumes "(k, h) \<in> set config_table" "map toupper key = k" "list_all isspace lead"
    and "gap \<noteq> []" "list_all isspace gap"
  shows "key_value (lead @ key @ gap @ r) = Some (k, dropWhile isspace r)"
proof -
  have "\<not> isspace c \<and> c \<noteq> CHR ''#''" if "c \<in> set key" for c
  proof -
    from that assms(2) have "toupper c \<in> set k" by auto
    with config_key_chars [OF assms(1)] have "\<not> isspace (toupper c)" "toupper c \<noteq> CHR ''#''" by blast+
    then show ?thesis using hash_char(2) by (metis isspace_case(1))
  qed
  moreover have "key \<noteq> []" using config_key_chars [OF assms(1)] assms(2) by auto
  ultimately have key: "key \<noteq> []" "list_all (\<lambda>c. \<not> isspace c) key" "hd key \<noteq> CHR ''#''"
    "\<not> isspace (hd key)" by (auto simp: list_all_iff)
  have d: "dropWhile isspace (lead @ key @ gap @ r) = key @ gap @ r"
    using key(1,4) assms(3) by (cases key) (simp_all add: dropWhile_all)
  have "takeWhile (\<lambda>c. \<not> isspace c) (key @ gap @ r) = key"
    "dropWhile (\<lambda>c. \<not> isspace c) (key @ gap @ r) = gap @ r"
    using key(2) assms(4,5) by (cases gap; simp add: takeWhile_append dropWhile_append list_all_iff)+
  with d key assms(2,5) show ?thesis by (simp add: key_value_def Let_def dropWhile_all)
qed

lemma strcaseeq_word:
  assumes "strcaseeq w m" "m \<noteq> []" "list_all (\<lambda>c. \<not> isspace c) m"
  shows "w \<noteq> [] \<and> (\<forall>c\<in>set w. \<not> isspace c)"
proof -
  have "map isspace (map tolower w) = map isspace (map tolower m)"
    using assms(1) by (simp add: strcaseeq_def)
  then have "map isspace w = map isspace m" by (simp add: comp_def)
  with assms(2,3) show ?thesis
    by (metis (no_types, lifting) imageE image_eqI list.map_disc_iff list.set_map list_all_iff)
qed

lemma strip_trailing_spaces:
  assumes "txt = [] \<or> \<not> isspace (last txt)" "list_all isspace sp"
  shows "strip_trailing (txt @ sp) = txt"
proof -
  have "dropWhile isspace (rev sp @ rev txt) = dropWhile isspace (rev txt)"
    using assms(2) by (intro dropWhile_all) (simp add: list_all_iff)
  also have "\<dots> = rev txt" using assms(1) by (cases "txt" rule: rev_cases) auto
  finally show ?thesis by (simp add: strip_trailing_def)
qed

lemma string_value:
  assumes "txt = [] \<or> \<not> isspace (hd txt) \<and> \<not> isspace (last txt)" "CHR ''#'' \<notin> set txt" "length txt < 256"
    and "line_end tail"
  shows "strip_trailing (takeWhile (\<lambda>c. c \<noteq> CHR ''#'') (strlcpy_to 256 (dropWhile isspace (txt @ tail)))) = txt"
proof -
  obtain sp rest where tail: "tail = sp @ rest" "list_all isspace sp" "rest = [] \<or> sp \<noteq> [] \<and> hd rest = CHR ''#''"
    using assms(4) by (auto simp: line_end_def)
  have hash: "takeWhile (\<lambda>c. c \<noteq> CHR ''#'') (take k rest) = []" for k
    using tail(3) by (cases rest; cases k) auto
  have sp: "c \<noteq> CHR ''#''" if "c \<in> set sp" for c
    using tail(2) that hash_char(1) by (auto simp: list_all_iff)
  show ?thesis
  proof (cases "txt = []")
    case True
    have "dropWhile isspace rest = rest" using tail(3) hash_char(1) by (cases rest) auto
    with True tail(2) hash show ?thesis by (simp add: tail(1) dropWhile_all strip_trailing_def)
  next
    case False
    then have d: "dropWhile isspace (txt @ tail) = txt @ tail" using assms(1) by (cases "txt") auto
    have "takeWhile (\<lambda>c. c \<noteq> CHR ''#'') (take 255 (txt @ tail)) = txt @ take (255 - length txt) sp"
    proof -
      have "take 255 (txt @ tail) = (txt @ take (255 - length txt) sp) @ take (255 - length txt - length sp) rest"
        using assms(3) by (simp add: tail(1))
      moreover have "c \<noteq> CHR ''#''" if "c \<in> set (txt @ take (255 - length txt) sp)" for c
        using that assms(2) sp by (auto dest: in_set_takeD)
      ultimately show ?thesis using hash by (simp add: takeWhile_append2)
    qed
    moreover have "list_all isspace (take (255 - length txt) sp)"
      using tail(2) by (auto simp: list_all_iff dest: in_set_takeD)
    ultimately show ?thesis
      using assms(1) False d by (simp add: strip_trailing_spaces)
  qed
qed

lemma word_value:
  assumes "strcaseeq txt m" "m \<noteq> []" "list_all (\<lambda>c. \<not> isspace c) m" "line_end tail"
  shows "scanned_word x (dropWhile isspace (txt @ tail)) = txt"
proof -
  have w: "txt \<noteq> []" "\<forall>c\<in>set txt. \<not> isspace c" using strcaseeq_word [OF assms(1-3)] by auto
  then have "dropWhile isspace (txt @ tail) = txt @ tail" by (cases "txt") auto
  with w show ?thesis using line_end_space [OF assms(4)] by (simp add: sscanf_word)
qed

lemma table_value:
  assumes "good_values vs" "v \<in> set (items vs)" "strcaseeq txt (gi_name v)" "line_end tail"
  shows "find_value vs (scanned_word x (dropWhile isspace (txt @ tail))) = Some v \<and>
    \<lparr>gi_name = strlcpy_to 256 (gi_name v), gi_long_name = strlcpy_to 256 (gi_long_name v),
     gi_type = gi_type v\<rparr> = v"
proof -
  have v: "gi_name v \<noteq> []" "list_all (\<lambda>c. \<not> isspace c) (gi_name v)" "length (gi_name v) < 256"
    "length (gi_long_name v) < 256" and d: "distinct (map (map tolower \<circ> gi_name) (items vs))"
    using assms(1,2) by (auto simp: good_values_def list_all_iff)
  show ?thesis
    using find_case(1) [OF d assms(2,3)] word_value [OF assms(3) v(1,2) assms(4)] v(3,4)
    by (simp add: find_value_def)
qed

lemma facility_names:
  "distinct (map (map tolower \<circ> fst) facnames)"
  "p \<in> set facnames \<Longrightarrow> fst p \<noteq> [] \<and> list_all (\<lambda>c. \<not> isspace c) (fst p)"
proof -
  show "distinct (map (map tolower \<circ> fst) facnames)"
    by (simp add: facnames_def tolower_def char_code_def)
  have "list_all (\<lambda>p. fst p \<noteq> [] \<and> list_all (\<lambda>c. \<not> isspace c) (fst p)) facnames"
    by (simp add: facnames_def isspace_def)
  then show "p \<in> set facnames \<Longrightarrow> fst p \<noteq> [] \<and> list_all (\<lambda>c. \<not> isspace c) (fst p)"
    by (auto simp: list_all_iff)
qed

lemma handler_reads:
  assumes "handler_good h" "value_text h txt g" "line_end tail"
  shows "fst (run_handler e n h (dropWhile isspace (txt @ tail)) s) \<and>
    ups (snd (run_handler e n h (dropWhile isspace (txt @ tail)) s)) = g (ups s)"
proof (cases h)
  case (Match_int f)
  with assms(2) obtain i where i: "- (2 ^ 31) \<le> i" "i < 2 ^ 31" "txt = show_int i" "g = f i"
    by (auto simp: value_text_def)
  have "sscanf_d (dropWhile isspace (show_int i @ tail)) = sscanf_d (show_int i @ tail)"
    by (simp add: sscanf_d_def)
  with i Match_int show ?thesis
    using sscanf_show_int [OF line_end_space [OF assms(3)]] scanned_int_id [OF i(1,2)]
    by (simp add: run_handler_def match_int_def)
next
  case (Match_str sz f)
  with assms(2) have t: "txt = [] \<or> \<not> isspace (hd txt) \<and> \<not> isspace (last txt)" "CHR ''#'' \<notin> set txt"
    "length txt < 256" "length txt < sz" "g = f txt"
    by (simp_all add: value_text_def)
  with Match_str show ?thesis
    using string_value [OF t(1-3) assms(3)] by (simp add: run_handler_def match_str_def)
next
  case (Match_range vs f)
  with assms(2) obtain v where v: "v \<in> set (items vs)" "strcaseeq txt (gi_name v)" "g = f v"
    by (auto simp: value_text_def)
  with Match_range assms(1) show ?thesis
    using table_value [OF _ v(1,2) assms(3)] by (simp add: run_handler_def match_range_def handler_good_def)
next
  case (Match_index vs f)
  with assms(2) obtain v where v: "v \<in> set (items vs)" "strcaseeq txt (gi_name v)" "g = f (gi_type v)"
    by (auto simp: value_text_def)
  with Match_index assms(1) show ?thesis
    using table_value [OF _ v(1,2) assms(3)] by (simp add: run_handler_def match_index_def handler_good_def)
next
  case Match_facility
  with assms(2) obtain p where p: "p \<in> set facnames" "strcaseeq txt (fst p)" "g = (\<lambda>u. u\<lparr>sysfac := snd p\<rparr>)"
    by (auto simp: value_text_def)
  with Match_facility show ?thesis
    using find_case(2) [OF facility_names(1) p(1,2)] word_value [OF p(2) _ _ assms(3)] facility_names(2) [OF p(1)]
    by (simp add: run_handler_def match_facility_def guarded_def)
next
  case (Obsolete fatal msg)
  with assms(2) show ?thesis by (simp add: value_text_def)
qed

lemma directive_read:
  assumes "(k, h) \<in> set config_table" "map toupper key = k" "value_text h txt g"
    and "list_all isspace lead" "gap \<noteq> []" "list_all isspace gap" "line_end tail"
  shows "fst (ParseConfig e n (lead @ key @ gap @ txt @ tail) s) \<and>
    ups (snd (ParseConfig e n (lead @ key @ gap @ txt @ tail) s)) = g (ups s)"
proof -
  have "key_value (lead @ key @ gap @ txt @ tail) = Some (k, dropWhile isspace (txt @ tail))"
    by (rule key_value_line [OF assms(1,2,4-6)])
  moreover have "map_of config_table k = Some h"
    using map_of_is_SomeI [OF config_keys_distinct assms(1)] .
  ultimately show ?thesis
    using handler_reads [OF table_good [OF assms(1)] assms(3,7)] by (simp add: ParseConfig_def)
qed

text \<open>
  C5: Every directive of the table, written in any mixture of capitals, with a value of its kind
  - a number of 32 bits, a text without \<open>#\<close> that fits, or a name of the directive's own values in any
  mixture of capitals - and followed by nothing but spaces and a comment, is accepted, and sets its
  field to that value and nothing else of \<open>UPSINFO\<close>.
\<close>

theorem config_setting_read:
  assumes "(k, h) \<in> set config_table" "map toupper key = k" "value_text h txt g"
    and "list_all isspace lead" "gap \<noteq> []" "list_all isspace gap" "line_end tail"
  shows "fst (ParseConfig e n (lead @ key @ gap @ txt @ tail) s) \<and>
    ups (snd (ParseConfig e n (lead @ key @ gap @ txt @ tail) s)) = g (ups s)"
  using assms by (rule directive_read)

definition quiet_env :: config_env where
  "quiet_env = \<lparr>argvalue = ''apcupsd'', junk_int = (\<lambda>_. 7), junk_str = (\<lambda>_. [])\<rparr>"

theorem config_setting_read_witness:
  "fst (ParseConfig quiet_env 1 (''  UpsType USB # which UPS'' @ [NL]) (start_sys ())) \<and>
   ups (snd (ParseConfig quiet_env 1 (''  UpsType USB # which UPS'' @ [NL]) (start_sys ()))) =
     (ups (start_sys ()))\<lparr>mode := geninfo_of (''usb'', ''USB UPS Driver'', USB_UPS)\<rparr>"
proof -
  let ?h = "Match_range types (\<lambda>v u. u\<lparr>mode := v\<rparr>)"
  have k: "(''UPSTYPE'', ?h) \<in> set config_table" by (simp add: config_table_def)
  have u: "map toupper ''UpsType'' = ''UPSTYPE''" by (simp add: toupper_def char_code_def char_of_def bit_iff_odd)
  have v: "value_text ?h ''USB'' (\<lambda>u. u\<lparr>mode := geninfo_of (''usb'', ''USB UPS Driver'', USB_UPS)\<rparr>)"
  proof -
    have "strcaseeq ''USB'' ''usb''"
      by (simp add: strcaseeq_def tolower_def char_code_def char_of_def bit_iff_odd)
    then show ?thesis by (simp add: value_text_def types_def geninfo_of_def)
  qed
  have l: "line_end ('' # which UPS'' @ [NL])"
    unfolding line_end_def
    by (rule exI [of _ "'' ''"], rule exI [of _ "''# which UPS'' @ [NL]"]) (simp add: isspace_def)
  show ?thesis
    using config_setting_read [OF k u v _ _ _ l, of "''  ''" "'' ''" quiet_env 1 "start_sys ()"]
    by (simp add: isspace_def)
qed

subsection \<open>Settings that agree\<close>

text \<open>The kinds of cables, as \<open>UpsCable\<close> lists them (\<open>struct.h\<close>).\<close>

datatype cable_kind = NoCable | SimpleCable | SmartCable | NetworkLink | UsbCable | UnknownCable

definition cable_kind :: "int \<Rightarrow> cable_kind" where
  "cable_kind c =
     (if c = NO_CABLE then NoCable
      else if c \<in> {CUSTOM_SIMPLE, APC_940_0119A, APC_940_0127A, APC_940_0128A, APC_940_0020B, APC_940_0020C,
          APC_940_0023A, MAM_CABLE, APC_940_0095A, APC_940_0095B, APC_940_0095C} then SimpleCable
      else if c = CABLE_SMART then SmartCable
      else if c = APC_NET then NetworkLink
      else if c = USB_CABLE then UsbCable
      else UnknownCable)"

text \<open>What each type of UPS is attached with.\<close>

definition cable_fits :: "int \<Rightarrow> cable_kind \<Rightarrow> bool" where
  "cable_fits m k \<longleftrightarrow>
     (m = USB_UPS \<longrightarrow> k = UsbCable) \<and> (m \<in> {SNMPLITE_UPS, PCNET_UPS, NETWORK_UPS} \<longrightarrow> k = NetworkLink) \<and>
     (m = APCSMART_UPS \<longrightarrow> k = SmartCable) \<and> (m = MODBUS_UPS \<longrightarrow> k \<notin> {NoCable, SimpleCable}) \<and>
     (m = DUMB_UPS \<longrightarrow> k \<notin> {SmartCable, NetworkLink, UsbCable})"

definition settings_agree :: "upsinfo \<Rightarrow> bool" where
  "settings_agree u \<longleftrightarrow>
     cable_fits (gi_type (mode u)) (cable_kind (gi_type (cable u))) \<and>
     (lockpath u = [] \<longleftrightarrow> cable_kind (gi_type (cable u)) = NetworkLink) \<and>
     (gi_type (mode u) \<in> {USB_UPS, APCSMART_UPS, DUMB_UPS} \<longrightarrow> lockpath u \<noteq> []) \<and>
     (annoydelay u = 0 \<or> annoy u < annoydelay u)"

lemma force_cable_value:
  assumes "v \<in> set (items cables)"
  shows "force_cable e (gi_name v) s = upd_ups (\<lambda>u. u\<lparr>cable := v\<rparr>) s"
proof -
  have "find_value cables (scanned_word (junk_str e 0) (dropWhile isspace (gi_name v @ []))) = Some v \<and>
    \<lparr>gi_name = strlcpy_to 256 (gi_name v), gi_long_name = strlcpy_to 256 (gi_long_name v), gi_type = gi_type v\<rparr> = v"
    by (rule table_value) (use assms in \<open>auto simp: tables_good strcaseeq_def line_end_def\<close>)
  moreover have "scanned_word x (dropWhile isspace w) = scanned_word x w" for x w
    by (simp add: scanned_word_def sscanf_s_def)
  ultimately show ?thesis by (simp add: force_cable_def match_range_def)
qed

lemma forced_cables:
  "force_cable e ''usb'' s = upd_ups (\<lambda>u. u\<lparr>cable := geninfo_of (''usb'', ''USB Cable'', USB_CABLE)\<rparr>) s"
  "force_cable e ''ether'' s = upd_ups (\<lambda>u. u\<lparr>cable := geninfo_of (''ether'', ''Ethernet Link'', APC_NET)\<rparr>) s"
  "force_cable e ''smart'' s = upd_ups (\<lambda>u. u\<lparr>cable := geninfo_of (''smart'', ''Custom Cable Smart'', CABLE_SMART)\<rparr>) s"
proof -
  have *: "gi_name v = n \<Longrightarrow> v \<in> set (items cables) \<Longrightarrow> force_cable e n s = upd_ups (\<lambda>u. u\<lparr>cable := v\<rparr>) s" for v n
    using force_cable_value by blast
  show "force_cable e ''usb'' s = upd_ups (\<lambda>u. u\<lparr>cable := geninfo_of (''usb'', ''USB Cable'', USB_CABLE)\<rparr>) s"
    by (rule *) (simp_all add: cables_def geninfo_of_def)
  show "force_cable e ''ether'' s = upd_ups (\<lambda>u. u\<lparr>cable := geninfo_of (''ether'', ''Ethernet Link'', APC_NET)\<rparr>) s"
    by (rule *) (simp_all add: cables_def geninfo_of_def)
  show "force_cable e ''smart'' s = upd_ups (\<lambda>u. u\<lparr>cable := geninfo_of (''smart'', ''Custom Cable Smart'', CABLE_SMART)\<rparr>) s"
    by (rule *) (simp_all add: cables_def geninfo_of_def)
qed

lemma sanitize_cable_fits:
  assumes "\<not> halted (sanitize_cable e s)"
  obtains c where "sanitize_cable e s = upd_ups (\<lambda>u. u\<lparr>cable := c\<rparr>) s" "cable_fits (gi_type (mode (ups s))) (cable_kind (gi_type c))"
proof -
  have same: "upd_ups (\<lambda>u. u\<lparr>cable := cable (ups s)\<rparr>) s = s"
    by (simp add: upd_ups_def)
  have abort: "halted (error_abort m s)" for m
    by (simp add: error_abort_def)
  note eqs = sanitize_cable_def forced_cables Let_def cable_fits_def cable_kind_def geninfo_of_def
  consider "gi_type (mode (ups s)) = USB_UPS" | "gi_type (mode (ups s)) \<in> {SNMPLITE_UPS, PCNET_UPS, NETWORK_UPS}"
    | "gi_type (mode (ups s)) = APCSMART_UPS"
    | "gi_type (mode (ups s)) \<notin> {USB_UPS, SNMPLITE_UPS, PCNET_UPS, NETWORK_UPS, APCSMART_UPS}" by auto
  then show thesis
  proof cases
    case 1 then show ?thesis
      by (intro that [of "geninfo_of (''usb'', ''USB Cable'', USB_CABLE)"]) (simp_all add: eqs)
  next
    case 2 then show ?thesis
      by (intro that [of "geninfo_of (''ether'', ''Ethernet Link'', APC_NET)"]) (auto simp: eqs)
  next
    case 3 then show ?thesis
      by (intro that [of "geninfo_of (''smart'', ''Custom Cable Smart'', CABLE_SMART)"]) (simp_all add: eqs)
  next
    case 4
    with assms have "sanitize_cable e s = s"
      by (auto simp: sanitize_cable_def Let_def abort split: if_splits)
    moreover from 4 assms have "cable_fits (gi_type (mode (ups s))) (cable_kind (gi_type (cable (ups s))))"
      by (auto simp: sanitize_cable_def Let_def abort cable_fits_def cable_kind_def split: if_splits)
    ultimately show ?thesis using that [of "cable (ups s)"] same by metis
  qed
qed

lemma lock_file_path: "lockpath (lock_file u) = [] \<longleftrightarrow> gi_type (cable u) = APC_NET"
proof -
  have "fst (strlcat (fst (strlcat dir ''/LCK..'' 4096)) b 4096) \<noteq> []" if "dir \<noteq> []" for dir b
    using that by (cases dir) (auto simp: strlcat_def Let_def split_beta)
  then show ?thesis by (simp add: lock_file_def Let_def LOCK_DEFAULT_def)
qed

lemma halted_upd: "halted (upd_ups f s) = halted s"
  by (simp add: upd_ups_def)

text \<open>
  C6: In a configuration that is accepted the type of the UPS has won over the cable: a USB UPS is on the USB
  cable, the network drivers on the network link and a smart UPS on the smart cable, whatever was
  written; a dumb UPS is on none of these, though it may be on no cable at all, and a MODBUS UPS is
  neither on a simple cable nor on none, though it may be on the network link. All but what is on the network
  link have a lock file, so USB, smart and dumb UPSes always do. The users are annoyed without delay
  or at an interval shorter than the delay.
\<close>

theorem config_accepted_agrees:
  assumes "\<not> halted (check_for_config e cfgfile s)"
  shows "settings_agree (ups (check_for_config e cfgfile s))"
proof -
  have abort: "halted (error_abort m t)" for m and t :: "'a sys" by (simp add: error_abort_def)
  define s1 where "s1 = check_magic e (config_lines (the (files s cfgfile))) (upd_ups (\<lambda>u. u\<lparr>configfile := strlcpy_to 4096 cfgfile\<rparr>) s)"
  define s2 where "s2 = snd (parse_lines e (config_lines (the (files s cfgfile))) s1)"
  define s3 where "s3 = upd_ups sharemaster_limits (upd_ups limit_annoydelay s2)"
  have res: "check_for_config e cfgfile s = run [upd_ups limit_annoydelay, upd_ups sharemaster_limits, sanitize_cable e,
      upd_ups lock_file, upd_ups flag_files, upd_ups login_limit] s2"
  proof -
    have "can_open cfgfile s" by (rule ccontr) (use assms abort in \<open>simp add: check_for_config_def\<close>)
    moreover from this have "fst (parse_lines e (config_lines (the (files s cfgfile))) s1) = 0"
      using assms abort by (simp add: check_for_config_def Let_def split_beta s1_def split: if_splits)
    ultimately show ?thesis
      by (simp only: check_for_config_def Let_def split_beta s1_def s2_def not_True_eq_False if_False neq0_conv less_irrefl)
  qed
  have s2: "\<not> halted s2" using assms run_halted unfolding res by metis
  then have r: "check_for_config e cfgfile s = run [upd_ups lock_file, upd_ups flag_files, upd_ups login_limit] (sanitize_cable e s3)"
    unfolding res by (simp add: halted_upd s3_def)
  then have nh: "\<not> halted (sanitize_cable e s3)" using assms run_halted by metis
  from sanitize_cable_fits [OF nh] obtain c where c: "sanitize_cable e s3 = upd_ups (\<lambda>u. u\<lparr>cable := c\<rparr>) s3"
    "cable_fits (gi_type (mode (ups s3))) (cable_kind (gi_type c))" by blast
  define u where "u = ups s3\<lparr>cable := c\<rparr>"
  have out: "ups (check_for_config e cfgfile s) = login_limit (flag_files (lock_file u))"
    using nh unfolding r c(1) by (simp add: halted_upd u_def)
  have keep: "mode (login_limit v) = mode v" "cable (login_limit v) = cable v" "lockpath (login_limit v) = lockpath v"
    "annoy (login_limit v) = annoy v" "annoydelay (login_limit v) = annoydelay v"
    "mode (flag_files v) = mode v" "cable (flag_files v) = cable v" "lockpath (flag_files v) = lockpath v"
    "annoy (flag_files v) = annoy v" "annoydelay (flag_files v) = annoydelay v"
    "mode (lock_file v) = mode v" "cable (lock_file v) = cable v"
    "annoy (lock_file v) = annoy v" "annoydelay (lock_file v) = annoydelay v" for v
    by (simp_all add: login_limit_def flag_files_def lock_file_def Let_def)
  have delay: "annoydelay u = 0 \<or> annoy u < annoydelay u"
    by (auto simp: u_def s3_def sharemaster_limits_def limit_annoydelay_def)
  have net: "gi_type d = APC_NET \<longleftrightarrow> cable_kind (gi_type d) = NetworkLink" for d :: geninfo
    by (simp add: cable_kind_def)
  have "cable_fits (gi_type (mode u)) (cable_kind (gi_type (cable u)))" using c(2) by (simp add: u_def)
  then show ?thesis
    unfolding out settings_agree_def keep lock_file_path net using delay by (auto simp: cable_fits_def)
qed

text \<open>The check that a MODBUS UPS has "a smart (or USB) cable" lets the network link pass, and with it there is no
  lock file for the device that the driver opens.\<close>

theorem config_modbus_unlocked:
  assumes "gi_type (mode (ups s)) = MODBUS_UPS" "gi_type (cable (ups s)) = APC_NET"
  shows "sanitize_cable e s = s \<and> lockpath (lock_file (ups (sanitize_cable e s))) = []"
proof -
  have "sanitize_cable e s = s" using assms by (simp add: sanitize_cable_def)
  then show ?thesis using assms by (simp add: lock_file_path)
qed

definition usb_config_sys :: "unit sys" where
  "usb_config_sys = (start_sys ())\<lparr>files := (\<lambda>p. if p = ''/c'' then Some (''UPSTYPE usb'' @ [NL]) else None)\<rparr>"

lemma usb_line:
  "config_lines (''UPSTYPE usb'' @ [NL]) = [(1, ''UPSTYPE usb'' @ [NL])]"
  by (simp add: config_lines_def Let_def c_str_def)

lemma usb_config_accepted: "\<not> halted (check_for_config quiet_env ''/c'' usb_config_sys)"
proof -
  let ?h = "Match_range types (\<lambda>v u. u\<lparr>mode := v\<rparr>)"
  let ?s = "upd_ups (\<lambda>u. u\<lparr>configfile := strlcpy_to 4096 ''/c''\<rparr>) usb_config_sys"
  define s1 where "s1 = emit (Printed (old_file_warning quiet_env (''UPSTYPE usb'' @ [NL]))) ?s"
  let ?g = "\<lambda>u. u\<lparr>mode := geninfo_of (''usb'', ''USB UPS Driver'', USB_UPS)\<rparr>"
  have p: "ParseConfig quiet_env 1 (''UPSTYPE usb'' @ [NL]) s1 = (True, upd_ups ?g s1)"
    by (simp add: ParseConfig_def key_value_def isspace_def toupper_def char_code_def config_table_def run_handler_def
        match_range_def find_value_def scanned_word_def sscanf_s_def types_def geninfo_of_def strcaseeq_def tolower_def)
  have m: "check_magic quiet_env [(1, ''UPSTYPE usb'' @ [NL])] ?s = s1"
    by (simp add: check_magic_def s1_def is_prefix_def APC_CONFIG_MAGIC_def)
  have l: "parse_lines quiet_env [(1, ''UPSTYPE usb'' @ [NL])] s1 = (0, upd_ups ?g s1)"
    unfolding parse_lines_def parse_line_def by (simp add: p [simplified])
  have f: "can_open ''/c'' usb_config_sys" "the (files usb_config_sys ''/c'') = ''UPSTYPE usb'' @ [NL]" "\<not> halted s1"
    by (simp_all add: can_open_def usb_config_sys_def start_sys_def s1_def)
  have c: "sanitize_cable quiet_env (upd_ups f (upd_ups g (upd_ups ?g s1))) =
      force_cable quiet_env ''usb'' (upd_ups f (upd_ups g (upd_ups ?g s1)))"
    if "\<And>u. mode (f u) = mode u" "\<And>u. mode (g u) = mode u" for f g
    using that by (simp add: sanitize_cable_def Let_def geninfo_of_def)
  show ?thesis
    unfolding check_for_config_def Let_def f(2) usb_line m l
    using f(1,3) c [of sharemaster_limits limit_annoydelay]
    by (simp add: halted_upd forced_cables sharemaster_limits_def limit_annoydelay_def)
qed

theorem config_accepted_agrees_witness:
  "settings_agree (ups (check_for_config quiet_env ''/c'' usb_config_sys))"
  using config_accepted_agrees [OF usb_config_accepted] .

subsection \<open>Where the reading goes wrong\<close>

lemma fgets_all_full:
  "length acc + length x = n \<Longrightarrow> NL \<notin> set x \<Longrightarrow> x \<noteq> [] \<Longrightarrow> fgets_all n acc (x @ r) = (acc @ x) # fgets_all n [] r"
proof (induction x arbitrary: acc)
  case (Cons c cs)
  show ?case
  proof (cases "cs = []")
    case False
    then have "length acc + 1 \<noteq> n" "c \<noteq> NL" using Cons.prems by auto
    with False show ?thesis using Cons.IH [of "acc @ [c]"] Cons.prems by simp
  qed (use Cons.prems in auto)
qed simp

lemma fgets_all_line:
  "length acc + length x < n \<Longrightarrow> NL \<notin> set x \<Longrightarrow> fgets_all n acc (x @ NL # r) = (acc @ x @ [NL]) # fgets_all n [] r"
  by (induction x arbitrary: acc) auto

text \<open>
  C33: The part of a comment that does not fit the line buffer is read as lines of its own: a comment of
  255 characters followed by \<open>r\<close> on the same line has the effect of any short comment
  with \<open>r\<close> on the next line, so that directives inside a long comment are obeyed.
\<close>

theorem config_comment_tail_read:
  assumes "length c = 254" "NL \<notin> set c" "length d < 254" "NL \<notin> set d"
  shows "parse_lines e (config_lines (CHR ''#'' # c @ r)) s = parse_lines e (config_lines (CHR ''#'' # d @ NL # r)) s"
proof -
  define ls where "ls = map c_str (fgets_all 255 [] r)"
  have full: "fgets_all 255 [] (CHR ''#'' # c @ r) = (CHR ''#'' # c) # fgets_all 255 [] r"
    using fgets_all_full [of "[]" "CHR ''#'' # c" 255 r] assms(1,2) by simp
  have short: "fgets_all 255 [] (CHR ''#'' # d @ NL # r) = (CHR ''#'' # d @ [NL]) # fgets_all 255 [] r"
    using fgets_all_line [of "[]" "CHR ''#'' # d" 255 r] assms(3,4) by simp
  have comment: "ParseConfig e n (c_str (CHR ''#'' # x)) t = (True, t)" for n x and t :: "'a sys"
    by (simp add: ParseConfig_def key_value_def c_str_def hash_char)
  have upt: "[1..<Suc (Suc m)] = 1 # [2..<Suc (Suc m)]" for m
    by (simp add: upt_rec numeral_2_eq_2)
  have "config_lines (CHR ''#'' # c @ r) = (1, c_str (CHR ''#'' # c)) # zip [2..<Suc (Suc (length ls))] ls"
    unfolding config_lines_def full Let_def list.map length_Cons ls_def length_map upt by simp
  moreover have "config_lines (CHR ''#'' # d @ NL # r) =
      (1, c_str (CHR ''#'' # d @ [NL])) # zip [2..<Suc (Suc (length ls))] ls"
    unfolding config_lines_def short Let_def list.map length_Cons ls_def length_map upt by simp
  moreover have "parse_line e (1, c_str (CHR ''#'' # x)) (0, s) = (0, s)" for x
    by (simp add: parse_line_def comment [where n = 1, simplified])
  ultimately show ?thesis by (simp add: parse_lines_def)
qed

theorem config_comment_tail_read_witness:
  "parse_lines quiet_env (config_lines (CHR ''#'' # replicate 254 CHR ''-'' @ ''UPSTYPE usb'' @ [NL])) (start_sys ()) =
   parse_lines quiet_env (config_lines (CHR ''#'' # '' long'' @ NL # ''UPSTYPE usb'' @ [NL])) (start_sys ())"
  by (rule config_comment_tail_read) simp_all

text \<open>
  A number that is missing is no error: \<open>sscanf\<close> returns \<open>EOF\<close>, and the field takes whatever the
  local variable holds.
\<close>

lemma config_missing_number:
  assumes "list_all isspace lead" "list_all isspace gap" "gap \<noteq> []"
  shows "ParseConfig e n (lead @ ''TIMEOUT'' @ gap) s = (True, upd_ups (\<lambda>u. u\<lparr>maxtime := junk_int e n\<rparr>) s)"
proof -
  let ?h = "Match_int (\<lambda>v u. u\<lparr>maxtime := v\<rparr>)"
  have k: "(''TIMEOUT'', ?h) \<in> set config_table" by (simp add: config_table_def)
  have "map toupper ''TIMEOUT'' = ''TIMEOUT''" by (simp add: toupper_def char_code_def)
  from key_value_line [OF k this assms(1,3,2), of "[]"]
  have kv: "key_value (lead @ ''TIMEOUT'' @ gap) = Some (''TIMEOUT'', [])"
    by (simp only: append_Nil2 dropWhile.simps)
  have "sscanf_d [] = ScanEof" by (simp add: sscanf_d_def)
  then show ?thesis
    unfolding ParseConfig_def kv option.case prod.case map_of_is_SomeI [OF config_keys_distinct k]
    by (simp only: run_handler_def match_int_def handler.case scan.case)
qed

text \<open>
  No file makes \<open>sharenet\<close> a master's: the code asks there for the class of the UPS, and
  the limits of a ShareUPS master are never reset.
\<close>

definition keeps :: "(upsinfo \<Rightarrow> bool) \<Rightarrow> handler \<Rightarrow> bool" where
  "keeps P h \<longleftrightarrow> (case h of
      Match_int f \<Rightarrow> (\<forall>x u. P u \<longrightarrow> P (f x u)) | Match_str sz f \<Rightarrow> (\<forall>x u. P u \<longrightarrow> P (f x u))
    | Match_range vs f \<Rightarrow> (\<forall>x\<in>set (items vs). \<forall>n l u. P u \<longrightarrow> P (f \<lparr>gi_name = n, gi_long_name = l, gi_type = gi_type x\<rparr> u))
    | Match_index vs f \<Rightarrow> (\<forall>x u. P u \<longrightarrow> P (f x u))
    | Match_facility \<Rightarrow> (\<forall>x u. P u \<longrightarrow> P (u\<lparr>sysfac := x\<rparr>)) | Obsolete b m \<Rightarrow> True)"

lemma find_value_in: "find_value vs x = Some g \<Longrightarrow> g \<in> set (items vs)"
  by (auto simp: find_value_def find_Some_iff)

lemma run_handler_keeps:
  assumes "keeps P h" "P (ups s)" shows "P (ups (snd (run_handler e n h v s)))"
  using assms
  by (cases h) (auto simp: keeps_def run_handler_def match_int_def match_str_def match_range_def match_index_def
      match_facility_def obsolete_def guarded_def dest: find_value_in split: scan.split option.split)

lemma ParseConfig_keeps:
  assumes "\<And>k h. (k, h) \<in> set config_table \<Longrightarrow> keeps P h" "P (ups s)"
  shows "P (ups (snd (ParseConfig e n line s)))"
proof (cases "key_value line")
  case None
  with assms(2) show ?thesis by (simp add: ParseConfig_def)
next
  case (Some kv)
  then show ?thesis
    using assms(2) run_handler_keeps [OF assms(1) [OF map_of_SomeD], of "fst kv" _ s e n "snd kv"]
    by (cases "map_of config_table (fst kv)") (simp_all add: ParseConfig_def split_beta)
qed

lemma parse_lines_keeps:
  assumes "\<And>k h. (k, h) \<in> set config_table \<Longrightarrow> keeps P h" "P (ups s)"
  shows "P (ups (snd (parse_lines e ls s)))"
proof -
  have "P (ups (snd (fold (parse_line e) ls (m, s))))" for m
    using assms(2)
    by (induction ls arbitrary: m s) (auto simp: parse_line_def split_beta intro: ParseConfig_keeps assms(1))
  then show ?thesis by (simp add: parse_lines_def)
qed

lemma sharenet_rows:
  assumes "(k, h) \<in> set config_table" shows "keeps (\<lambda>u. gi_type (sharenet u) < SHAREMASTER) h"
proof -
  have "list_all (\<lambda>(k, h). keeps (\<lambda>u. gi_type (sharenet u) < SHAREMASTER) h) config_table"
    by (simp add: config_table_def keeps_def modes_def geninfo_of_def)
  with assms show ?thesis by (auto simp: list_all_iff)
qed

lemma sharemaster_limits_never:
  assumes "gi_type (sharenet (ups s)) < SHAREMASTER"
  shows "sharemaster_limits (ups (snd (parse_lines e ls s))) = ups (snd (parse_lines e ls s))"
proof -
  have "gi_type (sharenet (ups (snd (parse_lines e ls s)))) < SHAREMASTER"
    by (rule parse_lines_keeps) (use sharenet_rows assms in blast)+
  then show ?thesis by (simp add: sharemaster_limits_def)
qed

text \<open>
  Files that are refused: after a line that is not understood the process ends with no lock path, so that
  the clean-up of \<open>Error_abort\<close> finds no lock file to delete; a cable that does not fit ends it with the
  directory of the lock files for a path.
\<close>

lemma config_errors_stop:
  assumes "can_open cfgfile s" "0 < fst (parse_lines e (config_lines (the (files s cfgfile)))
      (check_magic e (config_lines (the (files s cfgfile))) (upd_ups (\<lambda>u. u\<lparr>configfile := strlcpy_to 4096 cfgfile\<rparr>) s)))"
  shows "halted (check_for_config e cfgfile s) \<and> delete_lockfile (check_for_config e cfgfile s) = check_for_config e cfgfile s"
  using assms by (auto simp: check_for_config_def Let_def split_beta error_abort_def delete_lockfile_def)

lemma unfit_cable_lock_path:
  assumes "gi_type (mode (ups s)) = MODBUS_UPS" "gi_type (cable (ups s)) < CABLE_SMART"
  shows "halted (sanitize_cable e s) \<and> lockpath (ups (sanitize_cable e s)) = lockpath (ups s)"
  using assms by (simp add: sanitize_cable_def error_abort_def)

end
