(* ===== verification/DumbDriver.thy ===== *)
theory DumbDriver
  imports DriverKit ConfigLaws
begin

text \<open>
  The driver of simple signalling UPSes (\<open>src/drivers/dumb\<close>), the test driver
  (\<open>src/drivers/test/testdriver.c\<close>), and the choice of a driver (\<open>src/drivers/drivers.c\<close>).

  A simple UPS speaks through the modem lines of a serial port. The \<open>n\<close>-th \<open>TIOCMGET\<close> finds the
  lines as \<open>dd_lines n\<close>, or fails and leaves the flags alone; \<open>dd_ops\<close> lists what was done to the lines
  the computer drives, with the pauses in between. The settings of the terminal (\<open>termios\<close>) are left out.
\<close>

unbundle bit_operations_syntax

subsection \<open>Modem lines\<close>

definition TIOCM_DTR :: "32 word" where "TIOCM_DTR = 2"
definition TIOCM_RTS :: "32 word" where "TIOCM_RTS = 4"
definition TIOCM_ST :: "32 word" where "TIOCM_ST = 8"
definition TIOCM_CTS :: "32 word" where "TIOCM_CTS = 32"
definition TIOCM_CD :: "32 word" where "TIOCM_CD = 64"
definition TIOCM_RNG :: "32 word" where "TIOCM_RNG = 128"

datatype modem_op = TIOCMBIS "32 word" | TIOCMBIC "32 word" | Held int

record dumb_drv =
  dd_fd :: int                    \<comment> \<open>what \<open>open\<close> of the port returns\<close>
  sp_flags :: "32 word"
  dd_lines :: "nat \<Rightarrow> 32 word option"
  dd_pos :: nat
  dd_ops :: "modem_op list"

type_synonym dumb_sys = "dumb_drv sys"

definition modem :: "modem_op list \<Rightarrow> dumb_sys \<Rightarrow> dumb_sys" where
  "modem ops = upd_drv (\<lambda>d. d\<lparr>dd_ops := dd_ops d @ ops\<rparr>)"

text \<open>\<open>sleep(n)\<close>, with the lines as they are.\<close>

definition hold :: "int \<Rightarrow> dumb_sys \<Rightarrow> dumb_sys" where
  "hold n s = modem [Held n] (emit (Slept n) s)"

definition plain_cables :: "int set" where
  "plain_cables = {APC_940_0119A, APC_940_0127A, APC_940_0128A, APC_940_0020B, APC_940_0020C}"

definition rts_cables :: "int set" where
  "rts_cables = {CUSTOM_SIMPLE, APC_940_0095A, APC_940_0095B, APC_940_0095C}"

abbreviation cable_type :: "'d sys \<Rightarrow> int" where
  "cable_type s \<equiv> gi_type (cable (ups s))"

subsection \<open>Setup (dumbsetup.c)\<close>

definition dumb_open :: "dumb_sys \<Rightarrow> bool \<times> dumb_sys" where
  "dumb_open s =
     (let s1 = upd_ups (\<lambda>u. u\<lparr>fd := dd_fd (drv s)\<rparr>) s
      in if dd_fd (drv s) < 0
         then (False, error_abort (''Cannot open UPS port '' @ device (ups s)) s1)
         else (True, upd_ups clear_slave s1))"

definition dumb_close :: "dumb_sys \<Rightarrow> bool \<times> dumb_sys" where
  "dumb_close s =
     (True, upd_ups (\<lambda>u. u\<lparr>fd := -1\<rparr>)
       (if cable_type s \<in> rts_cables then modem [TIOCMBIC TIOCM_RTS, TIOCMBIC TIOCM_RTS, TIOCMBIC TIOCM_ST] s
        else if cable_type s \<in> plain_cables
        then modem [TIOCMBIC TIOCM_DTR, TIOCMBIC TIOCM_DTR, TIOCMBIC TIOCM_DTR] s
        else s))"

definition dumb_setup :: "dumb_sys \<Rightarrow> bool \<times> dumb_sys" where
  "dumb_setup s =
     (True,
       if cable_type s = CUSTOM_SIMPLE then modem [TIOCMBIC TIOCM_RTS, TIOCMBIS TIOCM_DTR] s
       else if cable_type s \<in> plain_cables \<or> cable_type s = MAM_CABLE
       then modem [TIOCMBIC TIOCM_DTR, TIOCMBIS TIOCM_RTS] s
       else if cable_type s \<in> {APC_940_0095A, APC_940_0095B, APC_940_0095C}
       then modem [TIOCMBIC TIOCM_RTS, TIOCMBIC (TIOCM_RTS OR TIOCM_CD), TIOCMBIC TIOCM_RTS] s
       else s)"

subsection \<open>Operation (dumboper.c)\<close>

definition dumb_kill_power :: "dumb_sys \<Rightarrow> bool \<times> dumb_sys" where
  "dumb_kill_power s =
     (True,
       if cable_type s \<in> rts_cables
       then modem [TIOCMBIS TIOCM_ST]
              (hold 10 (modem [TIOCMBIS TIOCM_RTS, TIOCMBIS TIOCM_RTS, TIOCMBIS TIOCM_RTS] s))
       else if cable_type s \<in> plain_cables
       then hold 10 (modem [TIOCMBIS TIOCM_DTR, TIOCMBIS TIOCM_DTR, TIOCMBIS TIOCM_DTR] s)
       else if cable_type s = MAM_CABLE
       then hold 10 (modem [TIOCMBIC TIOCM_RTS, TIOCMBIS TIOCM_DTR, TIOCMBIS TIOCM_DTR, TIOCMBIS TIOCM_DTR] s)
       else s)"

definition dumb_read_static_data :: "dumb_sys \<Rightarrow> bool \<times> dumb_sys" where
  "dumb_read_static_data s = (True, s)"

definition dumb_get_capabilities :: "dumb_sys \<Rightarrow> bool \<times> dumb_sys" where
  "dumb_get_capabilities s = (True, upd_ups (\<lambda>u. u\<lparr>UPS_Cap := (UPS_Cap u)(CI_STATUS := True)\<rparr>) s)"

definition asserted :: "32 word \<Rightarrow> 32 word \<Rightarrow> bool" where
  "asserted flags line \<longleftrightarrow> flags AND line \<noteq> 0"

definition power_lost :: "bool \<Rightarrow> upsinfo \<Rightarrow> upsinfo" where
  "power_lost b u = (if b then clear_online u else set_online u)"

definition battery_low :: "bool \<Rightarrow> upsinfo \<Rightarrow> upsinfo" where
  "battery_low b u = (if b then set_battlow u else clear_battlow u)"

text \<open>What the lines mean, cable by cable.\<close>

definition read_lines :: "32 word \<Rightarrow> upsinfo \<Rightarrow> upsinfo" where
  "read_lines f u =
     (let c = gi_type (cable u)
      in if c = CUSTOM_SIMPLE
         then battery_low (\<not> asserted f TIOCM_CTS) (power_lost (asserted f TIOCM_CD) u)
         else if c \<in> plain_cables
         then battery_low (asserted f TIOCM_CD) (power_lost (asserted f TIOCM_CTS) u)
         else if c = APC_940_0023A then power_lost (asserted f TIOCM_CD) u
         else if c = APC_940_0095A \<or> c = APC_940_0095C
         then battery_low (asserted f TIOCM_CD) (power_lost (asserted f TIOCM_RNG) u)
         else if c = APC_940_0095B then power_lost (asserted f TIOCM_RNG) u
         else if c = MAM_CABLE
         then battery_low (\<not> asserted f TIOCM_CD) (power_lost (\<not> asserted f TIOCM_CTS) u)
         else u)"

definition get_lines :: "dumb_sys \<Rightarrow> dumb_sys" where
  "get_lines = upd_drv (\<lambda>d. d\<lparr>dd_pos := Suc (dd_pos d),
     sp_flags := (case dd_lines d (dd_pos d) of None \<Rightarrow> sp_flags d | Some f \<Rightarrow> f)\<rparr>)"

definition dumb_wait :: "dumb_sys \<Rightarrow> dumb_sys" where
  "dumb_wait s =
     (let t = upd_ups (\<lambda>u. if 5 < wait_time u then u\<lparr>wait_time := 5\<rparr> else u) s
      in hold (wait_time (ups t)) t)"

definition dumb_read_volatile_data :: "dumb_sys \<Rightarrow> bool \<times> dumb_sys" where
  "dumb_read_volatile_data s =
     (let t = get_lines (write_lock (dumb_wait s))
      in (True, write_unlock (upd_ups (\<lambda>u. clear_replacebatt (read_lines (sp_flags (drv t)) u)) t)))"

definition dumb_entry_point :: "devcmd \<Rightarrow> dumb_sys \<Rightarrow> bool \<times> dumb_sys" where
  "dumb_entry_point cmd s =
     (case cmd of
        DEVICE_CMD_DTR_ENABLE \<Rightarrow>
          (True, if cable_type s = CUSTOM_SIMPLE then modem [TIOCMBIS TIOCM_DTR] s else s)
      | DEVICE_CMD_DTR_ST_DISABLE \<Rightarrow> (True, s)
      | _ \<Rightarrow> (False, s))"

definition dumb_driver :: "dumb_drv driver" where
  "dumb_driver = \<lparr>drv_open = dumb_open, drv_close = dumb_close,
     drv_read_static_data = dumb_read_static_data,
     drv_read_volatile_data = dumb_read_volatile_data,
     drv_get_capabilities = dumb_get_capabilities,
     drv_check_state = dumb_read_volatile_data, drv_setup = dumb_setup,
     drv_kill_power = dumb_kill_power, drv_shutdown = default_shutdown,
     drv_entry_point = dumb_entry_point\<rparr>"

subsection \<open>The test driver (testdriver.c)\<close>

definition test_open :: "'d sys \<Rightarrow> bool \<times> 'd sys" where
  "test_open s = (True, write_unlock (upd_ups (\<lambda>u. clear_slave (u\<lparr>fd := 1\<rparr>)) (write_lock s)))"

definition test_close :: "'d sys \<Rightarrow> bool \<times> 'd sys" where
  "test_close s = (True, write_unlock (upd_ups (\<lambda>u. u\<lparr>fd := -1\<rparr>) (write_lock s)))"

definition test_check_state :: "'d sys \<Rightarrow> bool \<times> 'd sys" where
  "test_check_state s = (True, s)"

definition test_get_capabilities :: "'d sys \<Rightarrow> bool \<times> 'd sys" where
  "test_get_capabilities s =
     (True, write_unlock (upd_ups (\<lambda>u. u\<lparr>UPS_Cap := (\<lambda>k. if k \<le> CI_MAX_CAPS then True else UPS_Cap u k)\<rparr>)
        (write_lock s)))"

definition test_read_static_data :: "'d sys \<Rightarrow> bool \<times> 'd sys" where
  "test_read_static_data s =
     (True, write_unlock (upd_ups (\<lambda>u. u\<lparr>upsmodel := ''Test Driver'', firmrev := ''Rev 1.0'',
        selftest := ''336'', dwake := 2 * 60, dshutd := 2 * 60, lotrans := 190, hitrans := 240, rtnpct := 15,
        dlowbatt := 2, birth := ''2001-09-21'', battdat := ''2001-09-21'', serial := ''NO-123456'',
        NomOutputVoltage := 230, nombattv := 12\<rparr>) (write_lock s)))"

definition test_values :: "upsinfo \<Rightarrow> upsinfo" where
  "test_values u = (set_online (u\<lparr>Status := 0\<rparr>))\<lparr>LineVoltage := 229.5, LineMin := 225, LineMax := 230,
     OutputVoltage := 228.5, BattChg := 100, BattVoltage := 12.5, UPSLoad := 40.5, LineFreq := 50,
     TimeLeft := 20 * 60, UPSTemp := 32.4, humidity := 50.1, ambtemp := 22.5, testresult := TEST_PASSED\<rparr>"

definition test_read_volatile_data :: "'d sys \<Rightarrow> bool \<times> 'd sys" where
  "test_read_volatile_data s =
     (let (now, t) = time_now s
      in (True, write_unlock (upd_ups test_values (write_lock (upd_ups (\<lambda>u. u\<lparr>poll_time := now\<rparr>) t)))))"

definition test_driver :: "'d driver" where
  "test_driver = \<lparr>drv_open = test_open, drv_close = test_close,
     drv_read_static_data = test_read_static_data, drv_read_volatile_data = test_read_volatile_data,
     drv_get_capabilities = test_get_capabilities, drv_check_state = test_check_state,
     drv_setup = default_setup, drv_kill_power = default_kill_power, drv_shutdown = default_shutdown,
     drv_entry_point = default_entry_point\<rparr>"

subsection \<open>Choosing a driver (drivers.c)\<close>

datatype driver_class = DumbUpsDriver | ApcSmartUpsDriver | NetUpsDriver | UsbUpsDriver | SnmpLiteUpsDriver
  | TestUpsDriver | PcnetUpsDriver | ModbusUpsDriver

text \<open>The table of drivers; \<open>built\<close> says which of them were compiled in.\<close>

definition drivers :: "(driver_class \<Rightarrow> bool) \<Rightarrow> (string \<times> driver_class) list" where
  "drivers built = filter (\<lambda>p. built (snd p))
     [(''dumb'', DumbUpsDriver), (''apcsmart'', ApcSmartUpsDriver), (''net'', NetUpsDriver),
      (''usb'', UsbUpsDriver), (''snmplite'', SnmpLiteUpsDriver), (''test'', TestUpsDriver),
      (''pcnet'', PcnetUpsDriver), (''modbus'', ModbusUpsDriver)]"

definition helper_attach_driver :: "(driver_class \<Rightarrow> bool) \<Rightarrow> string \<Rightarrow> 'd sys \<Rightarrow> driver_class option \<times> 'd sys" where
  "helper_attach_driver built drvname s =
     (case find (\<lambda>p. strcaseeq (fst p) drvname) (drivers built) of
        Some p \<Rightarrow> (Some (snd p), write_unlock (write_lock s))
      | None \<Rightarrow>
          (None, write_unlock (emit (Printed ([NL] @ ''Apcupsd driver '' @ drvname @ '' not found.'' @ [NL] @
             ''The available apcupsd drivers are:'' @ [NL] @
             concat (map (\<lambda>p. fst p @ [NL]) (drivers built)) @ [NL] @
             ''Most likely, you need to add --enable-'' @ drvname @ '' to your ./configure options.'' @ [NL, NL]))
             (write_lock s))))"

definition driver_name :: "int \<Rightarrow> string option" where
  "driver_name m =
     (if m = DUMB_UPS then Some ''dumb'' else if m = APCSMART_UPS then Some ''apcsmart''
      else if m = USB_UPS then Some ''usb'' else if m = SNMPLITE_UPS then Some ''snmplite''
      else if m = TEST_UPS then Some ''test'' else if m = NETWORK_UPS then Some ''net''
      else if m = PCNET_UPS then Some ''pcnet'' else if m = MODBUS_UPS then Some ''modbus'' else None)"

definition attach_driver :: "(driver_class \<Rightarrow> bool) \<Rightarrow> 'd sys \<Rightarrow> driver_class option \<times> 'd sys" where
  "attach_driver built s =
     (case driver_name (gi_type (mode (ups s))) of
        None \<Rightarrow> (None, s)
      | Some n \<Rightarrow> helper_attach_driver built n s)"

subsection \<open>The contract\<close>

lemma modem_quiet: "quiet s t \<Longrightarrow> quiet s (modem ops t)"
  by (simp add: modem_def then_quiet)

lemma hold_quiet: "quiet s t \<Longrightarrow> quiet s (hold n t)"
  unfolding hold_def by (intro modem_quiet) (rule quiet_trans [OF _ quiet_emit]; simp)

lemma modem_frame [simp]:
  "ups (modem ops s) = ups s" "dd_ops (drv (modem ops s)) = dd_ops (drv s) @ ops"
  "ups (hold n s) = ups s" "dd_ops (drv (hold n s)) = dd_ops (drv s) @ [Held n]"
  by (simp_all add: modem_def hold_def)

lemma power_lost_bits: "bit (Status (power_lost b u)) n \<longleftrightarrow> n = (if b then 4 else 3) \<or> n \<noteq> (if b then 3 else 4) \<and> bit (Status u) n"
  by (simp add: power_lost_def bit_online)

lemma battery_low_bits: "bit (Status (battery_low b u)) n \<longleftrightarrow> (if n = 6 then b else bit (Status u) n)"
  by (auto simp: battery_low_def set_bits clear_bits)

lemma read_lines_status: "same_status {3, 4, 6} u (read_lines f u)"
  by (auto simp: same_status_def read_lines_def Let_def battery_low_bits power_lost_bits)

lemma dumb_status_shutdown: "same_status bs u v \<Longrightarrow> 9 \<notin> bs \<Longrightarrow> is_shutdown v = is_shutdown u"
  by (simp add: same_status_def shutdown_bit)

lemma read_lines_shutdown [simp]: "is_shutdown (read_lines f u) = is_shutdown u"
  by (rule dumb_status_shutdown [OF read_lines_status]) simp

lemma clear_replacebatt_status: "same_status {7} u (clear_replacebatt u)"
  by (auto simp: same_status_def clear_bits)

lemma get_lines_frame [simp]: "ups (get_lines s) = ups s" "dd_ops (drv (get_lines s)) = dd_ops (drv s)"
  by (simp_all add: get_lines_def)

lemma dumb_wait_quiet: "quiet s (dumb_wait s)"
  unfolding dumb_wait_def Let_def by (intro hold_quiet quiet_upd_ups) simp

lemma dumb_read_volatile_quiet: "quiet s (snd (dumb_read_volatile_data s))"
proof -
  have "quiet (dumb_wait s) (snd (dumb_read_volatile_data s))"
    unfolding dumb_read_volatile_data_def Let_def snd_conv
    by (rule quiet_locked, rule then_quiet(6))
      (simp_all add: get_lines_def then_quiet)
  with dumb_wait_quiet show ?thesis by (rule quiet_trans)
qed

lemma dumb_simple_quiet:
  "quiet s (snd (dumb_close s))" "quiet s (snd (dumb_setup s))" "quiet s (snd (dumb_kill_power s))"
  "quiet s (snd (dumb_read_static_data s))" "quiet s (snd (dumb_get_capabilities s))"
  "quiet s (snd (dumb_entry_point c s))"
  by (auto simp: dumb_close_def dumb_setup_def dumb_kill_power_def dumb_read_static_data_def
      dumb_get_capabilities_def dumb_entry_point_def
      intro!: modem_quiet hold_quiet then_quiet quiet_upd_ups split: devcmd.split)

lemma dumb_open_quiet: "quiet s (snd (dumb_open s))"
  unfolding dumb_open_def Let_def
  by (auto intro!: then_quiet quiet_upd_ups quiet_trans [OF _ quiet_exit(1)] simp: shutdown_bit clear_bits)

interpretation dumb: ups_driver dumb_driver
proof
  fix f :: "dumb_sys \<Rightarrow> bool \<times> dumb_sys" and s
  assume "f \<in> driver_ops dumb_driver"
  then show "quiet s (snd (f s))"
    by (auto simp: driver_ops_def dumb_driver_def dumb_simple_quiet dumb_read_volatile_quiet dumb_open_quiet
        default_shutdown_def)
qed

subsection \<open>Properties\<close>

text \<open>The lines the computer drives after a list of operations.\<close>

definition driven :: "32 word \<Rightarrow> modem_op list \<Rightarrow> 32 word" where
  "driven w ops = fold (\<lambda>op w. case op of TIOCMBIS m \<Rightarrow> w OR m | TIOCMBIC m \<Rightarrow> w AND NOT m | Held n \<Rightarrow> w) ops w"

text \<open>The lines that make a UPS on this cable switch its output off.\<close>

definition kill_lines :: "int \<Rightarrow> 32 word" where
  "kill_lines c = (if c \<in> rts_cables then TIOCM_RTS OR TIOCM_ST
     else if c \<in> plain_cables \<or> c = MAM_CABLE then TIOCM_DTR else 0)"

lemma driven_append: "driven w (a @ b) = driven (driven w a) b"
  by (simp add: driven_def)

lemma cleared_bits:
  fixes w :: "32 word"
  shows "((w AND NOT a) AND NOT b) AND (a OR b) = 0" "(w AND NOT a) AND a = 0" "(w OR a) AND a = a"
  by (rule bit_word_eqI; simp add: bit_simps; blast)+

lemma kill_power_close:
  assumes "c = cable_type s" "t = snd (dumb_close (snd (dumb_kill_power s)))"
  shows "driven w (dd_ops (drv t)) AND kill_lines c = (if c = MAM_CABLE then kill_lines c else 0)"
proof -
  let ?w = "driven w (dd_ops (drv s))"
  have dj: "rts_cables \<inter> plain_cables = {}" "MAM_CABLE \<notin> rts_cables" "MAM_CABLE \<notin> plain_cables"
    by (auto simp: rts_cables_def plain_cables_def)
  consider "c \<in> rts_cables" | "c \<in> plain_cables" | "c = MAM_CABLE" | "c \<notin> rts_cables" "c \<notin> plain_cables" "c \<noteq> MAM_CABLE"
    by blast
  then show ?thesis
  proof cases
    case 1
    with dj have "c \<noteq> MAM_CABLE" by auto
    with 1 assms show ?thesis
      by (simp add: dumb_close_def dumb_kill_power_def driven_append kill_lines_def)
        (simp add: driven_def cleared_bits(1))
  next
    case 2
    with dj have "c \<notin> rts_cables" "c \<noteq> MAM_CABLE" by auto
    with 2 assms show ?thesis
      by (simp add: dumb_close_def dumb_kill_power_def driven_append kill_lines_def)
        (simp add: driven_def cleared_bits(2))
  next
    case 3
    with dj assms show ?thesis
      by (simp add: dumb_close_def dumb_kill_power_def driven_append kill_lines_def)
        (simp add: driven_def cleared_bits(3))
  next
    case 4
    then show ?thesis by (simp add: kill_lines_def)
  qed
qed

text \<open>
  C32: When the driver is closed after it has switched the UPS off, the lines that did it are
  released, so that they do not switch it off again - on every cable but the MAM cable, which
  \<open>Close\<close> has forgotten: there the line stays asserted.
\<close>

theorem dumb_kill_lines_released:
  assumes "c = gi_type (cable (ups s))" "t = snd (dumb_close (snd (dumb_kill_power s)))"
  shows "(c \<noteq> MAM_CABLE \<longrightarrow> driven w (dd_ops (drv t)) AND kill_lines c = 0) \<and>
    (c = MAM_CABLE \<longrightarrow> driven w (dd_ops (drv t)) AND TIOCM_DTR = TIOCM_DTR)"
  using kill_power_close [OF assms, of w] by (auto simp: kill_lines_def rts_cables_def split: if_splits)

definition dumb_port :: "int \<Rightarrow> dumb_sys" where
  "dumb_port c = upd_ups (\<lambda>u. u\<lparr>mode := geninfo_of (''dumb'', ''DUMB UPS Driver'', DUMB_UPS),
       cable := \<lparr>gi_name = [], gi_long_name = [], gi_type = c\<rparr>, wait_time := 60\<rparr>)
     (start_sys \<lparr>dd_fd = 3, sp_flags = 0, dd_lines = (\<lambda>n. Some TIOCM_CD), dd_pos = 0, dd_ops = []\<rparr>)"

theorem dumb_kill_lines_released_witness:
  "driven 0 (dd_ops (drv (snd (dumb_close (snd (dumb_kill_power (dumb_port MAM_CABLE))))))) AND TIOCM_DTR = TIOCM_DTR"
  using dumb_kill_lines_released [OF refl refl, where s = "dumb_port MAM_CABLE" and w = 0]
  by (simp add: dumb_port_def)

lemma dumb_poll_ups:
  "ups (snd (dumb_read_volatile_data s)) =
     clear_replacebatt (read_lines (sp_flags (drv (get_lines (write_lock (dumb_wait s))))) (ups (dumb_wait s)))"
  by (simp add: dumb_read_volatile_data_def Let_def write_lock_def write_unlock_def)

lemma dumb_wait_ups: "Status (ups (dumb_wait s)) = Status (ups s)" "cable (ups (dumb_wait s)) = cable (ups s)"
  by (simp_all add: dumb_wait_def Let_def)

text \<open>What a poll reports on a cable whose lines are known, and that it changes nothing else.\<close>

definition power_line :: "int \<Rightarrow> 32 word \<Rightarrow> bool" where
  "power_line c f =
     (if c \<in> plain_cables then asserted f TIOCM_CTS else if c = MAM_CABLE then \<not> asserted f TIOCM_CTS
      else if c = CUSTOM_SIMPLE \<or> c = APC_940_0023A then asserted f TIOCM_CD else asserted f TIOCM_RNG)"

lemma dumb_poll_power:
  assumes "gi_type (cable (ups s)) \<in> rts_cables \<union> plain_cables \<union> {APC_940_0023A, MAM_CABLE}"
    and "f = sp_flags (drv (get_lines (write_lock (dumb_wait s))))"
  shows "is_onbatt (ups (snd (dumb_read_volatile_data s))) = power_line (gi_type (cable (ups s))) f \<and>
    same_status {3, 4, 6, 7} (ups s) (ups (snd (dumb_read_volatile_data s)))"
  using assms(1)
  by (auto simp: dumb_poll_ups assms(2) [symmetric] onbatt.is_f_bit same_status_def read_lines_def Let_def dumb_wait_ups
      power_line_def rts_cables_def plain_cables_def power_lost_bits battery_low_bits clear_bits)

lemma dumb_poll_no_cable:
  assumes "gi_type (cable (ups s)) = NO_CABLE"
  shows "same_status {7} (ups s) (ups (snd (dumb_read_volatile_data s))) \<and>
    cable (ups (snd (dumb_read_volatile_data s))) = cable (ups s)"
proof -
  have "cable (clear_replacebatt u) = cable u" for u by (simp add: clear_replacebatt_def)
  moreover have "read_lines f u = u" if "gi_type (cable u) = NO_CABLE" for f u
    using that by (simp add: read_lines_def rts_cables_def plain_cables_def Let_def)
  ultimately show ?thesis
    using assms dumb_wait_ups [of s]
    by (simp add: dumb_poll_ups same_status_def clear_bits)
qed

text \<open>
  C31: A configuration that names no cable for a simple UPS is accepted, and then no poll, whatever
  the lines of the port say, ever notices that the power has failed.
\<close>

theorem dumb_no_cable_unnoticed:
  assumes "gi_type (mode (ups s)) = DUMB_UPS" "gi_type (cable (ups s)) = NO_CABLE"
  shows "sanitize_cable e s = s \<and>
    is_onbatt (ups (((\<lambda>s. snd (dumb_read_volatile_data s)) ^^ n) s)) = is_onbatt (ups s)"
proof -
  have "same_status {7} (ups s) (ups (((\<lambda>s. snd (dumb_read_volatile_data s)) ^^ n) s)) \<and>
      cable (ups (((\<lambda>s. snd (dumb_read_volatile_data s)) ^^ n) s)) = cable (ups s)"
  proof (induction n)
    case (Suc n)
    then show ?case
      using dumb_poll_no_cable [of "((\<lambda>s. snd (dumb_read_volatile_data s)) ^^ n) s"] assms(2)
      by (auto intro: same_status_trans)
  qed simp
  moreover have "sanitize_cable e s = s" using assms by (simp add: sanitize_cable_def)
  ultimately show ?thesis by (simp add: onbatt.is_f_bit same_status_def)
qed

theorem dumb_no_cable_unnoticed_witness:
  "sanitize_cable quiet_env (dumb_port NO_CABLE) = dumb_port NO_CABLE \<and>
   is_onbatt (ups (((\<lambda>s. snd (dumb_read_volatile_data s)) ^^ 3) (dumb_port NO_CABLE))) = is_onbatt (ups (dumb_port NO_CABLE))"
  by (rule dumb_no_cable_unnoticed) (simp_all add: dumb_port_def geninfo_of_def)

text \<open>
  The test driver makes up a status word from nothing at each poll, so that it forgets a shutdown in
  progress: it is no driver in the sense of the contract.
\<close>

lemma test_poll_forgets_shutdown: "\<not> is_shutdown (ups (snd (test_read_volatile_data s)))"
proof -
  have "Status (test_values u) = UPS_online AND NOT UPS_onbatt" for u
    by (simp add: test_values_def set_online_def)
  then have "\<not> bit (Status (test_values u)) 9" for u
    by (simp add: UPS_online_def UPS_onbatt_def)
  then show ?thesis
    by (simp add: test_read_volatile_data_def time_now_def write_lock_def write_unlock_def shutdown_bit)
qed

lemma test_driver_breaks_contract: "\<not> ups_driver (test_driver :: 'd driver)"
proof
  assume contract: "ups_driver (test_driver :: 'd driver)"
  let ?s = "upd_ups set_shutdown (start_sys undefined) :: 'd sys"
  have "is_shutdown (ups ?s)" by (simp add: shutdown_bit set_bits)
  moreover have "quiet ?s (snd (test_read_volatile_data ?s))"
    using ups_driver.ops_quiet(1) [OF contract, of ?s] by (simp add: test_driver_def)
  ultimately show False using test_poll_forgets_shutdown [of ?s] by (simp add: quiet_def)
qed

text \<open>Every type a configuration may name has its driver, where that was compiled in.\<close>

lemma attach_every_type:
  assumes "v \<in> set (items types)" "gi_type (mode (ups s)) = gi_type v"
  shows "\<exists>d. \<forall>built. built d \<longrightarrow> fst (attach_driver built s) = Some d"
proof -
  have v: "gi_type v \<in> {1..8}" using assms(1) by (auto simp: types_def geninfo_of_def)
  define cls where "cls = [DumbUpsDriver, ApcSmartUpsDriver, UsbUpsDriver, NetUpsDriver, TestUpsDriver, PcnetUpsDriver,
    SnmpLiteUpsDriver, ModbusUpsDriver]"
  have *: "built (cls ! k) \<Longrightarrow> fst (attach_driver built t) = Some (cls ! k)"
    if "gi_type (mode (ups t)) = int k + 1" "k < 8" for built k and t :: "'a sys"
  proof -
    have "k = 0 \<or> k = 1 \<or> k = 2 \<or> k = 3 \<or> k = 4 \<or> k = 5 \<or> k = 6 \<or> k = 7" using that(2) by linarith
    then show "built (cls ! k) \<Longrightarrow> fst (attach_driver built t) = Some (cls ! k)"
      using that(1)
      by (elim disjE) (simp_all add: attach_driver_def driver_name_def helper_attach_driver_def drivers_def cls_def
          strcaseeq_def tolower_def char_code_def)
  qed
  from v have "gi_type v = int (nat (gi_type v - 1)) + 1" "nat (gi_type v - 1) < 8" by auto
  with * assms(2) show ?thesis by metis
qed

end
