(* ===== verification/Daemon.thy ===== *)
theory Daemon
  imports DumbDriver
begin

text \<open>
  The life of the daemon (\<open>src/apcupsd.c\<close>, \<open>src/options.c\<close>): the command line, the start - defaults,
  configuration, driver, lock file, pid file -, one-shot runs that hibernate or switch off the UPS, the
  device thread, and the end in \<open>apcupsd_terminate\<close>.

  \<open>factory\<close> gives the driver of a class. What the start asks of the system is in \<open>boot_env\<close>: the options
  that \<open>getopt_long\<close> returns (its source is the GNU one), the user, the pid after \<open>fork\<close>. The usage text and the
  descriptors 0 to 2 are left out. The network server and the thread that waits for signals are not
  started here; \<open>Terminate\<close> has the two threads that meet at the end.
\<close>

subsection \<open>The command line (options.c)\<close>

datatype opt =
    Opt_b | Opt_R | Opt_V | Opt_f string | Opt_P string | Opt_d string | Opt_p | Opt_t | Opt_T | Opt_k | Opt_o
  | Opt_h                             \<comment> \<open>\<open>-h\<close>, and everything \<open>getopt_long\<close> does not know\<close>

record cmdline =
  show_version :: bool
  cfgfile :: string
  pidfile :: string
  debug_level :: int
  go_background :: bool
  dumb_mode_test :: bool
  trace_on :: bool
  opt_term :: bool
  opt_kill :: bool
  opt_hibernate :: bool
  opt_poweroff :: bool
  n_options :: int
  oneshot :: bool
  errflag :: bool

definition default_cmdline :: cmdline where
  "default_cmdline = \<lparr>show_version = False, cfgfile = ''/etc/apcupsd/apcupsd.conf'', pidfile = ''/var/run/apcupsd.pid'',
     debug_level = 0, go_background = True, dumb_mode_test = False, trace_on = False, opt_term = False,
     opt_kill = False, opt_hibernate = False, opt_poweroff = False, n_options = 0, oneshot = False, errflag = False\<rparr>"

text \<open>An argument that looks like an option is an error; otherwise the option does not count.\<close>

definition with_arg :: "string \<Rightarrow> (cmdline \<Rightarrow> cmdline) \<Rightarrow> cmdline \<Rightarrow> cmdline" where
  "with_arg arg f c =
     (if arg \<noteq> [] \<and> hd arg = CHR ''-'' then c\<lparr>errflag := True\<rparr> else f (c\<lparr>n_options := n_options c - 1\<rparr>))"

definition take_option :: "opt \<Rightarrow> cmdline \<Rightarrow> cmdline" where
  "take_option o1 c0 =
     (let c = c0\<lparr>n_options := n_options c0 + 1\<rparr>
      in case o1 of
           Opt_b \<Rightarrow> c\<lparr>go_background := False\<rparr>
         | Opt_R \<Rightarrow> c\<lparr>dumb_mode_test := True\<rparr>
         | Opt_V \<Rightarrow> c\<lparr>show_version := True, oneshot := True\<rparr>
         | Opt_f a \<Rightarrow> with_arg a (\<lambda>c. c\<lparr>cfgfile := a\<rparr>) c
         | Opt_P a \<Rightarrow> with_arg a (\<lambda>c. c\<lparr>pidfile := a\<rparr>) c
         | Opt_d a \<Rightarrow> with_arg a (\<lambda>c. c\<lparr>debug_level := atoi a\<rparr>) c
         | Opt_p \<Rightarrow> c\<lparr>opt_kill := True\<rparr>
         | Opt_t \<Rightarrow> c\<lparr>opt_term := True\<rparr>
         | Opt_T \<Rightarrow> c\<lparr>trace_on := True\<rparr>
         | Opt_k \<Rightarrow> c\<lparr>opt_hibernate := True, oneshot := True\<rparr>
         | Opt_o \<Rightarrow> c\<lparr>opt_poweroff := True, oneshot := True\<rparr>
         | Opt_h \<Rightarrow> c\<lparr>errflag := True\<rparr>)"

fun take_options :: "opt list \<Rightarrow> cmdline \<Rightarrow> cmdline" where
  "take_options [] c = c"
| "take_options (x # xs) c = (if errflag c then c else take_options xs (take_option x c))"

definition parse_options :: "opt list \<Rightarrow> cmdline" where
  "parse_options opts =
     (let c = take_options opts default_cmdline
      in if oneshot c \<and> 1 < n_options c then c\<lparr>errflag := True\<rparr> else c)"

subsection \<open>The end (apcupsd.c)\<close>

definition exit_now :: "'d sys \<Rightarrow> 'd sys" where
  "exit_now s = s\<lparr>halted := True\<rparr>"

text \<open>
  The wait for the device thread: \<open>stopped i\<close> is the \<open>i\<close>-th look at \<open>device_thread_stopped\<close>. The result
  is the number of looks and what the last one saw, after at most \<open>SHUTDOWN_WAIT_MS\<close>.
\<close>

abbreviation (input) SHUTDOWN_WAIT_MS :: nat where "SHUTDOWN_WAIT_MS \<equiv> 30000"
abbreviation (input) SHUTDOWN_POLL_MS :: nat where "SHUTDOWN_POLL_MS \<equiv> 100"

function wait_stopped :: "(nat \<Rightarrow> bool) \<Rightarrow> nat \<Rightarrow> nat \<Rightarrow> nat" where
  "wait_stopped stopped i waited =
     (if \<not> stopped i \<and> waited < SHUTDOWN_WAIT_MS
      then wait_stopped stopped (Suc i) (waited + SHUTDOWN_POLL_MS) else Suc i)"
  by pat_completeness auto
termination
  by (relation "measure (\<lambda>(_, _, waited). SHUTDOWN_WAIT_MS - waited)") auto

declare wait_stopped.simps [simp del]

text \<open>With a driver attached and the pid file written, as it is wherever \<open>main\<close> calls it.\<close>

definition apcupsd_terminate :: "'d driver \<Rightarrow> string \<Rightarrow> nat \<Rightarrow> (nat \<Rightarrow> bool) \<Rightarrow> 'd sys \<Rightarrow> 'd sys" where
  "apcupsd_terminate D pid_path sig stopped s =
     run [guarded (sig \<noteq> 0) (log_event LOG_WARNING (''apcupsd exiting, signal '' @ show_nat sig)),
          guarded (\<not> stopped (wait_stopped stopped 0 0))
            (log_event LOG_WARNING (''Device thread did not stop within 30000 ms; proceeding with shutdown anyway'')),
          clear_files,
          (\<lambda>t. snd (drv_close D t)),
          delete_lockfile,
          (\<lambda>t. snd (unlink pid_path t)),
          log_event LOG_NOTICE ''apcupsd shutdown succeeded'',
          exit_now] s"

subsection \<open>The start\<close>

record boot_env =
  be_config :: config_env
  be_options :: "opt list"
  be_root :: bool
  be_child :: int                     \<comment> \<open>the pid of the process that \<open>daemon_start\<close> goes on in\<close>
  be_built :: "driver_class \<Rightarrow> bool"

definition take_flags :: "cmdline \<Rightarrow> 'd sys \<Rightarrow> 'd sys" where
  "take_flags c s = s\<lparr>terminate_on_powerfail := opt_term c, kill_on_powerfail := opt_kill c,
     hibernate_ups := opt_hibernate c, shutdown_ups := opt_poweroff c\<rparr>"

definition no_kill_on_dumb :: "'d sys \<Rightarrow> 'd sys" where
  "no_kill_on_dumb s =
     (if kill_on_powerfail s \<and> gi_type (mode (ups s)) = DUMB_UPS
      then log_event LOG_WARNING ''Ignoring --kill-on-powerfail since it is unsafe on Simple Signaling UPSes''
             (s\<lparr>kill_on_powerfail := False\<rparr>)
      else s)"

text \<open>\<open>daemon_start\<close>: the parent is gone; the child has the files closed and its log reopened.\<close>

definition daemon_start :: "int \<Rightarrow> 'd sys \<Rightarrow> 'd sys" where
  "daemon_start child s =
     (if \<not> fork_ok s (fork_pos s)
      then error_abort (''Cannot fork to become daemon'' @ [NL]) (s\<lparr>fork_pos := Suc (fork_pos s)\<rparr>)
      else emit (Openlog (sysfac (ups s))) (s\<lparr>fork_pos := Suc (fork_pos s), pid := child\<rparr>))"

definition open_eventfile :: "'d sys \<Rightarrow> 'd sys" where
  "open_eventfile s =
     (let path = eventfile (ups s)
      in if path = [] then s
         else if denied s path
         then log_event LOG_WARNING (''Could not open events file '' @ path @ [NL]) (upd_ups (\<lambda>u. u\<lparr>event_fd := -1\<rparr>) s)
         else upd_ups (\<lambda>u. u\<lparr>event_fd := 3\<rparr>) s)"

definition take_lock :: "'d sys \<Rightarrow> 'd sys" where
  "take_lock s =
     (case create_lockfile s of
        (LCKERROR, t) \<Rightarrow> error_abort (''Unable to create UPS lock file.'' @ [NL]) t
      | (_, t) \<Rightarrow> t)"

definition make_pid_file :: "string \<Rightarrow> 'd sys \<Rightarrow> 'd sys" where
  "make_pid_file path s =
     (let t = snd (unlink path s); txt = show_int (pid s) @ [NL]
      in if denied t path then t
         else emit (Wrote path txt) (t\<lparr>files := (files t)(path \<mapsto> txt)\<rparr>))"

definition one_shot :: "'d driver \<Rightarrow> string \<Rightarrow> 'd sys \<Rightarrow> 'd sys" where
  "one_shot D pid_path s =
     (let (ok, t) = setup_device D s
      in if halted t then t
         else if \<not> ok then error_abort ''Unable to open UPS device for hibernate or shutdown'' t
         else run [if hibernate_ups t then initiate_hibernate D else initiate_shutdown D,
                   apcupsd_terminate D pid_path 0 (\<lambda>i. True)] t)"

text \<open>The start up to the attachment of the driver, with the class of the driver.\<close>

definition apcupsd_configure :: "boot_env \<Rightarrow> 'd sys \<Rightarrow> driver_class option \<times> 'd sys" where
  "apcupsd_configure e s =
     (let c = parse_options (be_options e);
          t = run [upd_ups init_ups_struct,
                   take_flags c,
                   (\<lambda>t. if errflag c then exit_now t else t),
                   (\<lambda>t. if show_version c then exit_now (emit (Printed (''apcupsd '' @ version t @ [NL])) t) else t),
                   (\<lambda>t. emit (Openlog (sysfac (ups t))) t),
                   (\<lambda>t. if be_root e then t else error_abort (''Needs super user privileges to run.'' @ [NL]) t),
                   check_for_config (be_config e) (cfgfile c),
                   no_kill_on_dumb] s
      in if halted t then (None, t)
         else case attach_driver (be_built e) t of
                (None, t') \<Rightarrow> (None, error_abort (''Apcupsd cannot continue without a valid driver.'' @ [NL]) t')
              | (Some d, t') \<Rightarrow> (Some d, t'))"

definition apcupsd_begin :: "boot_env \<Rightarrow> 'd sys \<Rightarrow> 'd sys" where
  "apcupsd_begin e s =
     (let c = parse_options (be_options e); daemon = (\<not> hibernate_ups s \<and> \<not> shutdown_ups s)
      in run [(\<lambda>t. let (now, t') = time_now t in upd_ups (\<lambda>u. u\<lparr>start_time := now\<rparr>) t'),
              guarded (daemon \<and> go_background c) (daemon_start (be_child e)),
              guarded daemon open_eventfile,
              take_lock,
              make_pid_file (pidfile c)] s)"

text \<open>
  \<open>main\<close>, with the number of rounds of the device thread and when it is asked to stop (see
  \<open>do_device\<close>); \<open>None\<close> when the UPS was not opened in \<open>k\<close> rounds.
\<close>

definition apcupsd_main :: "(driver_class \<Rightarrow> 'd driver) \<Rightarrow> boot_env \<Rightarrow> (nat \<Rightarrow> bool) \<Rightarrow> nat \<Rightarrow> nat \<Rightarrow> 'd sys \<Rightarrow> 'd sys option" where
  "apcupsd_main factory e requested k n s =
     (let c = parse_options (be_options e)
      in case apcupsd_configure e s of
           (None, t) \<Rightarrow> Some t
         | (Some cls, t) \<Rightarrow>
             let D = factory cls; t1 = apcupsd_begin e t
             in if halted t1 then Some t1
                else if hibernate_ups t1 \<or> shutdown_ups t1 then Some (one_shot D (pidfile c) t1)
                else map_option
                       (\<lambda>(stopped, t2). if stopped \<and> \<not> halted t2
                          then apcupsd_terminate D (pidfile c) 0 (\<lambda>i. True) t2 else t2)
                       (do_device D requested k n
                          (log_event LOG_NOTICE (''apcupsd '' @ version t1 @ '' startup succeeded'') t1)))"

end
