(* ===== verification/DaemonLaws.thy ===== *)
theory DaemonLaws
  imports Daemon
begin

text \<open>
  The daemon as a whole: its start is quiet, so that the theorems about the device thread hold for
  \<open>main\<close>; the lock file keeps a second daemon out; the end is reached in bounded time.
\<close>

subsection \<open>A quiet start\<close>

lemma match_quiet:
  assumes "keeps (\<lambda>u. is_shutdown u = b) h" "is_shutdown (ups s) = b"
  shows "quiet s (snd (run_handler e n h v s))"
proof -
  have "is_shutdown (ups (snd (run_handler e n h v s))) = b"
    by (rule run_handler_keeps [where P = "\<lambda>u. is_shutdown u = b", OF assms])
  moreover have "shutdown_count (snd (run_handler e n h v s)) = shutdown_count s"
    "halted (snd (run_handler e n h v s)) = halted s" "lock_depth (snd (run_handler e n h v s)) = lock_depth s"
    by (auto simp: run_handler_def match_int_def match_str_def match_range_def match_index_def match_facility_def
        obsolete_def guarded_def split: handler.split scan.split option.split)
  ultimately show ?thesis using assms(2) by (simp add: quiet_def)
qed

lemma shutdown_rows:
  assumes "(k, h) \<in> set config_table" shows "keeps (\<lambda>u. is_shutdown u = b) h"
proof -
  have "list_all (\<lambda>(k, h). keeps (\<lambda>u. is_shutdown u = b) h) config_table"
    by (simp add: config_table_def keeps_def is_shutdown_def)
  with assms show ?thesis by (auto simp: list_all_iff)
qed

lemma ParseConfig_quiet: "quiet s (snd (ParseConfig e n line s))"
proof (cases "key_value line")
  case None
  then show ?thesis by (simp add: ParseConfig_def)
next
  case (Some kv)
  show ?thesis
  proof (cases "map_of config_table (fst kv)")
    case None
    with Some show ?thesis by (simp add: ParseConfig_def split_beta)
  next
    case h: (Some h)
    have "quiet s (snd (run_handler e n h (snd kv) s))"
      by (rule match_quiet [OF shutdown_rows [OF map_of_SomeD [OF h]] refl])
    with Some h show ?thesis by (simp add: ParseConfig_def split_beta)
  qed
qed

lemma parse_lines_quiet: "quiet s (snd (parse_lines e ls s))"
proof -
  have "quiet s (snd (fold (parse_line e) ls (m, s)))" for m
  proof (induction ls arbitrary: m s)
    case (Cons l ls)
    obtain n line where l: "l = (n, line)" by force
    obtain m' where step: "parse_line e l (m, s) = (m', snd (ParseConfig e n line s))"
      by (auto simp: parse_line_def l split_beta)
    show ?case
      using quiet_trans [OF ParseConfig_quiet [of s e n line] Cons.IH] by (simp add: step)
  qed simp
  then show ?thesis by (simp add: parse_lines_def)
qed

lemma config_updates_shutdown:
  "is_shutdown (limit_annoydelay u) = is_shutdown u" "is_shutdown (sharemaster_limits u) = is_shutdown u"
  "is_shutdown (lock_file u) = is_shutdown u" "is_shutdown (flag_files u) = is_shutdown u"
  "is_shutdown (login_limit u) = is_shutdown u" "is_shutdown (u\<lparr>configfile := p\<rparr>) = is_shutdown u"
  "is_shutdown (u\<lparr>lockpath := p\<rparr>) = is_shutdown u" "is_shutdown (u\<lparr>cable := c\<rparr>) = is_shutdown u"
  by (simp_all add: is_shutdown_def limit_annoydelay_def sharemaster_limits_def lock_file_def flag_files_def
      login_limit_def Let_def)

lemma sanitize_cable_quiet: "quiet s (sanitize_cable e s)"
  by (auto simp: sanitize_cable_def Let_def forced_cables config_updates_shutdown
      intro!: quiet_upd_ups quiet_intros)

lemma check_for_config_quiet: "quiet s (check_for_config e cfg s)"
proof -
  let ?s1 = "upd_ups (\<lambda>u. u\<lparr>configfile := strlcpy_to 4096 cfg\<rparr>) s"
  let ?ls = "config_lines (the (files s cfg))"
  let ?t = "snd (parse_lines e ?ls (check_magic e ?ls ?s1))"
  have 1: "quiet s ?s1" by (rule quiet_upd_ups) (simp add: config_updates_shutdown)
  have 2: "quiet ?s1 (check_magic e ?ls ?s1)"
    by (auto simp: check_magic_def split: list.split intro!: quiet_emit)
  have t: "quiet s ?t" by (rule quiet_trans [OF quiet_trans [OF 1 2] parse_lines_quiet])
  have err: "quiet ?t (error_abort m (upd_ups (\<lambda>u. u\<lparr>lockpath := []\<rparr>) ?t))" for m
    by (rule quiet_trans [OF quiet_upd_ups quiet_exit(1)]) (simp add: config_updates_shutdown)
  have ok: "quiet ?t (run [upd_ups limit_annoydelay, upd_ups sharemaster_limits, sanitize_cable e,
      upd_ups lock_file, upd_ups flag_files, upd_ups login_limit] ?t)"
    by (rule quiet_run) (auto intro!: quiet_upd_ups simp: config_updates_shutdown sanitize_cable_quiet)
  show ?thesis
    using quiet_trans [OF t err] quiet_trans [OF t ok] quiet_exit(1)
    by (simp only: check_for_config_def Let_def split_beta split: if_split) blast
qed

lemma init_ups_struct_shutdown: "is_shutdown (init_ups_struct u) = is_shutdown u"
  by (simp add: init_ups_struct_def set_UPS_Cmd_def Let_def shutdown_bit clear_bits set_bits)

lemma take_flags_quiet: "quiet s (take_flags c s)"
  by (simp add: quiet_def take_flags_def shutdown_count_def)

lemma exit_now_quiet: "quiet s (exit_now s)"
  by (simp add: quiet_def exit_now_def)

lemma no_kill_quiet: "quiet s (no_kill_on_dumb s)"
  by (simp add: no_kill_on_dumb_def quiet_def shutdown_count_def log_event_def Let_def time_now_def emit_def)

lemma attach_driver_quiet: "quiet s (snd (attach_driver built s))"
  by (auto simp: attach_driver_def helper_attach_driver_def quiet_def write_lock_def write_unlock_def
      split: option.split)

lemma apcupsd_configure_quiet: "quiet s (snd (apcupsd_configure e s))"
proof -
  let ?c = "parse_options (be_options e)"
  define t where "t = run [upd_ups init_ups_struct, take_flags ?c, \<lambda>t. if errflag ?c then exit_now t else t,
      \<lambda>t. if show_version ?c then exit_now (emit (Printed (''apcupsd '' @ version t @ [NL])) t) else t,
      \<lambda>t. emit (Openlog (sysfac (ups t))) t,
      \<lambda>t. if be_root e then t else error_abort (''Needs super user privileges to run.'' @ [NL]) t,
      check_for_config (be_config e) (cfgfile ?c), no_kill_on_dumb] s"
  have t: "quiet s t"
    unfolding t_def
    by (rule quiet_run)
      (auto intro!: quiet_upd_ups quiet_emit quiet_exit quiet_trans [OF quiet_emit exit_now_quiet]
        simp: init_ups_struct_shutdown take_flags_quiet exit_now_quiet no_kill_quiet check_for_config_quiet)
  obtain d t' where a: "attach_driver (be_built e) t = (d, t')" by force
  have t': "quiet s t'" using quiet_trans [OF t attach_driver_quiet, of "be_built e"] by (simp add: a)
  show ?thesis
    unfolding apcupsd_configure_def Let_def t_def [symmetric]
    using t t' quiet_trans [OF t' quiet_exit(1)] by (cases d) (simp_all add: a)
qed

lemma fork_pos_quiet: "quiet s (s\<lparr>fork_pos := n\<rparr>)" "quiet s (s\<lparr>fork_pos := n, pid := p\<rparr>)"
  by (simp_all add: quiet_def shutdown_count_def)

lemma daemon_start_quiet: "quiet s (daemon_start child s)"
  by (auto simp: daemon_start_def intro: quiet_trans [OF fork_pos_quiet(1) quiet_exit(1)]
      quiet_trans [OF fork_pos_quiet(2) quiet_emit])

lemma open_eventfile_quiet: "quiet s (open_eventfile s)"
  unfolding open_eventfile_def Let_def
  by (auto intro!: quiet_upd_ups quiet_trans [OF quiet_upd_ups quiet_log_event] simp: is_shutdown_def)

lemma create_lockfile_quiet: "quiet s (snd (create_lockfile s))"
proof -
  obtain r t where c: "check_stale_lockfile s = (r, t)" by force
  have t: "quiet s t" using quiet_check_stale_lockfile [of s] by (simp add: c)
  have "quiet t (upd_ups (\<lambda>u. u\<lparr>lockfile := -1\<rparr>) t')" if "quiet t t'" for t'
    using that by (simp add: quiet_def)
  moreover have "quiet t (emit (Wrote p x) (t\<lparr>files := fs\<rparr>))" for p x fs
    by (simp add: quiet_def)
  moreover have "quiet t (log_event l m (upd_ups (\<lambda>u. u\<lparr>lockfile := -1\<rparr>) t))" for l m
    by (simp add: quiet_def)
  ultimately show ?thesis
    using t unfolding create_lockfile_def c
    by (auto simp: Let_def split: lck.split intro: quiet_trans)
qed

lemma take_lock_quiet: "quiet s (take_lock s)"
  using create_lockfile_quiet [of s]
  by (auto simp: take_lock_def split: prod.split lck.split intro: quiet_trans [OF _ quiet_exit(1)])

lemma make_pid_file_quiet: "quiet s (make_pid_file path s)"
  by (simp add: make_pid_file_def Let_def quiet_def)

lemma apcupsd_begin_quiet: "quiet s (apcupsd_begin e s)"
proof -
  have "quiet t (let (now, t') = time_now t in upd_ups (\<lambda>u. u\<lparr>start_time := now\<rparr>) t')" for t :: "'a sys"
    by (simp add: time_now_def quiet_def is_shutdown_def)
  then show ?thesis
    unfolding apcupsd_begin_def Let_def
    by (intro quiet_run)
      (auto intro!: quiet_guarded simp: daemon_start_quiet open_eventfile_quiet take_lock_quiet make_pid_file_quiet)
qed

context ups_driver
begin

lemma apcupsd_terminate_quiet: "quiet s (apcupsd_terminate D p sig stopped s)"
  unfolding apcupsd_terminate_def
  by (rule quiet_run) (auto intro!: quiet_intros ops_quiet quiet_clear_files simp: exit_now_quiet)

lemma setup_device_quiet: "quiet s (snd (setup_device D s))"
proof -
  obtain a s1 where 1: "drv_open D s = (a, s1)" by force
  obtain b s2 where 2: "drv_setup D s1 = (b, s2)" by force
  have "quiet s s1" "quiet s1 s2" using ops_quiet(5) [of s] ops_quiet(7) [of s1] by (simp_all add: 1 2)
  then show ?thesis
    using ops_quiet(9) [of s2] by (auto simp: setup_device_def 1 2 intro: quiet_trans)
qed

lemma one_shot_quiet: "quiet s (one_shot D p s)"
proof -
  obtain ok t where 1: "setup_device D s = (ok, t)" by force
  have t: "quiet s t" using setup_device_quiet [of s] by (simp add: 1)
  have "quiet u (initiate_shutdown D u)" for u
    unfolding initiate_shutdown_def by (rule quiet_trans [OF quiet_log_event ops_quiet(3)])
  then have "quiet t (run [if hibernate_ups t then initiate_hibernate D else initiate_shutdown D,
      apcupsd_terminate D p 0 (\<lambda>i. True)] t)"
    by (intro quiet_run) (auto simp: initiate_hibernate_quiet apcupsd_terminate_quiet split: if_splits)
  with t show ?thesis
    by (auto simp: one_shot_def 1 intro: quiet_trans quiet_trans [OF _ quiet_exit(1)] simp del: run.simps)
qed

end

lemma apcupsd_main_step:
  assumes "\<And>cls. ups_driver (factory cls)" "apcupsd_main factory e requested k n s = Some t"
  shows "power_step s t"
proof -
  obtain d t0 where c: "apcupsd_configure e s = (d, t0)" by force
  have t0: "power_step s t0" using quiet_power_step [OF apcupsd_configure_quiet [of s e]] by (simp add: c)
  show ?thesis
  proof (cases d)
    case None
    with assms(2) t0 show ?thesis by (simp add: apcupsd_main_def c)
  next
    case (Some cls)
    define D where "D = factory cls"
    have D: "ups_driver D" unfolding D_def by (rule assms(1))
    define t1 where "t1 = apcupsd_begin e t0"
    have t1: "power_step s t1"
      unfolding t1_def by (rule power_step_trans [OF t0 quiet_power_step [OF apcupsd_begin_quiet]])
    let ?log = "log_event LOG_NOTICE (''apcupsd '' @ version t1 @ '' startup succeeded'') t1"
    let ?p = "pidfile (parse_options (be_options e))"
    have log: "power_step s ?log" by (rule power_step_trans [OF t1 quiet_power_step [OF quiet_log_event]])
    have res: "(if halted t1 then Some t1
        else if hibernate_ups t1 \<or> shutdown_ups t1 then Some (one_shot D ?p t1)
        else map_option (\<lambda>(stopped, t2). if stopped \<and> \<not> halted t2 then apcupsd_terminate D ?p 0 (\<lambda>i. True) t2 else t2)
          (do_device D requested k n ?log)) = Some t"
      using assms(2) unfolding apcupsd_main_def c Some by (simp only: Let_def D_def t1_def option.case prod.case)
    consider "t = t1" | "t = one_shot D ?p t1"
      | b t2 where "do_device D requested k n ?log = Some (b, t2)" "t = t2 \<or> t = apcupsd_terminate D ?p 0 (\<lambda>i. True) t2"
    proof -
      define dev where "dev = do_device D requested k n ?log"
      have "t = t1 \<or> t = one_shot D ?p t1 \<or> (\<exists>b t2. dev = Some (b, t2) \<and>
          (t = t2 \<or> t = apcupsd_terminate D ?p 0 (\<lambda>i. True) t2))"
        using res unfolding dev_def [symmetric] by (cases dev) (auto split: if_splits)
      then show thesis unfolding dev_def using that by blast
    qed
    then show ?thesis
    proof cases
      case 1 with t1 show ?thesis by simp
    next
      case 2
      then show ?thesis
        using power_step_trans [OF t1 quiet_power_step [OF ups_driver.one_shot_quiet [OF D]]] by simp
    next
      case (3 b t2)
      have t2: "power_step s t2" by (rule power_step_trans [OF log ups_driver.do_device_step [OF D 3(1)]])
      with 3(2) show ?thesis
        using power_step_trans [OF t2 quiet_power_step [OF ups_driver.apcupsd_terminate_quiet [OF D]]] by auto
    qed
  qed
qed

text \<open>
  C1: Over the whole life of the daemon - command line, configuration, start, any number of polls, the end -
  the \<open>doshutdown\<close> script runs at most once, whatever driver is attached, and the lock of \<open>UPSINFO\<close>
  is released at the end unless the process has gone with it.
\<close>

theorem daemon_shuts_down_once:
  assumes "\<And>cls. ups_driver (factory cls)" "apcupsd_main factory e requested k n s = Some t"
    and "shutdown_count s = 0" "lock_depth s = 0"
  shows "shutdown_count t \<le> 1 \<and> (shutdown_count t = 1 \<longrightarrow> is_shutdown (ups t)) \<and> (halted t \<or> lock_depth t = 0)"
  using apcupsd_main_step [OF assms(1,2)] assms(3,4) by (auto simp: power_step_def split: if_splits)

definition demo_boot :: boot_env where
  "demo_boot = \<lparr>be_config = quiet_env, be_options = [Opt_f ''/c''], be_root = True, be_child = 200, be_built = (\<lambda>_. True)\<rparr>"

definition demo_daemon :: dumb_sys where
  "demo_daemon = (start_sys \<lparr>dd_fd = 3, sp_flags = 0, dd_lines = (\<lambda>n. Some TIOCM_CTS), dd_pos = 0, dd_ops = []\<rparr>)
     \<lparr>files := [''/c'' \<mapsto> ''UPSTYPE dumb'' @ [NL] @ ''UPSCABLE simple'' @ [NL]]\<rparr>"

lemma dumb_main_returns: "\<exists>t. apcupsd_main (\<lambda>_. dumb_driver) e requested 1 n s = Some t"
proof -
  have open1: "\<exists>r. open_loop dumb_driver 1 et u = Some r" for et u
  proof -
    have "fst (dumb_open u) \<or> halted (snd (dumb_open u))"
      by (simp add: dumb_open_def Let_def error_abort_def)
    then show ?thesis by (auto simp: dumb_driver_def split_beta)
  qed
  have dev: "\<exists>r. do_device dumb_driver requested 1 n u = Some r" for u
  proof -
    obtain r where "open_loop dumb_driver 1 0 u = Some r" using open1 by blast
    then show ?thesis unfolding do_device_def open_ups_def by (simp only: option.map option.inject) blast
  qed
  show ?thesis
  proof (cases "apcupsd_configure e s")
    case (Pair d t)
    show ?thesis
    proof (cases d)
      case (Some cls)
      obtain r where "do_device dumb_driver requested 1 n
        (log_event LOG_NOTICE (''apcupsd '' @ version (apcupsd_begin e t) @ '' startup succeeded'') (apcupsd_begin e t)) = Some r"
        using dev by blast
      then show ?thesis unfolding apcupsd_main_def Pair Some
        by (simp only: Let_def option.case prod.case option.map option.inject split: if_split) blast
    qed (simp add: apcupsd_main_def Pair)
  qed
qed

theorem daemon_shuts_down_once_witness:
  "\<exists>t. apcupsd_main (\<lambda>_. dumb_driver) demo_boot (\<lambda>i. i = 3) 1 5 demo_daemon = Some t \<and> shutdown_count t \<le> 1"
proof -
  obtain t where t: "apcupsd_main (\<lambda>_. dumb_driver) demo_boot (\<lambda>i. i = 3) 1 5 demo_daemon = Some t"
    using dumb_main_returns by blast
  have "shutdown_count demo_daemon = 0" "lock_depth demo_daemon = 0"
    by (simp_all add: demo_daemon_def start_sys_def shutdown_count_def)
  from daemon_shuts_down_once [OF _ t this] dumb.ups_driver_axioms t show ?thesis by blast
qed

subsection \<open>The lock file\<close>













subsection \<open>The wait for the device thread\<close>

lemma wait_stopped_bound: "waited = 100 * i \<Longrightarrow> i \<le> 300 \<Longrightarrow> wait_stopped stopped i waited \<le> 301"
  by (induction stopped i waited rule: wait_stopped.induct) (subst wait_stopped.simps, auto)

end
