(* ===== verification/Terminate.thy ===== *)
theory Terminate
  imports DaemonLaws
begin

text \<open>
  The two threads that meet at the end of the daemon: the one that runs \<open>do_device\<close> (\<open>src/device.c\<close>) and then
  \<open>apcupsd_terminate\<close> itself, and the one that waits for a signal (\<open>src/lib/apcsignal.c\<close>) and runs
  \<open>apcupsd_terminate\<close> (\<open>src/apcupsd.c\<close>) when it comes. They share \<open>shutdown_requested\<close> and
  \<open>device_thread_stopped\<close>. A step is what one of them does between two looks at these flags;
  a step may take any time, so that the order of the steps is free.
\<close>

subsection \<open>Steps\<close>

text \<open>Where a thread is in \<open>apcupsd_terminate\<close>; \<open>Closing\<close> is \<open>device_close\<close>, with the time it waited before.\<close>

datatype ending = Begin | Waiting nat | Closing nat | Closed

datatype place =
    Sigwait                         \<comment> \<open>in \<open>sigwait\<close>\<close>
  | Opening                         \<comment> \<open>in \<open>open_ups\<close>\<close>
  | FirstFill                       \<comment> \<open>in the first \<open>fillUPS\<close>\<close>
  | Looking                         \<comment> \<open>before \<open>if (shutdown_requested)\<close>\<close>
  | Cycle                           \<comment> \<open>in a poll cycle\<close>
  | Ending ending

record threads =
  main_at :: place
  signal_at :: place
  shutdown_requested :: bool                
  device_thread_stopped :: bool                  

text \<open>The steps of \<open>apcupsd_terminate\<close>, the same for both threads.\<close>

inductive terminating :: "threads \<Rightarrow> ending \<Rightarrow> ending \<Rightarrow> threads \<Rightarrow> bool" where
  ask: "terminating s Begin (Waiting 0) (s\<lparr>shutdown_requested := True\<rparr>)"
| wait: "\<not> device_thread_stopped s \<Longrightarrow> w < SHUTDOWN_WAIT_MS \<Longrightarrow> terminating s (Waiting w) (Waiting (w + SHUTDOWN_POLL_MS)) s"
| go_on: "device_thread_stopped s \<or> SHUTDOWN_WAIT_MS \<le> w \<Longrightarrow> terminating s (Waiting w) (Closing w) s"
| close: "terminating s (Closing w) Closed s"

inductive thread_step :: "threads \<Rightarrow> threads \<Rightarrow> bool" where
  signal: "signal_at s = Sigwait \<Longrightarrow> thread_step s (s\<lparr>signal_at := Ending Begin\<rparr>)"
| signal_end: "signal_at s = Ending p \<Longrightarrow> terminating s p q t \<Longrightarrow> thread_step s (t\<lparr>signal_at := Ending q\<rparr>)"
| retry: "main_at s = Opening \<Longrightarrow> thread_step s s"
| opened: "main_at s = Opening \<Longrightarrow> thread_step s (s\<lparr>main_at := FirstFill\<rparr>)"
| filled: "main_at s = FirstFill \<Longrightarrow> thread_step s (s\<lparr>device_thread_stopped := False, main_at := Looking\<rparr>)"
| stop: "main_at s = Looking \<Longrightarrow> shutdown_requested s \<Longrightarrow> thread_step s (s\<lparr>device_thread_stopped := True, main_at := Ending Begin\<rparr>)"
| poll: "main_at s = Looking \<Longrightarrow> \<not> shutdown_requested s \<Longrightarrow> thread_step s (s\<lparr>main_at := Cycle\<rparr>)"
| polled: "main_at s = Cycle \<Longrightarrow> thread_step s (s\<lparr>main_at := Looking\<rparr>)"
| main_end: "main_at s = Ending p \<Longrightarrow> terminating s p q t \<Longrightarrow> thread_step s (t\<lparr>main_at := Ending q\<rparr>)"

text \<open>As \<open>main\<close> enters \<open>do_device\<close>.\<close>

definition at_start :: threads where
  "at_start = \<lparr>main_at = Opening, signal_at = Sigwait, shutdown_requested = False, device_thread_stopped = True\<rparr>"

inductive reachable :: "threads \<Rightarrow> bool" where
  start: "reachable at_start"
| more_steps: "reachable s \<Longrightarrow> thread_step s t \<Longrightarrow> reachable t"

inductive_cases terminatingE: "terminating s p q t"

subsection \<open>What the handshake protects\<close>

text \<open>The flags, and a signal thread that has not waited its time.\<close>

definition protected :: "threads \<Rightarrow> bool" where
  "protected s \<longleftrightarrow>
     (main_at s \<in> {Looking, Cycle} \<longrightarrow> \<not> device_thread_stopped s) \<and>
     (signal_at s \<notin> {Sigwait, Ending Begin} \<longrightarrow> shutdown_requested s) \<and>
     (\<forall>w. signal_at s = Ending (Closing w) \<longrightarrow> w < SHUTDOWN_WAIT_MS \<longrightarrow> main_at s \<noteq> Cycle)"

lemma terminating_frame:
  "terminating s p q t \<Longrightarrow> main_at t = main_at s \<and> signal_at t = signal_at s \<and> device_thread_stopped t = device_thread_stopped s \<and>
     (shutdown_requested s \<longrightarrow> shutdown_requested t) \<and> (q \<noteq> Begin) \<and> (p = Begin \<longrightarrow> shutdown_requested t)"
  by (auto elim: terminatingE)

lemma terminating_closing:
  "terminating s p (Closing w) t \<Longrightarrow> device_thread_stopped s \<or> SHUTDOWN_WAIT_MS \<le> w"
  by (auto elim: terminatingE)

lemma protected_step: "thread_step s t \<Longrightarrow> protected s \<Longrightarrow> protected t"
proof (induction rule: thread_step.induct)
  case (signal_end s p q t)
  note f = terminating_frame [OF signal_end.hyps(2)]
  have "shutdown_requested t" using f signal_end by (cases p) (auto simp: protected_def)
  moreover have "main_at t \<noteq> Cycle" if "q = Closing w" "w < SHUTDOWN_WAIT_MS" for w
    using terminating_closing [of s p w t] signal_end that f by (auto simp: protected_def)
  ultimately show ?case using f signal_end.prems by (auto simp: protected_def)
next
  case (main_end s p q t)
  with terminating_frame [OF main_end.hyps(2)] show ?case by (auto simp: protected_def)
qed (auto simp: protected_def)

lemma reachable_protected: "reachable s \<Longrightarrow> protected s"
  by (induction rule: reachable.induct) (auto intro: protected_step, simp add: protected_def at_start_def)

text \<open>
  C8: The handshake protects a poll cycle: when the thread of the signal closes the driver while the device
  thread is in the middle of a cycle, it has waited the whole thirty seconds before.
\<close>

theorem poll_cycle_protected:
  assumes "reachable s" "main_at s = Cycle" "signal_at s = Ending (Closing w)"
  shows "SHUTDOWN_WAIT_MS \<le> w"
  using reachable_protected [OF assms(1)] assms(2,3) by (auto simp: protected_def not_less [symmetric])

lemma reachable_waits:
  "n \<le> 300 \<Longrightarrow> reachable \<lparr>main_at = Cycle, signal_at = Ending (Waiting (100 * n)), shutdown_requested = True, device_thread_stopped = False\<rparr>"
proof (induction n)
  case 0
  have "reachable (at_start\<lparr>main_at := FirstFill\<rparr>)"
    by (rule more_steps [OF start], rule opened) (simp add: at_start_def)
  then have "reachable \<lparr>main_at = Looking, signal_at = Sigwait, shutdown_requested = False, device_thread_stopped = False\<rparr>"
    by (rule more_steps) (use filled [of "at_start\<lparr>main_at := FirstFill\<rparr>"] in \<open>simp add: at_start_def\<close>)
  then have "reachable \<lparr>main_at = Cycle, signal_at = Sigwait, shutdown_requested = False, device_thread_stopped = False\<rparr>"
    by (rule more_steps) (use poll [of "\<lparr>main_at = Looking, signal_at = Sigwait, shutdown_requested = False, device_thread_stopped = False\<rparr>"] in simp)
  then have "reachable \<lparr>main_at = Cycle, signal_at = Ending Begin, shutdown_requested = False, device_thread_stopped = False\<rparr>"
    by (rule more_steps) (use signal [of "\<lparr>main_at = Cycle, signal_at = Sigwait, shutdown_requested = False, device_thread_stopped = False\<rparr>"] in simp)
  then show ?case
    by (rule more_steps)
      (use signal_end [OF _ ask, of "\<lparr>main_at = Cycle, signal_at = Ending Begin, shutdown_requested = False, device_thread_stopped = False\<rparr>"] in simp)
next
  case (Suc n)
  let ?s = "\<lparr>main_at = Cycle, signal_at = Ending (Waiting (100 * n)), shutdown_requested = True, device_thread_stopped = False\<rparr>"
  have "reachable ?s" using Suc by simp
  then show ?case
    by (rule more_steps) (use signal_end [OF _ wait, of ?s "100 * n"] Suc.prems in \<open>simp add: add.commute\<close>)
qed

theorem poll_cycle_protected_witness:
  "\<exists>s. reachable s \<and> main_at s = Cycle \<and> signal_at s = Ending (Closing 30000) \<and> SHUTDOWN_WAIT_MS \<le> 30000"
proof -
  let ?s = "\<lparr>main_at = Cycle, signal_at = Ending (Waiting 30000), shutdown_requested = True, device_thread_stopped = False\<rparr>"
  let ?t = "?s\<lparr>signal_at := Ending (Closing 30000)\<rparr>"
  have "reachable ?s" using reachable_waits [of 300] by simp
  then have "reachable ?t"
    by (rule more_steps) (use signal_end [OF _ go_on, of ?s 30000] in simp)
  with poll_cycle_protected [OF this, of 30000] show ?thesis by (intro exI [of _ ?t]) simp
qed

subsection \<open>What it does not protect\<close>

text \<open>
  C9: Before the first cycle nothing protects the driver, and in the end two threads close it: there are
  runs in which the thread of the signal, without having waited, closes the driver while the device
  thread is still opening it, and runs in which both threads close it at the same time.
\<close>

theorem driver_closed_in_use:
  "(\<exists>s. reachable s \<and> main_at s = Opening \<and> signal_at s = Ending (Closing 0)) \<and>
   (\<exists>s. reachable s \<and> main_at s = Ending (Closing 0) \<and> signal_at s = Ending (Closing 0))"
proof
  have 1: "reachable \<lparr>main_at = Opening, signal_at = Ending Begin, shutdown_requested = False, device_thread_stopped = True\<rparr>"
    by (rule more_steps [OF start]) (use signal [of at_start] in \<open>simp add: at_start_def\<close>)
  then have 2: "reachable \<lparr>main_at = Opening, signal_at = Ending (Waiting 0), shutdown_requested = True, device_thread_stopped = True\<rparr>"
    by (rule more_steps)
      (use signal_end [OF _ ask, of "\<lparr>main_at = Opening, signal_at = Ending Begin, shutdown_requested = False, device_thread_stopped = True\<rparr>"] in simp)
  then have "reachable \<lparr>main_at = Opening, signal_at = Ending (Closing 0), shutdown_requested = True, device_thread_stopped = True\<rparr>"
    by (rule more_steps)
      (use signal_end [OF _ go_on, of "\<lparr>main_at = Opening, signal_at = Ending (Waiting 0), shutdown_requested = True, device_thread_stopped = True\<rparr>"] in simp)
  then show "\<exists>s. reachable s \<and> main_at s = Opening \<and> signal_at s = Ending (Closing 0)" by force
  let ?cyc = "\<lparr>main_at = Cycle, signal_at = Ending (Waiting 0), shutdown_requested = True, device_thread_stopped = False\<rparr>"
  have "reachable ?cyc" using reachable_waits [of 0] by simp
  then have "reachable (?cyc\<lparr>main_at := Looking\<rparr>)"
    by (rule more_steps) (rule polled, simp)
  then have "reachable (?cyc\<lparr>device_thread_stopped := True, main_at := Ending Begin\<rparr>)"
    by (rule more_steps) (use stop [of "?cyc\<lparr>main_at := Looking\<rparr>"] in simp)
  then have "reachable (?cyc\<lparr>device_thread_stopped := True, main_at := Ending (Waiting 0)\<rparr>)"
    by (rule more_steps) (use main_end [OF _ ask, of "?cyc\<lparr>device_thread_stopped := True, main_at := Ending Begin\<rparr>"] in simp)
  then have "reachable (?cyc\<lparr>device_thread_stopped := True, main_at := Ending (Closing 0)\<rparr>)"
    by (rule more_steps) (use main_end [OF _ go_on, of "?cyc\<lparr>device_thread_stopped := True, main_at := Ending (Waiting 0)\<rparr>" 0] in simp)
  then have "reachable (?cyc\<lparr>device_thread_stopped := True, main_at := Ending (Closing 0), signal_at := Ending (Closing 0)\<rparr>)"
    by (rule more_steps) (use signal_end [OF _ go_on, of "?cyc\<lparr>device_thread_stopped := True, main_at := Ending (Closing 0)\<rparr>" 0] in simp)
  then show "\<exists>s. reachable s \<and> main_at s = Ending (Closing 0) \<and> signal_at s = Ending (Closing 0)" by force
qed

end
