(* ===== verification/Spec2Isabelle.thy ===== *)
theory Spec2Isabelle
  imports Apcaccess NetDriver Pcnet Modbus LinuxUsbLaws SnmpLaws SmartProps Terminate
begin

text \<open>
  A verification development of apcupsd, the daemon that watches an APC UPS and shuts the
  computer down in time.

  \<^bold>\<open>The program.\<close> One process runs a device thread (\<open>src/device.c\<close>), which opens a UPS through
  a driver (\<open>include/drivers.h\<close>), polls it into the shared \<open>UPSINFO\<close> (\<open>include/struct.h\<close>) and hands
  every new state to \<open>do_action\<close> (\<open>src/action.c\<close>). That function announces changes by running the
  \<open>apccontrol\<close> script, decides when the computer has to go down, and starts the shutdown. Beside it
  the network information server (\<open>src/apcnis.c\<close>) answers other machines with the report of
  \<open>src/lib/apcstatus.c\<close>, from which a slave's network driver (\<open>src/drivers/net\<close>) rebuilds the state.
  The parts meet in \<open>UPSINFO\<close>, under its lock, and in the driver interface.

  \<^bold>\<open>The core.\<close>
  \<^item> \<open>Prelude\<close>: the C routines the sources call on strings, numbers and buffers, and general lemmas.
  \<^item> \<open>Ups\<close>: the status word with a setter, a clearer and a test for each bit (\<open>include/defines.h\<close>), the
    capabilities, and \<open>UPSINFO\<close> as a record. The locale \<open>status_flag\<close> is the contract of a bit, with
    one interpretation for each of them.
  \<^item> \<open>Runtime\<close>: the process as the record \<open>sys\<close>: \<open>UPSINFO\<close>, the data of the driver, the static
    variables of the code, the depth of the lock, and a trace of what the world sees (scripts, log
    lines, the end of the process). Time is a function from the number of calls made so far. Locks
    (\<open>newups.c\<close>), scripts (\<open>apcexec.c\<close>), the log (\<open>apclog.c\<close>), files and the lock file.
  \<^item> \<open>Driver\<close>: the interface, a record of methods, and the locale \<open>ups_driver\<close>, what the core relies
    on: the locks are balanced, no script is run behind the back of \<open>do_action\<close>, the state bits that
    belong to the core stay. \<open>DriverKit\<close> holds what the proofs of that contract share.
  \<^item> \<open>Action\<close>, \<open>ActionLaws\<close>: \<open>src/action.c\<close>, each block of \<open>do_action\<close> a definition; what a pass keeps,
    sends and decides, for any driver with the contract.
  \<^item> \<open>Device\<close>: the life of the device thread. Opening is retried and the polls go on as long as they
    are asked to, so that both loops count down a number of rounds; every statement is for all numbers.
  \<^item> \<open>Reports\<close>: the status report, the status file, the data file and the events file.
  \<^item> \<open>NisLib\<close>, \<open>NisServer\<close>, \<open>NetDriver\<close>: framed messages over a connection whose reads and writes are a
    script (short reads, interruptions, errors), the server, and the slave's driver.
  \<^item> \<open>Apcaccess\<close>: the client of the command line, from its options to what it prints.

  \<^bold>\<open>Start and end.\<close>
  \<^item> \<open>Config\<close>, \<open>ConfigLaws\<close>: the configuration file (\<open>src/lib/apcconfig.c\<close>): the table of directives, a handler
    for each kind of value, one line, the whole file, and the checks that make the settings agree.
  \<^item> \<open>Daemon\<close>, \<open>DaemonLaws\<close>: the command line (\<open>src/options.c\<close>), \<open>main\<close> and \<open>apcupsd_terminate\<close>
    (\<open>src/apcupsd.c\<close>), put together from configuration, choice of the driver, lock file and device thread. What
    holds of the device thread is shown to hold of \<open>main\<close>.
  \<^item> \<open>Terminate\<close>: the device thread and the thread of the signals as a step relation over the two flags they
    share, with an invariant of the states that can be reached.

  \<^bold>\<open>The drivers.\<close> Each (but the test driver, of which it is shown that it breaks the contract) is a
  value of the type of \<open>Driver\<close> and an interpretation of \<open>ups_driver\<close>, so that the theorems about the core
  hold for the daemon with that driver.
  \<^item> \<open>Pcnet\<close> over \<open>Md5\<close>: signed UDP packets of a management card. \<open>Md5\<close> shows that hashing piece by
    piece is hashing the whole (locale \<open>streaming_hash\<close>).
  \<^item> \<open>Modbus\<close> over \<open>ModbusMap\<close> (registers), \<open>ModbusComm\<close> (requests, retries, duplicates), \<open>ModbusLine\<close> (the
    serial and the USB line, locale \<open>modbus_port\<close>) and \<open>ModbusFrame\<close> (frames and their checksum, locale
    \<open>injective_step\<close>); \<open>HidUps\<close> is the access to the USB device.
  \<^item> \<open>GenericUsb\<close> over \<open>UsbDriver\<close> and \<open>UsbLaws\<close> (what is common to all platforms, with the locale
    \<open>usb_platform\<close>) and \<open>HidData\<close> (fields of reports). \<open>LinuxUsb\<close> and \<open>LinuxUsbLaws\<close>: the hiddev platform, the
    second provider of that locale, with the proof that both decode a value alike.
  \<^item> \<open>Smart\<close> and \<open>SmartEeprom\<close> over \<open>SmartLine\<close>: the serial protocol of smart UPSes over a script of what the port
    delivers, with the check of the link, the power commands and the settings in the EEPROM; \<open>SmartLaws\<close> has
    the contract and \<open>SmartProps\<close> what the driver does.
  \<^item> \<open>DumbDriver\<close>: simple UPSes on the modem lines of a serial port, the test driver, and the
    choice of a driver (\<open>src/drivers/drivers.c\<close>).
  \<^item> \<open>SnmpDriver\<close> and \<open>SnmpLaws\<close> over \<open>SnmpMibs\<close> (three MIBs, locale \<open>mib_contract\<close>), \<open>Snmp\<close> (messages and
    the exchange with the agent) and \<open>Asn\<close> (the ASN.1 encoder and decoder).

  \<^bold>\<open>How the code is rendered.\<close> A struct or class is a record under the names of the code, a table a
  list in its order, a byte an \<open>8 word\<close>, a status word a \<open>32 word\<close>, an \<open>int\<close> an \<open>int\<close> where the code
  keeps it in range and else with its wrap-around; floating point values are rationals. A method takes
  the state and returns its result with the new state. Failing calls (\<open>read\<close>, \<open>select\<close>, \<open>sendto\<close>, transfers of
  libusb, opening a file) take their result from a script or an oracle in the state, for all of which the
  statements hold; scripts that carry times move the clock. \<open>exit\<close>, \<open>abort\<close> and a null pointer set
  \<open>halted\<close>, after which nothing more happens.

  \<^bold>\<open>Fuel.\<close> Loops over a script consume it and are structural, or terminate by the weight of what is left
  (\<open>serial_weight\<close>). Where fuel is used (\<open>demarshal\<close>, \<open>walk\<close>, the reception of frames) it is the number of
  bytes or datagrams to come and one more, and lemmas show that more of it changes nothing
  (\<open>demarshal_fuel\<close>, \<open>walk_fuel\<close>); for the decoder running out of it is a result of its own, which it does not
  come to (\<open>demarshal_ends\<close>). A broken serial link is watched for \<open>sm_rounds\<close> rounds, one of hiddev for
  \<open>lx_attempts\<close>, which are part of the state:
  the code watches it for ever, and the statements hold for every number of rounds; a process that is
  still watching after them counts as \<open>halted\<close>, so that nothing behind the wait is done. The wait of
  \<open>apcupsd_terminate\<close> ends by the time it has used up.

  \<^bold>\<open>What the lemmas show.\<close> For the core: one shutdown at most, and exactly when a limit is reached; locks
  balanced; the previous state remembered; a calibration silent; a master's shutdown carried over to its
  slaves through report, network and parser. For the protocols: messages, registers, fields, and ASN.1
  objects survive the way there and back, as do the directives of a configuration; answers are authentic, in time and not replayed; receptions
  end. For the process: what a configuration that is accepted may be, a second daemon kept out while
  the lock file is there, a poll not cut short by a signal. For the drivers: what a poll may change, when a connection is given up, what is done with values
  that are missing. Where the code is wrong the theorem states what it does.

  \<^bold>\<open>Not modelled.\<close> Other threads than the device thread and the one of the signals, except as the points where
  they take the lock; \<open>getopt\<close>, descriptors and signal masks, which are calls of the system; Windows
  branches and the tray program; \<open>apctest\<close>, the mailer and the web programs, which are
  dialogues and presentation around the operations modelled here; debug output and the wording of log
  lines that carry no state; the USB platform of BSD, which stands under the same interface as those of libusb
  and hiddev and is built in place of them; libusb, hiddev, the parser of HID descriptors (vendored),
  sockets and the resolver, which are scripts of results.
\<close>

unbundle bit_operations_syntax

subsection \<open>The shutdown\<close>

lemma net_device_returns: "\<exists>r. do_device net_driver requested (Suc k) n s = Some r"
proof -
  have "fst (drv_open net_driver s)"
    by (simp add: net_driver_def net_open_driver_def split_beta Let_def)
  then obtain r where "open_loop net_driver (Suc k) 0 s = Some r" by (simp add: split_beta)
  then show ?thesis
    unfolding do_device_def open_ups_def by (simp only: option.map option.inject) blast
qed

text \<open>
  Over the whole life of the device thread - opening the UPS, any number of poll cycles,
  any UPS behind any driver that keeps the contract - the \<open>doshutdown\<close> script runs at most
  once, and once it has run \<open>UPS_shutdown\<close> is set for good.
\<close>

theorem shutdown_script_at_most_once:
  assumes "ups_driver D" "shutdown_count s = 0" "do_device D requested k n s = Some (stopped, t)"
  shows "shutdown_count t \<le> 1 \<and> (shutdown_count t = 1 \<longrightarrow> is_shutdown (ups t))"
  using ups_driver.do_device_step [OF assms(1,3)] assms(2)
  by (auto simp: power_step_def split: if_splits)

theorem shutdown_script_at_most_once_witness:
  "\<exists>stopped t. do_device net_driver (\<lambda>i. i = 3) 1 5 (start_sys (new_net_drv offline)) = Some (stopped, t) \<and>
     shutdown_count t \<le> 1 \<and> (shutdown_count t = 1 \<longrightarrow> is_shutdown (ups t))"
proof -
  obtain stopped t where t: "do_device net_driver (\<lambda>i. i = 3) 1 5 (start_sys (new_net_drv offline)) =
      Some (stopped, t)"
    using net_device_returns [of "\<lambda>i. i = 3" 0 5 "start_sys (new_net_drv offline)"] by auto
  have "shutdown_count (start_sys (new_net_drv offline)) = 0"
    by (simp add: start_sys_def shutdown_count_def)
  from shutdown_script_at_most_once [OF net.ups_driver_axioms this t] t show ?thesis by blast
qed

text \<open>
  C2: A confirmed power failure ends in a shutdown exactly when a limit is reached. On a pass of
  \<open>do_action\<close> that finds the UPS on battery, with the failure announced and no other change of
  state, \<open>UPS_shutdown\<close> is set afterwards if and only if it was set before or one of the limits
  of \<open>must_shut_down\<close> holds.
\<close>

theorem shutdown_iff_limit_reached:
  assumes "ups_driver D" "\<not> halted s" "\<not> action_first s"
    and "\<not> is_replacebatt (ups s)" "\<not> is_shut_remote (ups s)"
    and "\<not> chg_battpresent (ups s)" "\<not> chg_battlow (ups s)"
    and "get_state (ups s) = st_OnBattery" "is_onbatt_msg (ups s)"
  shows "is_shutdown (ups (do_action D s)) \<longleftrightarrow>
    is_shutdown (ups s) \<or> must_shut_down (clock s (clock_pos s)) (ups s)"
  by (rule ups_driver.do_action_on_battery) (use assms in auto)

definition battery_status :: "32 word" where
  "battery_status = UPS_onbatt OR UPS_battlow OR UPS_onbatt_msg OR UPS_battpresent OR UPS_plugged"

definition on_battery_sys :: "net_drv sys" where
  "on_battery_sys = (start_sys (new_net_drv offline))\<lparr>action_first := False,
     ups := new_ups\<lparr>Status := battery_status, PrevStatus := battery_status,
                    start_shut_lbatt := 999990\<rparr>\<rparr>"

lemma bit_battery_status: "bit battery_status i \<longleftrightarrow> i \<in> {4, 6, 17, 24, 26}"
proof -
  have "bit UPS_onbatt i \<longleftrightarrow> i = 4" "bit UPS_battlow i \<longleftrightarrow> i = 6"
    "bit UPS_battpresent i \<longleftrightarrow> i = 26"
    by (rule single_bit; simp add: status_bits)+
  then show ?thesis by (auto simp: battery_status_def bit_or_iff local_bit)
qed

lemma on_battery_sys:
  "\<not> halted on_battery_sys" "\<not> action_first on_battery_sys"
  "\<not> is_replacebatt (ups on_battery_sys)" "\<not> is_shut_remote (ups on_battery_sys)"
  "\<not> chg_battpresent (ups on_battery_sys)" "\<not> chg_battlow (ups on_battery_sys)"
  "get_state (ups on_battery_sys) = st_OnBattery" "is_onbatt_msg (ups on_battery_sys)"
  "must_shut_down (clock on_battery_sys (clock_pos on_battery_sys)) (ups on_battery_sys)"
  by (simp_all add: on_battery_sys_def start_sys_def is_bits bit_battery_status get_state_def
      chg_battpresent_def chg_battlow_def chg_onbatt_def status_bits must_shut_down_def
      new_ups_def set_battpresent_def zero_ups_def)

theorem shutdown_iff_limit_reached_witness: "is_shutdown (ups (do_action net_driver on_battery_sys))"
  using shutdown_iff_limit_reached [OF net.ups_driver_axioms on_battery_sys(1-8)] on_battery_sys(9)
  by blast

text \<open>
  While the UPS calibrates its battery a pass of \<open>do_action\<close> has no effect that anyone could
  see: no script runs, nothing is logged, and no status bit changes, whatever the charge.
\<close>

theorem calibration_is_silent:
  assumes "\<not> action_first s" "\<not> is_replacebatt (ups s)" "\<not> is_shut_remote (ups s)"
    and "\<not> chg_battpresent (ups s)" "is_onbatt (ups s)" "is_calibration (ups s)"
    and "ups_driver D"
  shows "trace (do_action D s) = trace s \<and> Status (ups (do_action D s)) = Status (ups s)"
  by (rule ups_driver.do_action_calibration [OF assms(7)]) (use assms in auto)

definition calibrating_sys :: "net_drv sys" where
  "calibrating_sys = upd_ups (\<lambda>u. u\<lparr>Status := battery_status OR UPS_calibration,
     PrevStatus := battery_status\<rparr>) on_battery_sys"

theorem calibration_is_silent_witness:
  "trace (do_action net_driver calibrating_sys) = trace calibrating_sys \<and>
   Status (ups (do_action net_driver calibrating_sys)) = Status (ups calibrating_sys)"
proof (rule calibration_is_silent)
  have "bit UPS_calibration i \<longleftrightarrow> i = 0" for i
    by (rule single_bit) (simp_all add: status_bits)
  then show "\<not> is_replacebatt (ups calibrating_sys)" "\<not> is_shut_remote (ups calibrating_sys)"
    "is_onbatt (ups calibrating_sys)" "is_calibration (ups calibrating_sys)"
    by (simp_all add: calibrating_sys_def is_bits bit_or_iff bit_battery_status)
  show "\<not> chg_battpresent (ups calibrating_sys)"
    by (simp add: calibrating_sys_def chg_battpresent_def battery_status_def status_bits)
  show "\<not> action_first calibrating_sys"
    by (simp add: calibrating_sys_def on_battery_sys_def)
  show "ups_driver net_driver" by (rule net.ups_driver_axioms)
qed

text \<open>
  C4: The shutdown of the master reaches its slaves: a slave that reads a report with the
  master's \<open>UPS_shutdown\<close> bit is shutting down itself after its next pass of \<open>do_action\<close>.
\<close>

theorem master_shutdown_reaches_slave:
  assumes "holds_report (statbuf (drv s)) (pre @ statflag_line w @ post)"
    and "strstr pre ''STATFLAG'' = None"
    and "bit w 9" "\<not> bit w 7" "\<not> bit (PrevStatus (ups s)) 23"
    and "\<not> halted s" "\<not> action_first s" "ups_driver D"
  shows "is_shutdown (ups (do_action D (snd (apply_status_flag True s))))"
proof (rule ups_driver.do_action_remote_down [OF assms(8)])
  let ?t = "snd (apply_status_flag True s)"
  note bits = apply_status_bits [OF assms(1,2)]
  show "\<not> halted ?t" "\<not> action_first ?t" using assms by (simp_all add: apply_status_frame)
  show "\<not> is_replacebatt (ups ?t)" using bits [of 7] assms(4) by (simp add: is_bits)
  show remote: "is_shut_remote (ups ?t)" using bits [of 23] assms(3) by (simp add: is_bits)
  have "bit UPS_shut_remote i \<longleftrightarrow> i = 23" for i
    by (rule single_bit) (simp_all add: status_bits)
  with remote show "chg_shut_remote (ups ?t)"
    unfolding chg_shut_remote_def using assms(5)
    by (subst mask_bit [of _ 23]) (simp_all add: status_bits apply_status_frame bit_xor_iff is_bits)
qed

definition master_down_sys :: "net_drv sys" where
  "master_down_sys = (start_sys ((new_net_drv offline)\<lparr>statbuf := statflag_line 0x05000218 @ [NUL]\<rparr>))
     \<lparr>action_first := False\<rparr>"

theorem master_shutdown_reaches_slave_witness:
  "is_shutdown (ups (do_action net_driver (snd (apply_status_flag True master_down_sys))))"
proof (rule master_shutdown_reaches_slave [of _ "[]" "0x05000218" "[]"])
  show "holds_report (statbuf (drv master_down_sys)) ([] @ statflag_line 0x05000218 @ [])"
    using nul_show_hex_pad [of 8 "unat (0x05000218 :: 32 word)"]
    by (simp add: holds_report_def master_down_sys_def start_sys_def)
  show "ups_driver net_driver" by (rule net.ups_driver_axioms)
qed (simp_all add: master_down_sys_def start_sys_def new_ups_def zero_ups_def set_battpresent_def)

text \<open>
  C11: Whatever the pass does, the thread that runs \<open>do_action\<close> and survives it holds the lock
  of \<open>UPSINFO\<close> as often afterwards as before, and a shutdown once begun stays begun.
\<close>

theorem do_action_releases_lock:
  assumes "ups_driver D"
  shows "(\<not> halted (do_action D s) \<longrightarrow> lock_depth (do_action D s) = lock_depth s) \<and>
    (is_shutdown (ups s) \<longrightarrow> is_shutdown (ups (do_action D s)))"
  using ups_driver.do_action_step [OF assms, of s] by (auto simp: power_step_def split: if_splits)

theorem do_action_releases_lock_witness:
  "halted (do_action net_driver on_battery_sys) \<or>
   lock_depth (do_action net_driver on_battery_sys) = lock_depth on_battery_sys"
  using do_action_releases_lock [OF net.ups_driver_axioms, of on_battery_sys] by blast

subsection \<open>Status over the network\<close>

lemma nis_status_bytes:
  assumes "list_all accepts (tx c)" "sent c = []"
    and "\<forall>l\<in>set (report_lines m). is_line l \<and> length l \<le> 255"
    and "length (concat (report_lines m)) < 4095"
  shows "sent (ns_conn (snd (snd (handle_command ''status''
      (m, \<lparr>ns_buf = [], ns_recs = 0, ns_mutex = 0, ns_conn = c\<rparr>))))) =
    concat (map frame (report_header (length (report_lines m)) (length (concat (report_lines m)))
      # report_lines m)) @ frame []"
  using output_status_sends [of "\<lparr>ns_buf = [], ns_recs = 0, ns_mutex = 0, ns_conn = c\<rparr>" m] assms
  by (auto simp: handle_command_def)

text \<open>
  C3: From the master's \<open>UPSINFO\<close> to the slave's. The server of the master answers the command
  \<open>status\<close>; a slave whose connection delivers those bytes, in pieces of any size, polls it and
  applies the status flag. Then every status bit that is not local to a machine is the master's
  (and a remote shutdown is marked when the master is shutting down), provided that no text
  before the line \<open>STATFLAG\<close> contains that word.
\<close>

theorem status_reaches_slave:
  assumes "list_all accepts (tx cm)" "sent cm = []"
    and "\<forall>l\<in>set (report_lines m). is_line l \<and> length l \<le> 255 \<and> NUL \<notin> set l"
    and "report_lines m = pre @ statflag_line (Status (ups m)) # post"
    and "H = report_header (length (report_lines m)) (length (concat (report_lines m)))"
    and "NUL \<notin> set H" "length (concat (H # report_lines m)) < 4096"
    and "strstr (concat (H # pre)) ''STATFLAG'' = None"
    and "nd_conns (drv s) (nd_conn_pos (drv s)) = (env, c)" "0 \<le> fst (net_open env)"
    and "list_all accepts (tx c)" "list_all delivers (rx c)" "length (statbuf (drv s)) = 4096"
    and "rx_bytes (rx c) = sent (ns_conn (snd (snd (handle_command ''status''
           (m, \<lparr>ns_buf = [], ns_recs = 0, ns_mutex = 0, ns_conn = cm\<rparr>)))))"
    and "i < 32" "i \<notin> {8, 9, 10, 11, 17, 18, 19, 20, 21, 22, 24}"
  shows "bit (Status (ups (snd (apply_status_flag True (snd (poll_ups s)))))) i \<longleftrightarrow>
    bit (Status (ups m)) i \<or> i = 23 \<and> bit (Status (ups m)) 9"
proof -
  let ?t = "snd (poll_ups s)" and ?L = "H # report_lines m"
  have H: "0 < length H" "length H \<le> 255" unfolding assms(5) by (simp_all add: report_header_def)
  have "\<forall>l\<in>set (report_lines m). is_line l \<and> length l \<le> 255" using assms(3) by blast
  moreover have "length (concat (report_lines m)) < 4095"
    using assms(7) H(1) unfolding concat.simps length_append by linarith
  ultimately have "rx_bytes (rx c) = concat (map frame ?L) @ frame []"
    unfolding assms(5,14) by (rule nis_status_bytes [OF assms(1,2)])
  then have "rx_bytes (rx c) = concat (map frame ?L) @ frame [] @ []" by simp
  moreover have "\<forall>l\<in>set ?L. 0 < length l \<and> length l \<le> 999 \<and> NUL \<notin> set l"
    using assms(3,6) H by (auto simp: is_line_def)
  ultimately have "holds_report (statbuf (drv ?t)) (concat ?L)"
    using poll_ups_report(2) [OF assms(9-12)] assms(7,13) by blast
  then have "holds_report (statbuf (drv ?t))
      (concat (H # pre) @ statflag_line (Status (ups m)) @ concat post)"
    by (simp add: assms(4))
  from apply_status_bits [OF this assms(8,15)] assms(16) show ?thesis by simp
qed

lemma demo_report_lines:
  "\<forall>l\<in>set (report_lines demo_master). is_line l \<and> length l \<le> 255 \<and> NUL \<notin> set l"
  by (simp add: demo_report demo_master_ups demo_lines_def is_line_def new_ups_flags demo_show)

lemma demo_no_statflag: "strstr (concat (report_header 18 292 # demo_lines)) ''STATFLAG'' = None"
  by (simp add: demo_header demo_lines_def is_prefix_def)

definition demo_reply :: string where
  "demo_reply = concat (map frame (report_header 18 292 # report_lines demo_master)) @ frame []"

definition replying :: "nat \<Rightarrow> net_env \<times> conn" where
  "replying n = ((fst (offline n))\<lparr>ne_host := Address\<rparr>,
     \<lparr>rx = [RecvData (take 5 demo_reply), RecvIntr, RecvData (drop 5 demo_reply)], tx = [], sent = []\<rparr>)"

theorem status_reaches_slave_witness:
  "bit (Status (ups (snd (apply_status_flag True (snd (poll_ups (start_sys (new_net_drv replying)))))))) 26 \<longleftrightarrow>
    bit (Status (ups demo_master)) 26 \<or> (26 :: nat) = 23 \<and> bit (Status (ups demo_master)) 9"
proof (rule status_reaches_slave [of "\<lparr>rx = [], tx = [], sent = []\<rparr>" demo_master demo_lines
      "[''END APC  : now'' @ [NL]]" "report_header 18 292" _ "fst (replying 0)" "snd (replying 0)"])
  have len: "length demo_reply > 5"
    by (simp add: demo_reply_def frame_def demo_header)
  have bytes: "rx_bytes (rx (snd (replying 0))) = demo_reply"
    by (simp add: replying_def)
  show "rx_bytes (rx (snd (replying 0))) = sent (ns_conn (snd (snd (handle_command ''status''
      (demo_master, \<lparr>ns_buf = [], ns_recs = 0, ns_mutex = 0,
         ns_conn = \<lparr>rx = [], tx = [], sent = []\<rparr>\<rparr>)))))"
    unfolding bytes using nis_status_bytes [of "\<lparr>rx = [], tx = [], sent = []\<rparr>" demo_master]
      demo_report_lines demo_report_size by (simp add: demo_reply_def)
  show "list_all delivers (rx (snd (replying 0)))"
    using len by (auto simp: replying_def take_eq_Nil drop_eq_Nil)
  show "NUL \<notin> set (report_header 18 292)"
    "length (concat (report_header 18 292 # report_lines demo_master)) < 4096"
    using demo_report_size by (simp_all add: demo_header)
  show "strstr (concat (report_header 18 292 # demo_lines)) ''STATFLAG'' = None"
    by (rule demo_no_statflag)
  show "\<forall>l\<in>set (report_lines demo_master). is_line l \<and> length l \<le> 255 \<and> NUL \<notin> set l"
    by (rule demo_report_lines)
  show "report_lines demo_master =
      demo_lines @ statflag_line (Status (ups demo_master)) # [''END APC  : now'' @ [NL]]"
    by (rule demo_report)
qed (simp_all add: start_sys_def new_net_drv_def replying_def offline_def net_open_def
    connect_status_def demo_report_size)

text \<open>
  C22: \<open>apcaccess\<close> shows what the daemon reports. Started with the command \<open>status\<close> or none, over a connection
  that delivers the reply of the server in pieces of any size, it prints the header and the report
  line by line; asked for a parameter, it prints the value of the first line with that key
  and nothing else, and exits with 2 when there is none. The labels of the units are cut off on demand.
\<close>

theorem apcaccess_prints_report:
  assumes "list_all accepts (tx cm)" "sent cm = []"
    and "\<forall>l\<in>set (report_lines m). is_line l \<and> length l \<le> 255 \<and> keyed l"
    and "H = report_header (length (report_lines m)) (length (concat (report_lines m)))"
    and "keyed H" "length (concat (report_lines m)) < 4095"
    and "\<not> ao_invalid opts" "ao_args opts = [] \<or> hd (ao_args opts) = ''status''"
    and "access_defaults e opts s = Inr def" "net (access_target def (ao_args opts)) = (env, c)"
    and "0 \<le> fst (net_open env)" "list_all delivers (rx c)"
    and "rx_bytes (rx c) = sent (ns_conn (snd (snd (handle_command ''status''
           (m, \<lparr>ns_buf = [], ns_recs = 0, ns_mutex = 0, ns_conn = cm\<rparr>)))))"
  shows "access_main e net opts s = access_result (ao_par opts) (ao_no_units opts) (H # report_lines m)"
proof -
  have "length H \<le> 256" unfolding assms(4) by (simp add: report_header_def)
  moreover have "\<forall>l\<in>set (report_lines m). length l \<le> 256" using assms(3) by (auto intro: le_trans)
  ultimately have "\<forall>l\<in>set (H # report_lines m). length l \<le> 256 \<and> keyed l"
    using assms(3,5) by auto
  moreover have "\<forall>l\<in>set (report_lines m). is_line l \<and> length l \<le> 255" using assms(3) by blast
  then have "rx_bytes (rx c) = concat (map frame (H # report_lines m)) @ frame []"
    unfolding assms(4,13) by (rule nis_status_bytes [OF assms(1,2) _ assms(6)])
  ultimately have "do_pthreads_status (env, c) (ao_par opts) (ao_no_units opts) =
      access_result (ao_par opts) (ao_no_units opts) (H # report_lines m)"
    by (intro status_printed [OF assms(12) _ _ assms(11)])
  then show ?thesis using assms(7-10) by (auto simp: access_main_def)
qed

theorem apcaccess_prints_report_witness:
  "access_main quiet_env (\<lambda>_. replying 0) \<lparr>ao_cfgfile = None, ao_host = None, ao_par = Some ''STATFLAG'',
      ao_no_units = False, ao_invalid = False, ao_args = []\<rparr> (start_sys ()) = (0, ''0x04000000'' @ [NL])"
proof -
  let ?o = "\<lparr>ao_cfgfile = None, ao_host = None, ao_par = Some ''STATFLAG'', ao_no_units = False,
    ao_invalid = False, ao_args = []\<rparr>"
  have bytes: "rx_bytes (rx (snd (replying 0))) = sent (ns_conn (snd (snd (handle_command ''status''
      (demo_master, \<lparr>ns_buf = [], ns_recs = 0, ns_mutex = 0, ns_conn = \<lparr>rx = [], tx = [], sent = []\<rparr>\<rparr>)))))"
  proof -
    have r: "rx_bytes (rx (snd (replying 0))) = demo_reply" by (simp add: replying_def)
    show ?thesis
      unfolding r using nis_status_bytes [of "\<lparr>rx = [], tx = [], sent = []\<rparr>" demo_master]
        demo_report_lines demo_report_size by (simp add: demo_reply_def)
  qed
  have "length demo_reply > 5" by (simp add: demo_reply_def frame_def demo_header)
  then have rx: "list_all delivers (rx (snd (replying 0)))" "0 \<le> fst (net_open (fst (replying 0)))"
    by (auto simp: replying_def offline_def net_open_def connect_status_def take_eq_Nil drop_eq_Nil)
  have keyed: "\<forall>l\<in>set (report_lines demo_master). is_line l \<and> length l \<le> 255 \<and> keyed l"
    "keyed (report_header 18 292)"
    by (simp_all add: demo_report demo_master_ups demo_lines_def is_line_def keyed_def new_ups_flags demo_show demo_header)
  have def: "access_defaults quiet_env ?o (start_sys ()) = Inr (3551, [])"
    by (simp add: access_defaults_def can_open_def start_sys_def)
  have "access_main quiet_env (\<lambda>_. replying 0) ?o (start_sys ()) =
      access_result (Some ''STATFLAG'') False (report_header 18 292 # report_lines demo_master)"
    using apcaccess_prints_report [of "\<lparr>rx = [], tx = [], sent = []\<rparr>" demo_master "report_header 18 292" ?o quiet_env
        "start_sys ()" "(3551, [])" "\<lambda>_. replying 0" "fst (replying 0)" "snd (replying 0)"] bytes rx keyed def
    by (simp add: demo_report_size)
  also have "\<dots> = (0, ''0x04000000'' @ [NL])"
    by (simp add: access_result_def demo_report demo_master_ups demo_lines_def new_ups_flags demo_show demo_header
        line_key_def line_value_def shown_def)
  finally show ?thesis .
qed

end
